(* ===== verification/Prelude.thy ===== *)
theory Prelude
  imports Main "HOL-Library.Word" "HOL-Library.Multiset" "HOL-Library.Sublist"
begin

text \<open>
  The shared base of the development: Go's machine integers (\<open>uint64\<close> as a 64-bit word,
  \<open>int\<close> and \<open>int64\<close> as integers with the wrap-around written out), \<open>time.Time\<close>
  and \<open>time.Duration\<close>, Go's truncating division, and the generic facts on lists, words and
  saturating arithmetic that the component theories use.
\<close>

section \<open>Fact collections\<close>

named_theorems u64_arith \<open>facts that move 64-bit word arithmetic to natural numbers\<close>
named_theorems i64_arith \<open>facts about wrapped 64-bit signed arithmetic\<close>
named_theorems frame_simps \<open>fields that an operation leaves alone\<close>

section \<open>Machine integers\<close>

type_synonym u64 = "64 word"

abbreviation MaxUint64 :: u64 where
  "MaxUint64 \<equiv> - 1"

definition MaxInt64 :: int where
  "MaxInt64 = 2 ^ 63 - 1"

definition MinInt64 :: int where
  "MinInt64 = - (2 ^ 63)"

text \<open>The two's complement value of an integer in 64 bits: what Go's \<open>int64\<close> arithmetic keeps.\<close>

definition i64_wrap :: "int \<Rightarrow> int" where
  "i64_wrap x = (x + 2 ^ 63) mod 2 ^ 64 - 2 ^ 63"

definition in_i64 :: "int \<Rightarrow> bool" where
  "in_i64 x \<longleftrightarrow> MinInt64 \<le> x \<and> x \<le> MaxInt64"

text \<open>Go's integer division truncates towards zero.\<close>

definition quot :: "int \<Rightarrow> int \<Rightarrow> int" where
  "quot a b = sgn a * sgn b * (\<bar>a\<bar> div \<bar>b\<bar>)"

section \<open>Time\<close>

text \<open>
  A \<open>time.Time\<close> is the number of nanoseconds since Go's zero time, so the zero value is
  \<open>0\<close> and \<open>IsZero\<close> is a comparison with it; \<open>UTC\<close> does not change the instant. A
  \<open>time.Duration\<close> is an \<open>int64\<close> number of nanoseconds, and \<open>Sub\<close> saturates at
  its bounds.
\<close>

type_synonym instant = int
type_synonym duration = int

abbreviation (input) time_zero :: instant where
  "time_zero \<equiv> 0"

definition time_add :: "instant \<Rightarrow> duration \<Rightarrow> instant" where
  "time_add t d = t + d"

definition time_sub :: "instant \<Rightarrow> instant \<Rightarrow> duration" where
  "time_sub a b = max MinInt64 (min MaxInt64 (a - b))"

definition microseconds :: "duration \<Rightarrow> int" where
  "microseconds d = quot d 1000"

definition milliseconds :: "duration \<Rightarrow> int" where
  "milliseconds d = quot d 1000000"

section \<open>Facts on integers and durations\<close>

lemma i64_wrap_id [simp, i64_arith]: "in_i64 x \<Longrightarrow> i64_wrap x = x"
  by (simp add: in_i64_def i64_wrap_def MinInt64_def MaxInt64_def)

lemma in_i64_nonneg: "0 \<le> x \<Longrightarrow> x \<le> MaxInt64 \<Longrightarrow> in_i64 x"
  by (simp add: in_i64_def MinInt64_def)

lemma i64_wrap_range [i64_arith]: "in_i64 (i64_wrap x)"
  by (simp add: in_i64_def i64_wrap_def MinInt64_def MaxInt64_def)

lemma in_i64_time_sub [simp]: "in_i64 (time_sub a b)"
  by (auto simp: time_sub_def in_i64_def MinInt64_def MaxInt64_def)

lemma time_sub_nonneg: "b \<le> a \<Longrightarrow> 0 \<le> time_sub a b"
  by (auto simp: time_sub_def MinInt64_def MaxInt64_def)

lemma quot_nonneg: "0 \<le> a \<Longrightarrow> 0 < b \<Longrightarrow> quot a b = a div b"
  by (cases "a = 0") (auto simp: quot_def)

lemma quot_ge_0: "0 \<le> a \<Longrightarrow> 0 < b \<Longrightarrow> 0 \<le> quot a b"
  by (simp add: quot_nonneg pos_imp_zdiv_nonneg_iff)

lemma microseconds_nonneg [simp]: "0 \<le> d \<Longrightarrow> 0 \<le> microseconds d"
  by (simp add: microseconds_def quot_ge_0)

section \<open>Facts on 64-bit words\<close>

lemma unat_u64_bound [u64_arith]: "unat (x :: u64) < 2 ^ 64"
  using unsigned_less [of x] by simp

lemma unat_u64_numeral_bound [simp]: "unat (x :: u64) < 18446744073709551616"
  using unat_u64_bound [of x] by simp

lemma unat_MaxUint64 [u64_arith]: "unat MaxUint64 = 2 ^ 64 - 1"
  by (simp add: unsigned_minus_1_eq_mask mask_eq_exp_minus_1)

lemma unat_MaxUint64_minus [u64_arith]: "unat (MaxUint64 - v) = 2 ^ 64 - 1 - unat v"
  by (subst unat_sub) (simp_all add: unat_MaxUint64)

text \<open>The overflow guard \<open>a > math.MaxUint64-b\<close> that the code writes before it adds.\<close>

lemma u64_overflow_iff [u64_arith]: "MaxUint64 - v < c \<longleftrightarrow> 2 ^ 64 \<le> unat c + unat v"
proof -
  have "unat v < 2 ^ 64" by (rule unat_u64_bound)
  then show ?thesis
    unfolding word_less_nat_alt unat_MaxUint64_minus by linarith
qed

lemma unat_add_exact [u64_arith]:
  "unat c + unat (v :: u64) < 2 ^ 64 \<Longrightarrow> unat (c + v) = unat c + unat v"
  by (simp add: unat_word_ariths)

lemma unat_mult_exact [u64_arith]:
  "unat c * unat (v :: u64) < 2 ^ 64 \<Longrightarrow> unat (c * v) = unat c * unat v"
  by (simp add: unat_word_ariths)

lemma unat_inc [u64_arith]: "unat c + 1 < 2 ^ 64 \<Longrightarrow> unat (c + 1 :: u64) = unat c + 1"
  by (simp add: unat_word_ariths)

section \<open>Facts on lists\<close>

lemma mset_move_to_front:
  "i < length xs \<Longrightarrow> mset (xs ! i # take i xs @ drop (Suc i) xs) = mset xs"
  by (metis append_Cons id_take_nth_drop mset.simps(2) mset_append union_mset_add_mset_right)

lemma nth_update_in: "j < length xs \<Longrightarrow> xs[i := x] ! j = (if i = j then x else xs ! j)"
  by (cases "i = j") simp_all

lemma mset_filter_split: "mset (filter P xs @ filter (\<lambda>x. \<not> P x) xs) = mset xs"
  by (induction xs) auto

lemma mset_map_upt: "mset (map (nth xs) [0..<length xs]) = mset xs"
  by (simp add: map_nth)

lemma length_filter_complement:
  "length (filter P xs) + length (filter (\<lambda>x. \<not> P x) xs) = length xs"
  by (induction xs) auto

section \<open>Percentiles by nearest rank\<close>

text \<open>In a sorted list, as many elements as the position says are no greater than the one there, and no
  more are less.\<close>

lemma sorted_rank:
  assumes "sorted ys" "k < length ys"
  shows "Suc k \<le> length (filter (\<lambda>x. x \<le> ys ! k) ys)" "length (filter (\<lambda>x. x < ys ! k) ys) \<le> k"
proof -
  have split: "filter P ys = filter P (take n ys) @ filter P (drop n ys)" for P n
    by (metis append_take_drop_id filter_append)
  have "filter (\<lambda>x. x \<le> ys ! k) (take (Suc k) ys) = take (Suc k) ys"
    using assms by (auto simp: filter_id_conv in_set_conv_nth intro!: sorted_nth_mono)
  then show "Suc k \<le> length (filter (\<lambda>x. x \<le> ys ! k) ys)"
    unfolding split [of "\<lambda>x. x \<le> ys ! k" "Suc k"] using assms(2) by simp
  have "filter (\<lambda>x. x < ys ! k) (drop k ys) = []"
    using assms by (auto simp: filter_empty_conv in_set_conv_nth not_less intro!: sorted_nth_mono)
  then show "length (filter (\<lambda>x. x < ys ! k) ys) \<le> k"
    unfolding split [of "\<lambda>x. x < ys ! k" k] using length_filter_le [of "\<lambda>x. x < ys ! k" "take k ys"] by simp
qed

lemma percentile_rank:
  fixes m n :: nat
  assumes "0 < m" "m \<le> 100 * n"
  shows "(m + 99) div 100 - 1 < n" "m \<le> 100 * Suc ((m + 99) div 100 - 1)" "100 * ((m + 99) div 100 - 1) < m"
proof -
  define q where "q = (m + 99) div 100"
  have "100 * q + (m + 99) mod 100 = m + 99" "(m + 99) mod 100 < 100" unfolding q_def by simp_all
  with assms have "100 * q \<le> m + 99" "m \<le> 100 * q" by linarith+
  moreover from this assms obtain q' where "q = Suc q'" by (cases q) linarith+
  ultimately show "(m + 99) div 100 - 1 < n" "m \<le> 100 * Suc ((m + 99) div 100 - 1)" "100 * ((m + 99) div 100 - 1) < m"
    unfolding q_def [symmetric] using assms by simp_all
qed

lemma nearest_rank_sound:
  fixes samples :: "'a :: linorder list"
  assumes "samples \<noteq> []" "0 < p" "p \<le> 100"
  defines "v \<equiv> sort samples ! ((p * length samples + 99) div 100 - 1)"
  shows "v \<in> set samples" "p * length samples \<le> 100 * length (filter (\<lambda>x. x \<le> v) samples)"
    "100 * length (filter (\<lambda>x. x < v) samples) < p * length samples"
proof -
  let ?n = "length samples" and ?ys = "sort samples"
  define k where "k = (p * ?n + 99) div 100 - 1"
  have "0 < p * ?n" "p * ?n \<le> 100 * ?n" using assms by simp_all
  note r = percentile_rank [OF this, folded k_def]
  have k: "k < length ?ys" using r(1) by simp
  have len: "length (filter P ?ys) = length (filter P samples)" for P
    by (metis mset_filter mset_sort size_mset)
  have rank: "Suc k \<le> length (filter (\<lambda>x. x \<le> ?ys ! k) samples)" "length (filter (\<lambda>x. x < ?ys ! k) samples) \<le> k"
    using sorted_rank [OF _ k] by (simp_all add: len)
  show "v \<in> set samples" using nth_mem [OF k] by (simp add: v_def k_def)
  show "p * ?n \<le> 100 * length (filter (\<lambda>x. x \<le> v) samples)"
    unfolding v_def k_def [symmetric] using r(2) mult_le_mono2 [OF rank(1), of 100] by (rule order_trans)
  show "100 * length (filter (\<lambda>x. x < v) samples) < p * ?n"
    unfolding v_def k_def [symmetric] using mult_le_mono2 [OF rank(2), of 100] r(3) by (rule le_less_trans)
qed

end
