(* ===== verification/Go_Strings.thy ===== *)
theory Go_Strings
  imports Prelude
begin

text \<open>
  Go strings. A Go \<open>string\<close> is a sequence of bytes and \<open>len\<close> counts them, so the
  model's \<open>string\<close> is a list of bytes too (a \<open>char\<close> is a byte). The functions of
  package \<open>strings\<close>, \<open>strconv\<close> and \<open>unicode/utf8\<close> that the gateway uses are
  modelled here: \<open>HasPrefix\<close>, \<open>TrimSpace\<close>, \<open>ParseUint\<close> in base 10, and the
  conversions between a string and its runes. The main fact is that decoding undoes encoding for
  every sequence of valid runes.
\<close>

section \<open>Prefixes and white space\<close>

definition HasPrefix :: "string \<Rightarrow> string \<Rightarrow> bool" where
  "HasPrefix s p \<longleftrightarrow> take (length p) s = p"

text \<open>
  The UTF-8 encodings of the code points for which \<open>unicode.IsSpace\<close> holds. UTF-8 is
  self-synchronising, so a string starts (or ends) with such a code point exactly when it starts
  (or ends) with its encoding.
\<close>

definition space_encodings :: "nat list list" where
  "space_encodings =
     [[9], [10], [11], [12], [13], [32], [194, 133], [194, 160], [225, 154, 128],
      [226, 128, 128], [226, 128, 129], [226, 128, 130], [226, 128, 131], [226, 128, 132],
      [226, 128, 133], [226, 128, 134], [226, 128, 135], [226, 128, 136], [226, 128, 137],
      [226, 128, 138], [226, 128, 168], [226, 128, 169], [226, 128, 175], [226, 129, 159],
      [227, 128, 128]]"

definition space_strings :: "string list" where
  "space_strings = map (map char_of) space_encodings"

text \<open>The white-space prefix of a string, as its length; \<open>0\<close> when there is none.\<close>

definition space_width :: "string \<Rightarrow> nat" where
  "space_width s = (case filter (HasPrefix s) space_strings of [] \<Rightarrow> 0 | w # _ \<Rightarrow> length w)"

definition space_width_rev :: "string \<Rightarrow> nat" where
  "space_width_rev s =
     (case filter (\<lambda>w. HasPrefix s (rev w)) space_strings of [] \<Rightarrow> 0 | w # _ \<Rightarrow> length w)"

function trim_left :: "string \<Rightarrow> string" where
  "trim_left s = (if s = [] \<or> space_width s = 0 then s else trim_left (drop (space_width s) s))"
  by pat_completeness auto
termination
  by (relation "measure length") auto

function trim_left_rev :: "string \<Rightarrow> string" where
  "trim_left_rev s =
     (if s = [] \<or> space_width_rev s = 0 then s else trim_left_rev (drop (space_width_rev s) s))"
  by pat_completeness auto
termination
  by (relation "measure length") auto

declare trim_left.simps [simp del] trim_left_rev.simps [simp del]

definition TrimSpace :: "string \<Rightarrow> string" where
  "TrimSpace s = rev (trim_left_rev (rev (trim_left s)))"

section \<open>Decimal digits\<close>

definition digit_value :: "char \<Rightarrow> nat option" where
  "digit_value c = (if 48 \<le> (of_char c :: nat) \<and> of_char c \<le> (57 :: nat)
     then Some (of_char c - 48) else None)"

fun digits_value :: "string \<Rightarrow> nat \<Rightarrow> nat option" where
  "digits_value [] n = Some n"
| "digits_value (c # cs) n =
     (case digit_value c of None \<Rightarrow> None | Some d \<Rightarrow> digits_value cs (10 * n + d))"

text \<open>\<open>strconv.ParseUint(s, 10, 64)\<close>: digits only, at least one, and the value fits.\<close>

definition ParseUint :: "string \<Rightarrow> u64 option" where
  "ParseUint s =
     (if s = [] then None
      else case digits_value s 0 of
        None \<Rightarrow> None
      | Some n \<Rightarrow> (if n < 2 ^ 64 then Some (word_of_nat n) else None))"

section \<open>UTF-8\<close>

text \<open>\<open>utf8.DecodeRune\<close>: the rune at the start of the bytes and its width; an invalid or
  truncated encoding is the replacement rune with width one.\<close>

definition RuneError :: nat where
  "RuneError = 65533"

definition cont :: "nat \<Rightarrow> bool" where
  "cont b \<longleftrightarrow> 128 \<le> b \<and> b \<le> 191"

definition rune2 :: "nat \<Rightarrow> nat \<Rightarrow> nat" where
  "rune2 x y = x * 64 + y"

definition rune3 :: "nat \<Rightarrow> nat \<Rightarrow> nat \<Rightarrow> nat" where
  "rune3 x y z = x * 4096 + y * 64 + z"

definition rune4 :: "nat \<Rightarrow> nat \<Rightarrow> nat \<Rightarrow> nat \<Rightarrow> nat" where
  "rune4 x y z w = x * 262144 + y * 4096 + z * 64 + w"

fun decode_rune :: "nat list \<Rightarrow> nat \<times> nat" where
  "decode_rune [] = (RuneError, 0)"
| "decode_rune (b # bs) =
     (if b < 128 then (b, 1)
      else if 194 \<le> b \<and> b \<le> 223 then
        (case bs of
           c1 # _ \<Rightarrow> if cont c1 then (rune2 (b - 192) (c1 - 128), 2) else (RuneError, 1)
         | _ \<Rightarrow> (RuneError, 1))
      else if 224 \<le> b \<and> b \<le> 239 then
        (case bs of
           c1 # c2 # _ \<Rightarrow>
             if cont c1 \<and> cont c2 \<and> (b = 224 \<longrightarrow> 160 \<le> c1) \<and> (b = 237 \<longrightarrow> c1 \<le> 159)
             then (rune3 (b - 224) (c1 - 128) (c2 - 128), 3) else (RuneError, 1)
         | _ \<Rightarrow> (RuneError, 1))
      else if 240 \<le> b \<and> b \<le> 244 then
        (case bs of
           c1 # c2 # c3 # _ \<Rightarrow>
             if cont c1 \<and> cont c2 \<and> cont c3 \<and> (b = 240 \<longrightarrow> 144 \<le> c1) \<and> (b = 244 \<longrightarrow> c1 \<le> 143)
             then (rune4 (b - 240) (c1 - 128) (c2 - 128) (c3 - 128), 4)
             else (RuneError, 1)
         | _ \<Rightarrow> (RuneError, 1))
      else (RuneError, 1))"

function utf8_runes :: "nat list \<Rightarrow> nat list" where
  "utf8_runes [] = []"
| "utf8_runes (b # bs) =
     fst (decode_rune (b # bs)) # utf8_runes (drop (snd (decode_rune (b # bs)) - 1) bs)"
  by pat_completeness auto
termination
  by (relation "measure length") auto

definition valid_rune :: "nat \<Rightarrow> bool" where
  "valid_rune r \<longleftrightarrow> r < 55296 \<or> 57344 \<le> r \<and> r \<le> 1114111"

text \<open>\<open>utf8.AppendRune\<close>, the conversion of a rune to bytes.\<close>

definition encode_rune :: "nat \<Rightarrow> nat list" where
  "encode_rune r0 =
     (let r = (if valid_rune r0 then r0 else RuneError) in
      if r < 128 then [r]
      else if r < 2048 then [192 + r div 64, 128 + r mod 64]
      else if r < 65536 then [224 + r div 4096, 128 + r div 64 mod 64, 128 + r mod 64]
      else [240 + r div 262144, 128 + r div 4096 mod 64, 128 + r div 64 mod 64, 128 + r mod 64])"

definition string_runes :: "string \<Rightarrow> nat list" where
  "string_runes s = utf8_runes (map of_char s)"

definition runes_string :: "nat list \<Rightarrow> string" where
  "runes_string rs = map char_of (concat (map encode_rune rs))"

definition RuneCount :: "string \<Rightarrow> nat" where
  "RuneCount s = length (string_runes s)"

section \<open>Facts on UTF-8\<close>

lemma valid_RuneError [simp]: "valid_rune RuneError"
  by (simp add: valid_rune_def RuneError_def)

text \<open>The value ranges of the three multi-byte forms.\<close>

lemma valid_rune_two: "x \<le> 31 \<Longrightarrow> y \<le> 63 \<Longrightarrow> valid_rune (rune2 x y)"
  unfolding valid_rune_def rune2_def by linarith

lemma valid_rune_three:
  assumes "x \<le> 15" "y \<le> 63" "z \<le> 63" "x = 13 \<longrightarrow> y \<le> 31"
  shows "valid_rune (rune3 x y z)"
proof -
  consider "x \<le> 12" | "x = 13" | "14 \<le> x" by linarith
  then show ?thesis
    using assms unfolding valid_rune_def rune3_def by cases (simp_all; linarith)+
qed

lemma valid_rune_four:
  assumes "x \<le> 4" "y \<le> 63" "z \<le> 63" "w \<le> 63" "x = 0 \<longrightarrow> 16 \<le> y" "x = 4 \<longrightarrow> y \<le> 15"
  shows "valid_rune (rune4 x y z w)"
proof -
  consider "x = 0" | "1 \<le> x" "x \<le> 3" | "x = 4" using assms(1) by linarith
  then show ?thesis
    using assms unfolding valid_rune_def rune4_def by cases (simp_all; linarith)+
qed

lemma cont_minus: "cont c \<Longrightarrow> c - 128 \<le> 63"
  unfolding cont_def by linarith

lemma decode_rune_valid: "valid_rune (fst (decode_rune bs))"
proof (cases bs)
  case Nil
  then show ?thesis by simp
next
  case (Cons b cs)
  consider "b < 128" | "128 \<le> b" "b < 194" | "194 \<le> b" "b \<le> 223" | "224 \<le> b" "b \<le> 239"
    | "240 \<le> b" "b \<le> 244" | "244 < b" by linarith
  then show ?thesis
  proof cases
    case 3
    then show ?thesis
      by (auto simp: Cons cont_minus split: list.split intro!: valid_rune_two)
  next
    case 4
    then show ?thesis
      by (auto simp: Cons cont_minus split: list.split intro!: valid_rune_three)
  next
    case 5
    then show ?thesis
      by (auto simp: Cons cont_minus split: list.split intro!: valid_rune_four)
  qed (simp_all add: Cons valid_rune_def RuneError_def)
qed

lemma utf8_runes_valid: "\<forall>r \<in> set (utf8_runes bs). valid_rune r"
  by (induction bs rule: utf8_runes.induct)
    (simp_all del: decode_rune.simps add: decode_rune_valid)

text \<open>The base-64 digits of a rune.\<close>

lemma base64_digits:
  obtains x y z w :: nat where
    "r = rune4 x y z w" "y < 64" "z < 64" "w < 64"
    "r div 64 = (x * 64 + y) * 64 + z" "r mod 64 = w" "r div 64 mod 64 = z"
    "r div 4096 = x * 64 + y" "r div 4096 mod 64 = y" "r div 262144 = x"
proof -
  define w where "w = r mod 64"
  define z where "z = r div 64 mod 64"
  define y where "y = r div 4096 mod 64"
  define x where "x = r div 262144"
  have d4096: "r div 4096 = r div 64 div 64" by (simp add: div_mult2_eq [symmetric])
  have d262144: "r div 262144 = r div 4096 div 64" by (simp add: div_mult2_eq [symmetric])
  have a: "r div 4096 = x * 64 + y"
    unfolding x_def y_def d262144 by (rule div_mult_mod_eq [symmetric])
  have b: "r div 64 = (x * 64 + y) * 64 + z"
    unfolding a [symmetric] z_def d4096 by (rule div_mult_mod_eq [symmetric])
  have c: "r = ((x * 64 + y) * 64 + z) * 64 + w"
    unfolding b [symmetric] w_def by (rule div_mult_mod_eq [symmetric])
  have r4: "r = rune4 x y z w" using c by (simp add: rune4_def)
  have "y < 64" "z < 64" "w < 64" by (simp_all add: y_def z_def w_def)
  then show thesis
    by (rule that [OF r4 _ _ _ b w_def [symmetric] z_def [symmetric] a y_def [symmetric]
          x_def [symmetric]])
qed

lemma cont_plus: "y < 64 \<Longrightarrow> cont (128 + y)"
  by (simp add: cont_def)

lemma encode_valid_rune_byte:
  assumes "valid_rune r" "b \<in> set (encode_rune r)"
  shows "b < 256"
proof (rule base64_digits [of r])
  fix x y z w
  assume d: "r = rune4 x y z w" "y < 64" "z < 64" "w < 64"
    "r div 64 = (x * 64 + y) * 64 + z" "r mod 64 = w" "r div 64 mod 64 = z"
    "r div 4096 = x * 64 + y" "r div 4096 mod 64 = y" "r div 262144 = x"
  have "x \<le> 4" using assms(1) d(1-4) unfolding valid_rune_def rune4_def by linarith
  have "r < 65536 \<Longrightarrow> x = 0 \<and> y \<le> 15" using d(1-4) unfolding rune4_def by linarith
  moreover have "r < 2048 \<Longrightarrow> x = 0 \<and> y = 0 \<and> z \<le> 31" using d(1-4) unfolding rune4_def by linarith
  ultimately show ?thesis
    using assms \<open>x \<le> 4\<close> d(2-4) d(10) unfolding encode_rune_def Let_def d(5-9)
    by (auto split: if_splits)
qed

lemma encode_rune_error: "\<not> valid_rune r \<Longrightarrow> encode_rune r = encode_rune RuneError"
  by (simp add: encode_rune_def)

lemma encode_rune_byte: "b \<in> set (encode_rune r) \<Longrightarrow> b < 256"
  by (metis encode_rune_error encode_valid_rune_byte valid_RuneError)

lemma decode_encode_rune:
  assumes "valid_rune r"
  shows "decode_rune (encode_rune r @ bs) = (r, length (encode_rune r))"
proof (rule base64_digits [of r])
  fix x y z w
  assume d: "r = rune4 x y z w" "y < 64" "z < 64" "w < 64"
    "r div 64 = (x * 64 + y) * 64 + z" "r mod 64 = w" "r div 64 mod 64 = z"
    "r div 4096 = x * 64 + y" "r div 4096 mod 64 = y" "r div 262144 = x"
  note r = d(1) [unfolded rune4_def]
  consider "r < 128" | "128 \<le> r" "r < 2048" | "2048 \<le> r" "r < 65536" | "65536 \<le> r" "r \<le> 1114111"
    using assms unfolding valid_rune_def by linarith
  then show ?thesis
  proof cases
    case 1
    with assms show ?thesis by (simp add: encode_rune_def)
  next
    case 2
    with r d(2-4) have b: "x = 0" "y = 0" by linarith+
    with 2 r d(4) have "2 \<le> z" "z \<le> 31" by linarith+
    with 2 b assms d r show ?thesis
      by (simp add: encode_rune_def cont_plus rune2_def)
  next
    case 3
    with r d(2-4) have "x = 0" by linarith
    with 3 r d(2-4) have b: "x = 0" "y \<le> 15" "y = 0 \<longrightarrow> 32 \<le> z" by linarith+
    have "y = 13 \<longrightarrow> z \<le> 31"
      using assms r b d(2-4) unfolding valid_rune_def by linarith
    with 3 b assms d r show ?thesis
      by (simp add: encode_rune_def cont_plus rune3_def)
  next
    case 4
    with r d(2-4) have b: "x \<le> 4" "x = 0 \<longrightarrow> 16 \<le> y" "x = 4 \<longrightarrow> y \<le> 15" by linarith+
    have "encode_rune r = [240 + x, 128 + y, 128 + z, 128 + w]"
      using 4 assms d(5-10) unfolding encode_rune_def Let_def by simp
    then show ?thesis using b d(1-4) by (simp add: cont_plus)
  qed
qed

text \<open>Decoding undoes encoding on every sequence of valid runes.\<close>

lemma encode_rune_nonempty [simp]: "encode_rune r \<noteq> []"
  by (simp add: encode_rune_def Let_def)

lemma utf8_runes_encode:
  "\<forall>r \<in> set rs. valid_rune r \<Longrightarrow> utf8_runes (concat (map encode_rune rs)) = rs"
proof (induction rs)
  case Nil
  then show ?case by simp
next
  case (Cons r rs)
  obtain b bs where e: "encode_rune r = b # bs" by (cases "encode_rune r") auto
  have "decode_rune (b # bs @ concat (map encode_rune rs)) = (r, Suc (length bs))"
    using decode_encode_rune [of r "concat (map encode_rune rs)"] Cons.prems e by simp
  with Cons e show ?case by (simp del: decode_rune.simps)
qed

lemma string_runes_string:
  assumes "\<forall>r \<in> set rs. valid_rune r"
  shows "string_runes (runes_string rs) = rs"
proof -
  have "map (of_char \<circ> char_of) (concat (map encode_rune rs)) = concat (map encode_rune rs)"
    by (rule map_idI) (auto dest!: encode_rune_byte simp: of_char_of)
  with utf8_runes_encode [OF assms] show ?thesis
    by (simp add: string_runes_def runes_string_def del: map_concat)
qed

lemma string_runes_valid: "\<forall>r \<in> set (string_runes s). valid_rune r"
  by (simp add: string_runes_def utf8_runes_valid)

lemma string_runes_Nil [simp]: "string_runes [] = []"
  by (simp add: string_runes_def)

lemma string_runes_eq_Nil [simp]: "string_runes s = [] \<longleftrightarrow> s = []"
  by (cases s) (simp_all add: string_runes_def)

lemma runes_string_eq_Nil [simp]: "runes_string rs = [] \<longleftrightarrow> rs = []"
  by (cases rs) (simp_all add: runes_string_def)

section \<open>Facts on trimming and digits\<close>

definition plain_char :: "char \<Rightarrow> bool" where
  "plain_char c \<longleftrightarrow> 33 \<le> (of_char c :: nat) \<and> of_char c \<le> (126 :: nat)"

lemma space_strings_not_plain:
  "w \<in> set space_strings \<Longrightarrow> w \<noteq> [] \<and> \<not> plain_char (hd w) \<and> \<not> plain_char (last w)"
  by (auto simp: space_strings_def space_encodings_def plain_char_def of_char_of)

lemma HasPrefix_hd: "HasPrefix s w \<Longrightarrow> w \<noteq> [] \<Longrightarrow> s \<noteq> [] \<Longrightarrow> hd s = hd w"
  by (cases s; cases w) (auto simp: HasPrefix_def)

lemma space_width_plain: "s \<noteq> [] \<Longrightarrow> plain_char (hd s) \<Longrightarrow> space_width s = 0"
proof -
  assume s: "s \<noteq> []" "plain_char (hd s)"
  have "filter (HasPrefix s) space_strings = []"
    using s space_strings_not_plain HasPrefix_hd by (fastforce simp: filter_empty_conv)
  then show ?thesis by (simp add: space_width_def)
qed

lemma space_width_rev_plain: "s \<noteq> [] \<Longrightarrow> plain_char (hd s) \<Longrightarrow> space_width_rev s = 0"
proof -
  assume s: "s \<noteq> []" "plain_char (hd s)"
  have "filter (\<lambda>w. HasPrefix s (rev w)) space_strings = []"
    using s space_strings_not_plain HasPrefix_hd
    by (fastforce simp: filter_empty_conv hd_rev)
  then show ?thesis by (simp add: space_width_rev_def)
qed

lemma TrimSpace_plain:
  "s \<noteq> [] \<Longrightarrow> plain_char (hd s) \<Longrightarrow> plain_char (last s) \<Longrightarrow> TrimSpace s = s"
  by (simp add: TrimSpace_def trim_left.simps trim_left_rev.simps space_width_plain
      space_width_rev_plain hd_rev)

definition digit_char :: "char \<Rightarrow> bool" where
  "digit_char c \<longleftrightarrow> digit_value c \<noteq> None"

lemma digit_char_plain: "digit_char c \<Longrightarrow> plain_char c"
  by (auto simp: digit_char_def digit_value_def plain_char_def split: if_splits)

lemma digits_value_digits: "digits_value s n = Some v \<Longrightarrow> c \<in> set s \<Longrightarrow> digit_char c"
  by (induction s arbitrary: n) (auto simp: digit_char_def split: option.splits)

lemma digits_value_append:
  "digits_value (xs @ ys) n = (case digits_value xs n of None \<Rightarrow> None | Some v \<Rightarrow> digits_value ys v)"
  by (induction xs arbitrary: n) (auto split: option.splits)

lemma digits_value_zeros: "digits_value (replicate k (CHR ''0'')) n = Some (n * 10 ^ k)"
  by (induction k arbitrary: n) (simp_all add: digit_value_def algebra_simps)

lemma ParseUint_digits:
  "s \<noteq> [] \<Longrightarrow> digits_value s 0 = Some n \<Longrightarrow>
   ParseUint s = (if n < 2 ^ 64 then Some (word_of_nat n) else None)"
  by (simp add: ParseUint_def)

text \<open>Trimming twice is trimming once.\<close>

lemma space_width_0: "space_width s = 0 \<longleftrightarrow> (\<forall>w \<in> set space_strings. \<not> HasPrefix s w)"
proof -
  have "length w \<noteq> 0" if "w \<in> set space_strings" for w using space_strings_not_plain [OF that] by simp
  then show ?thesis
    by (auto simp: space_width_def filter_empty_conv split: list.splits) (metis filter_eq_Cons_iff in_set_conv_decomp)
qed

lemma trim_left_stop: "trim_left s = [] \<or> space_width (trim_left s) = 0"
proof (induction s rule: trim_left.induct)
  case (1 s)
  then show ?case by (cases "s = [] \<or> space_width s = 0") (auto simp: trim_left.simps [of s])
qed

lemma trim_left_rev_stop: "trim_left_rev s = [] \<or> space_width_rev (trim_left_rev s) = 0"
proof (induction s rule: trim_left_rev.induct)
  case (1 s)
  then show ?case by (cases "s = [] \<or> space_width_rev s = 0") (auto simp: trim_left_rev.simps [of s])
qed

lemma trim_left_rev_suffix: "\<exists>u. s = u @ trim_left_rev s"
proof (induction s rule: trim_left_rev.induct)
  case (1 s)
  then show ?case
    by (cases "s = [] \<or> space_width_rev s = 0")
      (auto simp: trim_left_rev.simps [of s], metis append.assoc append_take_drop_id)
qed

lemma HasPrefix_append: "HasPrefix s w \<Longrightarrow> HasPrefix (s @ t) w"
  by (auto simp: HasPrefix_def) (metis append_take_drop_id append_eq_append_conv2 take_append take_all_iff le_cases append_Nil2 length_take min_def)

lemma TrimSpace_idem [simp]: "TrimSpace (TrimSpace s) = TrimSpace s"
proof -
  let ?a = "trim_left s" and ?b = "trim_left_rev (rev (trim_left s))"
  obtain u where "rev ?a = u @ ?b" using trim_left_rev_suffix by blast
  then have a: "?a = rev ?b @ rev u" by (metis rev_append rev_rev_ident)
  have "rev ?b = [] \<or> space_width (rev ?b) = 0"
    using trim_left_stop [of s] a HasPrefix_append [of "rev ?b" _ "rev u"] by (auto simp: space_width_0)
  then have "trim_left (rev ?b) = rev ?b" by (subst trim_left.simps) auto
  moreover have "trim_left_rev ?b = ?b"
    using trim_left_rev_stop [of "rev ?a"] by (subst trim_left_rev.simps) auto
  ultimately show ?thesis by (simp add: TrimSpace_def)
qed

end
