(* ===== verification/Chat_Types.thy ===== *)
theory Chat_Types
  imports Go_Strings
begin

text \<open>
  The data every component exchanges: the OpenAI-compatible request, response and usage types
  (\<open>internal/openai/types.go\<close>), the provider-independent stream chunk and the typed
  provider errors (\<open>internal/provider/provider.go\<close>), and Go's error chains as a datatype
  with \<open>errors.Is\<close> and \<open>errors.As\<close>. A nil pointer is \<open>None\<close>; a Go struct is a
  record whose field names carry a short prefix of their struct.
\<close>

section \<open>Requests, responses and usage\<close>

record Message =
  msgRole :: string
  msgContent :: string

record ChatCompletionRequest =
  reqModel :: string
  reqMessages :: "Message list"
  reqStream :: bool

record Usage =
  InputTokens :: "u64 option"
  OutputTokens :: "u64 option"
  TotalTokens :: "u64 option"

definition NewUsage :: "u64 \<Rightarrow> u64 \<Rightarrow> u64 \<Rightarrow> Usage" where
  "NewUsage inputTokens outputTokens totalTokens =
     \<lparr>InputTokens = Some inputTokens, OutputTokens = Some outputTokens,
      TotalTokens = Some totalTokens\<rparr>"

record Choice =
  choIndex :: int
  choMessage :: Message
  choFinishReason :: string

record ChatCompletionResponse =
  rspID :: string
  rspObject :: string
  rspCreated :: int
  rspModel :: string
  rspChoices :: "Choice list"
  rspUsage :: "Usage option"

text \<open>The zero value that the code returns beside an error.\<close>

definition zero_response :: ChatCompletionResponse where
  "zero_response = \<lparr>rspID = [], rspObject = [], rspCreated = 0, rspModel = [], rspChoices = [],
     rspUsage = None\<rparr>"

section \<open>Stream chunks\<close>

record StreamChunk =
  ckID :: string
  ckCreated :: int
  ckModel :: string
  ckRole :: string
  ckContent :: string
  ckFinishReason :: string
  ckUsage :: "Usage option"

definition zero_chunk :: StreamChunk where
  "zero_chunk = \<lparr>ckID = [], ckCreated = 0, ckModel = [], ckRole = [], ckContent = [],
     ckFinishReason = [], ckUsage = None\<rparr>"

section \<open>Errors\<close>

text \<open>
  \<open>provider.ErrorKind\<close> is a string type with five declared values; any other string is
  \<open>OtherErrorKind\<close>.
\<close>

datatype ErrorKind =
    ErrorInvalidRequest
  | ErrorUnavailable
  | ErrorTimeout
  | ErrorRateLimited
  | ErrorInternal
  | OtherErrorKind string

datatype ResolutionKind = ErrorUnknownAlias | ErrorMissingMapping

text \<open>
  The error values of the program. \<open>ProviderError\<close> is \<open>*provider.Error\<close> and unwraps
  to the error it carries, \<open>WrapError\<close> is \<open>fmt.Errorf\<close> with \<open>%w\<close>, and
  \<open>PlainError\<close> is any other error, identified by its message.
\<close>

datatype go_error =
    ErrModelRequired
  | ErrMessagesRequired
  | ErrStreamingUnsupported
  | ErrNoProviders
  | ErrNativeModelInAuto
  | ErrNoUsableModelMapping
  | ErrCircuitOpen
  | UnsupportedRoleError nat string
  | ResolutionError ResolutionKind
  | ProviderError ErrorKind string go_error
  | EOF
  | ContextCanceled
  | ContextDeadlineExceeded
  | PlainError string
  | WrapError string go_error

definition NewError :: "ErrorKind \<Rightarrow> string \<Rightarrow> go_error \<Rightarrow> go_error" where
  "NewError kind providerName err = ProviderError kind providerName err"

text \<open>\<open>errors.Is\<close> for a sentinel target, and \<open>errors.As\<close> for the typed errors: the
  first match along the chain of \<open>Unwrap\<close>.\<close>

fun errors_is :: "go_error \<Rightarrow> go_error \<Rightarrow> bool" where
  "errors_is (ProviderError k n e) t \<longleftrightarrow> ProviderError k n e = t \<or> errors_is e t"
| "errors_is (WrapError m e) t \<longleftrightarrow> WrapError m e = t \<or> errors_is e t"
| "errors_is e t \<longleftrightarrow> e = t"

fun as_provider_error :: "go_error \<Rightarrow> (ErrorKind \<times> string) option" where
  "as_provider_error (ProviderError k n e) = Some (k, n)"
| "as_provider_error (WrapError m e) = as_provider_error e"
| "as_provider_error _ = None"

fun as_resolution_error :: "go_error \<Rightarrow> ResolutionKind option" where
  "as_resolution_error (ResolutionError k) = Some k"
| "as_resolution_error (ProviderError k n e) = as_resolution_error e"
| "as_resolution_error (WrapError m e) = as_resolution_error e"
| "as_resolution_error _ = None"

fun as_role_error :: "go_error \<Rightarrow> (nat \<times> string) option" where
  "as_role_error (UnsupportedRoleError i r) = Some (i, r)"
| "as_role_error (ProviderError k n e) = as_role_error e"
| "as_role_error (WrapError m e) = as_role_error e"
| "as_role_error _ = None"

lemma errors_is_refl [simp]: "errors_is e e"
  by (cases e) simp_all

end
