(* ===== verification/Model_Resolver.thy ===== *)
theory Model_Resolver
  imports Chat_Types
begin

text \<open>
  Logical model aliases (\<open>internal/model/resolver.go\<close>): the resolver's table from alias and
  provider to the provider's own model, and the resolution with its two errors.
\<close>

definition LogicalPrefix :: string where
  "LogicalPrefix = ''routeforge/''"

definition General :: string where
  "General = ''routeforge/general''"

record Resolver =
  mappings :: "string \<rightharpoonup> (string \<rightharpoonup> string)"

text \<open>\<open>New\<close> copies the given table; a nil table is the empty one.\<close>

definition New_Resolver :: "(string \<rightharpoonup> (string \<rightharpoonup> string)) \<Rightarrow> Resolver" where
  "New_Resolver ms = \<lparr>mappings = (\<lambda>alias. map_option (\<lambda>pm providerName. pm providerName) (ms alias))\<rparr>"

definition IsLogical :: "string \<Rightarrow> bool" where
  "IsLogical name \<longleftrightarrow> HasPrefix name LogicalPrefix"

text \<open>A missing key of the inner map reads as the empty string.\<close>

definition Resolve :: "Resolver \<Rightarrow> string \<Rightarrow> string \<Rightarrow> go_error + string" where
  "Resolve r logicalModel providerName =
     (case mappings r logicalModel of
        None \<Rightarrow> Inl (ResolutionError ErrorUnknownAlias)
      | Some providerMappings \<Rightarrow>
          (let providerModel = (case providerMappings providerName of None \<Rightarrow> [] | Some m \<Rightarrow> m)
           in if TrimSpace providerModel = [] then Inl (ResolutionError ErrorMissingMapping)
              else Inr providerModel))"

lemma TrimSpace_Nil [simp]: "TrimSpace [] = []"
  by (simp add: TrimSpace_def trim_left.simps trim_left_rev.simps)

lemma New_Resolver_mappings [simp]: "mappings (New_Resolver ms) = ms"
  by (simp add: New_Resolver_def option.map_ident)

lemma Resolve_nonempty: "Resolve r m p = Inr model \<Longrightarrow> TrimSpace model \<noteq> []"
  by (auto simp: Resolve_def Let_def split: option.splits if_splits)

lemma Resolve_nonempty' : "Resolve r m p = Inr model \<Longrightarrow> model \<noteq> []"
  using Resolve_nonempty TrimSpace_Nil by blast

lemma Resolve_mapped:
  "Resolve r m p = Inr model \<longleftrightarrow>
     (\<exists>pm. mappings r m = Some pm \<and> pm p = Some model \<and> TrimSpace model \<noteq> [])"
  by (auto simp: Resolve_def Let_def split: option.splits)

lemma Resolve_error: "Resolve r m p = Inl e \<Longrightarrow> \<exists>k. e = ResolutionError k"
  by (auto simp: Resolve_def Let_def split: option.splits if_splits)

end
