(* ===== verification/Outcome.thy ===== *)
theory Outcome
  imports Chat_Types
begin

text \<open>
  The classification of a provider call (\<open>internal/gateway/outcome.go\<close>) and the two
  decisions taken from it: which failures degrade the provider's health and which allow another
  provider to be tried (\<open>eligibleForFallback\<close> in \<open>internal/gateway/service.go\<close>).
  \<open>ctxErr\<close> is the value of \<open>ctx.Err()\<close>; a nil context never has an error.
\<close>

datatype providerOutcome =
    outcomeSuccess
  | outcomeCanceled
  | outcomeTimeout
  | outcomeUnavailable
  | outcomeRateLimited
  | outcomeInvalidRequest
  | outcomeInternal
  | outcomeOtherFailure

definition classifyKind :: "ErrorKind \<Rightarrow> providerOutcome" where
  "classifyKind k = (case k of
       ErrorTimeout \<Rightarrow> outcomeTimeout
     | ErrorUnavailable \<Rightarrow> outcomeUnavailable
     | ErrorRateLimited \<Rightarrow> outcomeRateLimited
     | ErrorInvalidRequest \<Rightarrow> outcomeInvalidRequest
     | ErrorInternal \<Rightarrow> outcomeInternal
     | OtherErrorKind _ \<Rightarrow> outcomeOtherFailure)"

definition classifyProviderOutcome :: "go_error option \<Rightarrow> go_error option \<Rightarrow> providerOutcome" where
  "classifyProviderOutcome ctxErr err =
     (case err of
        None \<Rightarrow> outcomeSuccess
      | Some e \<Rightarrow>
          if ctxErr \<noteq> None then outcomeCanceled
          else case as_provider_error e of
            Some (k, _) \<Rightarrow> classifyKind k
          | None \<Rightarrow> if errors_is e ContextCanceled then outcomeCanceled else outcomeOtherFailure)"

definition degradesHealth :: "providerOutcome \<Rightarrow> bool" where
  "degradesHealth o' \<longleftrightarrow> o' = outcomeTimeout \<or> o' = outcomeUnavailable \<or> o' = outcomeRateLimited"

fun outcome_String :: "providerOutcome \<Rightarrow> string" where
  "outcome_String outcomeSuccess = ''success''"
| "outcome_String outcomeCanceled = ''cancellation''"
| "outcome_String outcomeTimeout = ''timeout''"
| "outcome_String outcomeUnavailable = ''unavailable''"
| "outcome_String outcomeRateLimited = ''rate_limited''"
| "outcome_String outcomeInvalidRequest = ''invalid_request''"
| "outcome_String outcomeInternal = ''internal''"
| "outcome_String outcomeOtherFailure = ''other_failure''"

definition degradesProviderHealth :: "go_error option \<Rightarrow> bool" where
  "degradesProviderHealth err = degradesHealth (classifyProviderOutcome None err)"

definition eligibleForFallback :: "go_error \<Rightarrow> bool" where
  "eligibleForFallback err =
     (case as_provider_error err of
        None \<Rightarrow> False
      | Some (k, _) \<Rightarrow> k = ErrorUnavailable \<or> k = ErrorTimeout \<or> k = ErrorRateLimited)"

section \<open>Facts\<close>

lemma classify_success_iff [simp]:
  "classifyProviderOutcome c err = outcomeSuccess \<longleftrightarrow> err = None"
  by (auto simp: classifyProviderOutcome_def classifyKind_def split: option.splits ErrorKind.splits)

lemma classify_None [simp]: "classifyProviderOutcome c None = outcomeSuccess"
  by simp

lemma classify_live_degrades:
  "degradesHealth (classifyProviderOutcome None (Some e)) = eligibleForFallback e"
  by (auto simp: classifyProviderOutcome_def classifyKind_def degradesHealth_def
      eligibleForFallback_def split: option.splits ErrorKind.splits)

lemma classify_canceled: "c \<noteq> None \<Longrightarrow> classifyProviderOutcome c (Some e) = outcomeCanceled"
  by (simp add: classifyProviderOutcome_def)

lemma outcome_String_nonempty [simp]: "outcome_String o' \<noteq> []"
  by (cases o') simp_all

lemma outcome_String_length: "length (outcome_String o') \<le> 32"
  by (cases o') simp_all

lemma outcome_String_inject [simp]: "outcome_String a = outcome_String b \<longleftrightarrow> a = b"
  by (cases a; cases b) simp_all

end
