(* ===== verification/Circuit.thy ===== *)
theory Circuit
  imports Outcome
begin

text \<open>
  The circuit breaker (\<open>internal/gateway/circuit.go\<close>): one \<open>providerHealth\<close> per
  provider behind a mutex, so each operation is one atomic step. An operation takes the reading of
  \<open>t.now()\<close> as an argument and returns the transitions it reports to the observer. A
  \<open>healthAttempt\<close> holds the provider's name in place of the pointer: the tracker's map is
  fixed at construction. The lemmas show the state invariant, that a trial slot is never leaked,
  and, for any interleaving of concurrent attempts, that at most one trial is outstanding.
\<close>

section \<open>State\<close>

datatype circuitState = circuitClosed | circuitOpen | circuitHalfOpen

record CircuitConfig =
  FailureThreshold :: int
  OpenDuration :: duration

record providerHealth =
  hState :: circuitState
  hGeneration :: u64
  consecutiveFailures :: int
  hLastSuccess :: instant
  hLastFailure :: instant
  openUntil :: instant
  halfOpenInFlight :: bool

record healthTracker =
  hProviders :: "string \<rightharpoonup> providerHealth"
  failureThreshold :: int
  openDuration :: duration

record healthAttempt =
  attName :: string
  attHalfOpen :: bool
  attGeneration :: u64

record healthSnapshot =
  snState :: circuitState
  snConsecutiveFailures :: int
  snLastSuccess :: instant
  snLastFailure :: instant
  snOpenUntil :: instant
  snHalfOpenInFlight :: bool

type_synonym transition = "string \<times> circuitState \<times> circuitState"

section \<open>Operations\<close>

definition new_health :: providerHealth where
  "new_health = \<lparr>hState = circuitClosed, hGeneration = 0, consecutiveFailures = 0,
     hLastSuccess = time_zero, hLastFailure = time_zero, openUntil = time_zero,
     halfOpenInFlight = False\<rparr>"

definition newHealthTracker :: "string list \<Rightarrow> CircuitConfig \<Rightarrow> healthTracker" where
  "newHealthTracker providerNames config =
     \<lparr>hProviders = (\<lambda>name. if name \<in> set providerNames then Some new_health else None),
      failureThreshold = FailureThreshold config, openDuration = OpenDuration config\<rparr>"

definition health_begin ::
  "string \<Rightarrow> providerHealth \<Rightarrow> instant \<Rightarrow> healthAttempt option \<times> providerHealth \<times> transition list" where
  "health_begin providerName h now =
     (case hState h of
        circuitOpen \<Rightarrow>
          if now < openUntil h then (None, h, [])
          else (let g = hGeneration h + 1 in
            (Some \<lparr>attName = providerName, attHalfOpen = True, attGeneration = g\<rparr>,
             h\<lparr>hState := circuitHalfOpen, hGeneration := g, halfOpenInFlight := True\<rparr>,
             [(providerName, circuitOpen, circuitHalfOpen)]))
      | circuitHalfOpen \<Rightarrow>
          if halfOpenInFlight h then (None, h, [])
          else (Some \<lparr>attName = providerName, attHalfOpen = True, attGeneration = hGeneration h\<rparr>,
                h\<lparr>halfOpenInFlight := True\<rparr>, [])
      | circuitClosed \<Rightarrow>
          (Some \<lparr>attName = providerName, attHalfOpen = False, attGeneration = hGeneration h\<rparr>, h, []))"

definition health_eligible :: "providerHealth \<Rightarrow> instant \<Rightarrow> bool" where
  "health_eligible h now =
     (case hState h of
        circuitOpen \<Rightarrow> \<not> now < openUntil h
      | circuitHalfOpen \<Rightarrow> \<not> halfOpenInFlight h
      | circuitClosed \<Rightarrow> True)"

definition health_success ::
  "healthAttempt \<Rightarrow> providerHealth \<Rightarrow> instant \<Rightarrow> providerHealth \<times> transition list" where
  "health_success a h now =
     (if attGeneration a \<noteq> hGeneration h then (h, [])
      else (let previous = hState h in
        (h\<lparr>hState := circuitClosed,
           hGeneration := (if previous \<noteq> circuitClosed then hGeneration h + 1 else hGeneration h),
           consecutiveFailures := 0, hLastSuccess := now, openUntil := time_zero,
           halfOpenInFlight := False\<rparr>,
         if previous \<noteq> circuitClosed then [(attName a, previous, circuitClosed)] else [])))"

definition health_failure ::
  "int \<Rightarrow> duration \<Rightarrow> healthAttempt \<Rightarrow> providerHealth \<Rightarrow> instant \<Rightarrow> providerHealth \<times> transition list" where
  "health_failure threshold openFor a h now =
     (if attGeneration a \<noteq> hGeneration h then (h, [])
      else (let previous = hState h;
                failures = i64_wrap (consecutiveFailures h + 1);
                h1 = h\<lparr>hLastFailure := now, consecutiveFailures := failures\<rparr>;
                h2 = (if attHalfOpen a \<or> failures \<ge> threshold
                      then h1\<lparr>hState := circuitOpen, hGeneration := hGeneration h + 1,
                              openUntil := time_add now openFor, halfOpenInFlight := False\<rparr>
                      else h1)
            in (h2, if hState h2 \<noteq> previous then [(attName a, previous, hState h2)] else [])))"

definition health_ignore :: "healthAttempt \<Rightarrow> providerHealth \<Rightarrow> providerHealth" where
  "health_ignore a h =
     (if \<not> attHalfOpen a then h
      else if attGeneration a = hGeneration h
           then h\<lparr>halfOpenInFlight := False, hGeneration := hGeneration h + 1\<rparr>
           else h)"

definition health_snapshot :: "providerHealth \<Rightarrow> healthSnapshot" where
  "health_snapshot h = \<lparr>snState = hState h, snConsecutiveFailures = consecutiveFailures h,
     snLastSuccess = hLastSuccess h, snLastFailure = hLastFailure h, snOpenUntil = openUntil h,
     snHalfOpenInFlight = halfOpenInFlight h\<rparr>"

text \<open>The tracker's methods look the provider up; an unknown one is never admitted.\<close>

definition tracker_begin ::
  "healthTracker \<Rightarrow> string \<Rightarrow> instant \<Rightarrow> healthAttempt option \<times> healthTracker \<times> transition list" where
  "tracker_begin t providerName now =
     (case hProviders t providerName of
        None \<Rightarrow> (None, t, [])
      | Some h \<Rightarrow>
          (case health_begin providerName h now of
             (a, h', tr) \<Rightarrow> (a, t\<lparr>hProviders := (hProviders t)(providerName \<mapsto> h')\<rparr>, tr)))"

definition tracker_eligible :: "healthTracker \<Rightarrow> string \<Rightarrow> instant \<Rightarrow> bool" where
  "tracker_eligible t providerName now =
     (case hProviders t providerName of None \<Rightarrow> False | Some h \<Rightarrow> health_eligible h now)"

definition tracker_snapshot :: "healthTracker \<Rightarrow> string \<Rightarrow> healthSnapshot option" where
  "tracker_snapshot t providerName = map_option health_snapshot (hProviders t providerName)"

text \<open>\<open>recordHealthOutcome\<close> of \<open>service.go\<close> applied to the attempt's provider: success,
  ignore or failure by the outcome.\<close>

definition health_record ::
  "int \<Rightarrow> duration \<Rightarrow> healthAttempt \<Rightarrow> providerOutcome \<Rightarrow> providerHealth \<Rightarrow> instant
   \<Rightarrow> providerHealth \<times> transition list" where
  "health_record threshold openFor a outcome h now =
     (if outcome = outcomeSuccess then health_success a h now
      else if \<not> degradesHealth outcome then (health_ignore a h, [])
      else health_failure threshold openFor a h now)"

definition recordHealthOutcome ::
  "healthTracker \<Rightarrow> healthAttempt \<Rightarrow> providerOutcome \<Rightarrow> instant \<Rightarrow> healthTracker \<times> transition list" where
  "recordHealthOutcome t a outcome now =
     (case hProviders t (attName a) of
        None \<Rightarrow> (t, [])
      | Some h \<Rightarrow>
          (case health_record (failureThreshold t) (openDuration t) a outcome h now of
             (h', tr) \<Rightarrow> (t\<lparr>hProviders := (hProviders t)(attName a \<mapsto> h')\<rparr>, tr)))"

definition tracker_ignore :: "healthTracker \<Rightarrow> healthAttempt \<Rightarrow> healthTracker" where
  "tracker_ignore t a =
     (case hProviders t (attName a) of
        None \<Rightarrow> t
      | Some h \<Rightarrow> t\<lparr>hProviders := (hProviders t)(attName a \<mapsto> health_ignore a h)\<rparr>)"

lemmas circuit_defs = health_begin_def health_eligible_def health_success_def health_failure_def
  health_ignore_def health_record_def Let_def

section \<open>One provider's state\<close>

text \<open>What every operation keeps of a provider's record: the trial flag is set only in the
  half-open state, and a closed circuit's failure count is below the threshold.\<close>

definition health_wf :: "int \<Rightarrow> providerHealth \<Rightarrow> bool" where
  "health_wf threshold h \<longleftrightarrow>
     (halfOpenInFlight h \<longrightarrow> hState h = circuitHalfOpen) \<and>
     (hState h = circuitClosed \<longrightarrow> 0 \<le> consecutiveFailures h \<and> consecutiveFailures h < threshold)"

lemma health_wf_new: "0 < threshold \<Longrightarrow> health_wf threshold new_health"
  by (simp add: health_wf_def new_health_def)

lemma health_begin_wf:
  "health_wf threshold h \<Longrightarrow> health_begin name h now = (a, h', tr) \<Longrightarrow> health_wf threshold h'"
  by (auto simp: health_wf_def health_begin_def Let_def split: circuitState.splits if_splits)

lemma health_success_wf: "0 < threshold \<Longrightarrow> health_wf threshold h \<Longrightarrow> health_wf threshold (fst (health_success a h now))"
  by (auto simp: health_wf_def health_success_def Let_def)

lemma health_ignore_wf: "health_wf threshold h \<Longrightarrow> health_wf threshold (health_ignore a h)"
  by (auto simp: health_wf_def health_ignore_def)

lemma health_failure_wf:
  assumes "health_wf threshold h" and "threshold \<le> MaxInt64"
  shows "health_wf threshold (fst (health_failure threshold openFor a h now))"
proof (cases "hState h = circuitClosed")
  case True
  with assms have "0 \<le> consecutiveFailures h" "consecutiveFailures h < threshold"
    by (auto simp: health_wf_def)
  with assms have "i64_wrap (consecutiveFailures h + 1) = consecutiveFailures h + 1"
    by (simp add: in_i64_def MinInt64_def)
  with assms True show ?thesis
    by (auto simp: health_failure_def health_wf_def Let_def)
next
  case False
  with assms show ?thesis
    by (auto simp: health_failure_def health_wf_def Let_def)
qed

text \<open>\<open>begin\<close> is the authoritative form of \<open>eligible\<close>: it admits exactly then.\<close>

lemma health_begin_eligible: "fst (health_begin name h now) \<noteq> None \<longleftrightarrow> health_eligible h now"
  by (simp add: health_begin_def health_eligible_def Let_def split: circuitState.split)

lemma health_begin_rejected: "fst (health_begin name h now) = None \<Longrightarrow> snd (health_begin name h now) = (h, [])"
  by (auto simp: health_begin_def Let_def split: circuitState.splits if_splits)

text \<open>An admitted attempt carries the provider's generation and name.\<close>

lemma health_begin_attempt:
  "health_begin name h now = (Some a, h', tr) \<Longrightarrow>
     attName a = name \<and> attGeneration a = hGeneration h' \<and>
     (attHalfOpen a \<longleftrightarrow> hState h' = circuitHalfOpen) \<and> (attHalfOpen a \<longrightarrow> halfOpenInFlight h')
     \<and> (hState h' = circuitClosed \<longrightarrow> h' = h) \<and> hState h' \<noteq> circuitOpen"
  by (auto simp: health_begin_def Let_def split: circuitState.splits if_splits)

section \<open>Concurrent attempts on one provider\<close>

text \<open>
  Requests run concurrently, so attempts begin and settle in any order and at any clock reading.
  The state is the provider's record and the attempts that have begun and not yet settled.
\<close>

record circuit_sys =
  csHealth :: providerHealth
  csOut :: "healthAttempt multiset"

inductive circuit_step ::
  "int \<Rightarrow> duration \<Rightarrow> string \<Rightarrow> circuit_sys \<Rightarrow> circuit_sys \<Rightarrow> bool"
  for threshold :: int and openFor :: duration and name :: string where
  admit: "health_begin name (csHealth s) now = (Some a, h', tr) \<Longrightarrow>
    circuit_step threshold openFor name s \<lparr>csHealth = h', csOut = add_mset a (csOut s)\<rparr>"
| reject: "health_begin name (csHealth s) now = (None, h', tr) \<Longrightarrow>
    circuit_step threshold openFor name s (s\<lparr>csHealth := h'\<rparr>)"
| settle: "a \<in># csOut s \<Longrightarrow>
    circuit_step threshold openFor name s
      \<lparr>csHealth = fst (health_record threshold openFor a outcome (csHealth s) now),
       csOut = csOut s - {#a#}\<rparr>"

inductive circuit_reach ::
  "int \<Rightarrow> duration \<Rightarrow> string \<Rightarrow> nat \<Rightarrow> circuit_sys \<Rightarrow> bool"
  for threshold :: int and openFor :: duration and name :: string where
  start: "circuit_reach threshold openFor name 0 \<lparr>csHealth = new_health, csOut = {#}\<rparr>"
| step: "circuit_reach threshold openFor name n s \<Longrightarrow> circuit_step threshold openFor name s t \<Longrightarrow>
    circuit_reach threshold openFor name (Suc n) t"

text \<open>
  How the record and the outstanding attempts agree. Generations only grow while fewer than
  \<open>2 ^ 64\<close> steps have been taken, so an attempt of an older generation never becomes
  current again; a trial is always of the current generation.
\<close>

definition attempt_ok :: "providerHealth \<Rightarrow> healthAttempt \<Rightarrow> bool" where
  "attempt_ok h a \<longleftrightarrow> unat (attGeneration a) \<le> unat (hGeneration h) \<and>
     (attHalfOpen a \<longleftrightarrow> attGeneration a = hGeneration h \<and> hState h = circuitHalfOpen) \<and>
     (attGeneration a = hGeneration h \<longrightarrow> hState h \<noteq> circuitOpen)"

definition circuit_inv :: "nat \<Rightarrow> circuit_sys \<Rightarrow> bool" where
  "circuit_inv n s \<longleftrightarrow>
     unat (hGeneration (csHealth s)) \<le> n \<and>
     (\<forall>a \<in># csOut s. attempt_ok (csHealth s) a) \<and>
     size (filter_mset attHalfOpen (csOut s)) = (if halfOpenInFlight (csHealth s) then 1 else 0) \<and>
     (halfOpenInFlight (csHealth s) \<longrightarrow> hState (csHealth s) = circuitHalfOpen)"

lemma circuit_inv_start: "circuit_inv n \<lparr>csHealth = new_health, csOut = {#}\<rparr>"
  by (simp add: circuit_inv_def new_health_def)

text \<open>A new generation makes every attempt that is not a trial stale.\<close>

lemma attempt_ok_bump:
  assumes "attempt_ok h a" "\<not> attHalfOpen a" "hGeneration h' = hGeneration h + 1"
    "unat (hGeneration h) \<le> n" "Suc n < 2 ^ 64"
  shows "attempt_ok h' a"
proof -
  have "unat (hGeneration h') = unat (hGeneration h) + 1"
    using assms by (simp add: unat_inc)
  moreover have "unat (attGeneration a) \<le> unat (hGeneration h)"
    using assms(1) by (simp add: attempt_ok_def)
  ultimately have "attGeneration a \<noteq> hGeneration h'" "unat (attGeneration a) \<le> unat (hGeneration h')"
    by auto
  with assms(2) show ?thesis by (simp add: attempt_ok_def)
qed

lemma attempt_ok_same:
  "attempt_ok h a \<Longrightarrow> hGeneration h' = hGeneration h \<Longrightarrow> hState h' = hState h \<Longrightarrow> attempt_ok h' a"
  by (simp add: attempt_ok_def)

lemma no_trials: "size (filter_mset P A) = 0 \<Longrightarrow> a \<in># A \<Longrightarrow> \<not> P a"
  by auto

lemma circuit_inv_begin:
  assumes inv: "circuit_inv n s" and b: "health_begin name (csHealth s) now = (Some a, h', tr)"
    and n: "Suc n < 2 ^ 64"
  shows "circuit_inv (Suc n) \<lparr>csHealth = h', csOut = add_mset a (csOut s)\<rparr>"
proof (cases "hState (csHealth s)")
  case circuitClosed
  with inv b show ?thesis
    by (auto simp: circuit_inv_def health_begin_def attempt_ok_def)
next
  case circuitHalfOpen
  with inv b show ?thesis
    by (auto simp: circuit_inv_def health_begin_def attempt_ok_def split: if_splits)
next
  case circuitOpen
  let ?h = "csHealth s"
  have h': "h' = ?h\<lparr>hState := circuitHalfOpen, hGeneration := hGeneration ?h + 1, halfOpenInFlight := True\<rparr>"
    and a: "attHalfOpen a" "attGeneration a = hGeneration ?h + 1"
    using circuitOpen b by (auto simp: health_begin_def Let_def split: if_splits)
  have none: "size (filter_mset attHalfOpen (csOut s)) = 0"
    using inv circuitOpen by (auto simp: circuit_inv_def)
  have "\<forall>x \<in># csOut s. attempt_ok h' x"
    using inv n h' no_trials [OF none]
    by (auto simp: circuit_inv_def intro: attempt_ok_bump [where h = ?h and n = n])
  moreover have "unat (hGeneration ?h + 1) = unat (hGeneration ?h) + 1"
    using inv n by (simp add: circuit_inv_def unat_inc)
  ultimately show ?thesis
    using inv none h' a by (simp add: circuit_inv_def attempt_ok_def)
qed

text \<open>Settling the current attempt of a generation: what remains outstanding holds no trial.\<close>

lemma circuit_inv_rest:
  assumes "circuit_inv n s" "a \<in># csOut s" "attGeneration a = hGeneration (csHealth s)"
  shows "size (filter_mset attHalfOpen (csOut s - {#a#})) = 0"
proof (cases "attHalfOpen a")
  case True
  then have "filter_mset attHalfOpen (csOut s - {#a#}) = filter_mset attHalfOpen (csOut s) - {#a#}"
    by simp
  moreover have "a \<in># filter_mset attHalfOpen (csOut s)" using assms(2) True by simp
  ultimately show ?thesis
    using assms(1) by (auto simp: circuit_inv_def size_Diff_singleton split: if_splits)
next
  case False
  then have "hState (csHealth s) \<noteq> circuitHalfOpen"
    using assms by (auto simp: circuit_inv_def attempt_ok_def)
  with assms have "\<forall>x \<in># csOut s. \<not> attHalfOpen x"
    by (auto simp: circuit_inv_def attempt_ok_def)
  then have "\<forall>x \<in># csOut s - {#a#}. \<not> attHalfOpen x" by (meson in_diffD)
  then show ?thesis by (simp only: size_eq_0_iff_empty filter_mset_eq_mempty_iff) blast
qed

lemma circuit_inv_retire:
  assumes inv: "circuit_inv n s" and a: "a \<in># csOut s" "attGeneration a = hGeneration (csHealth s)"
    and h': "hGeneration h' = hGeneration (csHealth s) + 1" "\<not> halfOpenInFlight h'"
    and n: "Suc n < 2 ^ 64"
  shows "circuit_inv (Suc n) \<lparr>csHealth = h', csOut = csOut s - {#a#}\<rparr>"
proof -
  have rest: "size (filter_mset attHalfOpen (csOut s - {#a#})) = 0"
    using inv a by (rule circuit_inv_rest)
  have "\<forall>x \<in># csOut s - {#a#}. attempt_ok h' x"
  proof
    fix x assume x: "x \<in># csOut s - {#a#}"
    then have "attempt_ok (csHealth s) x" "\<not> attHalfOpen x"
      using inv no_trials [OF rest] by (auto simp: circuit_inv_def dest: in_diffD)
    then show "attempt_ok h' x"
      using inv n h' by (auto simp: circuit_inv_def intro: attempt_ok_bump)
  qed
  moreover have "unat (hGeneration h') = unat (hGeneration (csHealth s)) + 1"
    using inv n h' by (simp add: circuit_inv_def unat_inc)
  ultimately show ?thesis using inv rest h' by (simp add: circuit_inv_def)
qed

lemma circuit_inv_keep:
  assumes inv: "circuit_inv n s" and a: "a \<in># csOut s" "\<not> attHalfOpen a"
    and h': "hGeneration h' = hGeneration (csHealth s)" "hState h' = hState (csHealth s)"
      "halfOpenInFlight h' = halfOpenInFlight (csHealth s)"
  shows "circuit_inv (Suc n) \<lparr>csHealth = h', csOut = csOut s - {#a#}\<rparr>"
proof -
  have "filter_mset attHalfOpen (csOut s - {#a#}) = filter_mset attHalfOpen (csOut s)"
    using a by (simp add: filter_diff_mset)
  moreover have "\<forall>x \<in># csOut s - {#a#}. attempt_ok h' x"
    using inv h' by (auto simp: circuit_inv_def dest: in_diffD intro: attempt_ok_same)
  ultimately show ?thesis using inv h' by (simp add: circuit_inv_def)
qed

lemma circuit_inv_record:
  assumes inv: "circuit_inv n s" and a: "a \<in># csOut s" and n: "Suc n < 2 ^ 64"
  shows "circuit_inv (Suc n)
    \<lparr>csHealth = fst (health_record threshold openFor a outcome (csHealth s) now),
     csOut = csOut s - {#a#}\<rparr>"
proof (cases "attGeneration a = hGeneration (csHealth s)")
  case stale: False
  have "\<not> attHalfOpen a" using inv a stale by (auto simp: circuit_inv_def attempt_ok_def)
  with stale have "fst (health_record threshold openFor a outcome (csHealth s) now) = csHealth s"
    by (simp add: circuit_defs)
  with inv a \<open>\<not> attHalfOpen a\<close> show ?thesis by (simp add: circuit_inv_keep)
next
  case cur: True
  have ok: "attHalfOpen a \<longleftrightarrow> hState (csHealth s) = circuitHalfOpen" "hState (csHealth s) \<noteq> circuitOpen"
    using inv a cur by (auto simp: circuit_inv_def attempt_ok_def)
  let ?h' = "fst (health_record threshold openFor a outcome (csHealth s) now)"
  show ?thesis
  proof (cases "hGeneration ?h' = hGeneration (csHealth s)")
    case True
    with cur ok have "\<not> attHalfOpen a" "hState ?h' = hState (csHealth s)"
      by (auto simp: circuit_defs split: if_splits)
    moreover have "halfOpenInFlight ?h' = halfOpenInFlight (csHealth s)"
      using cur ok inv \<open>\<not> attHalfOpen a\<close> by (auto simp: circuit_defs circuit_inv_def)
    ultimately show ?thesis using inv a True by (simp add: circuit_inv_keep)
  next
    case False
    with cur have "hGeneration ?h' = hGeneration (csHealth s) + 1" "\<not> halfOpenInFlight ?h'"
      by (auto simp: circuit_defs split: if_splits)
    with inv a cur n show ?thesis by (simp add: circuit_inv_retire)
  qed
qed

lemma circuit_inv_step:
  assumes "circuit_step threshold openFor name s t" "circuit_inv n s" "Suc n < 2 ^ 64"
  shows "circuit_inv (Suc n) t"
  using assms
proof (cases rule: circuit_step.cases)
  case (admit now a h' tr)
  with assms show ?thesis by (simp add: circuit_inv_begin)
next
  case (reject now h' tr)
  then have "h' = csHealth s"
    using health_begin_rejected [of name "csHealth s" now] by simp
  with reject assms show ?thesis by (simp add: circuit_inv_def)
next
  case (settle a outcome now)
  with assms show ?thesis by (simp add: circuit_inv_record)
qed

lemma circuit_reach_inv:
  "circuit_reach threshold openFor name n s \<Longrightarrow> n < 2 ^ 64 \<Longrightarrow> circuit_inv n s"
proof (induction rule: circuit_reach.induct)
  case start
  show ?case by (rule circuit_inv_start)
next
  case (step n s t)
  then have "circuit_inv n s" by linarith
  with step show ?case by (simp add: circuit_inv_step)
qed

section \<open>The interface that the service relies on\<close>

text \<open>
  Admission control as its client sees it: \<open>admit\<close> hands out an attempt exactly when
  \<open>admissible\<close> says so and changes nothing otherwise, and settling an attempt right after
  its admission gives back a state in which no trial slot is taken.
\<close>

locale admission_control =
  fixes admit :: "'t \<Rightarrow> string \<Rightarrow> instant \<Rightarrow> 'a option \<times> 't \<times> 'e list"
    and record_outcome :: "'t \<Rightarrow> 'a \<Rightarrow> providerOutcome \<Rightarrow> instant \<Rightarrow> 't \<times> 'e list"
    and admissible :: "'t \<Rightarrow> string \<Rightarrow> instant \<Rightarrow> bool"
    and quiet :: "'t \<Rightarrow> bool"
  assumes admit_iff: "fst (admit t n now) \<noteq> None \<longleftrightarrow> admissible t n now"
    and admit_refused: "admit t n now = (None, t', tr) \<Longrightarrow> t' = t \<and> tr = []"
    and settle_quiet: "quiet t \<Longrightarrow> admit t n now = (Some a, t', tr) \<Longrightarrow>
      quiet (fst (record_outcome t' a outcome now'))"
begin

text \<open>One guarded call: admission, the call with its outcome, and the settlement.\<close>

definition guarded_call :: "'t \<Rightarrow> string \<times> instant \<times> providerOutcome \<times> instant \<Rightarrow> 't" where
  "guarded_call t c = (case c of (n, now, outcome, now') \<Rightarrow>
     (case admit t n now of
        (None, t', _) \<Rightarrow> t'
      | (Some a, t', _) \<Rightarrow> fst (record_outcome t' a outcome now')))"

lemma guarded_call_quiet: "quiet t \<Longrightarrow> quiet (guarded_call t c)"
  by (auto simp: guarded_call_def settle_quiet dest: admit_refused
      split: prod.splits option.splits)

lemma guarded_calls_quiet: "quiet t \<Longrightarrow> quiet (foldl guarded_call t cs)"
  by (induction cs arbitrary: t) (simp_all add: guarded_call_quiet)

lemma refused_iff: "fst (admit t n now) = None \<longleftrightarrow> \<not> admissible t n now"
  using admit_iff by blast

end

text \<open>No trial slot of the tracker is taken.\<close>

definition tracker_quiet :: "healthTracker \<Rightarrow> bool" where
  "tracker_quiet t \<longleftrightarrow> (\<forall>name h. hProviders t name = Some h \<longrightarrow> \<not> halfOpenInFlight h)"

lemma tracker_quiet_new: "tracker_quiet (newHealthTracker names config)"
  by (simp add: tracker_quiet_def newHealthTracker_def new_health_def)

lemma health_record_releases:
  "attGeneration a = hGeneration h \<Longrightarrow> (attHalfOpen a \<longleftrightarrow> hState h = circuitHalfOpen) \<Longrightarrow>
   (halfOpenInFlight h \<longrightarrow> hState h = circuitHalfOpen) \<Longrightarrow>
   \<not> halfOpenInFlight (fst (health_record threshold openFor a outcome h now))"
  by (auto simp: circuit_defs)

lemma health_begin_flag:
  "health_begin name h now = (Some a, h', tr) \<Longrightarrow> \<not> halfOpenInFlight h \<Longrightarrow>
   halfOpenInFlight h' \<longrightarrow> hState h' = circuitHalfOpen"
  by (auto simp: health_begin_def Let_def split: circuitState.splits if_splits)

lemma tracker_begin_Some:
  assumes "tracker_begin t n now = (Some a, t', tr)"
  obtains h h' where "hProviders t n = Some h" "health_begin n h now = (Some a, h', tr)"
    "t' = t\<lparr>hProviders := (hProviders t)(n \<mapsto> h')\<rparr>" "attName a = n"
  using assms health_begin_attempt
  by (auto simp: tracker_begin_def split: option.splits prod.splits)

interpretation cb: admission_control tracker_begin recordHealthOutcome tracker_eligible tracker_quiet
proof
  fix t :: healthTracker and n now
  show "fst (tracker_begin t n now) \<noteq> None \<longleftrightarrow> tracker_eligible t n now"
  proof (cases "hProviders t n")
    case (Some h)
    then show ?thesis
      using health_begin_eligible [of n h now]
      by (cases "health_begin n h now") (simp add: tracker_begin_def tracker_eligible_def)
  qed (simp add: tracker_begin_def tracker_eligible_def)
next
  fix t t' :: healthTracker and n now tr
  assume refused: "tracker_begin t n now = (None, t', tr)"
  show "t' = t \<and> tr = []"
  proof (cases "hProviders t n")
    case (Some h)
    with refused show ?thesis
      using health_begin_rejected [of n h now]
      by (cases "health_begin n h now") (auto simp: tracker_begin_def map_upd_triv)
  qed (use refused in \<open>simp add: tracker_begin_def\<close>)
next
  fix t t' :: healthTracker and n now a tr outcome now'
  assume q: "tracker_quiet t" and b: "tracker_begin t n now = (Some a, t', tr)"
  from b obtain h h' where h: "hProviders t n = Some h" "health_begin n h now = (Some a, h', tr)"
    "t' = t\<lparr>hProviders := (hProviders t)(n \<mapsto> h')\<rparr>" "attName a = n"
    by (rule tracker_begin_Some)
  have "\<not> halfOpenInFlight h" using q h(1) by (simp add: tracker_quiet_def)
  then have "\<not> halfOpenInFlight (fst (health_record x y a outcome h' now'))" for x y
    using health_begin_attempt [OF h(2)] health_begin_flag [OF h(2)]
    by (intro health_record_releases) auto
  then show "tracker_quiet (fst (recordHealthOutcome t' a outcome now'))"
    using q h by (simp add: tracker_quiet_def recordHealthOutcome_def case_prod_unfold)
qed

text \<open>\<open>ignore\<close> is what the service calls when its client went away: the same law.\<close>

lemma tracker_ignore_eq:
  "tracker_ignore t a = fst (recordHealthOutcome t a outcomeCanceled now)"
  by (simp add: tracker_ignore_def recordHealthOutcome_def health_record_def degradesHealth_def
      split: option.split)

lemma tracker_ignore_quiet:
  "tracker_quiet t \<Longrightarrow> tracker_begin t n now = (Some a, t', tr) \<Longrightarrow> tracker_quiet (tracker_ignore t' a)"
  by (simp add: tracker_ignore_eq [where now = 0] cb.settle_quiet)

lemma tracker_begin_config [frame_simps]:
  "tracker_begin t n now = (a, t', tr) \<Longrightarrow>
     failureThreshold t' = failureThreshold t \<and> openDuration t' = openDuration t \<and>
     dom (hProviders t') = dom (hProviders t)"
  by (auto simp: tracker_begin_def split: option.splits prod.splits if_splits)

lemma recordHealthOutcome_dom [frame_simps]:
  "dom (hProviders (fst (recordHealthOutcome t a outcome now))) = dom (hProviders t)"
  by (auto simp: recordHealthOutcome_def split: option.splits prod.splits)

section \<open>Consecutive failures\<close>

text \<open>Requests one after the other on one provider, each admitted and each failing, at the clock
  readings given.\<close>

fun fail_run :: "int \<Rightarrow> duration \<Rightarrow> string \<Rightarrow> providerHealth \<Rightarrow> (instant \<times> instant) list \<Rightarrow> providerHealth" where
  "fail_run threshold openFor name h [] = h"
| "fail_run threshold openFor name h ((now, now') # ts) =
     (case health_begin name h now of
        (Some a, h', _) \<Rightarrow>
          fail_run threshold openFor name (fst (health_failure threshold openFor a h' now')) ts
      | (None, h', _) \<Rightarrow> fail_run threshold openFor name h' ts)"

lemma fail_closed:
  assumes "hState h = circuitClosed" "0 \<le> consecutiveFailures h" "consecutiveFailures h < MaxInt64"
  shows "fail_run threshold openFor name h ((now, now') # ts) =
    fail_run threshold openFor name
      (let h1 = h\<lparr>hLastFailure := now', consecutiveFailures := consecutiveFailures h + 1\<rparr> in
       if consecutiveFailures h + 1 \<ge> threshold
       then h1\<lparr>hState := circuitOpen, hGeneration := hGeneration h + 1,
               openUntil := time_add now' openFor, halfOpenInFlight := False\<rparr>
       else h1) ts"
proof -
  have "i64_wrap (consecutiveFailures h + 1) = consecutiveFailures h + 1"
    using assms by (simp add: in_i64_def MinInt64_def)
  with assms show ?thesis
    by (simp add: health_begin_def health_failure_def Let_def)
qed

lemma fail_run_below:
  assumes "hState h = circuitClosed" "0 \<le> consecutiveFailures h"
    "consecutiveFailures h + int (length ts) < threshold" "threshold \<le> MaxInt64"
  shows "hState (fail_run threshold openFor name h ts) = circuitClosed \<and>
    consecutiveFailures (fail_run threshold openFor name h ts) = consecutiveFailures h + int (length ts)"
  using assms
proof (induction ts arbitrary: h)
  case Nil
  then show ?case by simp
next
  case (Cons t ts)
  obtain now now' where t: "t = (now, now')" by (cases t)
  let ?h = "h\<lparr>hLastFailure := now', consecutiveFailures := consecutiveFailures h + 1\<rparr>"
  have "fail_run threshold openFor name h (t # ts) = fail_run threshold openFor name ?h ts"
    using Cons.prems by (subst t, subst fail_closed) (simp_all add: Let_def)
  moreover have "hState (fail_run threshold openFor name ?h ts) = circuitClosed \<and>
      consecutiveFailures (fail_run threshold openFor name ?h ts) = consecutiveFailures ?h + int (length ts)"
    using Cons.prems by (intro Cons.IH) simp_all
  ultimately show ?case by simp
qed

lemma fail_run_append:
  "fail_run threshold openFor name h (ts @ us) =
   fail_run threshold openFor name (fail_run threshold openFor name h ts) us"
  by (induction ts arbitrary: h) (auto split: prod.split option.split)

section \<open>Properties\<close>

text \<open>C3: Whatever the interleaving of concurrent requests, outcomes and clock readings, as long as
  fewer than 2^64 operations have run on the provider, at most one half-open trial is outstanding,
  exactly when the trial flag is set, and then the circuit is half-open.\<close>

theorem single_trial:
  assumes "circuit_reach threshold openFor name n s" and "n < 2 ^ 64"
  shows "size (filter_mset attHalfOpen (csOut s)) = (if halfOpenInFlight (csHealth s) then 1 else 0)
    \<and> (halfOpenInFlight (csHealth s) \<longrightarrow> hState (csHealth s) = circuitHalfOpen)"
  using circuit_reach_inv [OF assms] by (simp add: circuit_inv_def)

theorem single_trial_witness:
  "\<exists>s. circuit_reach 1 10 ''openai'' 3 s \<and> size (filter_mset attHalfOpen (csOut s)) = 1 \<and>
     halfOpenInFlight (csHealth s)"
proof -
  let ?a = "\<lparr>attName = ''openai'', attHalfOpen = False, attGeneration = 0\<rparr>"
  let ?h = "new_health\<lparr>hState := circuitOpen, hGeneration := 1, consecutiveFailures := 1,
    hLastFailure := 1, openUntil := 11\<rparr>"
  let ?s = "\<lparr>csHealth = ?h\<lparr>hState := circuitHalfOpen, hGeneration := 2, halfOpenInFlight := True\<rparr>,
    csOut = {#\<lparr>attName = ''openai'', attHalfOpen = True, attGeneration = 2\<rparr>#}\<rparr>"
  have 1: "circuit_reach 1 10 ''openai'' 1 \<lparr>csHealth = new_health, csOut = {#?a#}\<rparr>"
    using circuit_reach.step [OF circuit_reach.start circuit_step.admit [where a = ?a]]
    by (simp add: health_begin_def new_health_def)
  have "fst (health_record 1 10 ?a outcomeTimeout new_health 1) = ?h"
    by (simp add: circuit_defs degradesHealth_def new_health_def time_add_def in_i64_def
        MinInt64_def MaxInt64_def)
  then have 2: "circuit_reach 1 10 ''openai'' 2 \<lparr>csHealth = ?h, csOut = {#}\<rparr>"
    using circuit_reach.step [OF 1 circuit_step.settle [where a = ?a and outcome = outcomeTimeout and now = 1]]
    by (simp add: numeral_2_eq_2)
  have 3: "circuit_reach 1 10 ''openai'' 3 ?s"
    using circuit_reach.step [OF 2 circuit_step.admit [where now = 20]]
    by (simp add: health_begin_def numeral_3_eq_3)
  from single_trial [OF 3] 3 show ?thesis by (intro exI [of _ ?s]) simp
qed

text \<open>C4: A provider is never locked out. In every reachable state (of fewer than 2^64 operations) with
  no attempt outstanding, a request that arrives at or after the end of the open period is
  admitted, and no abandoned trial keeps the slot taken.\<close>

theorem never_locked_out:
  assumes "circuit_reach threshold openFor name n s" and "n < 2 ^ 64" and "csOut s = {#}"
    and "openUntil (csHealth s) \<le> now"
  shows "\<exists>a h' tr. health_begin name (csHealth s) now = (Some a, h', tr) \<and> \<not> halfOpenInFlight (csHealth s)"
proof -
  have "\<not> halfOpenInFlight (csHealth s)"
    using circuit_reach_inv [OF assms(1,2)] assms(3) by (auto simp: circuit_inv_def)
  then have "health_eligible (csHealth s) now"
    using assms(4) by (simp add: health_eligible_def split: circuitState.split)
  then show ?thesis
    using \<open>\<not> halfOpenInFlight (csHealth s)\<close> health_begin_eligible [of name "csHealth s" now]
    by (cases "health_begin name (csHealth s) now") auto
qed

theorem never_locked_out_witness:
  "\<exists>a h' tr. health_begin ''mock'' new_health 5 = (Some a, h', tr)"
proof -
  have "circuit_reach 3 30 ''mock'' 0 \<lparr>csHealth = new_health, csOut = {#}\<rparr>"
    by (rule circuit_reach.start)
  moreover have "openUntil new_health \<le> 5" by (simp add: new_health_def)
  ultimately show ?thesis
    using never_locked_out [of 3 30 "''mock''" 0 "\<lparr>csHealth = new_health, csOut = {#}\<rparr>" 5] by simp
qed

text \<open>The circuit opens at the threshold and not before. Starting from a fresh provider, any number of
  consecutive failures below the configured threshold leaves the circuit closed with exactly that
  count; the failure that reaches the threshold opens it until the time of that failure plus the
  open duration; from then on every request before that instant is refused without any change,
  and the first one at or after it is admitted as the half-open trial.\<close>

lemma opens_at_threshold:
  fixes threshold openFor name ts t t'
  defines "opened \<equiv> fail_run threshold openFor name new_health (ts @ [(t, t')])"
  assumes "0 < threshold" and "threshold \<le> MaxInt64" and "length ts = nat threshold - 1"
  shows "(\<forall>k \<le> length ts. hState (fail_run threshold openFor name new_health (take k ts)) = circuitClosed
      \<and> consecutiveFailures (fail_run threshold openFor name new_health (take k ts)) = int k)
    \<and> hState opened = circuitOpen \<and> openUntil opened = t' + openFor
    \<and> (\<forall>now < t' + openFor. health_begin name opened now = (None, opened, []))
    \<and> (\<forall>now \<ge> t' + openFor. \<exists>a h'. attHalfOpen a \<and>
         health_begin name opened now = (Some a, h', [(name, circuitOpen, circuitHalfOpen)]))"
proof -
  have new: "hState new_health = circuitClosed" "consecutiveFailures new_health = 0"
    by (simp_all add: new_health_def)
  have below: "hState (fail_run threshold openFor name new_health (take k ts)) = circuitClosed
      \<and> consecutiveFailures (fail_run threshold openFor name new_health (take k ts)) = int k"
    if "k \<le> length ts" for k
    using fail_run_below [of new_health "take k ts" threshold openFor name] assms(2-4) new that by auto
  let ?h = "fail_run threshold openFor name new_health ts"
  have h: "hState ?h = circuitClosed" "consecutiveFailures ?h = threshold - 1"
    using below [of "length ts"] assms(2-4) by auto
  have "opened = ?h\<lparr>hLastFailure := t', consecutiveFailures := threshold, hState := circuitOpen,
         hGeneration := hGeneration ?h + 1, openUntil := time_add t' openFor, halfOpenInFlight := False\<rparr>"
    unfolding opened_def fail_run_append using h assms(2-4)
    by (subst fail_closed) (simp_all add: Let_def)
  with below show ?thesis
    by (simp add: time_add_def health_begin_def Let_def)
qed

lemma opens_at_threshold_witness:
  "hState (fail_run 2 30 ''openai'' new_health [(0, 1), (2, 3)]) = circuitOpen \<and>
   openUntil (fail_run 2 30 ''openai'' new_health [(0, 1), (2, 3)]) = 33"
  using opens_at_threshold [of 2 "[(0, 1)]" 30 "''openai''" 2 3]
  by (simp add: MaxInt64_def)

end
