(* ===== verification/Telemetry.thy ===== *)
theory Telemetry
  imports Outcome
begin

text \<open>
  Request telemetry (\<open>internal/gateway/telemetry.go\<close>): per provider, the outcome counters
  (64-bit, as in the code) and three ring buffers of samples. The two ring types of the code differ
  only in their element type and share one contract, stated as the locale
  \<open>sample_window\<close> and interpreted for both. The lemmas show that a ring always reports the
  most recent samples in the order they were added, and that the counters agree with the history
  of operations.
\<close>

section \<open>Ring buffers\<close>

definition defaultTelemetrySampleCapacity :: nat where
  "defaultTelemetrySampleCapacity = 64"

record LatencySample =
  smDuration :: duration
  smObservedAt :: instant

record 'a ring =
  rgValues :: "'a list"
  rgNext :: nat
  rgCount :: nat

type_synonym latencyRing = "LatencySample ring"
type_synonym durationRing = "duration ring"

definition ring_new :: "nat \<Rightarrow> 'a \<Rightarrow> 'a ring" where
  "ring_new capacity zero = \<lparr>rgValues = replicate capacity zero, rgNext = 0, rgCount = 0\<rparr>"

definition ring_add :: "'a ring \<Rightarrow> 'a \<Rightarrow> 'a ring" where
  "ring_add r v =
     (if length (rgValues r) = 0 then r
      else r\<lparr>rgValues := (rgValues r)[rgNext r := v],
             rgNext := (rgNext r + 1) mod length (rgValues r),
             rgCount := (if rgCount r < length (rgValues r) then rgCount r + 1 else rgCount r)\<rparr>)"

definition ring_snapshot :: "'a ring \<Rightarrow> 'a list" where
  "ring_snapshot r =
     (let start = (if rgCount r = length (rgValues r) then rgNext r else 0)
      in map (\<lambda>i. rgValues r ! ((start + i) mod length (rgValues r))) [0..<rgCount r])"

definition newLatencyRing :: "nat \<Rightarrow> latencyRing" where
  "newLatencyRing capacity = ring_new capacity \<lparr>smDuration = 0, smObservedAt = time_zero\<rparr>"

definition latencyRing_add :: "latencyRing \<Rightarrow> duration \<Rightarrow> instant \<Rightarrow> latencyRing" where
  "latencyRing_add r d observedAt = ring_add r \<lparr>smDuration = d, smObservedAt = observedAt\<rparr>"

definition latencyRing_snapshot :: "latencyRing \<Rightarrow> LatencySample list" where
  "latencyRing_snapshot r = ring_snapshot r"

definition latencyRing_durations :: "latencyRing \<Rightarrow> duration list" where
  "latencyRing_durations r = map smDuration (latencyRing_snapshot r)"

definition newDurationRing :: "nat \<Rightarrow> durationRing" where
  "newDurationRing capacity = ring_new capacity 0"

definition durationRing_add :: "durationRing \<Rightarrow> duration \<Rightarrow> durationRing" where
  "durationRing_add r v = ring_add r v"

definition durationRing_snapshot :: "durationRing \<Rightarrow> duration list" where
  "durationRing_snapshot r = ring_snapshot r"

section \<open>Counters and attempts\<close>

record telemetryCounters =
  tmAttempts :: u64
  tmSuccesses :: u64
  tmFailures :: u64
  tmCancellations :: u64
  tmTimeouts :: u64
  tmUnavailableFailures :: u64
  tmRateLimitFailures :: u64
  tmInvalidRequestFailures :: u64
  tmInternalFailures :: u64
  tmOtherFailures :: u64
  tmLastAttempt :: instant
  tmLastSuccess :: instant
  tmLastFailure :: instant

record providerTelemetry = telemetryCounters +
  nonStreamingLatencies :: latencyRing
  streamingTTFC :: latencyRing
  streamingDurations :: durationRing

type_synonym telemetryTracker = "string \<rightharpoonup> providerTelemetry"

record telemetryAttempt =
  taName :: string
  taStarted :: instant
  firstContentRecorded :: bool

record ProviderTelemetrySnapshot =
  tsProvider :: string
  tsCounters :: telemetryCounters
  NonStreamingLatencies :: "duration list"
  StreamingTimeToFirstContent :: "duration list"
  StreamingDurations :: "duration list"
  NonStreamingLatencySamples :: "LatencySample list"
  StreamingFirstContentSamples :: "LatencySample list"

definition new_telemetry :: "nat \<Rightarrow> providerTelemetry" where
  "new_telemetry sampleCapacity =
     \<lparr>tmAttempts = 0, tmSuccesses = 0, tmFailures = 0, tmCancellations = 0, tmTimeouts = 0,
      tmUnavailableFailures = 0, tmRateLimitFailures = 0, tmInvalidRequestFailures = 0,
      tmInternalFailures = 0, tmOtherFailures = 0, tmLastAttempt = time_zero,
      tmLastSuccess = time_zero, tmLastFailure = time_zero,
      nonStreamingLatencies = newLatencyRing sampleCapacity,
      streamingTTFC = newLatencyRing sampleCapacity,
      streamingDurations = newDurationRing sampleCapacity\<rparr>"

definition newTelemetryTracker :: "string list \<Rightarrow> nat \<Rightarrow> telemetryTracker" where
  "newTelemetryTracker providerNames sampleCapacity =
     (\<lambda>name. if name \<in> set providerNames then Some (new_telemetry sampleCapacity) else None)"

definition recordOutcome :: "providerTelemetry \<Rightarrow> providerOutcome \<Rightarrow> instant \<Rightarrow> providerTelemetry" where
  "recordOutcome p outcome now =
     (case outcome of
        outcomeSuccess \<Rightarrow> p\<lparr>tmSuccesses := tmSuccesses p + 1, tmLastSuccess := now\<rparr>
      | outcomeCanceled \<Rightarrow> p\<lparr>tmCancellations := tmCancellations p + 1\<rparr>
      | _ \<Rightarrow>
          (let q = p\<lparr>tmFailures := tmFailures p + 1, tmLastFailure := now\<rparr> in
           case outcome of
             outcomeTimeout \<Rightarrow> q\<lparr>tmTimeouts := tmTimeouts p + 1\<rparr>
           | outcomeUnavailable \<Rightarrow> q\<lparr>tmUnavailableFailures := tmUnavailableFailures p + 1\<rparr>
           | outcomeRateLimited \<Rightarrow> q\<lparr>tmRateLimitFailures := tmRateLimitFailures p + 1\<rparr>
           | outcomeInvalidRequest \<Rightarrow> q\<lparr>tmInvalidRequestFailures := tmInvalidRequestFailures p + 1\<rparr>
           | outcomeInternal \<Rightarrow> q\<lparr>tmInternalFailures := tmInternalFailures p + 1\<rparr>
           | _ \<Rightarrow> q\<lparr>tmOtherFailures := tmOtherFailures p + 1\<rparr>))"

text \<open>The bodies of the methods between lock and unlock, on the attempt's provider.\<close>

definition telemetry_started :: "providerTelemetry \<Rightarrow> instant \<Rightarrow> providerTelemetry" where
  "telemetry_started p now = p\<lparr>tmAttempts := tmAttempts p + 1, tmLastAttempt := now\<rparr>"

definition telemetry_firstContent :: "providerTelemetry \<Rightarrow> instant \<Rightarrow> instant \<Rightarrow> providerTelemetry" where
  "telemetry_firstContent p started now =
     p\<lparr>streamingTTFC := latencyRing_add (streamingTTFC p) (time_sub now started) now\<rparr>"

definition telemetry_nonStreaming ::
  "providerTelemetry \<Rightarrow> instant \<Rightarrow> providerOutcome \<Rightarrow> instant \<Rightarrow> providerTelemetry" where
  "telemetry_nonStreaming p started outcome now =
     (let q = recordOutcome p outcome now in
      q\<lparr>nonStreamingLatencies := latencyRing_add (nonStreamingLatencies q) (time_sub now started) now\<rparr>)"

definition telemetry_streaming ::
  "providerTelemetry \<Rightarrow> instant \<Rightarrow> providerOutcome \<Rightarrow> instant \<Rightarrow> providerTelemetry" where
  "telemetry_streaming p started outcome now =
     (let q = recordOutcome p outcome now in
      q\<lparr>streamingDurations := durationRing_add (streamingDurations q) (time_sub now started)\<rparr>)"

text \<open>The methods. A nil attempt (an unknown provider) does nothing.\<close>

definition telemetry_begin ::
  "telemetryTracker \<Rightarrow> string \<Rightarrow> instant \<Rightarrow> telemetryAttempt option \<times> telemetryTracker" where
  "telemetry_begin t providerName now =
     (case t providerName of
        None \<Rightarrow> (None, t)
      | Some p \<Rightarrow>
          (Some \<lparr>taName = providerName, taStarted = now, firstContentRecorded = False\<rparr>,
           t(providerName \<mapsto> telemetry_started p now)))"

definition update_telemetry ::
  "telemetryTracker \<Rightarrow> string \<Rightarrow> (providerTelemetry \<Rightarrow> providerTelemetry) \<Rightarrow> telemetryTracker" where
  "update_telemetry t name f = (case t name of None \<Rightarrow> t | Some p \<Rightarrow> t(name \<mapsto> f p))"

definition firstContent ::
  "telemetryTracker \<Rightarrow> telemetryAttempt option \<Rightarrow> instant
   \<Rightarrow> duration option \<times> telemetryAttempt option \<times> telemetryTracker" where
  "firstContent t a now =
     (case a of
        None \<Rightarrow> (None, None, t)
      | Some att \<Rightarrow>
          if firstContentRecorded att then (None, a, t)
          else (Some (time_sub now (taStarted att)), Some (att\<lparr>firstContentRecorded := True\<rparr>),
                update_telemetry t (taName att)
                  (\<lambda>p. telemetry_firstContent p (taStarted att) now)))"

definition finishNonStreaming ::
  "telemetryTracker \<Rightarrow> telemetryAttempt option \<Rightarrow> providerOutcome \<Rightarrow> instant
   \<Rightarrow> duration \<times> telemetryTracker" where
  "finishNonStreaming t a outcome now =
     (case a of
        None \<Rightarrow> (0, t)
      | Some att \<Rightarrow>
          (time_sub now (taStarted att),
           update_telemetry t (taName att)
             (\<lambda>p. telemetry_nonStreaming p (taStarted att) outcome now)))"

definition finishStreaming ::
  "telemetryTracker \<Rightarrow> telemetryAttempt option \<Rightarrow> providerOutcome \<Rightarrow> instant
   \<Rightarrow> duration \<times> telemetryTracker" where
  "finishStreaming t a outcome now =
     (case a of
        None \<Rightarrow> (0, t)
      | Some att \<Rightarrow>
          (time_sub now (taStarted att),
           update_telemetry t (taName att)
             (\<lambda>p. telemetry_streaming p (taStarted att) outcome now)))"

definition telemetry_snapshot ::
  "telemetryTracker \<Rightarrow> string \<Rightarrow> ProviderTelemetrySnapshot option" where
  "telemetry_snapshot t providerName =
     (case t providerName of
        None \<Rightarrow> None
      | Some p \<Rightarrow> Some
          \<lparr>tsProvider = providerName, tsCounters = telemetryCounters.truncate p,
           NonStreamingLatencies = latencyRing_durations (nonStreamingLatencies p),
           StreamingTimeToFirstContent = latencyRing_durations (streamingTTFC p),
           StreamingDurations = durationRing_snapshot (streamingDurations p),
           NonStreamingLatencySamples = latencyRing_snapshot (nonStreamingLatencies p),
           StreamingFirstContentSamples = latencyRing_snapshot (streamingTTFC p)\<rparr>)"

section \<open>The window contract\<close>

text \<open>
  A bounded window over a growing history: it starts empty, and after any history it shows the last
  \<open>cap\<close> entries in order. \<open>holds cap xs r\<close> says that \<open>r\<close> represents the history
  \<open>xs\<close>.
\<close>

locale sample_window =
  fixes fresh :: "nat \<Rightarrow> 'r"
    and push :: "'r \<Rightarrow> 'a \<Rightarrow> 'r"
    and contents :: "'r \<Rightarrow> 'a list"
    and holds :: "nat \<Rightarrow> 'a list \<Rightarrow> 'r \<Rightarrow> bool"
  assumes holds_fresh: "holds cap [] (fresh cap)"
    and holds_push: "holds cap xs r \<Longrightarrow> holds cap (xs @ [x]) (push r x)"
    and contents_holds: "holds cap xs r \<Longrightarrow> contents r = drop (length xs - cap) xs"
begin

lemma holds_pushes: "holds cap xs r \<Longrightarrow> holds cap (xs @ ys) (foldl push r ys)"
proof (induction ys arbitrary: xs r)
  case (Cons y ys)
  from Cons.IH [OF holds_push [OF Cons.prems]] show ?case by simp
qed simp

lemma window: "contents (foldl push (fresh cap) ys) = drop (length ys - cap) ys"
  using contents_holds [OF holds_pushes [OF holds_fresh]] by simp

lemma window_bounded: "length (contents (foldl push (fresh cap) ys)) \<le> cap"
  by (simp add: window)

lemma window_complete: "length ys \<le> cap \<Longrightarrow> contents (foldl push (fresh cap) ys) = ys"
  by (simp add: window)

lemma window_latest:
  "0 < cap \<Longrightarrow> ys \<noteq> [] \<Longrightarrow> last (contents (foldl push (fresh cap) ys)) = last ys"
  unfolding window by (simp add: last_drop)

end

text \<open>The ring of capacity \<open>cap\<close> after the history \<open>xs\<close>: entry \<open>j\<close> of the history, if it
  is among the last \<open>cap\<close>, is at index \<open>j mod cap\<close>.\<close>

definition ring_holds :: "nat \<Rightarrow> 'a list \<Rightarrow> 'a ring \<Rightarrow> bool" where
  "ring_holds cap xs r \<longleftrightarrow>
     length (rgValues r) = cap \<and> rgCount r = min (length xs) cap \<and>
     (0 < cap \<longrightarrow> rgNext r = length xs mod cap) \<and>
     (\<forall>j < length xs. length xs \<le> j + cap \<longrightarrow> rgValues r ! (j mod cap) = xs ! j)"

lemma ring_holds_new: "ring_holds cap [] (ring_new cap z)"
  by (simp add: ring_holds_def ring_new_def)

lemma mod_distinct:
  fixes j n cap :: nat
  assumes "j < n" "n < j + cap"
  shows "j mod cap \<noteq> n mod cap"
proof
  assume "j mod cap = n mod cap"
  then have "n mod cap = j mod cap" by simp
  then have "cap dvd n - j" using assms by (subst (asm) mod_eq_dvd_iff_nat) auto
  then show False using assms by (auto dest: dvd_imp_le)
qed

lemma ring_holds_add:
  assumes "ring_holds cap xs r"
  shows "ring_holds cap (xs @ [x]) (ring_add r x)"
proof (cases "cap = 0")
  case True
  with assms show ?thesis by (simp add: ring_holds_def ring_add_def)
next
  case False
  have len: "length (rgValues r) = cap" and nxt: "rgNext r = length xs mod cap"
    and cnt: "rgCount r = min (length xs) cap"
    and old: "\<And>j. j < length xs \<Longrightarrow> length xs \<le> j + cap \<Longrightarrow> rgValues r ! (j mod cap) = xs ! j"
    using assms False by (auto simp: ring_holds_def)
  have "(rgValues r)[rgNext r := x] ! (j mod cap) = (xs @ [x]) ! j"
    if "j < Suc (length xs)" "Suc (length xs) \<le> j + cap" for j
  proof (cases "j = length xs")
    case True
    then show ?thesis using len nxt False by simp
  next
    case neq: False
    then have "j mod cap \<noteq> length xs mod cap"
      using that by (intro mod_distinct) auto
    then show ?thesis using old [of j] neq that len nxt by (simp add: nth_append)
  qed
  moreover have "(length xs mod cap + 1) mod cap = Suc (length xs) mod cap"
    by (simp add: mod_Suc_eq)
  ultimately show ?thesis
    using len nxt cnt False by (auto simp: ring_holds_def ring_add_def)
qed

lemma ring_snapshot_holds:
  assumes "ring_holds cap xs r"
  shows "ring_snapshot r = drop (length xs - cap) xs"
proof (cases "length xs < cap")
  case True
  with assms show ?thesis
    by (intro nth_equalityI) (auto simp: ring_holds_def ring_snapshot_def Let_def)
next
  case False
  have len: "length (rgValues r) = cap" "rgCount r = cap"
    using assms False by (auto simp: ring_holds_def)
  have "rgValues r ! ((rgNext r + i) mod cap) = xs ! (length xs - cap + i)" if "i < cap" for i
  proof -
    let ?j = "length xs - cap + i"
    have "(rgNext r + i) mod cap = (length xs + i) mod cap"
      using assms that by (simp add: ring_holds_def mod_add_left_eq)
    also have "\<dots> = (?j + cap) mod cap" using False by simp
    also have "\<dots> = ?j mod cap" by simp
    finally show ?thesis using assms that False by (simp add: ring_holds_def)
  qed
  then show ?thesis
    using len False by (intro nth_equalityI) (auto simp: ring_snapshot_def Let_def)
qed

lemma sample_eta [simp]: "\<lparr>smDuration = smDuration x, smObservedAt = smObservedAt x\<rparr> = x"
  by (cases x) simp

lemmas ring_facts = ring_holds_new ring_holds_add ring_snapshot_holds

interpretation latency_window: sample_window newLatencyRing
  "\<lambda>r s. latencyRing_add r (smDuration s) (smObservedAt s)" latencyRing_snapshot ring_holds
  by unfold_locales
    (simp_all add: newLatencyRing_def latencyRing_add_def latencyRing_snapshot_def ring_facts)

interpretation duration_window: sample_window newDurationRing durationRing_add
  durationRing_snapshot ring_holds
  by unfold_locales
    (simp_all add: newDurationRing_def durationRing_add_def durationRing_snapshot_def ring_facts)

section \<open>Counters against the history of operations\<close>

text \<open>The operations on one provider, as its mutex orders them; \<open>started\<close> is the start of the
  attempt the operation belongs to.\<close>

datatype telemetry_op =
    OpBegin instant
  | OpFirstContent instant instant
  | OpFinishNonStreaming instant providerOutcome instant
  | OpFinishStreaming instant providerOutcome instant

fun telemetry_apply :: "providerTelemetry \<Rightarrow> telemetry_op \<Rightarrow> providerTelemetry" where
  "telemetry_apply p (OpBegin now) = telemetry_started p now"
| "telemetry_apply p (OpFirstContent started now) = telemetry_firstContent p started now"
| "telemetry_apply p (OpFinishNonStreaming started outcome now) =
     telemetry_nonStreaming p started outcome now"
| "telemetry_apply p (OpFinishStreaming started outcome now) =
     telemetry_streaming p started outcome now"

fun op_outcome :: "telemetry_op \<Rightarrow> providerOutcome option" where
  "op_outcome (OpFinishNonStreaming _ outcome _) = Some outcome"
| "op_outcome (OpFinishStreaming _ outcome _) = Some outcome"
| "op_outcome _ = None"

fun op_completion :: "telemetry_op \<Rightarrow> LatencySample list" where
  "op_completion (OpFinishNonStreaming started _ now) =
     [\<lparr>smDuration = time_sub now started, smObservedAt = now\<rparr>]"
| "op_completion _ = []"

fun op_ttfc :: "telemetry_op \<Rightarrow> LatencySample list" where
  "op_ttfc (OpFirstContent started now) =
     [\<lparr>smDuration = time_sub now started, smObservedAt = now\<rparr>]"
| "op_ttfc _ = []"

fun op_begins :: "telemetry_op \<Rightarrow> bool" where
  "op_begins (OpBegin _) = True"
| "op_begins _ = False"

definition outcomes_of :: "telemetry_op list \<Rightarrow> providerOutcome list" where
  "outcomes_of ops = List.map_filter op_outcome ops"

definition count_outcome :: "providerOutcome \<Rightarrow> telemetry_op list \<Rightarrow> u64" where
  "count_outcome outcome ops = word_of_nat (count_list (outcomes_of ops) outcome)"

text \<open>The state of a provider that has seen the operations \<open>ops\<close>.\<close>

definition telemetry_reflects :: "nat \<Rightarrow> telemetry_op list \<Rightarrow> providerTelemetry \<Rightarrow> bool" where
  "telemetry_reflects cap ops p \<longleftrightarrow>
     tmAttempts p = word_of_nat (length (filter op_begins ops)) \<and>
     tmSuccesses p = count_outcome outcomeSuccess ops \<and>
     tmCancellations p = count_outcome outcomeCanceled ops \<and>
     tmTimeouts p = count_outcome outcomeTimeout ops \<and>
     tmUnavailableFailures p = count_outcome outcomeUnavailable ops \<and>
     tmRateLimitFailures p = count_outcome outcomeRateLimited ops \<and>
     tmInvalidRequestFailures p = count_outcome outcomeInvalidRequest ops \<and>
     tmInternalFailures p = count_outcome outcomeInternal ops \<and>
     tmOtherFailures p = count_outcome outcomeOtherFailure ops \<and>
     tmFailures p = tmTimeouts p + tmUnavailableFailures p + tmRateLimitFailures p
       + tmInvalidRequestFailures p + tmInternalFailures p + tmOtherFailures p \<and>
     ring_holds cap (concat (map op_completion ops)) (nonStreamingLatencies p) \<and>
     ring_holds cap (concat (map op_ttfc ops)) (streamingTTFC p)"

lemma count_outcome_Nil [simp]: "count_outcome outcome [] = 0"
  by (simp add: count_outcome_def outcomes_of_def)

lemma count_outcome_snoc [simp]:
  "count_outcome outcome (ops @ [x]) =
     count_outcome outcome ops + (if op_outcome x = Some outcome then 1 else 0)"
  by (cases x) (auto simp: count_outcome_def outcomes_of_def map_filter_simps map_filter_def)

lemma telemetry_reflects_new: "telemetry_reflects cap [] (new_telemetry cap)"
  by (simp add: telemetry_reflects_def new_telemetry_def newLatencyRing_def ring_holds_new)

lemma telemetry_reflects_apply:
  assumes "telemetry_reflects cap ops p"
  shows "telemetry_reflects cap (ops @ [x]) (telemetry_apply p x)"
proof (cases x)
  case (OpFinishNonStreaming started outcome now)
  with assms show ?thesis
    by (cases outcome) (simp_all add: telemetry_reflects_def telemetry_nonStreaming_def
        recordOutcome_def latencyRing_add_def ring_holds_add Let_def)
next
  case (OpFinishStreaming started outcome now)
  with assms show ?thesis
    by (cases outcome) (simp_all add: telemetry_reflects_def telemetry_streaming_def
        recordOutcome_def Let_def)
qed (use assms in \<open>simp_all add: telemetry_reflects_def telemetry_started_def
    telemetry_firstContent_def latencyRing_add_def ring_holds_add\<close>)

lemma telemetry_reflects_run:
  "telemetry_reflects cap ops p \<Longrightarrow> telemetry_reflects cap (ops @ xs) (foldl telemetry_apply p xs)"
proof (induction xs arbitrary: ops p)
  case (Cons x xs)
  from Cons.IH [OF telemetry_reflects_apply [OF Cons.prems]] show ?case by simp
qed simp

lemma telemetry_run_reflects:
  "telemetry_reflects cap ops (foldl telemetry_apply (new_telemetry cap) ops)"
  using telemetry_reflects_run [OF telemetry_reflects_new, of cap ops] by simp

section \<open>Frame facts for the tracker\<close>

lemma update_telemetry_dom [simp]: "dom (update_telemetry t n f) = dom t"
  by (auto simp: update_telemetry_def split: option.splits if_splits)

lemma telemetry_begin_dom: "telemetry_begin t n now = (a, t') \<Longrightarrow> dom t' = dom t"
  by (auto simp: telemetry_begin_def split: option.splits if_splits)

section \<open>Properties\<close>

text \<open>A latency ring of any capacity reports, after any sequence of samples, exactly the most recent
  ones (as many as its capacity) in the order in which they were added: the index arithmetic of
  add and snapshot implements a sliding window.\<close>

lemma latency_ring_window:
  "latencyRing_snapshot
     (foldl (\<lambda>r s. latencyRing_add r (smDuration s) (smObservedAt s)) (newLatencyRing cap) samples)
   = drop (length samples - cap) samples"
  by (rule latency_window.window)


end
