(* ===== verification/Accounting.thy ===== *)
theory Accounting
  imports Chat_Types "HOL-Library.AList" "HOL-Library.Char_ord" "HOL-Library.List_Lexorder"
    "HOL-Library.Product_Lexorder"
begin

text \<open>
  Usage and cost accounting (\<open>internal/accounting\<close>): prices as integer micro-USD per million
  tokens, parsed from decimal text, the checked cost estimate of one attempt, and the bounded
  tracker of saturating per-model totals. All quantities are 64-bit words as in the code. The
  tracker's Go map is an association list with distinct keys; its order is not observable, because
  the snapshot is sorted by the key.
\<close>

section \<open>Prices\<close>

definition MicroUSDPerUSD :: u64 where
  "MicroUSDPerUSD = 1000000"

definition TokensPerMillion :: u64 where
  "TokensPerMillion = 1000000"

record Key =
  keyProvider :: string
  keyModel :: string

record Rates =
  InputMicroUSDPerMillion :: "u64 option"
  OutputMicroUSDPerMillion :: "u64 option"

definition zero_rates :: Rates where
  "zero_rates = \<lparr>InputMicroUSDPerMillion = None, OutputMicroUSDPerMillion = None\<rparr>"

type_synonym PriceBook = "Key \<rightharpoonup> Rates"

text \<open>\<open>strings.Split(value, ".")\<close>.\<close>

fun split_dot :: "string \<Rightarrow> string list" where
  "split_dot [] = [[]]"
| "split_dot (c # cs) =
     (if c = CHR ''.'' then [] # split_dot cs
      else case split_dot cs of p # ps \<Rightarrow> (c # p) # ps | [] \<Rightarrow> [[c]])"

text \<open>The loop that appends zeros up to six decimal places.\<close>

definition pad6 :: "string \<Rightarrow> string" where
  "pad6 s = s @ replicate (6 - length s) (CHR ''0'')"

definition ParseUSDPerMillion :: "string \<Rightarrow> string + u64" where
  "ParseUSDPerMillion raw =
     (let value = TrimSpace raw in
      if value = [] \<or> HasPrefix value ''-'' \<or> HasPrefix value ''+''
      then Inl ''price must be a non-negative decimal''
      else let parts = split_dot value in
      if 2 < length parts \<or> hd parts = [] \<and> (length parts = 1 \<or> parts ! 1 = [])
      then Inl ''price must be a non-negative decimal''
      else let wholeText = (if hd parts = [] then ''0'' else hd parts) in
      (case ParseUint wholeText of
         None \<Rightarrow> Inl ''price is out of range''
       | Some whole \<Rightarrow>
           if whole > MaxUint64 div MicroUSDPerUSD then Inl ''price is out of range''
           else let fractionText = (if length parts = 2 then parts ! 1 else []) in
           if 6 < length fractionText then Inl ''price supports at most six decimal places''
           else (case ParseUint (pad6 fractionText) of
             None \<Rightarrow> Inl ''price must be a non-negative decimal''
           | Some fraction \<Rightarrow>
               let base = whole * MicroUSDPerUSD in
               if base > MaxUint64 - fraction then Inl ''price is out of range''
               else Inr (base + fraction))))"

definition checkedMultiply :: "u64 \<Rightarrow> u64 \<Rightarrow> u64 option" where
  "checkedMultiply left right =
     (if left \<noteq> 0 \<and> right > MaxUint64 div left then None else Some (left * right))"

definition EstimateMicroUSD :: "Usage option \<Rightarrow> Rates \<Rightarrow> u64 option" where
  "EstimateMicroUSD providerUsage rates =
     (case providerUsage of
        None \<Rightarrow> None
      | Some u \<Rightarrow>
        (case (InputTokens u, OutputTokens u, TotalTokens u,
               InputMicroUSDPerMillion rates, OutputMicroUSDPerMillion rates) of
           (Some input, Some output, Some totalTokens, Some inRate, Some outRate) \<Rightarrow>
             if input > MaxUint64 - output \<or> totalTokens \<noteq> input + output then None
             else (case checkedMultiply input inRate of
               None \<Rightarrow> None
             | Some inputCost \<Rightarrow>
                 (case checkedMultiply output outRate of
                    None \<Rightarrow> None
                  | Some outputCost \<Rightarrow>
                      if inputCost > MaxUint64 - outputCost then None
                      else let numerator = inputCost + outputCost; half = TokensPerMillion div 2 in
                        if numerator > MaxUint64 - half then None
                        else Some ((numerator + half) div TokensPerMillion)))
         | _ \<Rightarrow> None))"

text \<open>A copy of a price book shares nothing with the original: as a value it is equal to it.\<close>

definition ClonePriceBook :: "PriceBook \<Rightarrow> PriceBook" where
  "ClonePriceBook prices = (\<lambda>k. map_option (\<lambda>r.
     \<lparr>InputMicroUSDPerMillion = InputMicroUSDPerMillion r,
      OutputMicroUSDPerMillion = OutputMicroUSDPerMillion r\<rparr>) (prices k))"

section \<open>The tracker\<close>

definition DefaultModelCapacity :: int where
  "DefaultModelCapacity = 128"

record modelAggregate =
  agAttempts :: u64
  agAttemptsWithUsage :: u64
  agAttemptsWithoutUsage :: u64
  agAttemptsWithPartialUsage :: u64
  agInputTokens :: u64
  agOutputTokens :: u64
  agTotalTokens :: u64
  agAttemptsWithEstimatedCost :: u64
  agAttemptsWithoutEstimatedCost :: u64
  agEstimatedCostMicroUSD :: u64
  agOverflowed :: bool

record ModelSnapshot = modelAggregate +
  mdProvider :: string
  mdModel :: string

record AccountingSnapshot =
  snapModels :: "ModelSnapshot list"
  snapDroppedAttempts :: u64

record RecordResult =
  EstimatedCostMicroUSD :: u64
  EstimatedCostAvailable :: bool

record Tracker =
  trModels :: "(Key \<times> modelAggregate) list"
  trPrices :: PriceBook
  trMaxModels :: int
  trDropped :: u64

definition zero_aggregate :: modelAggregate where
  "zero_aggregate = \<lparr>agAttempts = 0, agAttemptsWithUsage = 0, agAttemptsWithoutUsage = 0,
     agAttemptsWithPartialUsage = 0, agInputTokens = 0, agOutputTokens = 0, agTotalTokens = 0,
     agAttemptsWithEstimatedCost = 0, agAttemptsWithoutEstimatedCost = 0,
     agEstimatedCostMicroUSD = 0, agOverflowed = False\<rparr>"

definition NewTracker :: "PriceBook \<Rightarrow> int \<Rightarrow> Tracker" where
  "NewTracker prices maxModels =
     \<lparr>trModels = [], trPrices = ClonePriceBook prices, trMaxModels = maxModels, trDropped = 0\<rparr>"

definition SetPrices :: "Tracker \<Rightarrow> PriceBook \<Rightarrow> Tracker" where
  "SetPrices t prices = t\<lparr>trPrices := ClonePriceBook prices\<rparr>"

text \<open>\<open>saturatingAdd\<close> with the overflow flag it sets, when it is given one.\<close>

definition saturatingAdd :: "u64 \<Rightarrow> u64 \<Rightarrow> bool \<Rightarrow> u64 \<times> bool" where
  "saturatingAdd current value overflowed =
     (if current > MaxUint64 - value then (MaxUint64, True) else (current + value, overflowed))"

text \<open>One field of the aggregate increased in place, \<open>&aggregate.overflowed\<close> included.\<close>

definition bump ::
  "(modelAggregate \<Rightarrow> u64) \<Rightarrow> ((u64 \<Rightarrow> u64) \<Rightarrow> modelAggregate \<Rightarrow> modelAggregate) \<Rightarrow> u64
   \<Rightarrow> modelAggregate \<Rightarrow> modelAggregate" where
  "bump get upd value a =
     (case saturatingAdd (get a) value (agOverflowed a) of
        (v, o') \<Rightarrow> (upd (\<lambda>_. v) a)\<lparr>agOverflowed := o'\<rparr>)"

definition bump_opt ::
  "(modelAggregate \<Rightarrow> u64) \<Rightarrow> ((u64 \<Rightarrow> u64) \<Rightarrow> modelAggregate \<Rightarrow> modelAggregate) \<Rightarrow> u64 option
   \<Rightarrow> modelAggregate \<Rightarrow> modelAggregate" where
  "bump_opt get upd value a = (case value of None \<Rightarrow> a | Some v \<Rightarrow> bump get upd v a)"

definition usage_available :: "Usage option \<Rightarrow> bool" where
  "usage_available providerUsage = (case providerUsage of None \<Rightarrow> False
     | Some u \<Rightarrow> InputTokens u \<noteq> None \<or> OutputTokens u \<noteq> None \<or> TotalTokens u \<noteq> None)"

definition usage_complete :: "Usage \<Rightarrow> bool" where
  "usage_complete u =
     (case (InputTokens u, OutputTokens u, TotalTokens u) of
        (Some input, Some output, Some totalTokens) \<Rightarrow>
          input \<le> MaxUint64 - output \<and> totalTokens = input + output
      | _ \<Rightarrow> False)"

definition recordUsage :: "modelAggregate \<Rightarrow> Usage option \<Rightarrow> modelAggregate \<times> bool \<times> bool" where
  "recordUsage aggregate providerUsage =
     (case providerUsage of
        None \<Rightarrow> (aggregate, False, False)
      | Some u \<Rightarrow>
          if \<not> usage_available providerUsage then (aggregate, False, False)
          else
            (let a1 = bump_opt agInputTokens agInputTokens_update (InputTokens u) aggregate;
                 a2 = bump_opt agOutputTokens agOutputTokens_update (OutputTokens u) a1;
                 a3 = bump_opt agTotalTokens agTotalTokens_update (TotalTokens u) a2
             in (a3, True, usage_complete u)))"

text \<open>The part of \<open>Record\<close> that updates the model's aggregate.\<close>

definition aggregate_record :: "Rates \<Rightarrow> modelAggregate \<Rightarrow> Usage option \<Rightarrow> modelAggregate" where
  "aggregate_record rates aggregate providerUsage =
     (let a1 = bump agAttempts agAttempts_update 1 aggregate;
          (a2, usageAvailable, complete) = recordUsage a1 providerUsage;
          a3 = (if \<not> usageAvailable then bump agAttemptsWithoutUsage agAttemptsWithoutUsage_update 1 a2
                else let b = bump agAttemptsWithUsage agAttemptsWithUsage_update 1 a2 in
                     if \<not> complete
                     then bump agAttemptsWithPartialUsage agAttemptsWithPartialUsage_update 1 b
                     else b)
      in case EstimateMicroUSD providerUsage rates of
           None \<Rightarrow> bump agAttemptsWithoutEstimatedCost agAttemptsWithoutEstimatedCost_update 1 a3
         | Some cost \<Rightarrow>
             bump agEstimatedCostMicroUSD agEstimatedCostMicroUSD_update cost
               (bump agAttemptsWithEstimatedCost agAttemptsWithEstimatedCost_update 1 a3))"

definition rates_for :: "PriceBook \<Rightarrow> Key \<Rightarrow> Rates" where
  "rates_for prices key = (case prices key of None \<Rightarrow> zero_rates | Some r \<Rightarrow> r)"

definition record_result :: "u64 option \<Rightarrow> RecordResult" where
  "record_result cost = (case cost of
       None \<Rightarrow> \<lparr>EstimatedCostMicroUSD = 0, EstimatedCostAvailable = False\<rparr>
     | Some c \<Rightarrow> \<lparr>EstimatedCostMicroUSD = c, EstimatedCostAvailable = True\<rparr>)"

definition Record :: "Tracker \<Rightarrow> string \<Rightarrow> string \<Rightarrow> Usage option \<Rightarrow> RecordResult \<times> Tracker" where
  "Record t providerName modelName providerUsage =
     (let key = \<lparr>keyProvider = providerName, keyModel = modelName\<rparr>;
          rates = rates_for (trPrices t) key;
          result = record_result (EstimateMicroUSD providerUsage rates)
      in case map_of (trModels t) key of
           None \<Rightarrow>
             if int (length (trModels t)) \<ge> trMaxModels t
             then (result, t\<lparr>trDropped := fst (saturatingAdd (trDropped t) 1 False)\<rparr>)
             else (result, t\<lparr>trModels := AList.update key
                     (aggregate_record rates zero_aggregate providerUsage) (trModels t)\<rparr>)
         | Some aggregate \<Rightarrow>
             (result, t\<lparr>trModels := AList.update key
                     (aggregate_record rates aggregate providerUsage) (trModels t)\<rparr>))"

definition Accounting_Snapshot :: "Tracker \<Rightarrow> AccountingSnapshot" where
  "Accounting_Snapshot t =
     \<lparr>snapModels = sort_key (\<lambda>m. (mdProvider m, mdModel m))
        (map (\<lambda>(key, a). modelAggregate.extend a
               (ModelSnapshot.fields (keyProvider key) (keyModel key))) (trModels t)),
      snapDroppedAttempts = trDropped t\<rparr>"

section \<open>Facts on saturating and checked arithmetic\<close>

definition sat64 :: "nat \<Rightarrow> nat" where
  "sat64 n = min (2 ^ 64 - 1) n"

lemma sat64_sat64_add [simp]: "sat64 (sat64 a + b) = sat64 (a + b)"
  by (simp add: sat64_def)

lemma sat64_Suc_sat64 [simp]: "sat64 (Suc (sat64 a)) = sat64 (Suc a)"
  by (simp add: sat64_def)

lemma sat64_0 [simp]: "sat64 0 = 0"
  by (simp add: sat64_def)

lemma sat64_unat [simp]: "sat64 (unat (x :: u64)) = unat x"
  unfolding sat64_def using unat_u64_bound [of x] by (intro min_absorb2) linarith

lemma sat64_exact: "n < 2 ^ 64 \<Longrightarrow> sat64 n = n"
  by (simp add: sat64_def)

lemma unat_saturatingAdd: "unat (fst (saturatingAdd c v o')) = sat64 (unat c + unat v)"
proof (cases "2 ^ 64 \<le> unat c + unat v")
  case True
  then show ?thesis by (simp add: saturatingAdd_def u64_overflow_iff unat_MaxUint64 sat64_def)
next
  case False
  then show ?thesis
    by (simp add: saturatingAdd_def u64_overflow_iff unat_add_exact sat64_def)
qed

lemma saturatingAdd_flag: "snd (saturatingAdd c v o') \<longleftrightarrow> o' \<or> 2 ^ 64 \<le> unat c + unat v"
  by (auto simp: saturatingAdd_def u64_overflow_iff)

lemma checkedMultiply_iff:
  "checkedMultiply l r = Some p \<longleftrightarrow> unat l * unat r < 2 ^ 64 \<and> p = l * r"
proof (cases "l = 0")
  case True
  then show ?thesis by (auto simp: checkedMultiply_def)
next
  case False
  then have l: "0 < unat l" by (simp add: unat_gt_0)
  have "r \<le> MaxUint64 div l \<longleftrightarrow> unat r \<le> (2 ^ 64 - 1) div unat l"
    by (simp only: word_le_nat_alt unat_div unat_MaxUint64)
  also have "\<dots> \<longleftrightarrow> unat r * unat l \<le> 2 ^ 64 - 1"
    using l by (rule less_eq_div_iff_mult_less_eq)
  finally show ?thesis
    using False by (auto simp: checkedMultiply_def not_less [symmetric] mult.commute)
qed

lemma checkedMultiply_None: "checkedMultiply l r = None \<longleftrightarrow> 2 ^ 64 \<le> unat l * unat r"
  using checkedMultiply_iff [of l r "l * r"]
  by (cases "checkedMultiply l r") (auto simp: checkedMultiply_def split: if_splits)

lemma ClonePriceBook_id [simp]: "ClonePriceBook prices = prices"
proof
  show "ClonePriceBook prices k = prices k" for k
    by (cases "prices k") (simp_all add: ClonePriceBook_def)
qed

section \<open>Facts on the aggregates\<close>

lemma bump_eq:
  "bump get upd v a = (upd (\<lambda>_. fst (saturatingAdd (get a) v (agOverflowed a))) a)
     \<lparr>agOverflowed := snd (saturatingAdd (get a) v (agOverflowed a))\<rparr>"
  by (simp add: bump_def case_prod_unfold)

text \<open>What one recorded attempt adds to each field.\<close>

definition token_weight :: "(Usage \<Rightarrow> u64 option) \<Rightarrow> Usage option \<Rightarrow> nat" where
  "token_weight get u =
     (case u of None \<Rightarrow> 0 | Some x \<Rightarrow> (case get x of None \<Rightarrow> 0 | Some t \<Rightarrow> unat t))"

definition cost_weight :: "Rates \<Rightarrow> Usage option \<Rightarrow> nat" where
  "cost_weight rates u = (case EstimateMicroUSD u rates of None \<Rightarrow> 0 | Some c \<Rightarrow> unat c)"

lemmas aggregate_simps = aggregate_record_def recordUsage_def bump_eq bump_opt_def Let_def
  unat_saturatingAdd token_weight_def usage_available_def

lemma aggregate_attempts:
  "unat (agAttempts (aggregate_record rates a u)) = sat64 (unat (agAttempts a) + 1)"
  by (simp add: aggregate_simps split: option.split)

lemma aggregate_usage:
  "unat (agAttemptsWithUsage (aggregate_record rates a u)) =
     sat64 (unat (agAttemptsWithUsage a) + (if usage_available u then 1 else 0))"
  "unat (agAttemptsWithoutUsage (aggregate_record rates a u)) =
     sat64 (unat (agAttemptsWithoutUsage a) + (if usage_available u then 0 else 1))"
  by (simp_all add: aggregate_simps split: option.split)

lemma aggregate_tokens:
  "unat (agInputTokens (aggregate_record rates a u)) =
     sat64 (unat (agInputTokens a) + token_weight InputTokens u)"
  "unat (agOutputTokens (aggregate_record rates a u)) =
     sat64 (unat (agOutputTokens a) + token_weight OutputTokens u)"
  "unat (agTotalTokens (aggregate_record rates a u)) =
     sat64 (unat (agTotalTokens a) + token_weight TotalTokens u)"
  by (simp_all add: aggregate_simps split: option.split)

lemma aggregate_cost:
  "unat (agEstimatedCostMicroUSD (aggregate_record rates a u)) =
     sat64 (unat (agEstimatedCostMicroUSD a) + cost_weight rates u)"
  "unat (agAttemptsWithEstimatedCost (aggregate_record rates a u)) =
     sat64 (unat (agAttemptsWithEstimatedCost a) + (if EstimateMicroUSD u rates = None then 0 else 1))"
  "unat (agAttemptsWithoutEstimatedCost (aggregate_record rates a u)) =
     sat64 (unat (agAttemptsWithoutEstimatedCost a) + (if EstimateMicroUSD u rates = None then 1 else 0))"
  by (simp_all add: aggregate_simps cost_weight_def split: option.split)

text \<open>A field that each step increases by a weight, saturating, ends at the saturated sum.\<close>

lemma foldl_saturating:
  fixes get :: "'s \<Rightarrow> u64"
  assumes "\<And>a u. unat (get (f a u)) = sat64 (unat (get a) + w u)" and "unat (get z) = sat64 n"
  shows "unat (get (foldl f z us)) = sat64 (n + sum_list (map w us))"
  using assms(2)
proof (induction us arbitrary: z n)
  case (Cons u us)
  have "unat (get (f z u)) = sat64 (n + w u)" using Cons.prems assms(1) by simp
  from Cons.IH [OF this] show ?case by (simp add: add.assoc)
qed simp

lemma aggregate_totals:
  defines "f \<equiv> aggregate_record"
  shows "unat (agAttempts (foldl (f rates) zero_aggregate us)) = sat64 (length us)"
    and "unat (agInputTokens (foldl (f rates) zero_aggregate us))
      = sat64 (\<Sum>u\<leftarrow>us. token_weight InputTokens u)"
    and "unat (agOutputTokens (foldl (f rates) zero_aggregate us))
      = sat64 (\<Sum>u\<leftarrow>us. token_weight OutputTokens u)"
    and "unat (agTotalTokens (foldl (f rates) zero_aggregate us))
      = sat64 (\<Sum>u\<leftarrow>us. token_weight TotalTokens u)"
    and "unat (agEstimatedCostMicroUSD (foldl (f rates) zero_aggregate us))
      = sat64 (\<Sum>u\<leftarrow>us. cost_weight rates u)"
  using foldl_saturating [of agAttempts "f rates" "\<lambda>_. 1" zero_aggregate 0 us]
    foldl_saturating [of agInputTokens "f rates" "token_weight InputTokens" zero_aggregate 0 us]
    foldl_saturating [of agOutputTokens "f rates" "token_weight OutputTokens" zero_aggregate 0 us]
    foldl_saturating [of agTotalTokens "f rates" "token_weight TotalTokens" zero_aggregate 0 us]
    foldl_saturating [of agEstimatedCostMicroUSD "f rates" "cost_weight rates" zero_aggregate 0 us]
  by (simp_all add: f_def aggregate_attempts aggregate_tokens aggregate_cost zero_aggregate_def
      sum_list_triv)

section \<open>Facts on the tracker\<close>

text \<open>A history of \<open>Record\<close> calls, and the usages it reports for one key.\<close>

type_synonym record_call = "Key \<times> Usage option"

definition record_call :: "Tracker \<Rightarrow> record_call \<Rightarrow> Tracker" where
  "record_call t c = snd (Record t (keyProvider (fst c)) (keyModel (fst c)) (snd c))"

definition usages_of :: "Key \<Rightarrow> record_call list \<Rightarrow> Usage option list" where
  "usages_of k calls = map snd (filter (\<lambda>c. fst c = k) calls)"

definition tracker_reflects :: "PriceBook \<Rightarrow> int \<Rightarrow> record_call list \<Rightarrow> Tracker \<Rightarrow> bool" where
  "tracker_reflects prices maxModels calls t \<longleftrightarrow>
     trPrices t = prices \<and> trMaxModels t = maxModels \<and> distinct (map fst (trModels t)) \<and>
     int (length (trModels t)) \<le> max 0 maxModels \<and>
     (\<forall>k a. map_of (trModels t) k = Some a \<longrightarrow>
        a = foldl (aggregate_record (rates_for prices k)) zero_aggregate (usages_of k calls)) \<and>
     (\<forall>k. map_of (trModels t) k = None \<longrightarrow> usages_of k calls \<noteq> [] \<longrightarrow>
        int (length (trModels t)) \<ge> maxModels) \<and>
     unat (trDropped t) = sat64 (length (filter (\<lambda>c. map_of (trModels t) (fst c) = None) calls))"

lemma tracker_reflectsD:
  assumes "tracker_reflects prices maxModels calls t"
  shows "int (length (trModels t)) \<le> max 0 maxModels" and "distinct (map fst (trModels t))"
    and "unat (trDropped t) = sat64 (length (filter (\<lambda>c. map_of (trModels t) (fst c) = None) calls))"
    and "map_of (trModels t) k = Some a \<Longrightarrow>
      a = foldl (aggregate_record (rates_for prices k)) zero_aggregate (usages_of k calls)"
    and "map_of (trModels t) k = None \<Longrightarrow>
      usages_of k calls = [] \<or> maxModels \<le> int (length (trModels t))"
  using assms unfolding tracker_reflects_def by blast+

lemma key_eta [simp]: "\<lparr>keyProvider = keyProvider k, keyModel = keyModel k\<rparr> = k"
  by (cases k) simp

lemma usages_of_snoc [simp]:
  "usages_of k (calls @ [c]) = usages_of k calls @ (if fst c = k then [snd c] else [])"
  by (simp add: usages_of_def)

lemma tracker_reflects_new: "tracker_reflects prices maxModels [] (NewTracker prices maxModels)"
  by (simp add: tracker_reflects_def NewTracker_def usages_of_def)

lemma length_AList_update:
  "length (AList.update k v xs) = (if map_of xs k = None then Suc (length xs) else length xs)"
  by (induction xs) auto

lemma tracker_reflects_drop:
  assumes "tracker_reflects prices maxModels calls t" "map_of (trModels t) k = None"
    "int (length (trModels t)) \<ge> maxModels"
  shows "tracker_reflects prices maxModels (calls @ [(k, u)]) (record_call t (k, u))"
  using assms
  by (auto simp: tracker_reflects_def record_call_def Record_def Let_def unat_saturatingAdd)

lemma tracker_reflects_update:
  assumes r: "tracker_reflects prices maxModels calls t" and k: "map_of (trModels t) k = Some a"
  shows "tracker_reflects prices maxModels (calls @ [(k, u)]) (record_call t (k, u))"
proof -
  have "map_of (AList.update k v (trModels t)) x = None \<longleftrightarrow> map_of (trModels t) x = None" for x v
    using k by (auto simp: update_conv')
  with r k show ?thesis
    by (simp add: tracker_reflects_def record_call_def Record_def Let_def update_conv'
        distinct_update length_AList_update)
qed

lemma tracker_reflects_insert:
  assumes r: "tracker_reflects prices maxModels calls t" and k: "map_of (trModels t) k = None"
    and room: "int (length (trModels t)) < maxModels"
  shows "tracker_reflects prices maxModels (calls @ [(k, u)]) (record_call t (k, u))"
proof -
  have none: "usages_of k calls = []"
    using r k room by (force simp: tracker_reflects_def)
  then have "\<forall>c \<in> set calls. fst c \<noteq> k"
    by (auto simp: usages_of_def filter_empty_conv)
  then have "filter (\<lambda>c. map_of (AList.update k v (trModels t)) (fst c) = None) calls
      = filter (\<lambda>c. map_of (trModels t) (fst c) = None) calls" for v
    by (intro filter_cong) (auto simp: update_conv')
  then show ?thesis
    using r k room none
    by (auto simp: tracker_reflects_def record_call_def Record_def Let_def update_conv'
        distinct_update length_AList_update)
qed

lemma tracker_reflects_record:
  assumes "tracker_reflects prices maxModels calls t"
  shows "tracker_reflects prices maxModels (calls @ [c]) (record_call t c)"
proof (cases c)
  case (Pair k u)
  show ?thesis
    using assms tracker_reflects_drop tracker_reflects_update tracker_reflects_insert
    unfolding Pair by (cases "map_of (trModels t) k"; cases "int (length (trModels t)) < maxModels")
      (simp_all add: not_less)
qed

lemma tracker_reflects_run:
  "tracker_reflects prices maxModels calls t \<Longrightarrow>
   tracker_reflects prices maxModels (calls @ cs) (foldl record_call t cs)"
proof (induction cs arbitrary: calls t)
  case (Cons c cs)
  from Cons.IH [OF tracker_reflects_record [OF Cons.prems]] show ?case by simp
qed simp

lemma tracker_run_reflects:
  "tracker_reflects prices maxModels calls (foldl record_call (NewTracker prices maxModels) calls)"
  using tracker_reflects_run [OF tracker_reflects_new, of prices maxModels calls] by simp

section \<open>Facts on price parsing\<close>

lemma split_dot_plain: "\<forall>c \<in> set s. c \<noteq> CHR ''.'' \<Longrightarrow> split_dot s = [s]"
  by (induction s) auto

lemma split_dot_two:
  "\<forall>c \<in> set w. c \<noteq> CHR ''.'' \<Longrightarrow> \<forall>c \<in> set f. c \<noteq> CHR ''.'' \<Longrightarrow>
   split_dot (w @ CHR ''.'' # f) = [w, f]"
  by (induction w) (auto simp: split_dot_plain)

lemma digit_char_not_dot: "digit_char c \<Longrightarrow> c \<noteq> CHR ''.'' \<and> c \<noteq> CHR ''-'' \<and> c \<noteq> CHR ''+''"
  by (auto simp: digit_char_def digit_value_def)

lemma digits_value_bound: "digits_value s n = Some v \<Longrightarrow> v < (n + 1) * 10 ^ length s"
proof (induction s arbitrary: n)
  case (Cons c cs)
  from Cons.prems obtain d where d: "digit_value c = Some d" "digits_value cs (10 * n + d) = Some v"
    by (auto split: option.splits)
  have "d < 10" using d(1) by (auto simp: digit_value_def split: if_splits)
  have "v < (10 * n + d + 1) * 10 ^ length cs" by (rule Cons.IH [OF d(2)])
  also have "\<dots> \<le> ((n + 1) * 10) * 10 ^ length cs"
    using \<open>d < 10\<close> by (intro mult_le_mono1) simp
  finally show ?case by (simp only: list.size power_Suc add_Suc_right add_0_right mult.assoc)
qed simp

text \<open>The two range checks of the code together: exactly the values below \<open>2 ^ 64\<close> pass.\<close>

lemma price_range:
  assumes "m < 1000000"
  shows "(if n < 2 ^ 64 then Some (word_of_nat n :: u64) else None) = None \<or>
      word_of_nat n > (MaxUint64 div MicroUSDPerUSD :: u64) \<or>
      word_of_nat n * MicroUSDPerUSD > MaxUint64 - (word_of_nat m :: u64)
    \<longleftrightarrow> 2 ^ 64 \<le> n * 1000000 + m"
proof (cases "n < 2 ^ 64")
  case False
  then show ?thesis by simp
next
  case True
  let ?q = "18446744073709 :: nat"
  have n: "unat (word_of_nat n :: u64) = n" and m: "unat (word_of_nat m :: u64) = m"
    using True assms by (simp_all add: unat_of_nat take_bit_nat_eq_self)
  have q: "unat (MaxUint64 div MicroUSDPerUSD :: u64) = ?q"
    by (simp add: unat_div unat_MaxUint64 MicroUSDPerUSD_def)
  show ?thesis
  proof (cases "n \<le> ?q")
    case le: True
    have "unat (word_of_nat n * MicroUSDPerUSD :: u64) = n * 1000000"
      using le n by (subst unat_mult_exact) (simp_all add: MicroUSDPerUSD_def)
    then show ?thesis
      using True le n m q by (simp add: u64_overflow_iff word_less_nat_alt [of "_ div _"])
  next
    case False
    then show ?thesis using True n q by (simp add: word_less_nat_alt)
  qed
qed

lemma ParseUint_pad6:
  assumes "digits_value f 0 = Some m" "length f \<le> 6"
  shows "ParseUint (pad6 f) = Some (word_of_nat (m * 10 ^ (6 - length f)))"
    and "m * 10 ^ (6 - length f) < 1000000"
proof -
  have "m < 10 ^ length f" using digits_value_bound [OF assms(1)] by simp
  then have "m * 10 ^ (6 - length f) < 10 ^ length f * 10 ^ (6 - length f)" by simp
  also have "\<dots> = 10 ^ 6" using assms(2) by (simp add: power_add [symmetric])
  finally show b: "m * 10 ^ (6 - length f) < 1000000" by simp
  have "pad6 f \<noteq> []" using assms(2) by (cases f) (auto simp: pad6_def)
  moreover have "digits_value (pad6 f) 0 = Some (m * 10 ^ (6 - length f))"
    using assms by (simp add: pad6_def digits_value_append digits_value_zeros)
  ultimately show "ParseUint (pad6 f) = Some (word_of_nat (m * 10 ^ (6 - length f)))"
    using b by (simp add: ParseUint_digits)
qed

section \<open>Facts on the estimate\<close>

lemma total_consistent:
  "i > MaxUint64 - o' \<or> t \<noteq> i + o' \<longleftrightarrow> unat t \<noteq> unat i + unat (o' :: u64)"
proof (cases "unat i + unat o' < 2 ^ 64")
  case True
  then show ?thesis
    unfolding u64_overflow_iff by (simp add: unat_add_exact word_unat_eq_iff [of t] not_le)
next
  case False
  moreover have "unat t < 2 ^ 64" by (rule unat_u64_bound)
  ultimately show ?thesis unfolding u64_overflow_iff by linarith
qed

definition cost_numerator :: "u64 \<Rightarrow> u64 \<Rightarrow> u64 \<Rightarrow> u64 \<Rightarrow> nat" where
  "cost_numerator i ri o' ro = unat i * unat ri + unat o' * unat ro"

lemma unat_half_million: "unat (TokensPerMillion div 2) = 500000"
  by (simp add: TokensPerMillion_def)

lemma rounding_overflow_iff:
  "n > MaxUint64 - TokensPerMillion div 2 \<longleftrightarrow> 2 ^ 64 \<le> unat n + 500000"
  unfolding u64_overflow_iff unat_half_million ..

lemma estimate_overflow:
  assumes "2 ^ 64 \<le> cost_numerator i ri o' ro + 500000"
    and "checkedMultiply i ri = Some a" "checkedMultiply o' ro = Some b" "\<not> a > MaxUint64 - b"
  shows "a + b > MaxUint64 - TokensPerMillion div 2"
proof -
  have "unat a = unat i * unat ri" "unat b = unat o' * unat ro"
    using assms(2,3) by (auto simp: checkedMultiply_iff unat_mult_exact)
  moreover have "unat a + unat b < 2 ^ 64" using assms(4) by (simp add: u64_overflow_iff)
  ultimately have "unat (a + b) = cost_numerator i ri o' ro"
    by (simp add: unat_add_exact cost_numerator_def)
  with assms(1) show ?thesis unfolding rounding_overflow_iff by linarith
qed

lemma estimate_fits:
  assumes "cost_numerator i ri o' ro + 500000 < 2 ^ 64"
  shows "checkedMultiply i ri = Some (i * ri)" "checkedMultiply o' ro = Some (o' * ro)"
    and "\<not> i * ri > MaxUint64 - o' * ro"
    and "\<not> i * ri + o' * ro > MaxUint64 - TokensPerMillion div 2"
    and "unat ((i * ri + o' * ro + TokensPerMillion div 2) div TokensPerMillion)
      = (cost_numerator i ri o' ro + 500000) div 1000000"
proof -
  have b: "unat i * unat ri < 2 ^ 64" "unat o' * unat ro < 2 ^ 64"
      "unat i * unat ri + unat o' * unat ro < 2 ^ 64"
    using assms by (auto simp: cost_numerator_def)
  note p = unat_mult_exact [OF b(1)] unat_mult_exact [OF b(2)]
  show "checkedMultiply i ri = Some (i * ri)" "checkedMultiply o' ro = Some (o' * ro)"
    using b by (simp_all add: checkedMultiply_iff)
  show "\<not> i * ri > MaxUint64 - o' * ro" using b p by (simp add: u64_overflow_iff)
  have sum: "unat (i * ri + o' * ro) = cost_numerator i ri o' ro"
    using b p by (simp add: unat_add_exact cost_numerator_def)
  show "\<not> i * ri + o' * ro > MaxUint64 - TokensPerMillion div 2"
    unfolding rounding_overflow_iff sum using assms by linarith
  have "unat (i * ri + o' * ro + TokensPerMillion div 2) = cost_numerator i ri o' ro + 500000"
    using assms by (subst unat_add_exact) (simp_all only: sum unat_half_million)
  then show "unat ((i * ri + o' * ro + TokensPerMillion div 2) div TokensPerMillion)
      = (cost_numerator i ri o' ro + 500000) div 1000000"
    by (simp add: unat_div TokensPerMillion_def)
qed

lemma estimate_complete:
  assumes "InputTokens u = Some i" "OutputTokens u = Some o'" "TotalTokens u = Some t"
    "InputMicroUSDPerMillion rates = Some ri" "OutputMicroUSDPerMillion rates = Some ro"
  shows "EstimateMicroUSD (Some u) rates = Some c \<longleftrightarrow>
     unat t = unat i + unat o' \<and> cost_numerator i ri o' ro + 500000 < 2 ^ 64 \<and>
     unat c = (cost_numerator i ri o' ro + 500000) div 1000000"
proof (cases "cost_numerator i ri o' ro + 500000 < 2 ^ 64")
  case True
  note fits = estimate_fits [OF True]
  have "EstimateMicroUSD (Some u) rates = (if unat t \<noteq> unat i + unat o' then None
      else Some ((i * ri + o' * ro + TokensPerMillion div 2) div TokensPerMillion))"
    unfolding EstimateMicroUSD_def
    by (simp only: option.case prod.case assms total_consistent Let_def fits(1-4) if_False)
  with True fits(5) show ?thesis by (auto simp: word_unat_eq_iff)
next
  case False
  then have "EstimateMicroUSD (Some u) rates = None"
    using estimate_overflow [of i ri o' ro]
    by (auto simp: EstimateMicroUSD_def assms Let_def not_less split: option.split)
  with False show ?thesis by simp
qed

lemma estimate_Some_complete:
  assumes "EstimateMicroUSD usage rates = Some c"
  obtains u i o' t ri ro where "usage = Some u" "InputTokens u = Some i" "OutputTokens u = Some o'"
    "TotalTokens u = Some t" "InputMicroUSDPerMillion rates = Some ri"
    "OutputMicroUSDPerMillion rates = Some ro"
  using assms by (auto simp: EstimateMicroUSD_def split: option.splits)

section \<open>Properties\<close>

text \<open>C13: The cost estimate is exact. It is available exactly when usage and prices are complete, the
  total is the true sum of input and output tokens, and the exact numerator, with the rounding
  half-unit added, fits 64 bits; then it is the exact cost rounded half up to a micro-USD. No
  wrap-around can produce a value.\<close>

theorem estimate_exact:
  "EstimateMicroUSD usage rates = Some c \<longleftrightarrow>
     (\<exists>u i o' t ri ro. usage = Some u \<and> InputTokens u = Some i \<and> OutputTokens u = Some o' \<and>
        TotalTokens u = Some t \<and> InputMicroUSDPerMillion rates = Some ri \<and>
        OutputMicroUSDPerMillion rates = Some ro \<and> unat t = unat i + unat o' \<and>
        unat i * unat ri + unat o' * unat ro + 500000 < 2 ^ 64 \<and>
        unat c = (unat i * unat ri + unat o' * unat ro + 500000) div 1000000)"
  (is "?l \<longleftrightarrow> ?r")
proof
  assume ?l
  from estimate_Some_complete [OF this] obtain u i o' t ri ro where
    e: "usage = Some u" "InputTokens u = Some i" "OutputTokens u = Some o'"
    "TotalTokens u = Some t" "InputMicroUSDPerMillion rates = Some ri"
    "OutputMicroUSDPerMillion rates = Some ro" .
  with \<open>?l\<close> estimate_complete [OF e(2-6), of c] show ?r
    unfolding cost_numerator_def by blast
next
  assume ?r
  then show ?l using estimate_complete unfolding cost_numerator_def by blast
qed

text \<open>A price with at most six decimal places is parsed exactly: the result is the written amount
  in micro-USD when it is below \<open>2 ^ 64\<close>, and the range error otherwise.\<close>

lemma price_parsed_exactly:
  assumes "w \<noteq> []" "digits_value w 0 = Some n" "digits_value f 0 = Some m" "length f \<le> 6"
  shows "ParseUSDPerMillion (w @ ''.'' @ f) =
    (let micro = n * 10 ^ 6 + m * 10 ^ (6 - length f) in
     if micro < 2 ^ 64 then Inr (word_of_nat micro) else Inl ''price is out of range'')"
proof -
  define m' where "m' = m * 10 ^ (6 - length f)"
  note pad = ParseUint_pad6 [OF assms(3,4), folded m'_def]
  have chars: "\<forall>c \<in> set w. digit_char c" "\<forall>c \<in> set f. digit_char c"
    using assms(2,3) by (auto intro: digits_value_digits)
  then have "plain_char (hd w)" "f \<noteq> [] \<Longrightarrow> plain_char (last f)"
    using assms(1) by (auto intro: digit_char_plain)
  then have trim: "TrimSpace (w @ ''.'' @ f) = w @ ''.'' @ f"
    using assms(1) by (intro TrimSpace_plain) (auto simp: plain_char_def)
  have split: "split_dot (w @ CHR ''.'' # f) = [w, f]"
    using chars by (intro split_dot_two) (auto dest: digit_char_not_dot)
  have sign: "\<not> HasPrefix (w @ CHR ''.'' # f) ''-''" "\<not> HasPrefix (w @ CHR ''.'' # f) ''+''"
    using chars(1) assms(1) by (cases w; auto simp: HasPrefix_def dest: digit_char_not_dot)+
  note range = price_range [OF pad(2), of n]
  have parse: "ParseUSDPerMillion (w @ ''.'' @ f) =
      (case (if n < 2 ^ 64 then Some (word_of_nat n) else None) of
         None \<Rightarrow> Inl ''price is out of range''
       | Some whole \<Rightarrow> if whole > MaxUint64 div MicroUSDPerUSD then Inl ''price is out of range''
           else if whole * MicroUSDPerUSD > MaxUint64 - word_of_nat m'
           then Inl ''price is out of range'' else Inr (whole * MicroUSDPerUSD + word_of_nat m'))"
    unfolding ParseUSDPerMillion_def trim Let_def
    using assms(1,4) by (simp add: split sign ParseUint_digits [OF assms(1,2)] pad(1))
  show ?thesis
  proof (cases "n * 1000000 + m' < 2 ^ 64")
    case True
    then show ?thesis
      unfolding parse m'_def [symmetric] using range by (simp add: MicroUSDPerUSD_def)
  next
    case False
    then show ?thesis unfolding parse m'_def [symmetric] using range by (auto split: if_splits)
  qed
qed

lemma price_parsed_exactly_witness:
  "ParseUSDPerMillion ''2.5'' = Inr 2500000"
  using price_parsed_exactly [of "''2''" 2 "''5''" 5] by (simp add: digit_value_def)

text \<open>C34: The tracker reports exactly what was recorded. After any sequence of \<open>Record\<close> calls at
  fixed prices, the number of tracked models never exceeds the capacity, each tracked model has
  exactly the (saturated) number of its attempts, the sums of its reported input, output and total
  tokens and the sum of its estimated costs, and every attempt of a model that is not tracked is
  counted as dropped.\<close>

theorem tracker_totals_exact:
  fixes prices maxModels calls
  defines "t \<equiv> foldl record_call (NewTracker prices maxModels) calls"
  shows "int (length (trModels t)) \<le> max 0 maxModels \<and> distinct (map fst (trModels t)) \<and>
    unat (trDropped t) = sat64 (length (filter (\<lambda>c. map_of (trModels t) (fst c) = None) calls)) \<and>
    (case map_of (trModels t) k of
       None \<Rightarrow> usages_of k calls = [] \<or> maxModels \<le> int (length (trModels t))
     | Some a \<Rightarrow>
         unat (agAttempts a) = sat64 (length (usages_of k calls)) \<and>
         unat (agInputTokens a) = sat64 (\<Sum>u\<leftarrow>usages_of k calls. token_weight InputTokens u) \<and>
         unat (agOutputTokens a) = sat64 (\<Sum>u\<leftarrow>usages_of k calls. token_weight OutputTokens u) \<and>
         unat (agTotalTokens a) = sat64 (\<Sum>u\<leftarrow>usages_of k calls. token_weight TotalTokens u) \<and>
         unat (agEstimatedCostMicroUSD a)
           = sat64 (\<Sum>u\<leftarrow>usages_of k calls. cost_weight (rates_for prices k) u))"
proof -
  have r: "tracker_reflects prices maxModels calls t" unfolding t_def by (rule tracker_run_reflects)
  show ?thesis
  proof (cases "map_of (trModels t) k")
    case None
    with tracker_reflectsD [OF r] show ?thesis by (simp only: option.case simp_thms)
  next
    case (Some a)
    with tracker_reflectsD(1-3) [OF r] show ?thesis
      by (simp only: option.case tracker_reflectsD(4) [OF r Some] aggregate_totals simp_thms)
  qed
qed

end
