(* ===== verification/Routing.thy ===== *)
theory Routing
  imports Telemetry Accounting
begin

text \<open>
  The routing policies (\<open>internal/gateway/routing.go\<close>): deterministic order, recent median
  latency with periodic exploration, stable price dominance, and price dominance within a latency
  tolerance. A provider is any type with a name; the exploration counters, which all versions of a
  policy share, are passed explicitly. Every policy is an instance of one contract, that it returns
  a permutation of the candidates.
\<close>

section \<open>Policies and their configuration\<close>

definition RoutingPolicyDeterministic :: string where
  "RoutingPolicyDeterministic = ''deterministic''"

definition RoutingPolicyLatency :: string where
  "RoutingPolicyLatency = ''latency''"

definition RoutingPolicyCost :: string where
  "RoutingPolicyCost = ''cost''"

definition RoutingPolicyCostLatency :: string where
  "RoutingPolicyCostLatency = ''cost_latency''"

lemmas policy_names = RoutingPolicyDeterministic_def RoutingPolicyLatency_def
  RoutingPolicyCost_def RoutingPolicyCostLatency_def

definition routingSwitchMarginDivisor :: int where
  "routingSwitchMarginDivisor = 10"

record RoutingConfig =
  rcPolicy :: string
  rcMinSamples :: int
  rcSampleMaxAge :: duration
  rcExplorationInterval :: int
  rcMaxLatencyOverFastestPercent :: "u64 option"

datatype requestMode = nonStreamingMode | streamingMode

record latencyRoutingPolicy =
  lpMinSamples :: int
  lpSampleMaxAge :: duration
  lpExplorationInterval :: int

datatype routingPolicy =
    deterministicRoutingPolicy
  | LatencyRoutingPolicy latencyRoutingPolicy
  | costRoutingPolicy
  | CostLatencyRoutingPolicy latencyRoutingPolicy u64

text \<open>\<open>explorationCounts\<close>, an array indexed by the mode.\<close>

type_synonym explorationState = "requestMode \<Rightarrow> int"

definition new_exploration :: explorationState where
  "new_exploration = (\<lambda>_. 0)"

definition newLatencyRoutingPolicy :: "RoutingConfig \<Rightarrow> string + latencyRoutingPolicy" where
  "newLatencyRoutingPolicy config =
     (if rcMinSamples config \<le> 0 then Inl ''routing minimum samples must be positive''
      else if rcSampleMaxAge config \<le> 0 then Inl ''routing sample maximum age must be positive''
      else if rcExplorationInterval config \<le> 0
      then Inl ''routing exploration interval must be positive''
      else Inr \<lparr>lpMinSamples = rcMinSamples config, lpSampleMaxAge = rcSampleMaxAge config,
        lpExplorationInterval = rcExplorationInterval config\<rparr>)"

definition newRoutingPolicy :: "RoutingConfig \<Rightarrow> string + routingPolicy \<times> bool" where
  "newRoutingPolicy config =
     (if rcPolicy config = [] \<or> rcPolicy config = RoutingPolicyDeterministic
      then Inr (deterministicRoutingPolicy, False)
      else if rcPolicy config = RoutingPolicyLatency
      then (case newLatencyRoutingPolicy config of
              Inl err \<Rightarrow> Inl err | Inr policy \<Rightarrow> Inr (LatencyRoutingPolicy policy, True))
      else if rcPolicy config = RoutingPolicyCost then Inr (costRoutingPolicy, True)
      else if rcPolicy config = RoutingPolicyCostLatency
      then (case rcMaxLatencyOverFastestPercent config of
              None \<Rightarrow> Inl ''routing maximum latency over fastest percent is required''
            | Some percent \<Rightarrow>
                (case newLatencyRoutingPolicy config of
                   Inl err \<Rightarrow> Inl err
                 | Inr latency \<Rightarrow> Inr (CostLatencyRoutingPolicy latency percent, True)))
      else Inl ''unknown routing policy'')"

text \<open>The type assertion \<open>policy.(pricingRoutingPolicy)\<close>.\<close>

fun usesPricing :: "routingPolicy \<Rightarrow> bool" where
  "usesPricing costRoutingPolicy = True"
| "usesPricing (CostLatencyRoutingPolicy _ _) = True"
| "usesPricing _ = False"

section \<open>Price dominance\<close>

type_synonym price_map = "string \<rightharpoonup> Rates"

definition rates_of :: "price_map \<Rightarrow> string \<Rightarrow> Rates" where
  "rates_of prices name = (case prices name of None \<Rightarrow> zero_rates | Some r \<Rightarrow> r)"

definition ratesDominate :: "Rates \<Rightarrow> Rates \<Rightarrow> bool" where
  "ratesDominate left right =
     (case (InputMicroUSDPerMillion left, OutputMicroUSDPerMillion left,
            InputMicroUSDPerMillion right, OutputMicroUSDPerMillion right) of
        (Some leftInput, Some leftOutput, Some rightInput, Some rightOutput) \<Rightarrow>
          leftInput \<le> rightInput \<and> leftOutput \<le> rightOutput \<and>
          (leftInput < rightInput \<or> leftOutput < rightOutput)
      | _ \<Rightarrow> False)"

text \<open>The condition of the double loop, negated: an edge from \<open>i\<close> to \<open>j\<close>.\<close>

definition dominates_at :: "('p \<Rightarrow> string) \<Rightarrow> price_map \<Rightarrow> 'p list \<Rightarrow> nat \<Rightarrow> nat \<Rightarrow> bool" where
  "dominates_at nm prices ordered i j \<longleftrightarrow>
     i \<noteq> j \<and> ratesDominate (rates_of prices (nm (ordered ! i))) (rates_of prices (nm (ordered ! j)))"

definition add_edge ::
  "(nat \<Rightarrow> nat \<Rightarrow> bool) \<Rightarrow> nat list list \<times> int list \<Rightarrow> nat \<times> nat \<Rightarrow> nat list list \<times> int list" where
  "add_edge D g ij =
     (case (g, ij) of ((edges, indegree), (i, j)) \<Rightarrow>
        if \<not> D i j then (edges, indegree)
        else (edges[i := edges ! i @ [j]], indegree[j := indegree ! j + 1]))"

definition dominance_graph :: "(nat \<Rightarrow> nat \<Rightarrow> bool) \<Rightarrow> nat \<Rightarrow> nat list list \<times> int list" where
  "dominance_graph D n =
     foldl (add_edge D) (replicate n [], replicate n 0) (List.product [0..<n] [0..<n])"

text \<open>The selection loop; it ends early, with the configured order, when no candidate is free.\<close>

function select_loop ::
  "'p list \<Rightarrow> nat list list \<Rightarrow> 'p list \<Rightarrow> bool list \<Rightarrow> int list \<Rightarrow> 'p list" where
  "select_loop ordered edges result selected indegree =
     (if length ordered \<le> length result then result
      else case find (\<lambda>i. \<not> selected ! i \<and> indegree ! i = 0) [0..<length ordered] of
        None \<Rightarrow> ordered
      | Some next' \<Rightarrow>
          select_loop ordered edges (result @ [ordered ! next']) (selected[next' := True])
            (foldl (\<lambda>deg dominated. deg[dominated := deg ! dominated - 1]) indegree (edges ! next')))"
  by pat_completeness auto

termination
  by (relation "measure (\<lambda>(ordered, edges, result, selected, indegree).
      length ordered - length result)") auto

declare select_loop.simps [simp del]

definition orderByPriceDominance :: "('p \<Rightarrow> string) \<Rightarrow> 'p list \<Rightarrow> price_map \<Rightarrow> 'p list" where
  "orderByPriceDominance nm candidates prices =
     (let ordered = candidates in
      if length ordered < 2 then ordered
      else (case dominance_graph (dominates_at nm prices ordered) (length ordered) of
        (edges, indegree) \<Rightarrow>
          select_loop ordered edges [] (replicate (length ordered) False) indegree))"

section \<open>Recent latency\<close>

definition relevantLatency :: "ProviderTelemetrySnapshot \<Rightarrow> requestMode \<Rightarrow> LatencySample list" where
  "relevantLatency snapshot mode =
     (if mode = streamingMode then StreamingFirstContentSamples snapshot
      else NonStreamingLatencySamples snapshot)"

definition recentLatencySamples :: "LatencySample list \<Rightarrow> instant \<Rightarrow> duration \<Rightarrow> LatencySample list" where
  "recentLatencySamples samples now maxAge =
     (let cutoff = time_add now (- maxAge) in filter (\<lambda>s. \<not> smObservedAt s < cutoff) samples)"

text \<open>
  The median of a non-empty list. On an empty list the code would index out of range; it is only
  called with at least \<open>minSamples > 0\<close> samples (\<open>enough_samples_nonempty\<close>).
\<close>

definition medianDuration :: "duration list \<Rightarrow> duration" where
  "medianDuration samples =
     (let values = sort samples; middle = length values div 2 in
      if values = [] then 0
      else if length values mod 2 \<noteq> 0 then values ! middle
      else let lower = values ! (middle - 1); upper = values ! middle in
        i64_wrap (lower + quot (i64_wrap (upper - lower)) 2))"

text \<open>\<open>snapshots[candidate.Name()]\<close> is the zero snapshot, without samples, for an absent name.\<close>

type_synonym snapshots = "string \<rightharpoonup> ProviderTelemetrySnapshot"

definition candidate_samples ::
  "latencyRoutingPolicy \<Rightarrow> requestMode \<Rightarrow> snapshots \<Rightarrow> instant \<Rightarrow> string \<Rightarrow> LatencySample list" where
  "candidate_samples p mode snaps now name =
     recentLatencySamples
       (case snaps name of None \<Rightarrow> [] | Some s \<Rightarrow> relevantLatency s mode) now (lpSampleMaxAge p)"

text \<open>The loop over the candidates: index, largest deficit and exploration candidate so far (\<open>-1\<close>
  is \<open>None\<close>); it returns the medians of the remaining candidates and the candidate.\<close>

fun median_loop ::
  "latencyRoutingPolicy \<Rightarrow> requestMode \<Rightarrow> snapshots \<Rightarrow> instant \<Rightarrow> string list \<Rightarrow> nat \<Rightarrow> int \<Rightarrow> nat option
   \<Rightarrow> duration list \<times> nat option" where
  "median_loop p mode snaps now [] i largestDeficit explorationCandidate = ([], explorationCandidate)"
| "median_loop p mode snaps now (name # names) i largestDeficit explorationCandidate =
     (let samples = candidate_samples p mode snaps now name in
      if int (length samples) < lpMinSamples p then
        let deficit = lpMinSamples p - int (length samples);
            (largest, cand) = (if deficit > largestDeficit then (deficit, Some i)
                               else (largestDeficit, explorationCandidate));
            (medians, c) = median_loop p mode snaps now names (Suc i) largest cand
        in (0 # medians, c)
      else
        let (medians, c) = median_loop p mode snaps now names (Suc i) largestDeficit explorationCandidate
        in (medianDuration (map smDuration samples) # medians, c))"

definition candidateMedians ::
  "('p \<Rightarrow> string) \<Rightarrow> latencyRoutingPolicy \<Rightarrow> 'p list \<Rightarrow> requestMode \<Rightarrow> snapshots \<Rightarrow> instant
   \<Rightarrow> duration list \<times> nat option" where
  "candidateMedians nm p candidates mode snaps now =
     median_loop p mode snaps now (map nm candidates) 0 0 None"

definition explorationDue ::
  "latencyRoutingPolicy \<Rightarrow> requestMode \<Rightarrow> explorationState \<Rightarrow> bool \<times> explorationState" where
  "explorationDue p mode st =
     (let count = i64_wrap (st mode + 1) in
      if count < lpExplorationInterval p then (False, st(mode := count))
      else (True, st(mode := 0)))"

definition moveProviderToFront :: "'p list \<Rightarrow> nat \<Rightarrow> 'p list" where
  "moveProviderToFront providers selected =
     providers ! selected # take selected providers @ drop (Suc selected) providers"

section \<open>The order of each policy\<close>

definition best_index :: "duration list \<Rightarrow> nat" where
  "best_index medians =
     foldl (\<lambda>best i. if medians ! i < medians ! best then i else best) 0 [1..<length medians]"

definition latency_order ::
  "('p \<Rightarrow> string) \<Rightarrow> latencyRoutingPolicy \<Rightarrow> 'p list \<Rightarrow> requestMode \<Rightarrow> snapshots \<Rightarrow> instant
   \<Rightarrow> explorationState \<Rightarrow> 'p list \<times> explorationState" where
  "latency_order nm p candidates mode snaps now st =
     (let ordered = candidates in
      if length ordered < 2 then (ordered, st)
      else case candidateMedians nm p ordered mode snaps now of
        (medians, Some explorationCandidate) \<Rightarrow>
          (case explorationDue p mode st of
             (due, st') \<Rightarrow>
               (if due then moveProviderToFront ordered explorationCandidate else ordered, st'))
      | (medians, None) \<Rightarrow>
          let best = best_index medians in
          if best = 0 \<or> medians ! best >
               i64_wrap (medians ! 0 - quot (medians ! 0) routingSwitchMarginDivisor)
          then (ordered, st)
          else (moveProviderToFront ordered best, st))"

text \<open>\<open>bits.Mul64\<close>: the high and the low word of the full product.\<close>

definition Mul64 :: "u64 \<Rightarrow> u64 \<Rightarrow> u64 \<times> u64" where
  "Mul64 x y = (word_of_nat (unat x * unat y div 2 ^ 64), x * y)"

definition withinLatencyTolerance :: "duration \<Rightarrow> duration \<Rightarrow> u64 \<Rightarrow> bool" where
  "withinLatencyTolerance candidate fastest percent =
     (if candidate \<le> fastest then True
      else if fastest \<le> 0 then False
      else (case (Mul64 (word_of_int (candidate - fastest)) 100, Mul64 (word_of_int fastest) percent) of
        ((differenceHigh, differenceLow), (limitHigh, limitLow)) \<Rightarrow>
          differenceHigh < limitHigh \<or> differenceHigh = limitHigh \<and> differenceLow \<le> limitLow))"

definition fastest_median :: "duration list \<Rightarrow> duration" where
  "fastest_median medians =
     foldl (\<lambda>fastest median. if median < fastest then median else fastest) (medians ! 0) (tl medians)"

definition acceptable_split ::
  "duration \<Rightarrow> u64 \<Rightarrow> ('p \<times> duration) list \<Rightarrow> 'p list \<times> 'p list" where
  "acceptable_split fastest percent ps =
     foldl (\<lambda>(acceptable, outside) (candidate, median).
        if withinLatencyTolerance median fastest percent then (acceptable @ [candidate], outside)
        else (acceptable, outside @ [candidate])) ([], []) ps"

definition cost_latency_order ::
  "('p \<Rightarrow> string) \<Rightarrow> latencyRoutingPolicy \<Rightarrow> u64 \<Rightarrow> 'p list \<Rightarrow> requestMode \<Rightarrow> snapshots \<Rightarrow> price_map
   \<Rightarrow> instant \<Rightarrow> explorationState \<Rightarrow> 'p list \<times> explorationState" where
  "cost_latency_order nm p percent candidates mode snaps prices now st =
     (let ordered = candidates in
      if length ordered < 2 then (ordered, st)
      else case candidateMedians nm p ordered mode snaps now of
        (medians, Some explorationCandidate) \<Rightarrow>
          (case explorationDue p mode st of
             (due, st') \<Rightarrow>
               (if due then moveProviderToFront ordered explorationCandidate else ordered, st'))
      | (medians, None) \<Rightarrow>
          (case acceptable_split (fastest_median medians) percent (zip ordered medians) of
             (acceptable, outside) \<Rightarrow> (orderByPriceDominance nm acceptable prices @ outside, st)))"

fun policy_order ::
  "('p \<Rightarrow> string) \<Rightarrow> routingPolicy \<Rightarrow> 'p list \<Rightarrow> requestMode \<Rightarrow> snapshots \<Rightarrow> price_map \<Rightarrow> instant
   \<Rightarrow> explorationState \<Rightarrow> 'p list \<times> explorationState" where
  "policy_order nm deterministicRoutingPolicy candidates mode snaps prices now st = (candidates, st)"
| "policy_order nm (LatencyRoutingPolicy p) candidates mode snaps prices now st =
     latency_order nm p candidates mode snaps now st"
| "policy_order nm costRoutingPolicy candidates mode snaps prices now st =
     (orderByPriceDominance nm candidates prices, st)"
| "policy_order nm (CostLatencyRoutingPolicy p percent) candidates mode snaps prices now st =
     cost_latency_order nm p percent candidates mode snaps prices now st"

section \<open>Dominance is a strict partial order\<close>

locale strict_dominance =
  fixes dom :: "'r \<Rightarrow> 'r \<Rightarrow> bool"
  assumes dom_irrefl: "\<not> dom r r"
    and dom_trans: "dom r s \<Longrightarrow> dom s t \<Longrightarrow> dom r t"
begin

text \<open>In a non-empty set of positions some position is dominated by no other of the set.\<close>

lemma undominated_exists:
  fixes A :: "nat set" and val :: "nat \<Rightarrow> 'r"
  assumes "finite A" "A \<noteq> {}"
  shows "\<exists>i \<in> A. \<forall>j \<in> A. \<not> dom (val j) (val i)"
  using assms
proof (induction A rule: finite_ne_induct)
  case (singleton x)
  then show ?case by (simp add: dom_irrefl)
next
  case (insert x F)
  then obtain i where i: "i \<in> F" "\<forall>j \<in> F. \<not> dom (val j) (val i)" by blast
  show ?case
  proof (cases "dom (val x) (val i)")
    case True
    then have "\<forall>j \<in> insert x F. \<not> dom (val j) (val x)"
      using i dom_irrefl dom_trans by blast
    then show ?thesis by blast
  next
    case False
    with i show ?thesis by blast
  qed
qed

end

interpretation rd: strict_dominance ratesDominate
proof
  show "\<not> ratesDominate r r" for r
    by (simp add: ratesDominate_def split: option.split)
  show "ratesDominate r s \<Longrightarrow> ratesDominate s t \<Longrightarrow> ratesDominate r t" for r s t
    by (auto simp: ratesDominate_def split: option.splits)
qed

section \<open>The dominance graph\<close>

lemma add_edge_length [simp]:
  "length (fst (add_edge D g ij)) = length (fst g)"
  "length (snd (add_edge D g ij)) = length (snd g)"
  by (auto simp: add_edge_def split: prod.split)

lemma add_edges_length [simp]:
  "length (fst (foldl (add_edge D) g ijs)) = length (fst g)"
  "length (snd (foldl (add_edge D) g ijs)) = length (snd g)"
  by (induction ijs arbitrary: g) simp_all

lemma add_edges_edges:
  assumes "i < length (fst g)"
  shows "fst (foldl (add_edge D) g ijs) ! i =
    fst g ! i @ map snd (filter (\<lambda>(a, b). a = i \<and> D a b) ijs)"
  using assms
proof (induction ijs arbitrary: g)
  case (Cons ab ijs)
  then show ?case by (cases g; cases ab) (auto simp: add_edge_def nth_update_in)
qed simp

lemma add_edges_indegree:
  assumes "j < length (snd g)"
  shows "snd (foldl (add_edge D) g ijs) ! j =
    snd g ! j + int (length (filter (\<lambda>(a, b). b = j \<and> D a b) ijs))"
  using assms
proof (induction ijs arbitrary: g)
  case (Cons ab ijs)
  then show ?case by (cases g; cases ab) (auto simp: add_edge_def nth_update_in)
qed simp

lemma dominance_graph_edges:
  assumes "i < n"
  shows "distinct (fst (dominance_graph D n) ! i)"
    and "set (fst (dominance_graph D n) ! i) = {j. j < n \<and> D i j}"
proof -
  have e: "fst (dominance_graph D n) ! i =
      map snd (filter (\<lambda>(a, b). a = i \<and> D a b) (List.product [0..<n] [0..<n]))"
    using assms by (simp add: dominance_graph_def add_edges_edges)
  show "distinct (fst (dominance_graph D n) ! i)"
    unfolding e distinct_map
    by (auto simp: distinct_product inj_on_def intro!: distinct_filter)
  show "set (fst (dominance_graph D n) ! i) = {j. j < n \<and> D i j}"
    unfolding e using assms by force
qed

lemma dominance_graph_indegree:
  assumes "j < n"
  shows "snd (dominance_graph D n) ! j = int (card {i. i < n \<and> D i j})"
proof -
  let ?l = "filter (\<lambda>(a, b). b = j \<and> D a b) (List.product [0..<n] [0..<n])"
  have "set ?l = (\<lambda>i. (i, j)) ` {i. i < n \<and> D i j}"
    using assms by auto
  then have "length ?l = card ((\<lambda>i. (i, j)) ` {i. i < n \<and> D i j})"
    by (metis distinct_card distinct_filter distinct_product distinct_upt)
  also have "\<dots> = card {i. i < n \<and> D i j}"
    by (intro card_image) (auto simp: inj_on_def)
  finally show ?thesis
    using assms by (simp add: dominance_graph_def add_edges_indegree)
qed

lemma decrement_length [simp]:
  "length (foldl (\<lambda>deg j. deg[j := deg ! j - 1]) (deg :: int list) js) = length deg"
  by (induction js arbitrary: deg) simp_all

lemma decrement_nth:
  fixes deg :: "int list"
  assumes "distinct js" "i < length deg"
  shows "foldl (\<lambda>deg j. deg[j := deg ! j - 1]) deg js ! i = deg ! i - (if i \<in> set js then 1 else 0)"
  using assms
  by (induction js arbitrary: deg) (auto simp: nth_update_in)

section \<open>The selection loop\<close>

text \<open>
  The reference: the next position is the first one not yet chosen all of whose dominators are
  chosen. A stable dominance order chooses every position by that rule.
\<close>

definition next_pick :: "(nat \<Rightarrow> nat \<Rightarrow> bool) \<Rightarrow> nat \<Rightarrow> nat list \<Rightarrow> nat option" where
  "next_pick D n chosen =
     find (\<lambda>i. i \<notin> set chosen \<and> (\<forall>j \<in> {0..<n}. D j i \<longrightarrow> j \<in> set chosen)) [0..<n]"

definition stable_dominance_order :: "(nat \<Rightarrow> nat \<Rightarrow> bool) \<Rightarrow> nat \<Rightarrow> nat list \<Rightarrow> bool" where
  "stable_dominance_order D n picks \<longleftrightarrow>
     distinct picks \<and> set picks = {0..<n} \<and>
     (\<forall>k \<in> {0..<length picks}. next_pick D n (take k picks) = Some (picks ! k))"

definition select_inv ::
  "(nat \<Rightarrow> nat \<Rightarrow> bool) \<Rightarrow> 'p list \<Rightarrow> nat list \<Rightarrow> 'p list \<Rightarrow> bool list \<Rightarrow> int list \<Rightarrow> bool" where
  "select_inv D ordered picks result selected indegree \<longleftrightarrow>
     result = map (nth ordered) picks \<and> distinct picks \<and> set picks \<subseteq> {0..<length ordered} \<and>
     length selected = length ordered \<and> length indegree = length ordered \<and>
     (\<forall>i < length ordered. selected ! i \<longleftrightarrow> i \<in> set picks) \<and>
     (\<forall>j < length ordered. indegree ! j =
        int (card {i. i < length ordered \<and> D i j \<and> i \<notin> set picks})) \<and>
     (\<forall>k < length picks. next_pick D (length ordered) (take k picks) = Some (picks ! k))"

lemma select_inv_pick:
  assumes "select_inv D ordered picks result selected indegree"
  shows "find (\<lambda>i. \<not> selected ! i \<and> indegree ! i = 0) [0..<length ordered]
    = next_pick D (length ordered) picks"
  unfolding next_pick_def
proof (rule find_cong [OF refl])
  fix i assume "i \<in> set [0..<length ordered]"
  then have "indegree ! i = 0 \<longleftrightarrow> {j. j < length ordered \<and> D j i \<and> j \<notin> set picks} = {}"
    using assms by (simp add: select_inv_def)
  with \<open>i \<in> _\<close> show "(\<not> selected ! i \<and> indegree ! i = 0) \<longleftrightarrow>
      (i \<notin> set picks \<and> (\<forall>j \<in> {0..<length ordered}. D j i \<longrightarrow> j \<in> set picks))"
    using assms by (auto simp: select_inv_def)
qed

lemma select_inv_step:
  assumes inv: "select_inv D ordered picks result selected indegree"
    and pick: "next_pick D (length ordered) picks = Some i"
    and js: "distinct js" "set js = {j. j < length ordered \<and> D i j}"
  shows "select_inv D ordered (picks @ [i]) (result @ [ordered ! i]) (selected[i := True])
    (foldl (\<lambda>deg j. deg[j := deg ! j - 1]) indegree js)"
proof -
  have i: "i < length ordered" "i \<notin> set picks"
    using pick by (auto simp: next_pick_def find_Some_iff)
  have card: "int (card {a. a < length ordered \<and> D a j \<and> a \<notin> set (picks @ [i])})
      = int (card {a. a < length ordered \<and> D a j \<and> a \<notin> set picks}) - (if D i j then 1 else 0)" for j
  proof -
    define S where "S = {a. a < length ordered \<and> D a j \<and> a \<notin> set picks}"
    have "{a. a < length ordered \<and> D a j \<and> a \<notin> set (picks @ [i])} = S - {i}" by (auto simp: S_def)
    moreover have "finite S" "i \<in> S \<longleftrightarrow> D i j" using i by (auto simp: S_def)
    moreover from this have "D i j \<Longrightarrow> 1 \<le> card S" by (metis One_nat_def Suc_leI card_gt_0_iff empty_iff)
    ultimately show ?thesis
      unfolding S_def [symmetric] by (simp add: card_Diff_singleton_if of_nat_diff)
  qed
  have "next_pick D (length ordered) (take k (picks @ [i])) = Some ((picks @ [i]) ! k)"
    if "k < length (picks @ [i])" for k
    using that inv pick by (cases "k < length picks") (auto simp: select_inv_def nth_append)
  moreover have "foldl (\<lambda>deg j. deg[j := deg ! j - 1]) indegree js ! j
      = int (card {a. a < length ordered \<and> D a j \<and> a \<notin> set (picks @ [i])})"
    if "j < length ordered" for j
    unfolding card using inv js that by (simp add: select_inv_def decrement_nth)
  ultimately show ?thesis
    using inv i unfolding select_inv_def by (auto simp: nth_update_in)
qed

lemma select_loop_stable:
  assumes inv: "select_inv D ordered picks result selected indegree"
    and edges: "\<And>i. i < length ordered \<Longrightarrow>
      distinct (edges ! i) \<and> set (edges ! i) = {j. j < length ordered \<and> D i j}"
    and free: "\<And>chosen. set chosen \<subset> {0..<length ordered} \<Longrightarrow>
      next_pick D (length ordered) chosen \<noteq> None"
  shows "\<exists>picks'. stable_dominance_order D (length ordered) picks' \<and>
    select_loop ordered edges result selected indegree = map (nth ordered) picks'"
  using inv
proof (induction "length ordered - length result" arbitrary: picks result selected indegree)
  case 0
  from 0(2) have d: "distinct picks" "set picks \<subseteq> {0..<length ordered}" "length picks = length result"
    by (simp_all add: select_inv_def)
  then have "set picks = {0..<length ordered}"
    using 0(1) by (intro card_subset_eq) (auto simp: distinct_card intro: order.antisym
        dest: card_mono [rotated])
  with 0 show ?case
    by (intro exI [of _ picks]) (auto simp: select_inv_def stable_dominance_order_def select_loop.simps)
next
  case (Suc d)
  from Suc.prems have "distinct picks" "set picks \<subseteq> {0..<length ordered}" "length picks = length result"
    by (simp_all add: select_inv_def)
  moreover have "length result < length ordered" using Suc.hyps(2) by simp
  ultimately have "set picks \<subset> {0..<length ordered}"
    by (metis atLeast0LessThan card_lessThan distinct_card less_irrefl psubsetI)
  then obtain i where i: "next_pick D (length ordered) picks = Some i" using free by blast
  then have "i < length ordered" by (auto simp: next_pick_def find_Some_iff)
  with edges have "select_inv D ordered (picks @ [i]) (result @ [ordered ! i]) (selected[i := True])
    (foldl (\<lambda>deg j. deg[j := deg ! j - 1]) indegree (edges ! i))"
    by (intro select_inv_step [OF Suc.prems i]) blast+
  from Suc.hyps(1) [OF _ this] Suc.hyps(2) \<open>length result < length ordered\<close>
  show ?case
    by (simp add: select_loop.simps [of ordered edges result] select_inv_pick [OF Suc.prems] i)
qed

lemma next_pick_SomeD:
  assumes "next_pick D n chosen = Some i"
  shows "i < n" "i \<notin> set chosen" "\<And>j. j < n \<Longrightarrow> D j i \<Longrightarrow> j \<in> set chosen"
    "\<And>i'. i' < i \<Longrightarrow> i' \<in> set chosen \<or> (\<exists>j < n. D j i' \<and> j \<notin> set chosen)"
proof -
  from assms obtain m where m: "m < n" "i = [0..<n] ! m"
    "i \<notin> set chosen \<and> (\<forall>j \<in> {0..<n}. D j i \<longrightarrow> j \<in> set chosen)"
    "\<forall>k < m. \<not> ([0..<n] ! k \<notin> set chosen \<and> (\<forall>j \<in> {0..<n}. D j ([0..<n] ! k) \<longrightarrow> j \<in> set chosen))"
    unfolding next_pick_def find_Some_iff by auto
  then have "i = m" by simp
  with m show "i < n" "i \<notin> set chosen" "\<And>j. j < n \<Longrightarrow> D j i \<Longrightarrow> j \<in> set chosen" by auto
  fix i' assume "i' < i"
  with \<open>i = m\<close> m(1) m(4) [rule_format, of i']
  show "i' \<in> set chosen \<or> (\<exists>j < n. D j i' \<and> j \<notin> set chosen)" by auto
qed

lemma next_pick_exists:
  assumes "i < n" "i \<notin> set chosen" "\<And>j. j < n \<Longrightarrow> D j i \<Longrightarrow> j \<in> set chosen"
  shows "next_pick D n chosen \<noteq> None"
  using assms unfolding next_pick_def find_None_iff by auto

lemma dominates_at_free:
  assumes "set chosen \<subset> {0..<length cs}"
  shows "next_pick (dominates_at nm prices cs) (length cs) chosen \<noteq> None"
proof -
  let ?val = "\<lambda>i. rates_of prices (nm (cs ! i))"
  have "finite ({0..<length cs} - set chosen)" "{0..<length cs} - set chosen \<noteq> {}"
    using assms by auto
  from rd.undominated_exists [OF this, of ?val] obtain i where
    "i \<in> {0..<length cs} - set chosen"
    "\<forall>j \<in> {0..<length cs} - set chosen. \<not> ratesDominate (?val j) (?val i)" by blast
  then show ?thesis by (intro next_pick_exists [of i]) (auto simp: dominates_at_def)
qed

lemma stable_dominance_order_trivial:
  "n < 2 \<Longrightarrow> \<not> D 0 0 \<Longrightarrow> stable_dominance_order D n [0..<n]"
  by (cases n) (auto simp: stable_dominance_order_def next_pick_def less_Suc_eq)

lemma price_order_stable:
  "\<exists>picks. stable_dominance_order (dominates_at nm prices cs) (length cs) picks \<and>
     orderByPriceDominance nm cs prices = map (nth cs) picks"
proof (cases "length cs < 2")
  case True
  then show ?thesis
    by (intro exI [of _ "[0..<length cs]"])
      (simp add: orderByPriceDominance_def stable_dominance_order_trivial dominates_at_def map_nth)
next
  case False
  let ?D = "dominates_at nm prices cs" and ?n = "length cs"
  have "select_inv ?D cs [] [] (replicate ?n False) (snd (dominance_graph ?D ?n))"
    by (auto simp: select_inv_def dominance_graph_indegree) (simp add: dominance_graph_def)
  from select_loop_stable [OF this, of "fst (dominance_graph ?D ?n)", OF conjI
      [OF dominance_graph_edges] dominates_at_free] False
  show ?thesis by (simp add: orderByPriceDominance_def case_prod_unfold)
qed

lemma stable_dominance_first:
  assumes "stable_dominance_order D n picks" "k < length picks" "D j (picks ! k)" "j < n"
  shows "j \<in> set (take k picks)"
  using assms by (auto simp: stable_dominance_order_def intro: next_pick_SomeD(3))

lemma stable_dominance_unique:
  assumes "\<And>i j. i < n \<Longrightarrow> j < n \<Longrightarrow> \<not> D i j" "stable_dominance_order D n picks"
  shows "picks = [0..<n]"
proof -
  have len: "length picks = n"
    using assms(2) by (metis stable_dominance_order_def distinct_card card_atLeastLessThan diff_zero)
  have "k \<le> n \<Longrightarrow> take k picks = [0..<k]" for k
  proof (induction k)
    case (Suc k)
    then have t: "take k picks = [0..<k]" and k: "k < n" by simp_all
    have "next_pick D n (take k picks) = Some (picks ! k)"
      using assms(2) k len by (auto simp: stable_dominance_order_def)
    note p = next_pick_SomeD [OF this, unfolded t]
    have "\<not> k < picks ! k" using p(4) [of k] assms(1) k by auto
    then have "picks ! k = k" using p(2) by simp
    with t k len show ?case by (simp add: take_Suc_conv_app_nth)
  qed simp
  from this [of n] len show ?thesis by simp
qed

lemma mset_picks: "distinct picks \<Longrightarrow> set picks = {0..<length cs} \<Longrightarrow> mset (map (nth cs) picks) = mset cs"
  by (metis distinct_upt map_nth mset_map set_eq_iff_mset_eq_distinct set_upt)

lemma mset_orderByPriceDominance: "mset (orderByPriceDominance nm cs prices) = mset cs"
  using price_order_stable [of nm prices cs] mset_picks
  by (auto simp: stable_dominance_order_def)

section \<open>The exploration candidate and the medians\<close>

lemma median_loop_length: "length (fst (median_loop p mode snaps now names i d c)) = length names"
  by (induction names arbitrary: i d c) (auto simp: Let_def case_prod_unfold)

lemma median_loop_candidate:
  "snd (median_loop p mode snaps now names i d c) = Some k \<Longrightarrow>
   c = Some k \<or> (i \<le> k \<and> k < i + length names)"
proof (induction names arbitrary: i d c)
  case (Cons name names)
  let ?s = "candidate_samples p mode snaps now name"
  let ?d = "lpMinSamples p - int (length ?s)"
  from Cons.prems obtain d' c' where
    "snd (median_loop p mode snaps now names (Suc i) d' c') = Some k" "c' = c \<or> c' = Some i"
    by (auto simp: Let_def case_prod_unfold split: if_splits)
  with Cons.IH [of "Suc i" d' c'] show ?case by auto
qed simp

lemma candidateMedians_length:
  "candidateMedians nm p cs mode snaps now = (medians, c) \<Longrightarrow> length medians = length cs"
  using median_loop_length [of p mode snaps now "map nm cs" 0 0 None]
  by (simp add: candidateMedians_def)

lemma candidateMedians_candidate:
  "candidateMedians nm p cs mode snaps now = (medians, Some k) \<Longrightarrow> k < length cs"
  using median_loop_candidate [of p mode snaps now "map nm cs" 0 0 None k]
  by (simp add: candidateMedians_def)

definition enough :: "latencyRoutingPolicy \<Rightarrow> requestMode \<Rightarrow> snapshots \<Rightarrow> instant \<Rightarrow> string \<Rightarrow> bool" where
  "enough p mode snaps now name \<longleftrightarrow>
     lpMinSamples p \<le> int (length (candidate_samples p mode snaps now name))"

definition candidate_median ::
  "latencyRoutingPolicy \<Rightarrow> requestMode \<Rightarrow> snapshots \<Rightarrow> instant \<Rightarrow> string \<Rightarrow> duration" where
  "candidate_median p mode snaps now name =
     medianDuration (map smDuration (candidate_samples p mode snaps now name))"

lemma median_loop_enough:
  assumes "\<forall>n \<in> set names. enough p mode snaps now n"
  shows "median_loop p mode snaps now names i d c = (map (candidate_median p mode snaps now) names, c)"
  using assms
  by (induction names arbitrary: i d c) (auto simp: Let_def enough_def candidate_median_def not_less)

lemma candidateMedians_enough:
  "\<forall>x \<in> set cs. enough p mode snaps now (nm x) \<Longrightarrow>
   candidateMedians nm p cs mode snaps now = (map (candidate_median p mode snaps now \<circ> nm) cs, None)"
  by (simp add: candidateMedians_def median_loop_enough comp_def)

text \<open>A policy built by the constructor asks for at least one sample, so medians are well-defined.\<close>

lemma newLatencyRoutingPolicy_positive:
  "newLatencyRoutingPolicy config = Inr p \<Longrightarrow>
   0 < lpMinSamples p \<and> 0 < lpSampleMaxAge p \<and> 0 < lpExplorationInterval p"
  by (auto simp: newLatencyRoutingPolicy_def split: if_splits)

lemma enough_samples_nonempty:
  "0 < lpMinSamples p \<Longrightarrow> enough p mode snaps now name \<Longrightarrow> candidate_samples p mode snaps now name \<noteq> []"
  by (auto simp: enough_def)

definition deficit :: "latencyRoutingPolicy \<Rightarrow> requestMode \<Rightarrow> snapshots \<Rightarrow> instant \<Rightarrow> string \<Rightarrow> int" where
  "deficit p mode snaps now name =
     lpMinSamples p - int (length (candidate_samples p mode snaps now name))"

lemma enough_deficit: "enough p mode snaps now name \<longleftrightarrow> deficit p mode snaps now name \<le> 0"
  by (auto simp: enough_def deficit_def)

lemma median_loop_Cons_snd:
  "0 \<le> d \<Longrightarrow> snd (median_loop p mode snaps now (name # names) i d c) =
     (if deficit p mode snaps now name > d
      then snd (median_loop p mode snaps now names (Suc i) (deficit p mode snaps now name) (Some i))
      else snd (median_loop p mode snaps now names (Suc i) d c))"
  by (auto simp: Let_def case_prod_unfold deficit_def)

text \<open>The first position of the largest value above \<open>d\<close>, counted from \<open>i\<close>, if there is one.\<close>

definition first_largest :: "('a \<Rightarrow> int) \<Rightarrow> 'a list \<Rightarrow> int \<Rightarrow> nat \<Rightarrow> nat option \<Rightarrow> nat option \<Rightarrow> bool" where
  "first_largest f xs d i c r \<longleftrightarrow>
     (r = c \<and> (\<forall>x \<in> set xs. f x \<le> d)) \<or>
     (\<exists>m < length xs. r = Some (i + m) \<and> d < f (xs ! m) \<and>
        (\<forall>x \<in> set xs. f x \<le> f (xs ! m)) \<and> (\<forall>j < m. f (xs ! j) < f (xs ! m)))"

lemma first_largest_skip:
  assumes "f x \<le> d" "first_largest f xs d (Suc i) c r"
  shows "first_largest f (x # xs) d i c r"
  using assms(2) unfolding first_largest_def
proof (elim disjE exE conjE)
  fix m assume "m < length xs" "r = Some (Suc i + m)" "d < f (xs ! m)"
    "\<forall>x \<in> set xs. f x \<le> f (xs ! m)" "\<forall>j < m. f (xs ! j) < f (xs ! m)"
  with assms(1) show "(r = c \<and> (\<forall>y \<in> set (x # xs). f y \<le> d)) \<or>
     (\<exists>m < length (x # xs). r = Some (i + m) \<and> d < f ((x # xs) ! m) \<and>
        (\<forall>y \<in> set (x # xs). f y \<le> f ((x # xs) ! m)) \<and> (\<forall>j < m. f ((x # xs) ! j) < f ((x # xs) ! m)))"
    by (intro disjI2 exI [of _ "Suc m"]) (auto simp: nth_Cons' less_Suc_eq_0_disj)
qed (use assms(1) in auto)

lemma first_largest_take:
  assumes "d < f x" "first_largest f xs (f x) (Suc i) (Some i) r"
  shows "first_largest f (x # xs) d i c r"
  using assms(2) unfolding first_largest_def
proof (elim disjE exE conjE)
  fix m assume "m < length xs" "r = Some (Suc i + m)" "f x < f (xs ! m)"
    "\<forall>x \<in> set xs. f x \<le> f (xs ! m)" "\<forall>j < m. f (xs ! j) < f (xs ! m)"
  with assms(1) show "(r = c \<and> (\<forall>y \<in> set (x # xs). f y \<le> d)) \<or>
     (\<exists>m < length (x # xs). r = Some (i + m) \<and> d < f ((x # xs) ! m) \<and>
        (\<forall>y \<in> set (x # xs). f y \<le> f ((x # xs) ! m)) \<and> (\<forall>j < m. f ((x # xs) ! j) < f ((x # xs) ! m)))"
    by (intro disjI2 exI [of _ "Suc m"]) (auto simp: nth_Cons' less_Suc_eq_0_disj)
next
  assume "r = Some i" "\<forall>y \<in> set xs. f y \<le> f x"
  with assms(1) show "(r = c \<and> (\<forall>y \<in> set (x # xs). f y \<le> d)) \<or>
     (\<exists>m < length (x # xs). r = Some (i + m) \<and> d < f ((x # xs) ! m) \<and>
        (\<forall>y \<in> set (x # xs). f y \<le> f ((x # xs) ! m)) \<and> (\<forall>j < m. f ((x # xs) ! j) < f ((x # xs) ! m)))"
    by (intro disjI2 exI [of _ 0]) auto
qed

lemma median_loop_largest:
  "0 \<le> d \<Longrightarrow> first_largest (deficit p mode snaps now) names d i c
     (snd (median_loop p mode snaps now names i d c))"
proof (induction names arbitrary: i d c)
  case (Cons name names)
  then show ?case
    unfolding median_loop_Cons_snd [OF Cons.prems]
    by (auto intro: first_largest_skip first_largest_take)
qed (simp add: first_largest_def)

lemma candidateMedians_largest:
  "first_largest (deficit p mode snaps now) (map nm cs) 0 0 None
     (snd (candidateMedians nm p cs mode snaps now))"
  by (simp add: candidateMedians_def median_loop_largest)

lemma best_index_fold:
  fixes ms :: "duration list"
  assumes "b < k" "\<forall>j < k. ms ! b \<le> ms ! j" "\<forall>j < b. ms ! b < ms ! j" "k \<le> n"
  shows "let r = foldl (\<lambda>best i. if ms ! i < ms ! best then i else best) b [k..<n] in
    r < n \<and> (\<forall>j < n. ms ! r \<le> ms ! j) \<and> (\<forall>j < r. ms ! r < ms ! j)"
  using assms
proof (induction "n - k" arbitrary: b k)
  case 0
  then show ?case by simp
next
  case (Suc d)
  then have "k < n" by simp
  let ?b = "if ms ! k < ms ! b then k else b"
  have "?b < Suc k" "\<forall>j < Suc k. ms ! ?b \<le> ms ! j" "\<forall>j < ?b. ms ! ?b < ms ! j"
    using Suc.prems by (auto simp: less_Suc_eq)
  from Suc.hyps(1) [OF _ this] Suc.hyps(2) \<open>k < n\<close> show ?case by (simp add: upt_conv_Cons)
qed

lemma best_index_first_min:
  assumes "ms \<noteq> []"
  shows "best_index ms < length ms" "\<forall>j < length ms. ms ! best_index ms \<le> ms ! j"
    "\<forall>j < best_index ms. ms ! best_index ms < ms ! j"
  using best_index_fold [of 0 1 ms "length ms"] assms
  by (auto simp: best_index_def Let_def Suc_le_eq)

lemma fastest_fold:
  "foldl (\<lambda>fastest m. if m < fastest then m else fastest) f ms = Min (insert (f :: duration) (set ms))"
proof (induction ms arbitrary: f)
  case (Cons m ms)
  have "Min (insert f (insert m (set ms))) = Min (insert (min f m) (set ms))"
    by (cases "set ms = {}") (auto simp: min.assoc)
  then show ?case by (simp add: Cons min_def not_le)
qed simp

lemma fastest_median_Min: "ms \<noteq> [] \<Longrightarrow> fastest_median ms = Min (set ms)"
  by (cases ms) (simp_all add: fastest_median_def fastest_fold)

lemma acceptable_split_filter:
  "acceptable_split f pc ps =
     (map fst (filter (\<lambda>(c, m). withinLatencyTolerance m f pc) ps),
      map fst (filter (\<lambda>(c, m). \<not> withinLatencyTolerance m f pc) ps))"
proof -
  have "foldl (\<lambda>(acceptable, outside) (candidate, median).
        if withinLatencyTolerance median f pc then (acceptable @ [candidate], outside)
        else (acceptable, outside @ [candidate])) (as, os) ps =
      (as @ map fst (filter (\<lambda>(c, m). withinLatencyTolerance m f pc) ps),
       os @ map fst (filter (\<lambda>(c, m). \<not> withinLatencyTolerance m f pc) ps))" for as os
    by (induction ps arbitrary: as os) auto
  then show ?thesis by (simp add: acceptable_split_def)
qed

section \<open>Exact comparison by 128-bit products\<close>

lemma unat_Mul64:
  "unat (fst (Mul64 x y)) * 2 ^ 64 + unat (snd (Mul64 x y)) = unat x * unat y"
proof -
  have "unat x * unat y \<le> (2 ^ 64 - 1) * (2 ^ 64 - 1)"
    using unat_u64_bound [of x] unat_u64_bound [of y] by (intro mult_le_mono) linarith+
  also have "\<dots> < 2 ^ 64 * (2 ^ 64 :: nat)" by simp
  finally have "unat x * unat y div 2 ^ 64 < 2 ^ 64" by (rule less_mult_imp_div_less)
  then have "unat (fst (Mul64 x y)) = unat x * unat y div 2 ^ 64"
    unfolding Mul64_def by (simp add: unat_of_nat take_bit_nat_eq_self del: div_less)
  moreover have "unat (snd (Mul64 x y)) = unat x * unat y mod 2 ^ 64"
    unfolding Mul64_def by (simp add: unat_word_ariths)
  ultimately show ?thesis by (simp only: div_mult_mod_eq)
qed

lemma pair_order:
  fixes a b c d :: nat
  assumes "b < n" "d < n"
  shows "a * n + b \<le> c * n + d \<longleftrightarrow> a < c \<or> a = c \<and> b \<le> d"
proof -
  consider "a < c" | "a = c" | "c < a" by linarith
  then show ?thesis
  proof cases
    case 1
    then have "(a + 1) * n \<le> c * n" by (intro mult_le_mono1) simp
    with assms 1 show ?thesis by (simp add: algebra_simps)
  next
    case 3
    then have "(c + 1) * n \<le> a * n" by (intro mult_le_mono1) simp
    with assms 3 show ?thesis by (simp add: algebra_simps)
  qed simp
qed

lemma Mul64_compare:
  "fst (Mul64 a b) < fst (Mul64 c d) \<or> fst (Mul64 a b) = fst (Mul64 c d) \<and> snd (Mul64 a b) \<le> snd (Mul64 c d)
   \<longleftrightarrow> unat a * unat b \<le> unat c * unat d"
  unfolding unat_Mul64 [of a b, symmetric] unat_Mul64 [of c d, symmetric]
    pair_order [OF unat_u64_bound unat_u64_bound]
  by (simp add: word_less_nat_alt word_le_nat_alt word_unat_eq_iff)

lemma unat_of_i64: "0 \<le> x \<Longrightarrow> in_i64 x \<Longrightarrow> int (unat (word_of_int x :: u64)) = x"
  by (simp add: in_i64_def MaxInt64_def uint_word_of_int_eq take_bit_int_eq_self)

lemma withinLatencyTolerance_exact:
  assumes "in_i64 candidate" "in_i64 fastest"
  shows "withinLatencyTolerance candidate fastest percent \<longleftrightarrow>
    candidate \<le> fastest \<or> 0 < fastest \<and> (candidate - fastest) * 100 \<le> fastest * uint percent"
proof (cases "candidate \<le> fastest \<or> fastest \<le> 0")
  case True
  then show ?thesis by (auto simp: withinLatencyTolerance_def)
next
  case False
  then have d: "in_i64 (candidate - fastest)" "0 \<le> candidate - fastest" "0 \<le> fastest"
    using assms by (auto simp: in_i64_def MinInt64_def)
  have "withinLatencyTolerance candidate fastest percent \<longleftrightarrow>
      unat (word_of_int (candidate - fastest) :: u64) * unat (100 :: u64)
        \<le> unat (word_of_int fastest :: u64) * unat percent"
    using False Mul64_compare [of "word_of_int (candidate - fastest)" 100 "word_of_int fastest" percent]
    by (simp add: withinLatencyTolerance_def case_prod_unfold)
  also have "\<dots> \<longleftrightarrow> int (unat (word_of_int (candidate - fastest) :: u64)) * 100
        \<le> int (unat (word_of_int fastest :: u64)) * int (unat percent)"
    unfolding of_nat_mult [symmetric] zle_int [symmetric] by simp
  also have "\<dots> \<longleftrightarrow> (candidate - fastest) * 100 \<le> fastest * uint percent"
    using d assms by (simp only: unat_of_i64) simp
  finally show ?thesis using False by auto
qed

section \<open>The contract of a policy\<close>

text \<open>
  What the gateway relies on: the order is a permutation of the candidates, so no candidate is lost,
  duplicated or invented. Everything else about an order is advisory.
\<close>

locale candidate_order =
  fixes order :: "'p list \<Rightarrow> 's \<Rightarrow> 'p list \<times> 's"
  assumes order_mset: "mset (fst (order cs s)) = mset cs"
begin

lemma order_set: "set (fst (order cs s)) = set cs"
  by (metis order_mset set_mset_mset)

lemma order_length: "length (fst (order cs s)) = length cs"
  by (metis order_mset size_mset)

lemma order_distinct: "distinct (map f (fst (order cs s))) \<longleftrightarrow> distinct (map f cs)"
  by (metis distinct_map mset_eq_imp_distinct_iff order_mset order_set)

lemma order_Nil: "fst (order [] s) = []"
  using order_length [of "[]" s] by simp

end

lemma mset_moveProviderToFront: "k < length cs \<Longrightarrow> mset (moveProviderToFront cs k) = mset cs"
  unfolding moveProviderToFront_def by (rule mset_move_to_front)

lemma mset_latency_order: "mset (fst (latency_order nm p cs mode snaps now st)) = mset cs"
proof (cases "candidateMedians nm p cs mode snaps now")
  case (Pair medians c)
  have len: "length medians = length cs" using Pair by (rule candidateMedians_length)
  show ?thesis
  proof (cases c)
    case None
    have "\<not> length cs < 2 \<Longrightarrow> best_index medians < length cs"
      using best_index_first_min(1) [of medians] len by (cases medians) auto
    then show ?thesis
      using Pair None by (auto simp: latency_order_def Let_def mset_moveProviderToFront)
  next
    case (Some k)
    with Pair have "k < length cs" by (auto dest: candidateMedians_candidate)
    then show ?thesis
      using Pair Some by (auto simp: latency_order_def Let_def mset_moveProviderToFront split: prod.split)
  qed
qed

lemma mset_acceptable_split:
  "acceptable_split f pc ps = (as, os) \<Longrightarrow> mset as + mset os = mset (map fst ps)"
  unfolding acceptable_split_filter by (induction ps arbitrary: as os) auto

lemma mset_cost_latency_order:
  "mset (fst (cost_latency_order nm p pc cs mode snaps prices now st)) = mset cs"
proof (cases "candidateMedians nm p cs mode snaps now")
  case (Pair medians c)
  have len: "length medians = length cs" using Pair by (rule candidateMedians_length)
  show ?thesis
  proof (cases c)
    case None
    have "mset as + mset os = mset cs"
      if "acceptable_split (fastest_median medians) pc (zip cs medians) = (as, os)" for as os
      using mset_acceptable_split [OF that] len by (simp only: map_fst_zip)
    then show ?thesis
      using Pair None
      by (auto simp: cost_latency_order_def Let_def mset_orderByPriceDominance split: prod.split)
  next
    case (Some k)
    with Pair have "k < length cs" by (auto dest: candidateMedians_candidate)
    then show ?thesis
      using Pair Some
      by (auto simp: cost_latency_order_def Let_def mset_moveProviderToFront split: prod.split)
  qed
qed

interpretation po: candidate_order "\<lambda>cs st. policy_order nm policy cs mode snaps prices now st"
  for nm :: "'p \<Rightarrow> string" and policy mode snaps prices now
proof
  show "mset (fst (policy_order nm policy cs mode snaps prices now st)) = mset cs" for cs st
    by (cases policy) (simp_all add: mset_latency_order mset_orderByPriceDominance mset_cost_latency_order)
qed

section \<open>Exploration\<close>

fun exploration_flags ::
  "latencyRoutingPolicy \<Rightarrow> requestMode list \<Rightarrow> explorationState \<Rightarrow> bool list" where
  "exploration_flags p [] st = []"
| "exploration_flags p (mode # modes) st =
     (case explorationDue p mode st of (due, st') \<Rightarrow> due # exploration_flags p modes st')"

definition exploration_inv :: "latencyRoutingPolicy \<Rightarrow> explorationState \<Rightarrow> bool" where
  "exploration_inv p st \<longleftrightarrow> (\<forall>mode. 0 \<le> st mode \<and> st mode < lpExplorationInterval p)"

lemma explorationDue_inv:
  assumes "exploration_inv p st" "lpExplorationInterval p \<le> MaxInt64"
  shows "explorationDue p mode st = (st mode + 1 = lpExplorationInterval p,
      st(mode := (st mode + 1) mod lpExplorationInterval p))"
proof -
  have b: "0 \<le> st mode" "st mode < lpExplorationInterval p"
    using assms(1) by (auto simp: exploration_inv_def)
  have "i64_wrap (st mode + 1) = st mode + 1"
    using b assms(2) by (intro i64_wrap_id) (auto simp: in_i64_def MinInt64_def)
  moreover have "(st mode + 1) mod lpExplorationInterval p =
      (if st mode + 1 < lpExplorationInterval p then st mode + 1 else 0)"
    using b by (cases "st mode + 1 = lpExplorationInterval p") simp_all
  ultimately show ?thesis using b by (auto simp: explorationDue_def Let_def)
qed

lemma explorationDue_keeps_inv:
  "exploration_inv p st \<Longrightarrow> lpExplorationInterval p \<le> MaxInt64 \<Longrightarrow>
   exploration_inv p (snd (explorationDue p mode st))"
  by (simp add: explorationDue_inv)
    (auto simp: exploration_inv_def intro!: pos_mod_sign pos_mod_bound intro: le_less_trans)

lemma exploration_flags_count:
  assumes "exploration_inv p st" "lpExplorationInterval p \<le> MaxInt64" "i < length modes"
  shows "exploration_flags p modes st ! i \<longleftrightarrow>
    (st (modes ! i) + int (count_list (take (Suc i) modes) (modes ! i))) mod lpExplorationInterval p = 0"
  using assms
proof (induction modes arbitrary: st i)
  case (Cons mode modes)
  have b: "0 \<le> st mode" "st mode < lpExplorationInterval p"
    using Cons.prems(1) by (auto simp: exploration_inv_def)
  note due = explorationDue_inv [OF Cons.prems(1,2), of mode]
  show ?case
  proof (cases i)
    case 0
    have "(st mode + 1) mod lpExplorationInterval p = 0 \<longleftrightarrow> st mode + 1 = lpExplorationInterval p"
      using b by (cases "st mode + 1 = lpExplorationInterval p") auto
    then show ?thesis using 0 due by simp
  next
    case (Suc j)
    have "exploration_flags p modes (snd (explorationDue p mode st)) ! j \<longleftrightarrow>
        (snd (explorationDue p mode st) (modes ! j) + int (count_list (take (Suc j) modes) (modes ! j)))
          mod lpExplorationInterval p = 0"
      using Cons.prems Suc by (intro Cons.IH explorationDue_keeps_inv) simp_all
    then show ?thesis
      using Suc due by (auto simp: mod_add_left_eq add.assoc add.commute [of 1])
  qed
qed simp

section \<open>Medians\<close>

lemma median_exact:
  assumes "samples \<noteq> []" "\<forall>d \<in> set samples. 0 \<le> d \<and> d \<le> MaxInt64"
  defines "v \<equiv> sort samples" and "n \<equiv> length samples"
  shows "medianDuration samples = (v ! ((n - 1) div 2) + v ! (n div 2)) div 2"
proof -
  have len: "length v = n" by (simp add: v_def n_def)
  then have ne: "v \<noteq> []" "0 < n" using assms(1) by (auto simp: n_def)
  have bound: "0 \<le> v ! i \<and> v ! i \<le> MaxInt64" if "i < n" for i
    using that assms(2) len nth_mem [of i v] by (auto simp: v_def)
  show ?thesis
  proof (cases "even n")
    case True
    then have m: "(n - 1) div 2 = n div 2 - 1" "n div 2 < n" "n div 2 - 1 < n" "0 < n div 2"
      using ne by (auto elim!: evenE)
    let ?l = "v ! (n div 2 - 1)" and ?u = "v ! (n div 2)"
    have le: "?l \<le> ?u" using m len by (intro sorted_nth_mono) (auto simp: v_def)
    have b: "0 \<le> ?l" "?l \<le> MaxInt64" "0 \<le> ?u" "?u \<le> MaxInt64" using bound m by auto
    then have "i64_wrap (?u - ?l) = ?u - ?l"
      using le by (intro i64_wrap_id) (auto simp: in_i64_def MinInt64_def)
    moreover have "quot (?u - ?l) 2 = (?u - ?l) div 2" using le by (simp add: quot_nonneg)
    moreover have "?l + (?u - ?l) div 2 = (?l + ?u) div 2" by linarith
    moreover have "0 \<le> (?l + ?u) div 2" "(?l + ?u) div 2 \<le> MaxInt64" using b by linarith+
    then have "i64_wrap ((?l + ?u) div 2) = (?l + ?u) div 2"
      by (intro i64_wrap_id in_i64_nonneg)
    ultimately have "i64_wrap (?l + quot (i64_wrap (?u - ?l)) 2) = (?l + ?u) div 2"
      by (simp only:)
    then show ?thesis
      using True ne(1) unfolding medianDuration_def v_def [symmetric] Let_def len m(1) by simp
  next
    case False
    then have "(n - 1) div 2 = n div 2" by (auto elim!: oddE)
    then show ?thesis
      using False ne(1) unfolding medianDuration_def v_def [symmetric] Let_def len
      by (simp add: odd_iff_mod_2_eq_one)
  qed
qed

section \<open>Properties\<close>

text \<open>C35: Price dominance ordering is exactly the stable topological order: every position of the
  result holds the first remaining candidate none of whose dominators remains, and each candidate
  appears once. In particular the loop always finds a candidate, since dominance is a strict partial
  order, and its early return of the configured order is never taken on a partial result.\<close>

theorem price_order_stable_topological:
  "\<exists>picks. stable_dominance_order (dominates_at nm prices candidates) (length candidates) picks \<and>
     orderByPriceDominance nm candidates prices = map (nth candidates) picks"
  by (rule price_order_stable)

text \<open>A dominated provider is never tried before a provider that dominates it in price: in the
  order by price dominance no later provider is at most as expensive in both rates and cheaper in
  one.\<close>

lemma dominators_come_first:
  assumes "i < j" "j < length candidates"
  shows "\<not> ratesDominate
    (rates_of prices (nm (orderByPriceDominance nm candidates prices ! j)))
    (rates_of prices (nm (orderByPriceDominance nm candidates prices ! i)))"
proof
  let ?D = "dominates_at nm prices candidates"
  obtain picks where s: "stable_dominance_order ?D (length candidates) picks"
    and o': "orderByPriceDominance nm candidates prices = map (nth candidates) picks"
    using price_order_stable by blast
  have len: "length picks = length candidates" and d: "distinct picks"
    using s by (auto simp: stable_dominance_order_def dest!: distinct_card)
  assume "ratesDominate
    (rates_of prices (nm (orderByPriceDominance nm candidates prices ! j)))
    (rates_of prices (nm (orderByPriceDominance nm candidates prices ! i)))"
  moreover have "picks ! j \<noteq> picks ! i" using assms d len by (simp add: nth_eq_iff_index_eq)
  ultimately have "?D (picks ! j) (picks ! i)"
    using assms len by (simp add: o' dominates_at_def)
  moreover have "picks ! j < length candidates"
    using s assms len nth_mem [of j picks] by (auto simp: stable_dominance_order_def)
  ultimately have "picks ! j \<in> set (take i picks)"
    using assms len by (intro stable_dominance_first [OF s]) auto
  then show False
    using assms d len by (auto simp: in_set_conv_nth nth_eq_iff_index_eq)
qed

theorem dominators_come_first_witness:
  "\<not> ratesDominate
    (rates_of [''a'' \<mapsto> \<lparr>InputMicroUSDPerMillion = Some 5, OutputMicroUSDPerMillion = Some 5\<rparr>,
               ''b'' \<mapsto> \<lparr>InputMicroUSDPerMillion = Some 1, OutputMicroUSDPerMillion = Some 2\<rparr>]
      (id (orderByPriceDominance id [''a'', ''b'']
        [''a'' \<mapsto> \<lparr>InputMicroUSDPerMillion = Some 5, OutputMicroUSDPerMillion = Some 5\<rparr>,
         ''b'' \<mapsto> \<lparr>InputMicroUSDPerMillion = Some 1, OutputMicroUSDPerMillion = Some 2\<rparr>] ! 1)))
    (rates_of [''a'' \<mapsto> \<lparr>InputMicroUSDPerMillion = Some 5, OutputMicroUSDPerMillion = Some 5\<rparr>,
               ''b'' \<mapsto> \<lparr>InputMicroUSDPerMillion = Some 1, OutputMicroUSDPerMillion = Some 2\<rparr>]
      (id (orderByPriceDominance id [''a'', ''b'']
        [''a'' \<mapsto> \<lparr>InputMicroUSDPerMillion = Some 5, OutputMicroUSDPerMillion = Some 5\<rparr>,
         ''b'' \<mapsto> \<lparr>InputMicroUSDPerMillion = Some 1, OutputMicroUSDPerMillion = Some 2\<rparr>] ! 0)))"
  by (rule dominators_come_first) simp_all

text \<open>Latency routing. When every candidate has enough recent samples, the policy keeps the
  configured order unless the fastest candidate, the first with the least median, is another than the
  configured first one and is at least ten percent faster; then exactly that one moves to the front
  and the others keep their order. The exploration state is untouched.\<close>

lemma latency_order_switch:
  assumes "2 \<le> length candidates"
    and "\<forall>x \<in> set candidates. enough p mode snaps now (nm x)"
    and "\<forall>x \<in> set candidates. 0 \<le> candidate_median p mode snaps now (nm x) \<and>
      candidate_median p mode snaps now (nm x) \<le> MaxInt64"
  defines "m \<equiv> \<lambda>i. candidate_median p mode snaps now (nm (candidates ! i))"
  shows "\<exists>b < length candidates. (\<forall>j < length candidates. m b \<le> m j) \<and> (\<forall>j < b. m b < m j) \<and>
    latency_order nm p candidates mode snaps now st =
      (if b \<noteq> 0 \<and> m b \<le> m 0 - m 0 div 10
       then (candidates ! b # take b candidates @ drop (Suc b) candidates, st)
       else (candidates, st))"
proof -
  define ms where "ms = map (candidate_median p mode snaps now \<circ> nm) candidates"
  define b where "b = best_index ms"
  have ne: "ms \<noteq> []" and len: "length ms = length candidates" using assms(1) by (auto simp: ms_def)
  have nth: "ms ! j = m j" if "j < length candidates" for j
    using that by (simp add: m_def ms_def)
  have b: "b < length candidates" "ms ! b = m b" "ms ! 0 = m 0"
    using best_index_first_min(1) [OF ne] nth [of 0] nth [of b] len assms(1) by (cases candidates; auto simp: b_def)+
  have "candidates ! 0 \<in> set candidates" using assms(1) by (cases candidates) auto
  then have z: "0 \<le> m 0" "m 0 \<le> MaxInt64" using assms(3) unfolding m_def by blast+
  then have "quot (m 0) 10 = m 0 div 10" by (simp add: quot_nonneg)
  moreover have "i64_wrap (m 0 - m 0 div 10) = m 0 - m 0 div 10"
    using z by (intro i64_wrap_id) (auto simp: in_i64_def MinInt64_def)
  moreover have "candidateMedians nm p candidates mode snaps now = (ms, None)"
    using candidateMedians_enough [OF assms(2)] by (simp add: ms_def)
  ultimately have "latency_order nm p candidates mode snaps now st =
      (if b \<noteq> 0 \<and> m b \<le> m 0 - m 0 div 10 then (moveProviderToFront candidates b, st)
       else (candidates, st))"
    using assms(1) b
    by (simp add: latency_order_def Let_def b_def [symmetric] routingSwitchMarginDivisor_def not_less)
  moreover have "\<forall>j < length candidates. m b \<le> m j" "\<forall>j < b. m b < m j"
    using best_index_first_min(2,3) [OF ne] b len nth by (simp_all add: b_def [symmetric])
  ultimately show ?thesis using b(1) unfolding moveProviderToFront_def by blast
qed

definition sample_snapshot :: "string \<Rightarrow> duration list \<Rightarrow> ProviderTelemetrySnapshot" where
  "sample_snapshot name ds =
     the (telemetry_snapshot
       [name \<mapsto> foldl (\<lambda>t d. telemetry_nonStreaming t 0 outcomeSuccess d)
          (new_telemetry (length ds)) ds] name)"

lemma latency_order_switch_witness:
  defines "p \<equiv> \<lparr>lpMinSamples = 1, lpSampleMaxAge = 100, lpExplorationInterval = 5\<rparr>"
    and "snaps \<equiv> [''a'' \<mapsto> sample_snapshot ''a'' [20], ''b'' \<mapsto> sample_snapshot ''b'' [10]]"
  shows "latency_order id p [''a'', ''b''] nonStreamingMode snaps 50 new_exploration
    = ([''b'', ''a''], new_exploration)"
proof -
  have "candidate_median p nonStreamingMode snaps 50 ''a'' = 20"
    "candidate_median p nonStreamingMode snaps 50 ''b'' = 10"
    "enough p nonStreamingMode snaps 50 ''a''" "enough p nonStreamingMode snaps 50 ''b''"
    unfolding p_def snaps_def by code_simp+
  then show ?thesis
    using latency_order_switch [of "[''a'', ''b'']" p nonStreamingMode snaps 50 id new_exploration]
    by (auto simp: less_2_cases_iff less_Suc_eq MaxInt64_def)
qed

text \<open>Cost routing under a latency constraint. When every candidate has enough recent samples,
  the candidates whose median is within the tolerated percentage over the fastest, compared exactly
  over the integers, come first in price dominance order, and all the others follow in configured
  order.\<close>

lemma cost_latency_order_split:
  fixes percent :: u64
  assumes "2 \<le> length candidates"
    and "\<forall>x \<in> set candidates. enough p mode snaps now (nm x)"
    and "\<forall>x \<in> set candidates. in_i64 (candidate_median p mode snaps now (nm x))"
  defines "m \<equiv> \<lambda>x. candidate_median p mode snaps now (nm x)"
  defines "fastest \<equiv> Min (m ` set candidates)"
  defines "ok \<equiv> \<lambda>x. m x \<le> fastest \<or> 0 < fastest \<and> (m x - fastest) * 100 \<le> fastest * uint percent"
  shows "cost_latency_order nm p percent candidates mode snaps prices now st =
    (orderByPriceDominance nm (filter ok candidates) prices @ filter (\<lambda>x. \<not> ok x) candidates, st)"
proof -
  have ne: "map m candidates \<noteq> []" using assms(1) by auto
  have fastest: "fastest_median (map m candidates) = fastest"
    using fastest_median_Min [OF ne] by (simp add: fastest_def)
  have "fastest \<in> m ` set candidates" unfolding fastest_def using ne by (intro Min_in) auto
  then have "in_i64 fastest" using assms(3) by (auto simp: m_def)
  then have within: "withinLatencyTolerance (m x) fastest percent \<longleftrightarrow> ok x" if "x \<in> set candidates" for x
    using that assms(3) by (simp add: withinLatencyTolerance_exact ok_def m_def)
  have zip: "zip candidates (map m candidates) = map (\<lambda>x. (x, m x)) candidates"
    by (simp add: zip_map2 zip_same_conv_map)
  have "acceptable_split fastest percent (zip candidates (map m candidates)) =
      (filter ok candidates, filter (\<lambda>x. \<not> ok x) candidates)"
    unfolding acceptable_split_filter zip filter_map map_map comp_def
    using within by (auto intro!: filter_cong)
  then show ?thesis
    using assms(1) candidateMedians_enough [OF assms(2)] fastest
    by (simp add: cost_latency_order_def Let_def m_def comp_def)
qed

lemma cost_latency_order_split_witness:
  defines "p \<equiv> \<lparr>lpMinSamples = 1, lpSampleMaxAge = 100, lpExplorationInterval = 5\<rparr>"
    and "snaps \<equiv> [''a'' \<mapsto> sample_snapshot ''a'' [20], ''b'' \<mapsto> sample_snapshot ''b'' [10]]"
  shows "cost_latency_order id p 50 [''a'', ''b''] nonStreamingMode snaps Map.empty 50 new_exploration
    = ([''b'', ''a''], new_exploration)"
proof -
  have "candidate_median p nonStreamingMode snaps 50 ''a'' = 20"
    "candidate_median p nonStreamingMode snaps 50 ''b'' = 10"
    "enough p nonStreamingMode snaps 50 ''a''" "enough p nonStreamingMode snaps 50 ''b''"
    unfolding p_def snaps_def by code_simp+
  then show ?thesis
    using cost_latency_order_split
      [of "[''a'', ''b'']" p nonStreamingMode snaps 50 id 50 Map.empty new_exploration]
    by (simp add: in_i64_def MinInt64_def MaxInt64_def orderByPriceDominance_def)
qed

text \<open>Exploration is periodic per mode: over any interleaving of requests of the two modes from a
  fresh state, exactly every \<open>explorationInterval\<close>-th request of a mode explores.\<close>

lemma exploration_periodic:
  assumes "0 < lpExplorationInterval p" "lpExplorationInterval p \<le> MaxInt64" "i < length modes"
  shows "exploration_flags p modes new_exploration ! i \<longleftrightarrow>
    lpExplorationInterval p dvd int (count_list (take (Suc i) modes) (modes ! i))"
  using exploration_flags_count [of p new_exploration i modes] assms
  by (simp add: exploration_inv_def new_exploration_def dvd_eq_mod_eq_0)

theorem exploration_periodic_witness:
  "exploration_flags \<lparr>lpMinSamples = 1, lpSampleMaxAge = 1, lpExplorationInterval = 2\<rparr>
     [nonStreamingMode, streamingMode, nonStreamingMode] new_exploration ! 2"
  using exploration_periodic
    [of "\<lparr>lpMinSamples = 1, lpSampleMaxAge = 1, lpExplorationInterval = 2\<rparr>" 2
      "[nonStreamingMode, streamingMode, nonStreamingMode]"]
  by (simp add: MaxInt64_def numeral_2_eq_2)

text \<open>No policy loses, duplicates or invents a candidate: whatever the telemetry, prices, time and
  exploration state, the order is a permutation of the candidates.\<close>

lemma policy_order_permutation:
  "mset (fst (policy_order nm policy candidates mode snaps prices now st)) = mset candidates"
  by (rule po.order_mset)

text \<open>The median of non-negative samples is the exact middle value, or the floor of the mean of
  the two middle values, without overflow.\<close>

lemma medianDuration_exact:
  assumes "samples \<noteq> []" "\<forall>d \<in> set samples. 0 \<le> d \<and> d \<le> MaxInt64"
  shows "medianDuration samples =
    (sort samples ! ((length samples - 1) div 2) + sort samples ! (length samples div 2)) div 2"
  using assms by (rule median_exact)

theorem medianDuration_exact_witness:
  "medianDuration [MaxInt64, 1, MaxInt64 - 1, 7] = (7 + (MaxInt64 - 1)) div 2"
  using medianDuration_exact [of "[MaxInt64, 1, MaxInt64 - 1, 7]"] by (simp add: MaxInt64_def)

end
