(* ===== verification/Runtime_Routing.thy ===== *)
theory Runtime_Routing
  imports Routing
begin

text \<open>
  Runtime routing settings (\<open>internal/gateway/runtime_routing.go\<close>): immutable routing versions
  published through an atomic pointer, the exploration counters that all versions share, the
  validated runtime update, and the pinning of one version to a request. The part of the request
  context that the code keys by the service is the pinned version, if any.
\<close>

section \<open>State\<close>

record RoutingSettings =
  rsPolicy :: string
  rsExplorationInterval :: int
  rsMaxLatencyOverFastestPercent :: "u64 option"

record routingVersion =
  rvConfig :: RoutingConfig
  rvPolicy :: routingPolicy
  rvRankEligible :: bool

record runtimeRouting =
  rtCurrent :: routingVersion
  rtExploration :: explorationState

type_synonym routing_ctx = "routingVersion option"

definition normalizedRoutingPolicyName :: "string \<Rightarrow> string" where
  "normalizedRoutingPolicyName name = (if name = [] then RoutingPolicyDeterministic else name)"

section \<open>Operations\<close>

text \<open>\<open>publish\<close> also points the policy at the shared exploration state, which is kept.\<close>

definition publish :: "runtimeRouting \<Rightarrow> RoutingConfig \<Rightarrow> routingPolicy \<Rightarrow> bool \<Rightarrow> runtimeRouting" where
  "publish st config policy rank =
     st\<lparr>rtCurrent := \<lparr>rvConfig = config, rvPolicy = policy, rvRankEligible = rank\<rparr>\<rparr>"

text \<open>A clone has its own copy of the percentage: as a value it is equal.\<close>

definition cloneRoutingConfig :: "RoutingConfig \<Rightarrow> RoutingConfig" where
  "cloneRoutingConfig config = (case rcMaxLatencyOverFastestPercent config of
     None \<Rightarrow> config | Some v \<Rightarrow> config\<lparr>rcMaxLatencyOverFastestPercent := Some v\<rparr>)"

definition newRuntimeRouting :: "RoutingConfig \<Rightarrow> routingPolicy \<Rightarrow> bool \<Rightarrow> runtimeRouting" where
  "newRuntimeRouting config0 policy rank =
     (let config1 = config0\<lparr>rcPolicy := normalizedRoutingPolicyName (rcPolicy config0)\<rparr>;
          config2 = (if rcMinSamples config1 = 0 then config1\<lparr>rcMinSamples := 5\<rparr> else config1);
          config3 = (if rcSampleMaxAge config2 = 0
                     then config2\<lparr>rcSampleMaxAge := 5 * 60 * 1000000000\<rparr> else config2);
          config4 = (if rcExplorationInterval config3 = 0
                     then config3\<lparr>rcExplorationInterval := 10\<rparr> else config3);
          config = cloneRoutingConfig config4
      in \<lparr>rtCurrent = \<lparr>rvConfig = config, rvPolicy = policy, rvRankEligible = rank\<rparr>,
          rtExploration = new_exploration\<rparr>)"

definition ConfigureRouting :: "runtimeRouting \<Rightarrow> RoutingConfig \<Rightarrow> string option \<times> runtimeRouting" where
  "ConfigureRouting st config =
     (case newRoutingPolicy config of
        Inl err \<Rightarrow> (Some err, st)
      | Inr (policy, rank) \<Rightarrow> (None, publish st (cloneRoutingConfig config) policy rank))"

definition settings_of :: "RoutingConfig \<Rightarrow> RoutingSettings" where
  "settings_of config = \<lparr>rsPolicy = rcPolicy config,
     rsExplorationInterval = rcExplorationInterval config,
     rsMaxLatencyOverFastestPercent = rcMaxLatencyOverFastestPercent (cloneRoutingConfig config)\<rparr>"

definition RoutingSettings_get :: "runtimeRouting \<Rightarrow> RoutingSettings" where
  "RoutingSettings_get st = settings_of (rvConfig (rtCurrent st))"

definition settings_in_bounds :: "RoutingSettings \<Rightarrow> bool" where
  "settings_in_bounds s \<longleftrightarrow>
     \<not> (rsExplorationInterval s < 1 \<or> rsExplorationInterval s > 1000000 \<or>
        (case rsMaxLatencyOverFastestPercent s of None \<Rightarrow> False | Some v \<Rightarrow> v > 1000000))"

definition UpdateRoutingSettings ::
  "runtimeRouting \<Rightarrow> RoutingSettings \<Rightarrow> (string + RoutingSettings) \<times> runtimeRouting" where
  "UpdateRoutingSettings st settings =
     (if \<not> settings_in_bounds settings then (Inl ''invalid routing settings'', st)
      else if rsPolicy settings \<notin> {RoutingPolicyDeterministic, RoutingPolicyLatency,
          RoutingPolicyCost, RoutingPolicyCostLatency}
      then (Inl ''invalid routing policy'', st)
      else
        let config0 = cloneRoutingConfig (rvConfig (rtCurrent st));
            config = cloneRoutingConfig (config0\<lparr>rcPolicy := rsPolicy settings,
              rcExplorationInterval := rsExplorationInterval settings,
              rcMaxLatencyOverFastestPercent := rsMaxLatencyOverFastestPercent settings\<rparr>)
        in case newRoutingPolicy config of
             Inl err \<Rightarrow> (Inl ''invalid routing settings'', st)
           | Inr (policy, rank) \<Rightarrow> (Inr (settings_of config), publish st config policy rank))"

definition BindRouting :: "runtimeRouting \<Rightarrow> routing_ctx \<Rightarrow> routing_ctx \<times> string" where
  "BindRouting st ctx =
     (case ctx of
        Some version \<Rightarrow> (ctx, rcPolicy (rvConfig version))
      | None \<Rightarrow> (Some (rtCurrent st), rcPolicy (rvConfig (rtCurrent st))))"

definition requestRouting :: "runtimeRouting \<Rightarrow> routing_ctx \<Rightarrow> routingVersion" where
  "requestRouting st ctx = (case ctx of Some version \<Rightarrow> version | None \<Rightarrow> rtCurrent st)"

section \<open>Facts\<close>

lemma cloneRoutingConfig_id [simp]: "cloneRoutingConfig c = c"
  by (auto simp: cloneRoutingConfig_def split: option.split)

lemma newRoutingPolicy_iff:
  "(\<exists>r. newRoutingPolicy c = Inr r) \<longleftrightarrow>
     rcPolicy c \<in> {[], RoutingPolicyDeterministic, RoutingPolicyCost} \<or>
     (rcPolicy c = RoutingPolicyLatency \<or>
      rcPolicy c = RoutingPolicyCostLatency \<and> rcMaxLatencyOverFastestPercent c \<noteq> None) \<and>
     0 < rcMinSamples c \<and> 0 < rcSampleMaxAge c \<and> 0 < rcExplorationInterval c"
  by (auto simp: newRoutingPolicy_def newLatencyRoutingPolicy_def policy_names split: option.split)

text \<open>
  The invariant of the published version: its policy is the one its configuration describes. It holds
  of every version the service can publish.
\<close>

definition version_coherent :: "routingVersion \<Rightarrow> bool" where
  "version_coherent v \<longleftrightarrow> newRoutingPolicy (rvConfig v) = Inr (rvPolicy v, rvRankEligible v)"

lemma newRuntimeRouting_coherent:
  assumes "newRoutingPolicy config = Inr (policy, rank)"
  shows "version_coherent (rtCurrent (newRuntimeRouting config policy rank))"
  using assms
  by (auto simp: newRuntimeRouting_def version_coherent_def newRoutingPolicy_def policy_names
      newLatencyRoutingPolicy_def normalizedRoutingPolicyName_def Let_def split: if_splits option.splits)

lemma ConfigureRouting_coherent:
  "version_coherent (rtCurrent st) \<Longrightarrow> version_coherent (rtCurrent (snd (ConfigureRouting st config)))"
  by (auto simp: ConfigureRouting_def version_coherent_def publish_def split: sum.split)

lemma UpdateRoutingSettings_coherent:
  "version_coherent (rtCurrent st) \<Longrightarrow> version_coherent (rtCurrent (snd (UpdateRoutingSettings st s)))"
  by (auto simp: UpdateRoutingSettings_def version_coherent_def publish_def Let_def
      simp del: insert_iff split: sum.split)

section \<open>The life of the routing state\<close>

text \<open>Every state a service can have: construction, startup configuration, runtime updates, and the
  exploration that routed requests perform.\<close>

inductive routing_reach :: "runtimeRouting \<Rightarrow> bool" where
  start: "newRoutingPolicy config = Inr (policy, rank) \<Longrightarrow>
    routing_reach (newRuntimeRouting config policy rank)"
| configure: "routing_reach st \<Longrightarrow> routing_reach (snd (ConfigureRouting st config))"
| update: "routing_reach st \<Longrightarrow> routing_reach (snd (UpdateRoutingSettings st s))"
| explore: "routing_reach st \<Longrightarrow>
    routing_reach (st\<lparr>rtExploration := exploration\<rparr>)"

lemma routing_reach_coherent: "routing_reach st \<Longrightarrow> version_coherent (rtCurrent st)"
  by (induction rule: routing_reach.induct)
    (simp_all add: newRuntimeRouting_coherent ConfigureRouting_coherent UpdateRoutingSettings_coherent)

section \<open>Properties\<close>

text \<open>A runtime update is accepted exactly when its values are in bounds, it names a known policy,
  a latency-constrained cost policy comes with a percentage, and a latency policy finds positive
  thresholds in the running configuration. An accepted update is answered with its own values, becomes
  the settings read back, and keeps the startup thresholds and the exploration progress; a rejected one
  changes nothing.\<close>

lemma update_settings_exact:
  fixes st s
  defines "r \<equiv> fst (UpdateRoutingSettings st s)" and "st' \<equiv> snd (UpdateRoutingSettings st s)"
    and "c \<equiv> rvConfig (rtCurrent st)"
  shows "(if 1 \<le> rsExplorationInterval s \<and> rsExplorationInterval s \<le> 1000000 \<and>
        (case rsMaxLatencyOverFastestPercent s of None \<Rightarrow> True | Some v \<Rightarrow> v \<le> 1000000) \<and>
        (rsPolicy s \<in> {RoutingPolicyDeterministic, RoutingPolicyCost} \<or>
         (rsPolicy s = RoutingPolicyLatency \<or>
          rsPolicy s = RoutingPolicyCostLatency \<and> rsMaxLatencyOverFastestPercent s \<noteq> None) \<and>
         0 < rcMinSamples c \<and> 0 < rcSampleMaxAge c)
      then r = Inr s \<and> RoutingSettings_get st' = s \<and> rtExploration st' = rtExploration st \<and>
        rcMinSamples (rvConfig (rtCurrent st')) = rcMinSamples c \<and>
        rcSampleMaxAge (rvConfig (rtCurrent st')) = rcSampleMaxAge c
      else isl r \<and> st' = st)"
proof -
  let ?config = "c\<lparr>rcPolicy := rsPolicy s, rcExplorationInterval := rsExplorationInterval s,
    rcMaxLatencyOverFastestPercent := rsMaxLatencyOverFastestPercent s\<rparr>"
  show ?thesis
    using newRoutingPolicy_iff [of ?config]
    unfolding r_def st'_def
    by (cases "newRoutingPolicy ?config")
      (auto simp: UpdateRoutingSettings_def settings_in_bounds_def Let_def c_def [symmetric] publish_def
        RoutingSettings_get_def settings_of_def policy_names not_less split: option.splits)
qed

text \<open>In every reachable routing state the published policy is the one its configuration
  describes, so the policy name reported for a request is the policy that orders its candidates.\<close>

lemma published_policy_coherent:
  assumes "routing_reach st"
  shows "newRoutingPolicy (rvConfig (rtCurrent st)) = Inr (rvPolicy (rtCurrent st), rvRankEligible (rtCurrent st))"
  using routing_reach_coherent [OF assms] by (simp add: version_coherent_def)

lemma published_policy_coherent_witness:
  fixes cfg
  defines "cfg \<equiv> \<lparr>rcPolicy = ''cost'', rcMinSamples = 0, rcSampleMaxAge = 0, rcExplorationInterval = 0,
    rcMaxLatencyOverFastestPercent = None\<rparr>"
  shows "newRoutingPolicy (rvConfig (rtCurrent (newRuntimeRouting cfg costRoutingPolicy True))) =
    Inr (costRoutingPolicy, True)"
proof -
  have "newRoutingPolicy cfg = Inr (costRoutingPolicy, True)"
    by (simp add: cfg_def newRoutingPolicy_def policy_names)
  from published_policy_coherent [OF routing_reach.start [OF this]] show ?thesis
    by (simp add: newRuntimeRouting_def Let_def)
qed

text \<open>A request keeps the routing version it was bound to: once bound, every later lookup and
  every later binding, in whatever state updates have left the service, gives the version that was
  current at the first binding and its policy name.\<close>

lemma bound_version_pinned:
  fixes st st'
  defines "ctx \<equiv> fst (BindRouting st None)"
  shows "requestRouting st' ctx = rtCurrent st \<and>
    BindRouting st' ctx = (ctx, rcPolicy (rvConfig (rtCurrent st)))"
  by (simp add: ctx_def BindRouting_def requestRouting_def)

end
