(* ===== verification/History.thy ===== *)
theory History
  imports Outcome Accounting
begin

text \<open>
  Request history: the records handed to persistence (\<open>internal/persistence/model.go\<close>), their
  construction during a request (\<open>internal/gateway/persistence.go\<close>), and the validation and
  statement batch of the PostgreSQL store (\<open>internal/persistence/postgres/store.go\<close>). A nil
  history, when persistence is disabled or no request id could be made, is \<open>None\<close>. Clock
  readings and the value of \<open>ctx.Err()\<close> are arguments.
\<close>

section \<open>Records\<close>

record AttemptRecord =
  arAttemptNumber :: int
  arProvider :: string
  arResolvedProviderModel :: string
  arFallback :: bool
  arStartedAt :: instant
  arCompletedAt :: instant
  arDurationUS :: int
  arTTFCUS :: "int option"
  arOutcome :: string
  arInputTokens :: "u64 option"
  arOutputTokens :: "u64 option"
  arTotalTokens :: "u64 option"
  arEstimatedCostMicroUSD :: "u64 option"

record RequestRecord =
  rrRequestID :: string
  rrStartedAt :: instant
  rrCompletedAt :: instant
  rrRoutingPolicy :: string
  rrStreaming :: bool
  rrCacheHit :: bool
  rrLogicalModel :: string
  rrInitialProvider :: "string option"
  rrFinalProvider :: "string option"
  rrOutcome :: string
  rrAttemptCount :: int
  rrFallbackCount :: int
  rrDurationUS :: int
  rrAttempts :: "AttemptRecord list"

text \<open>A clone shares no pointer or slice with the original; as a value it is equal to it.\<close>

definition RequestRecord_Clone :: "RequestRecord \<Rightarrow> RequestRecord" where
  "RequestRecord_Clone r =
     r\<lparr>rrInitialProvider := map_option id (rrInitialProvider r),
       rrFinalProvider := map_option id (rrFinalProvider r),
       rrAttempts := map (\<lambda>a. a\<lparr>arTTFCUS := map_option id (arTTFCUS a),
         arInputTokens := map_option id (arInputTokens a),
         arOutputTokens := map_option id (arOutputTokens a),
         arTotalTokens := map_option id (arTotalTokens a),
         arEstimatedCostMicroUSD := map_option id (arEstimatedCostMicroUSD a)\<rparr>) (rrAttempts r)\<rparr>"

section \<open>Building a history\<close>

definition maxPersistedProviderLength :: nat where
  "maxPersistedProviderLength = 64"

definition maxPersistedModelLength :: nat where
  "maxPersistedModelLength = 256"

record requestHistory =
  hRecord :: RequestRecord
  hLastOutcome :: providerOutcome
  hHasAttempt :: bool

definition boundedMetadata :: "string \<Rightarrow> nat \<Rightarrow> string" where
  "boundedMetadata value' maximum =
     (if RuneCount value' \<le> maximum then value'
      else runes_string (take maximum (string_runes value')))"

definition nonNegativeMicroseconds :: "duration \<Rightarrow> int" where
  "nonNegativeMicroseconds duration = (if duration < 0 then 0 else microseconds duration)"

text \<open>\<open>requestID\<close> is the result of the id generator, \<open>None\<close> its error, on which the code
  also counts a persistence write error.\<close>

definition beginRequestHistory ::
  "bool \<Rightarrow> string option \<Rightarrow> string \<Rightarrow> ChatCompletionRequest \<Rightarrow> instant \<Rightarrow> requestHistory option" where
  "beginRequestHistory enabled requestID policy request now =
     (if \<not> enabled then None
      else case requestID of
        None \<Rightarrow> None
      | Some i \<Rightarrow> Some
          \<lparr>hRecord = \<lparr>rrRequestID = i, rrStartedAt = now, rrCompletedAt = time_zero,
             rrRoutingPolicy = boundedMetadata policy 32, rrStreaming = reqStream request,
             rrCacheHit = False,
             rrLogicalModel = boundedMetadata (reqModel request) maxPersistedModelLength,
             rrInitialProvider = None, rrFinalProvider = None, rrOutcome = [], rrAttemptCount = 0,
             rrFallbackCount = 0, rrDurationUS = 0, rrAttempts = []\<rparr>,
           hLastOutcome = outcomeSuccess, hHasAttempt = False\<rparr>)"

definition new_attempt :: "nat \<Rightarrow> string \<Rightarrow> string \<Rightarrow> instant \<Rightarrow> AttemptRecord" where
  "new_attempt index providerName resolvedModel now =
     \<lparr>arAttemptNumber = int index + 1,
      arProvider = boundedMetadata providerName maxPersistedProviderLength,
      arResolvedProviderModel = boundedMetadata resolvedModel maxPersistedModelLength,
      arFallback = (0 < index), arStartedAt = now, arCompletedAt = time_zero, arDurationUS = 0,
      arTTFCUS = None, arOutcome = [], arInputTokens = None, arOutputTokens = None,
      arTotalTokens = None, arEstimatedCostMicroUSD = None\<rparr>"

text \<open>The index of the attempt, \<open>-1\<close> for a nil history.\<close>

definition startAttempt ::
  "requestHistory option \<Rightarrow> string \<Rightarrow> string \<Rightarrow> instant \<Rightarrow> int \<times> requestHistory option" where
  "startAttempt h providerName resolvedModel now =
     (case h of
        None \<Rightarrow> (-1, None)
      | Some h' \<Rightarrow>
          let index = length (rrAttempts (hRecord h'));
              attempt = new_attempt index providerName resolvedModel now;
              r1 = (hRecord h')\<lparr>rrAttempts := rrAttempts (hRecord h') @ [attempt]\<rparr>;
              r2 = (if index = 0 then r1\<lparr>rrInitialProvider := Some (arProvider attempt)\<rparr> else r1)
          in (int index, Some (h'\<lparr>hRecord := r2\<rparr>)))"

definition cacheHit :: "requestHistory option \<Rightarrow> string \<Rightarrow> requestHistory option" where
  "cacheHit h providerName =
     (case h of
        None \<Rightarrow> None
      | Some h' \<Rightarrow>
          let provider = boundedMetadata providerName maxPersistedProviderLength;
              r1 = (hRecord h')\<lparr>rrCacheHit := True\<rparr>;
              r2 = (if rrInitialProvider r1 = None then r1\<lparr>rrInitialProvider := Some provider\<rparr> else r1)
          in Some (h'\<lparr>hRecord := r2\<lparr>rrFinalProvider := Some provider\<rparr>\<rparr>))"

definition complete_attempt ::
  "AttemptRecord \<Rightarrow> providerOutcome \<Rightarrow> duration \<Rightarrow> duration option \<Rightarrow> Usage option \<Rightarrow> RecordResult
   \<Rightarrow> instant \<Rightarrow> AttemptRecord" where
  "complete_attempt a outcome duration ttfc usage accountingResult now =
     (let a1 = a\<lparr>arCompletedAt := (if now < arStartedAt a then arStartedAt a else now),
                 arDurationUS := nonNegativeMicroseconds duration\<rparr>;
          a2 = (case ttfc of None \<Rightarrow> a1 | Some t \<Rightarrow> a1\<lparr>arTTFCUS := Some (nonNegativeMicroseconds t)\<rparr>);
          a3 = a2\<lparr>arOutcome := outcome_String outcome\<rparr>;
          a4 = (case usage of None \<Rightarrow> a3
                | Some u \<Rightarrow> a3\<lparr>arInputTokens := InputTokens u, arOutputTokens := OutputTokens u,
                    arTotalTokens := TotalTokens u\<rparr>)
      in if EstimatedCostAvailable accountingResult
         then a4\<lparr>arEstimatedCostMicroUSD := Some (EstimatedCostMicroUSD accountingResult)\<rparr> else a4)"

definition finishAttempt ::
  "requestHistory option \<Rightarrow> int \<Rightarrow> providerOutcome \<Rightarrow> duration \<Rightarrow> duration option \<Rightarrow> Usage option
   \<Rightarrow> RecordResult \<Rightarrow> instant \<Rightarrow> requestHistory option" where
  "finishAttempt h index outcome duration ttfc usage accountingResult now =
     (case h of
        None \<Rightarrow> None
      | Some h' \<Rightarrow>
          if index < 0 \<or> index \<ge> int (length (rrAttempts (hRecord h'))) then Some h'
          else
            let i = nat index;
                attempt = complete_attempt (rrAttempts (hRecord h') ! i) outcome duration ttfc usage
                  accountingResult now;
                r1 = (hRecord h')\<lparr>rrAttempts := (rrAttempts (hRecord h'))[i := attempt]\<rparr>;
                r2 = (if outcome = outcomeSuccess
                      then r1\<lparr>rrFinalProvider := Some (arProvider attempt)\<rparr> else r1)
            in Some (h'\<lparr>hRecord := r2, hLastOutcome := outcome, hHasAttempt := True\<rparr>))"

definition requestHistoryOutcome :: "go_error option \<Rightarrow> go_error option \<Rightarrow> string" where
  "requestHistoryOutcome ctxErr err =
     (case err of
        None \<Rightarrow> outcome_String outcomeSuccess
      | Some e \<Rightarrow>
          if ctxErr \<noteq> None then outcome_String outcomeCanceled
          else if errors_is e ErrModelRequired \<or> errors_is e ErrMessagesRequired \<or>
            errors_is e ErrStreamingUnsupported \<or> errors_is e ErrNativeModelInAuto
          then outcome_String outcomeInvalidRequest
          else if as_role_error e \<noteq> None then outcome_String outcomeInvalidRequest
          else outcome_String (classifyProviderOutcome ctxErr err))"

text \<open>\<open>finish\<close> up to the record it submits.\<close>

definition finish_history ::
  "requestHistory option \<Rightarrow> go_error option \<Rightarrow> go_error option \<Rightarrow> instant \<Rightarrow> RequestRecord option" where
  "finish_history h ctxErr err now =
     (case h of
        None \<Rightarrow> None
      | Some h' \<Rightarrow>
          let r0 = hRecord h';
              completed = (if now < rrStartedAt r0 then rrStartedAt r0 else now);
              n = int (length (rrAttempts r0));
              r1 = r0\<lparr>rrCompletedAt := completed,
                rrDurationUS := nonNegativeMicroseconds (time_sub completed (rrStartedAt r0)),
                rrAttemptCount := n\<rparr>;
              r2 = (if 0 < n then r1\<lparr>rrFallbackCount := n - 1\<rparr> else r1);
              r3 = r2\<lparr>rrOutcome := requestHistoryOutcome ctxErr err\<rparr>
          in Some (if err \<noteq> None \<and> hHasAttempt h' \<and> hLastOutcome h' = outcomeCanceled
                   then r3\<lparr>rrOutcome := outcome_String (hLastOutcome h')\<rparr> else r3))"

section \<open>The PostgreSQL store\<close>

definition attempt_invalid :: "nat \<Rightarrow> AttemptRecord \<Rightarrow> bool" where
  "attempt_invalid i a \<longleftrightarrow>
     arAttemptNumber a \<noteq> int i + 1 \<or> arProvider a = [] \<or> 64 < length (string_runes (arProvider a)) \<or>
     arResolvedProviderModel a = [] \<or> 256 < length (string_runes (arResolvedProviderModel a)) \<or>
     arOutcome a = [] \<or> 32 < length (arOutcome a) \<or> arCompletedAt a < arStartedAt a \<or>
     arDurationUS a < 0 \<or> (case arTTFCUS a of None \<Rightarrow> False | Some t \<Rightarrow> t < 0)"

definition validateRecord :: "RequestRecord \<Rightarrow> string option" where
  "validateRecord r =
     (if rrRequestID r = [] \<or> 64 < length (rrRequestID r) \<or> rrRoutingPolicy r = [] \<or>
         32 < length (rrRoutingPolicy r) \<or> 256 < length (string_runes (rrLogicalModel r)) \<or>
         rrOutcome r = [] \<or> 32 < length (rrOutcome r)
      then Some ''invalid request persistence metadata''
      else if rrCompletedAt r < rrStartedAt r \<or> rrDurationUS r < 0 \<or>
         rrAttemptCount r \<noteq> int (length (rrAttempts r)) \<or> rrFallbackCount r < 0 \<or>
         rrFallbackCount r > rrAttemptCount r
      then Some ''invalid request persistence timing or counts''
      else if \<exists>(i, a) \<in> set (enumerate 0 (rrAttempts r)). attempt_invalid i a
      then Some ''invalid provider attempt persistence metadata''
      else None)"

definition postgresUint64 :: "u64 option \<Rightarrow> string + int option" where
  "postgresUint64 value' =
     (case value' of
        None \<Rightarrow> Inr None
      | Some v \<Rightarrow> if uint v > MaxInt64 then Inl ''persistence integer exceeds PostgreSQL BIGINT''
                  else Inr (Some (uint v)))"

text \<open>The two statements the batch queues, with their arguments.\<close>

datatype pg_statement =
    InsertRequest RequestRecord
  | InsertAttempt string AttemptRecord "int option" "int option" "int option" "int option"

definition attempt_statement :: "string \<Rightarrow> AttemptRecord \<Rightarrow> string + pg_statement" where
  "attempt_statement requestID a =
     (case postgresUint64 (arInputTokens a) of Inl e \<Rightarrow> Inl e | Inr input \<Rightarrow>
      case postgresUint64 (arOutputTokens a) of Inl e \<Rightarrow> Inl e | Inr output \<Rightarrow>
      case postgresUint64 (arTotalTokens a) of Inl e \<Rightarrow> Inl e | Inr tot \<Rightarrow>
      case postgresUint64 (arEstimatedCostMicroUSD a) of Inl e \<Rightarrow> Inl e | Inr cost \<Rightarrow>
      Inr (InsertAttempt requestID a input output tot cost))"

fun attempt_statements :: "string \<Rightarrow> AttemptRecord list \<Rightarrow> string + pg_statement list" where
  "attempt_statements requestID [] = Inr []"
| "attempt_statements requestID (a # as) =
     (case attempt_statement requestID a of Inl e \<Rightarrow> Inl e | Inr stmt \<Rightarrow>
      case attempt_statements requestID as of Inl e \<Rightarrow> Inl e | Inr stmts \<Rightarrow> Inr (stmt # stmts))"

definition recordBatch :: "RequestRecord \<Rightarrow> string + pg_statement list" where
  "recordBatch r =
     (case validateRecord r of
        Some e \<Rightarrow> Inl e
      | None \<Rightarrow> (case attempt_statements (rrRequestID r) (rrAttempts r) of
                   Inl e \<Rightarrow> Inl e | Inr stmts \<Rightarrow> Inr (InsertRequest r # stmts)))"

section \<open>Facts on the metadata\<close>

lemma RequestRecord_Clone_id [simp]: "RequestRecord_Clone r = r"
  by (simp add: RequestRecord_Clone_def option.map_id0 map_idI)

lemma boundedMetadata_runes:
  "string_runes (boundedMetadata v m) = take m (string_runes v)"
proof (cases "RuneCount v \<le> m")
  case False
  have "\<forall>r \<in> set (take m (string_runes v)). valid_rune r"
    using string_runes_valid [of v] by (auto dest: in_set_takeD)
  then show ?thesis using False by (simp add: boundedMetadata_def string_runes_string)
qed (simp add: boundedMetadata_def RuneCount_def)

lemma boundedMetadata_length: "length (string_runes (boundedMetadata v m)) \<le> m"
  by (simp add: boundedMetadata_runes)

lemma boundedMetadata_nonempty: "v \<noteq> [] \<Longrightarrow> 0 < m \<Longrightarrow> boundedMetadata v m \<noteq> []"
  using boundedMetadata_runes [of v m] by (metis not_gr_zero string_runes_eq_Nil take_eq_Nil)

lemma boundedMetadata_short: "RuneCount v \<le> m \<Longrightarrow> boundedMetadata v m = v"
  by (simp add: boundedMetadata_def)

lemma nonNegativeMicroseconds_nonneg [simp]: "0 \<le> nonNegativeMicroseconds d"
  by (simp add: nonNegativeMicroseconds_def)

lemma nonNegativeMicroseconds_mono:
  "d \<le> d' \<Longrightarrow> nonNegativeMicroseconds d \<le> nonNegativeMicroseconds d'"
  by (simp add: nonNegativeMicroseconds_def microseconds_def quot_nonneg zdiv_mono1
      pos_imp_zdiv_nonneg_iff)

section \<open>Well-formed histories\<close>

definition outcome_name :: "string \<Rightarrow> bool" where
  "outcome_name s \<longleftrightarrow> s \<in> range outcome_String"

lemma outcome_name_String [simp]: "outcome_name (outcome_String o')"
  by (simp add: outcome_name_def)

lemma outcome_name_bounds: "outcome_name s \<Longrightarrow> s \<noteq> [] \<and> length s \<le> 32"
  using outcome_String_length by (auto simp: outcome_name_def)

text \<open>An attempt that has started, and one that has finished.\<close>

definition attempt_started :: "nat \<Rightarrow> AttemptRecord \<Rightarrow> bool" where
  "attempt_started i a \<longleftrightarrow>
     arAttemptNumber a = int i + 1 \<and> arFallback a = (0 < i) \<and>
     arProvider a \<noteq> [] \<and> length (string_runes (arProvider a)) \<le> 64 \<and>
     arResolvedProviderModel a \<noteq> [] \<and> length (string_runes (arResolvedProviderModel a)) \<le> 256"

definition attempt_done :: "nat \<Rightarrow> AttemptRecord \<Rightarrow> bool" where
  "attempt_done i a \<longleftrightarrow>
     attempt_started i a \<and> outcome_name (arOutcome a) \<and> arStartedAt a \<le> arCompletedAt a \<and>
     0 \<le> arDurationUS a \<and> (\<forall>t. arTTFCUS a = Some t \<longrightarrow> 0 \<le> t)"

definition identity_ok :: "RequestRecord \<Rightarrow> bool" where
  "identity_ok r \<longleftrightarrow>
     rrRequestID r \<noteq> [] \<and> length (rrRequestID r) \<le> 64 \<and> rrRoutingPolicy r \<noteq> [] \<and>
     length (rrRoutingPolicy r) \<le> 32 \<and> length (string_runes (rrLogicalModel r)) \<le> 256 \<and>
     rrFallbackCount r = 0"

text \<open>Between attempts, and while the last one runs.\<close>

definition history_idle :: "requestHistory option \<Rightarrow> bool" where
  "history_idle h \<longleftrightarrow> (\<forall>h'. h = Some h' \<longrightarrow>
     identity_ok (hRecord h') \<and>
     (\<forall>i < length (rrAttempts (hRecord h')). attempt_done i (rrAttempts (hRecord h') ! i)))"

definition history_busy :: "int \<Rightarrow> requestHistory option \<Rightarrow> bool" where
  "history_busy index h \<longleftrightarrow> (\<forall>h'. h = Some h' \<longrightarrow>
     identity_ok (hRecord h') \<and> index \<ge> 0 \<and>
     length (rrAttempts (hRecord h')) = Suc (nat index) \<and>
     attempt_started (nat index) (rrAttempts (hRecord h') ! nat index) \<and>
     (\<forall>i < nat index. attempt_done i (rrAttempts (hRecord h') ! i)))"

lemma history_idle_None [simp]: "history_idle None"
  by (simp add: history_idle_def)

lemma begin_idle:
  assumes "\<And>i. requestID = Some i \<Longrightarrow> i \<noteq> [] \<and> length i \<le> 64" "policy \<noteq> []" "length policy \<le> 32"
    "RuneCount policy \<le> 32"
  shows "history_idle (beginRequestHistory enabled requestID policy request now)"
  using assms
  by (auto simp: beginRequestHistory_def history_idle_def identity_ok_def boundedMetadata_short
      maxPersistedModelLength_def boundedMetadata_length split: option.splits if_splits)

lemma new_attempt_started:
  "p \<noteq> [] \<Longrightarrow> m \<noteq> [] \<Longrightarrow> attempt_started i (new_attempt i p m now)"
  by (simp add: attempt_started_def new_attempt_def boundedMetadata_nonempty boundedMetadata_length
      maxPersistedModelLength_def maxPersistedProviderLength_def)

lemma startAttempt_busy:
  assumes "history_idle h" "p \<noteq> []" "m \<noteq> []"
  shows "history_busy (fst (startAttempt h p m now)) (snd (startAttempt h p m now))"
  using assms
  by (auto simp: startAttempt_def history_busy_def history_idle_def Let_def new_attempt_started
      identity_ok_def nth_append split: option.split)

lemma complete_attempt_done:
  "attempt_started i a \<Longrightarrow> arTTFCUS a = None \<or> (\<forall>t. arTTFCUS a = Some t \<longrightarrow> 0 \<le> t) \<Longrightarrow>
   attempt_done i (complete_attempt a o' d ttfc u ar now)"
  by (auto simp: complete_attempt_def attempt_done_def attempt_started_def Let_def split: option.split)

lemma finishAttempt_idle:
  assumes "history_busy index h"
    and "\<And>h' t. h = Some h' \<Longrightarrow> arTTFCUS (rrAttempts (hRecord h') ! nat index) = Some t \<Longrightarrow> 0 \<le> t"
  shows "history_idle (finishAttempt h index o' d ttfc u ar now)"
proof (cases h)
  case (Some h')
  let ?as = "rrAttempts (hRecord h')"
  let ?a = "complete_attempt (?as ! nat index) o' d ttfc u ar now"
  have b: "identity_ok (hRecord h')" "0 \<le> index" "length ?as = Suc (nat index)"
    "attempt_started (nat index) (?as ! nat index)" "\<forall>i < nat index. attempt_done i (?as ! i)"
    using assms(1) Some by (auto simp: history_busy_def)
  have "attempt_done (nat index) ?a"
    using b(4) assms(2) Some by (intro complete_attempt_done) auto
  with b have "\<forall>i < length ?as. attempt_done i (?as[nat index := ?a] ! i)"
    by (auto simp: nth_update_in less_Suc_eq)
  with b Some show ?thesis
    by (auto simp: finishAttempt_def history_idle_def Let_def identity_ok_def)
qed (simp add: finishAttempt_def)

lemma startAttempt_no_ttfc:
  "snd (startAttempt h p m now) = Some h' \<Longrightarrow>
   arTTFCUS (rrAttempts (hRecord h') ! nat (fst (startAttempt h p m now))) = None"
  by (auto simp: startAttempt_def Let_def new_attempt_def nth_append split: option.splits if_splits)

lemma cacheHit_idle: "history_idle h \<Longrightarrow> history_idle (cacheHit h p)"
  by (auto simp: cacheHit_def history_idle_def identity_ok_def Let_def split: option.splits)

lemma requestHistoryOutcome_name: "outcome_name (requestHistoryOutcome c e)"
  unfolding requestHistoryOutcome_def
  by (cases e) (simp_all only: option.case outcome_name_String if_split simp_thms)

lemma attempt_done_valid: "attempt_done i a \<Longrightarrow> \<not> attempt_invalid i a"
  using outcome_name_bounds [of "arOutcome a"]
  by (auto simp: attempt_done_def attempt_started_def attempt_invalid_def not_less split: option.splits)

lemma finish_valid:
  assumes "history_idle h" "finish_history h ctxErr err now = Some r"
  shows "validateRecord r = None"
proof -
  obtain h' where h: "h = Some h'" using assms(2) by (auto simp: finish_history_def split: option.splits)
  let ?as = "rrAttempts (hRecord h')"
  have i: "identity_ok (hRecord h')" and d: "\<forall>i < length ?as. attempt_done i (?as ! i)"
    using assms(1) h by (auto simp: history_idle_def)
  have as: "rrAttempts r = ?as" and oc: "outcome_name (rrOutcome r)"
    using assms(2) h requestHistoryOutcome_name [of ctxErr err]
    by (auto simp: finish_history_def Let_def simp del: outcome_String.simps)
  have "\<not> attempt_invalid i a" if "(i, a) \<in> set (enumerate 0 ?as)" for i a
    using that d attempt_done_valid by (auto simp: in_set_enumerate_eq)
  then have "\<not> (\<exists>(i, a) \<in> set (enumerate 0 (rrAttempts r)). attempt_invalid i a)"
    unfolding as by blast
  moreover have "rrRequestID r = rrRequestID (hRecord h')" "rrRoutingPolicy r = rrRoutingPolicy (hRecord h')"
    "rrLogicalModel r = rrLogicalModel (hRecord h')" "rrStartedAt r \<le> rrCompletedAt r"
    "0 \<le> rrDurationUS r" "rrAttemptCount r = int (length (rrAttempts r))"
    "0 \<le> rrFallbackCount r" "rrFallbackCount r \<le> rrAttemptCount r"
    using assms(2) h i by (auto simp: finish_history_def Let_def identity_ok_def)
  moreover have "rrOutcome r \<noteq> []" "length (rrOutcome r) \<le> 32"
    using outcome_name_bounds [OF oc] by auto
  ultimately show ?thesis
    using i unfolding validateRecord_def identity_ok_def by (simp only: if_False not_less) simp
qed

section \<open>The attempt log\<close>

record attempt_event =
  evProvider :: string
  evModel :: string
  evStarted :: instant
  evOutcome :: providerOutcome
  evDuration :: duration
  evTTFC :: "duration option"
  evUsage :: "Usage option"
  evResult :: RecordResult
  evFinished :: instant

text \<open>
  What a request relies on: an attempt that is started and then finished leaves the log between
  attempts again, so any number of attempts may follow one another.
\<close>

locale attempt_log =
  fixes start :: "'h \<Rightarrow> string \<Rightarrow> string \<Rightarrow> instant \<Rightarrow> int \<times> 'h"
    and finish :: "'h \<Rightarrow> int \<Rightarrow> providerOutcome \<Rightarrow> duration \<Rightarrow> duration option \<Rightarrow> Usage option
      \<Rightarrow> RecordResult \<Rightarrow> instant \<Rightarrow> 'h"
    and idle :: "'h \<Rightarrow> bool"
    and count :: "'h \<Rightarrow> nat option"
  assumes start_finish_idle: "idle h \<Longrightarrow> p \<noteq> [] \<Longrightarrow> m \<noteq> [] \<Longrightarrow>
      idle (finish (snd (start h p m t)) (fst (start h p m t)) o' d ttfc u ar t')"
    and start_finish_count:
      "count (finish (snd (start h p m t)) (fst (start h p m t)) o' d ttfc u ar t') = map_option Suc (count h)"
begin

definition log_event :: "'h \<Rightarrow> attempt_event \<Rightarrow> 'h" where
  "log_event h e =
     (case start h (evProvider e) (evModel e) (evStarted e) of
        (index, h1) \<Rightarrow> finish h1 index (evOutcome e) (evDuration e) (evTTFC e) (evUsage e) (evResult e)
          (evFinished e))"

lemma log_event_idle: "idle h \<Longrightarrow> evProvider e \<noteq> [] \<Longrightarrow> evModel e \<noteq> [] \<Longrightarrow> idle (log_event h e)"
  using start_finish_idle [of h "evProvider e" "evModel e" "evStarted e"]
  by (simp add: log_event_def case_prod_unfold)

lemma log_event_count: "count (log_event h e) = map_option Suc (count h)"
  by (simp add: log_event_def case_prod_unfold start_finish_count)

lemma log_events_idle:
  "idle h \<Longrightarrow> \<forall>e \<in> set es. evProvider e \<noteq> [] \<and> evModel e \<noteq> [] \<Longrightarrow> idle (foldl log_event h es)"
  by (induction es arbitrary: h) (simp_all add: log_event_idle)

lemma log_events_count: "count (foldl log_event h es) = map_option (\<lambda>n. n + length es) (count h)"
  by (induction es arbitrary: h) (simp_all add: log_event_count option.map_comp comp_def option.map_ident)

end

definition history_count :: "requestHistory option \<Rightarrow> nat option" where
  "history_count h = map_option (\<lambda>h'. length (rrAttempts (hRecord h'))) h"

interpretation hl: attempt_log startAttempt finishAttempt history_idle history_count
proof
  show "history_idle (finishAttempt (snd (startAttempt h p m t)) (fst (startAttempt h p m t)) o' d ttfc u ar t')"
    if "history_idle h" "p \<noteq> []" "m \<noteq> []" for h p m t o' d ttfc u ar t'
    using startAttempt_no_ttfc by (intro finishAttempt_idle startAttempt_busy that) fastforce
  show "history_count (finishAttempt (snd (startAttempt h p m t)) (fst (startAttempt h p m t)) o' d ttfc u ar t')
      = map_option Suc (history_count h)" for h p m t o' d ttfc u ar t'
    by (cases h) (simp_all add: history_count_def startAttempt_def finishAttempt_def Let_def)
qed

definition log_attempt :: "requestHistory option \<Rightarrow> attempt_event \<Rightarrow> requestHistory option" where
  "log_attempt h e =
     (case startAttempt h (evProvider e) (evModel e) (evStarted e) of
        (index, h1) \<Rightarrow> finishAttempt h1 index (evOutcome e) (evDuration e) (evTTFC e) (evUsage e)
          (evResult e) (evFinished e))"

lemma log_attempt_event: "log_attempt = hl.log_event"
  by (intro ext) (simp add: log_attempt_def hl.log_event_def)

lemma finish_history_count:
  "finish_history h c e now = Some r \<Longrightarrow> history_count h = Some n \<Longrightarrow>
   length (rrAttempts r) = n \<and> rrAttemptCount r = int n"
  by (auto simp: finish_history_def history_count_def Let_def split: option.splits)

section \<open>Facts on the statement batch\<close>

definition fits_bigint :: "u64 option \<Rightarrow> bool" where
  "fits_bigint v = (case v of None \<Rightarrow> True | Some x \<Rightarrow> uint x \<le> MaxInt64)"

definition attempt_fits :: "AttemptRecord \<Rightarrow> bool" where
  "attempt_fits a \<longleftrightarrow> fits_bigint (arInputTokens a) \<and> fits_bigint (arOutputTokens a) \<and>
     fits_bigint (arTotalTokens a) \<and> fits_bigint (arEstimatedCostMicroUSD a)"

lemma postgresUint64_iff: "(\<exists>v. postgresUint64 x = Inr v) \<longleftrightarrow> fits_bigint x"
  by (auto simp: postgresUint64_def fits_bigint_def split: option.splits)

lemma attempt_statement_iff: "(\<exists>s. attempt_statement i a = Inr s) \<longleftrightarrow> attempt_fits a"
  unfolding attempt_fits_def postgresUint64_iff [symmetric]
  by (auto simp: attempt_statement_def split: sum.splits)

lemma attempt_statements_iff:
  "(\<exists>ss. attempt_statements i as = Inr ss \<and> length ss = length as) \<longleftrightarrow> (\<forall>a \<in> set as. attempt_fits a)"
proof (induction as)
  case (Cons a as)
  then show ?case
    using attempt_statement_iff [of i a]
    by (cases "attempt_statement i a"; cases "attempt_statements i as") auto
qed simp

lemma attempt_statements_length: "attempt_statements i as = Inr ss \<Longrightarrow> length ss = length as"
  by (induction as arbitrary: ss) (auto split: sum.splits)

section \<open>Properties\<close>

text \<open>Every history the gateway submits passes the store's validation. Whatever the clock
  readings, outcomes, usages and errors, a request that starts and finishes its attempts one after the
  other under a known routing policy and a well-formed request id ends in a record that
  \<open>validateRecord\<close> accepts and that counts exactly those attempts.\<close>

lemma history_always_valid:
  assumes "i \<noteq> []" "length i \<le> 64"
    and "policy \<in> {''deterministic'', ''latency'', ''cost'', ''cost_latency''}"
    and "\<forall>e \<in> set es. evProvider e \<noteq> [] \<and> evModel e \<noteq> []"
    and "finish_history (foldl log_attempt (beginRequestHistory True (Some i) policy request now) es)
      ctxErr err now' = Some r"
  shows "validateRecord r = None \<and> rrAttemptCount r = int (length es)"
proof -
  have "RuneCount policy \<le> 32" "policy \<noteq> []" "length policy \<le> 32"
    using assms(3) by (auto simp: RuneCount_def string_runes_def)
  with assms(1,2) have "history_idle (beginRequestHistory True (Some i) policy request now)"
    by (intro begin_idle) auto
  from finish_valid [OF hl.log_events_idle [OF this assms(4)] assms(5) [unfolded log_attempt_event]]
    finish_history_count [OF assms(5) [unfolded log_attempt_event] hl.log_events_count [THEN trans]]
  show ?thesis by (simp add: history_count_def beginRequestHistory_def)
qed

lemma history_always_valid_witness:
  fixes e request
  defines "e \<equiv> \<lparr>evProvider = ''openai'', evModel = ''gpt'', evStarted = 5, evOutcome = outcomeTimeout,
    evDuration = 7000, evTTFC = None, evUsage = None,
    evResult = \<lparr>EstimatedCostMicroUSD = 0, EstimatedCostAvailable = False\<rparr>, evFinished = 3\<rparr>"
    and "request \<equiv> \<lparr>reqModel = ''routeforge/general'', reqMessages = [], reqStream = False\<rparr>"
  shows "\<exists>r. finish_history (foldl log_attempt
      (beginRequestHistory True (Some ''rfreq_x'') ''cost'' request 9) [e]) None (Some ErrNoProviders) 2 = Some r \<and>
    validateRecord r = None \<and> rrAttemptCount r = 1"
proof -
  obtain r where r: "finish_history (foldl log_attempt
      (beginRequestHistory True (Some ''rfreq_x'') ''cost'' request 9) [e]) None (Some ErrNoProviders) 2 = Some r"
    by (auto simp: log_attempt_def beginRequestHistory_def startAttempt_def finishAttempt_def
        finish_history_def Let_def)
  moreover have "evProvider e \<noteq> []" "evModel e \<noteq> []" by (simp_all add: e_def)
  ultimately show ?thesis
    using history_always_valid [of "''rfreq_x''" "''cost''" "[e]" request 9 None "Some ErrNoProviders" 2 r]
    by simp
qed

text \<open>The batch for a record exists exactly when the record is valid and every token count and
  cost fits a signed 64-bit column; it holds the request's statement and one per attempt.\<close>

lemma record_batch_exact:
  "case recordBatch r of
     Inl _ \<Rightarrow> \<not> (validateRecord r = None \<and> list_all attempt_fits (rrAttempts r))
   | Inr stmts \<Rightarrow> validateRecord r = None \<and> list_all attempt_fits (rrAttempts r) \<and>
       length stmts = Suc (length (rrAttempts r)) \<and> hd stmts = InsertRequest r"
  using attempt_statements_iff [of "rrRequestID r" "rrAttempts r"] attempt_statements_length
  by (auto simp: recordBatch_def list_all_iff split: option.splits sum.splits)

text \<open>Bounded metadata keeps whole characters: it is the longest prefix of at most the permitted
  number of runes, and is unchanged when it already fits.\<close>

lemma bounded_metadata_prefix:
  "string_runes (boundedMetadata v maximum) = take maximum (string_runes v) \<and>
   boundedMetadata v (RuneCount v + extra) = v"
  by (simp add: boundedMetadata_runes boundedMetadata_short)

end
