(* ===== verification/Recorder.thy ===== *)
theory Recorder
  imports History
begin

text \<open>
  The asynchronous history recorder (\<open>internal/persistence/recorder.go\<close>): a bounded queue that
  requests submit to without blocking, one worker that writes, and a shutdown that closes the queue and
  drains it. The worker's goroutine is a state machine of its own; any interleaving of submitters,
  worker and shutdown is a sequence of steps. The calls of the observer are kept as a list.
\<close>

section \<open>State\<close>

definition DefaultQueueCapacity :: int where
  "DefaultQueueCapacity = 256"

datatype WriteOutcome = OutcomeWritten | OutcomeWriteError | OutcomeQueueFull

datatype SubmitResult = SubmitDisabled | SubmitQueued | SubmitQueueFull | SubmitClosed

text \<open>Where the worker is: waiting for a record, holding one it received, inside \<open>store.Write\<close>,
  or returned, with its deferred calls made.\<close>

datatype worker = Waiting | Received RequestRecord | Writing RequestRecord | Returned

record AsyncRecorder =
  raQueue :: "RequestRecord list"
  raCapacity :: nat
  raAccepting :: bool
  raWorker :: worker
  raCanceled :: bool
  raStoreClosed :: bool
  raSubmitted :: int
  raWriteCount :: int
  raWriteNanos :: int
  raObserved :: "WriteOutcome list"

text \<open>The values of the \<open>Recorder\<close> interface: \<open>NoopRecorder{}\<close>, and an asynchronous
  recorder or its nil pointer.\<close>

datatype Recorder = NoopRecorder | NilRecorder | Async AsyncRecorder

definition NewAsyncRecorder :: "int \<Rightarrow> AsyncRecorder" where
  "NewAsyncRecorder capacity =
     \<lparr>raQueue = [], raCapacity = nat (if capacity \<le> 0 then DefaultQueueCapacity else capacity),
      raAccepting = True, raWorker = Waiting, raCanceled = False, raStoreClosed = False,
      raSubmitted = 0, raWriteCount = 0, raWriteNanos = 0, raObserved = []\<rparr>"

section \<open>Operations\<close>

fun Recorder_Enabled :: "Recorder \<Rightarrow> bool" where
  "Recorder_Enabled NoopRecorder = False"
| "Recorder_Enabled NilRecorder = False"
| "Recorder_Enabled (Async r) = True"

definition observe :: "WriteOutcome \<Rightarrow> AsyncRecorder \<Rightarrow> AsyncRecorder" where
  "observe outcome r = r\<lparr>raObserved := raObserved r @ [outcome]\<rparr>"

definition async_submit :: "AsyncRecorder \<Rightarrow> RequestRecord \<Rightarrow> SubmitResult \<times> AsyncRecorder" where
  "async_submit r record' =
     (let rec = RequestRecord_Clone record' in
      if \<not> raAccepting r then (SubmitClosed, r)
      else let r1 = r\<lparr>raSubmitted := i64_wrap (raSubmitted r + 1)\<rparr> in
        if length (raQueue r1) < raCapacity r1
        then (SubmitQueued, r1\<lparr>raQueue := raQueue r1 @ [rec]\<rparr>)
        else (SubmitQueueFull, observe OutcomeQueueFull r1))"

fun Recorder_Submit :: "Recorder \<Rightarrow> RequestRecord \<Rightarrow> SubmitResult \<times> Recorder" where
  "Recorder_Submit NoopRecorder rec = (SubmitDisabled, NoopRecorder)"
| "Recorder_Submit NilRecorder rec = (SubmitDisabled, NilRecorder)"
| "Recorder_Submit (Async r) rec = (case async_submit r rec of (res, r') \<Rightarrow> (res, Async r'))"

text \<open>The two effects of \<open>Shutdown\<close>: it closes the queue, and cancels the worker's context when
  its own context ends before the worker is done.\<close>

definition shutdown_close :: "AsyncRecorder \<Rightarrow> AsyncRecorder" where
  "shutdown_close r = (if raAccepting r then r\<lparr>raAccepting := False\<rparr> else r)"

definition shutdown_wait :: "AsyncRecorder \<Rightarrow> go_error \<Rightarrow> go_error option \<times> AsyncRecorder" where
  "shutdown_wait r ctxErr =
     (if raWorker r = Returned then (None, r) else (Some ctxErr, r\<lparr>raCanceled := True\<rparr>))"

text \<open>The loop of \<open>run\<close>: receive, check the context, write, count and observe, and return once the
  closed queue is empty.\<close>

definition run_receive :: "AsyncRecorder \<Rightarrow> AsyncRecorder option" where
  "run_receive r =
     (case (raWorker r, raQueue r) of
        (Waiting, rec # q) \<Rightarrow> Some (r\<lparr>raQueue := q, raWorker := Received rec\<rparr>)
      | (Waiting, []) \<Rightarrow>
          if raAccepting r then None
          else Some (r\<lparr>raCanceled := True, raStoreClosed := True, raWorker := Returned\<rparr>)
      | _ \<Rightarrow> None)"

definition run_check :: "AsyncRecorder \<Rightarrow> AsyncRecorder option" where
  "run_check r =
     (case raWorker r of
        Received rec \<Rightarrow> Some (if raCanceled r then observe OutcomeWriteError (r\<lparr>raWorker := Waiting\<rparr>)
                              else r\<lparr>raWorker := Writing rec\<rparr>)
      | _ \<Rightarrow> None)"

definition run_written :: "AsyncRecorder \<Rightarrow> bool \<Rightarrow> duration \<Rightarrow> AsyncRecorder option" where
  "run_written r failed elapsed =
     (case raWorker r of
        Writing rec \<Rightarrow>
          Some (observe (if failed then OutcomeWriteError else OutcomeWritten)
            (r\<lparr>raWorker := Waiting, raWriteNanos := i64_wrap (raWriteNanos r + elapsed),
               raWriteCount := i64_wrap (raWriteCount r + 1)\<rparr>))
      | _ \<Rightarrow> None)"

record RecorderStats =
  stSubmitted :: int
  stQueueDepth :: int
  stWriteCount :: int
  stWriteDuration :: duration

definition Recorder_Stats :: "AsyncRecorder \<Rightarrow> RecorderStats" where
  "Recorder_Stats r = \<lparr>stSubmitted = raSubmitted r, stQueueDepth = int (length (raQueue r)),
     stWriteCount = raWriteCount r, stWriteDuration = raWriteNanos r\<rparr>"

section \<open>Interleavings\<close>

text \<open>
  A recorder with what happened to it: the records accepted into the queue, and those the worker has
  finished with, in order.
\<close>

record recorder_sys =
  rsRecorder :: AsyncRecorder
  rsAccepted :: "RequestRecord list"
  rsHandled :: "RequestRecord list"

inductive recorder_step :: "recorder_sys \<Rightarrow> recorder_sys \<Rightarrow> bool" where
  submit: "async_submit (rsRecorder s) rec = (res, r') \<Longrightarrow>
    recorder_step s (s\<lparr>rsRecorder := r',
      rsAccepted := rsAccepted s @ (if res = SubmitQueued then [rec] else [])\<rparr>)"
| close: "recorder_step s (s\<lparr>rsRecorder := shutdown_close (rsRecorder s)\<rparr>)"
| wait: "\<not> raAccepting (rsRecorder s) \<Longrightarrow>
    recorder_step s (s\<lparr>rsRecorder := snd (shutdown_wait (rsRecorder s) e)\<rparr>)"
| receive: "run_receive (rsRecorder s) = Some r' \<Longrightarrow> recorder_step s (s\<lparr>rsRecorder := r'\<rparr>)"
| check: "raWorker (rsRecorder s) = Received rec \<Longrightarrow> run_check (rsRecorder s) = Some r' \<Longrightarrow>
    recorder_step s (s\<lparr>rsRecorder := r',
      rsHandled := rsHandled s @ (if raCanceled (rsRecorder s) then [rec] else [])\<rparr>)"
| written: "raWorker (rsRecorder s) = Writing rec \<Longrightarrow>
    run_written (rsRecorder s) failed elapsed = Some r' \<Longrightarrow>
    recorder_step s (s\<lparr>rsRecorder := r', rsHandled := rsHandled s @ [rec]\<rparr>)"

inductive_cases recorder_stepE: "recorder_step s s'"

inductive recorder_reach :: "int \<Rightarrow> recorder_sys \<Rightarrow> bool" for capacity where
  start: "recorder_reach capacity \<lparr>rsRecorder = NewAsyncRecorder capacity, rsAccepted = [], rsHandled = []\<rparr>"
| step: "recorder_reach capacity s \<Longrightarrow> recorder_step s s' \<Longrightarrow> recorder_reach capacity s'"

text \<open>The record the worker holds, as a list.\<close>

fun in_flight :: "worker \<Rightarrow> RequestRecord list" where
  "in_flight (Received rec) = [rec]"
| "in_flight (Writing rec) = [rec]"
| "in_flight _ = []"

definition recorder_inv :: "int \<Rightarrow> recorder_sys \<Rightarrow> bool" where
  "recorder_inv capacity s \<longleftrightarrow> (let r = rsRecorder s in
     raCapacity r = nat (if capacity \<le> 0 then DefaultQueueCapacity else capacity) \<and>
     length (raQueue r) \<le> raCapacity r \<and>
     rsAccepted s = rsHandled s @ in_flight (raWorker r) @ raQueue r \<and>
     raSubmitted r = i64_wrap (int (length (raObserved r) + length (in_flight (raWorker r)) + length (raQueue r))) \<and>
     length (filter (\<lambda>o'. o' \<noteq> OutcomeQueueFull) (raObserved r)) = length (rsHandled s) \<and>
     (raWorker r = Returned \<longrightarrow> \<not> raAccepting r \<and> raQueue r = [] \<and> raStoreClosed r) \<and>
     (raStoreClosed r \<longrightarrow> raWorker r = Returned))"

lemma i64_wrap_add:
  "i64_wrap (i64_wrap a + b) = i64_wrap (a + b)" "i64_wrap (b + i64_wrap a) = i64_wrap (b + a)"
  by (simp_all add: i64_wrap_def algebra_simps mod_simps)

lemma i64_wrap_0 [simp]: "i64_wrap 0 = 0"
  by (simp add: i64_wrap_def)

lemmas recorder_arith = i64_wrap_add add_ac

lemma recorder_inv_submit:
  assumes "recorder_inv capacity s" "async_submit (rsRecorder s) rec = (res, r')"
  shows "recorder_inv capacity (s\<lparr>rsRecorder := r',
      rsAccepted := rsAccepted s @ (if res = SubmitQueued then [rec] else [])\<rparr>)"
  using assms
  by (auto simp: recorder_inv_def async_submit_def Let_def observe_def recorder_arith
      split: if_splits)

lemma recorder_inv_receive:
  "recorder_inv capacity s \<Longrightarrow> run_receive (rsRecorder s) = Some r' \<Longrightarrow>
   recorder_inv capacity (s\<lparr>rsRecorder := r'\<rparr>)"
  by (auto simp: recorder_inv_def run_receive_def Let_def recorder_arith split: worker.splits list.splits if_splits)

lemma recorder_inv_check:
  "recorder_inv capacity s \<Longrightarrow> raWorker (rsRecorder s) = Received rec \<Longrightarrow>
   run_check (rsRecorder s) = Some r' \<Longrightarrow>
   recorder_inv capacity (s\<lparr>rsRecorder := r',
      rsHandled := rsHandled s @ (if raCanceled (rsRecorder s) then [rec] else [])\<rparr>)"
  by (auto simp: recorder_inv_def run_check_def Let_def observe_def recorder_arith)

lemma recorder_inv_written:
  "recorder_inv capacity s \<Longrightarrow> raWorker (rsRecorder s) = Writing rec \<Longrightarrow>
   run_written (rsRecorder s) failed elapsed = Some r' \<Longrightarrow>
   recorder_inv capacity (s\<lparr>rsRecorder := r', rsHandled := rsHandled s @ [rec]\<rparr>)"
  by (auto simp: recorder_inv_def run_written_def Let_def observe_def recorder_arith)

lemma recorder_inv_shutdown:
  "recorder_inv capacity s \<Longrightarrow> recorder_inv capacity (s\<lparr>rsRecorder := shutdown_close (rsRecorder s)\<rparr>)"
  "recorder_inv capacity s \<Longrightarrow>
   recorder_inv capacity (s\<lparr>rsRecorder := snd (shutdown_wait (rsRecorder s) e)\<rparr>)"
  by (auto simp: recorder_inv_def shutdown_close_def shutdown_wait_def Let_def)

lemma recorder_reach_inv: "recorder_reach capacity s \<Longrightarrow> recorder_inv capacity s"
proof (induction rule: recorder_reach.induct)
  case start
  then show ?case by (simp add: recorder_inv_def NewAsyncRecorder_def Let_def)
next
  case (step s s')
  from step.hyps(2) step.IH show ?case
    by (cases rule: recorder_step.cases; hypsubst)
      (blast intro: recorder_inv_submit recorder_inv_receive recorder_inv_check recorder_inv_written
        recorder_inv_shutdown)+
qed

section \<open>Draining\<close>

text \<open>The worker on its own, until it returns or waits for a record: \<open>io\<close> gives the result and
  the duration of each write.\<close>

fun worker_rank :: "worker \<Rightarrow> nat" where
  "worker_rank Returned = 0"
| "worker_rank Waiting = 1"
| "worker_rank (Writing _) = 2"
| "worker_rank (Received _) = 3"

function worker_run :: "(RequestRecord \<Rightarrow> bool \<times> duration) \<Rightarrow> AsyncRecorder \<Rightarrow> AsyncRecorder" where
  "worker_run io r =
     (case raWorker r of
        Returned \<Rightarrow> r
      | Waiting \<Rightarrow> (case run_receive r of None \<Rightarrow> r | Some r' \<Rightarrow> worker_run io r')
      | Received rec \<Rightarrow> (case run_check r of None \<Rightarrow> r | Some r' \<Rightarrow> worker_run io r')
      | Writing rec \<Rightarrow>
          (case run_written r (fst (io rec)) (snd (io rec)) of None \<Rightarrow> r | Some r' \<Rightarrow> worker_run io r'))"
  by pat_completeness auto

termination
  by (relation "measure (\<lambda>(io, r). 3 * length (raQueue r) + worker_rank (raWorker r))")
    (auto simp: run_receive_def run_check_def run_written_def observe_def split: list.splits if_splits)

declare worker_run.simps [simp del]

lemma worker_steps_closed:
  "run_receive r = Some r' \<Longrightarrow> raAccepting r' = raAccepting r"
  "run_check r = Some r' \<Longrightarrow> raAccepting r' = raAccepting r"
  "run_written r f d = Some r' \<Longrightarrow> raAccepting r' = raAccepting r"
  by (auto simp: run_receive_def run_check_def run_written_def observe_def
      split: worker.splits list.splits if_splits)

lemma worker_run_reach:
  "recorder_reach capacity s \<Longrightarrow> rsRecorder s = r \<Longrightarrow> \<not> raAccepting r \<Longrightarrow>
   \<exists>s'. recorder_reach capacity s' \<and> rsRecorder s' = worker_run io r \<and>
     rsAccepted s' = rsAccepted s \<and> raWorker (worker_run io r) = Returned"
proof (induction io r arbitrary: s rule: worker_run.induct)
  case (1 io r)
  note reach = recorder_reach.step [OF 1(4)]
  show ?case
  proof (cases "raWorker r")
    case Returned
    with 1(4,5) show ?thesis by (intro exI [of _ s]) (simp add: worker_run.simps)
  next
    case Waiting
    then obtain r' where r': "run_receive r = Some r'"
      using 1(6) by (cases "raQueue r") (auto simp: run_receive_def)
    from 1(1) [OF Waiting r' reach [OF recorder_step.receive]] r' 1(5,6) worker_steps_closed(1) [OF r']
    show ?thesis using Waiting by (simp add: worker_run.simps [of io r])
  next
    case (Received rec)
    then obtain r' where r': "run_check r = Some r'" by (auto simp: run_check_def)
    from 1(2) [OF Received r' reach [OF recorder_step.check]] r' Received 1(5,6) worker_steps_closed(2) [OF r']
    show ?thesis by (simp add: worker_run.simps [of io r])
  next
    case (Writing rec)
    then obtain r' where r': "run_written r (fst (io rec)) (snd (io rec)) = Some r'"
      by (auto simp: run_written_def)
    from 1(3) [OF Writing r' reach [OF recorder_step.written]] r' Writing 1(5,6) worker_steps_closed(3) [OF r']
    show ?thesis by (simp add: worker_run.simps [of io r])
  qed
qed

section \<open>Properties\<close>



text \<open>C36: Shutdown drains. From every reachable state in which the queue is closed, the worker, whatever
  the store answers, returns after finitely many steps, with the store closed and every accepted
  record handled.\<close>

theorem shutdown_drains:
  fixes io :: "RequestRecord \<Rightarrow> bool \<times> duration"
  assumes "recorder_reach capacity s" "\<not> raAccepting (rsRecorder s)"
  defines "r \<equiv> worker_run io (rsRecorder s)"
  shows "raWorker r = Returned \<and> raQueue r = [] \<and> raStoreClosed r \<and>
    length (filter (\<lambda>o'. o' \<noteq> OutcomeQueueFull) (raObserved r)) = length (rsAccepted s)"
proof -
  from worker_run_reach [OF assms(1) refl assms(2), of io] obtain s' where
    s': "recorder_reach capacity s'" "rsRecorder s' = r" "rsAccepted s' = rsAccepted s"
      "raWorker r = Returned" unfolding r_def by blast
  from recorder_reach_inv [OF s'(1)] s'(2-4) show ?thesis
    by (simp add: recorder_inv_def Let_def)
qed

definition sample_record :: RequestRecord where
  "sample_record = \<lparr>rrRequestID = ''r'', rrStartedAt = 0, rrCompletedAt = 0, rrRoutingPolicy = ''cost'',
     rrStreaming = False, rrCacheHit = False, rrLogicalModel = ''m'', rrInitialProvider = None,
     rrFinalProvider = None, rrOutcome = ''success'', rrAttemptCount = 0, rrFallbackCount = 0,
     rrDurationUS = 0, rrAttempts = []\<rparr>"

theorem shutdown_drains_witness:
  fixes r0 r1
  defines "r0 \<equiv> NewAsyncRecorder 4"
    and "r1 \<equiv> shutdown_close (snd (async_submit (NewAsyncRecorder 4) sample_record))"
  shows "raObserved (worker_run (\<lambda>_. (False, 3)) r1) = [OutcomeWritten] \<and>
    raWorker (worker_run (\<lambda>_. (False, 3)) r1) = Returned"
proof -
  let ?s0 = "\<lparr>rsRecorder = r0, rsAccepted = [], rsHandled = []\<rparr>"
  obtain res r' where sub: "async_submit r0 sample_record = (res, r')" by fastforce
  have "recorder_reach 4 ?s0" unfolding r0_def by (rule recorder_reach.start)
  from recorder_reach.step [OF recorder_reach.step [OF this recorder_step.submit [of ?s0]]
      recorder_step.close] sub
  have "recorder_reach 4 \<lparr>rsRecorder = r1, rsAccepted = (if res = SubmitQueued then [sample_record] else []),
      rsHandled = []\<rparr>" unfolding r1_def r0_def by simp
  moreover have "\<not> raAccepting r1"
    by (simp add: r1_def async_submit_def NewAsyncRecorder_def shutdown_close_def Let_def)
  ultimately have "raWorker (worker_run (\<lambda>_. (False, 3)) r1) = Returned"
    using shutdown_drains [of 4 _ "\<lambda>_. (False, 3)"] by fastforce
  moreover have "raObserved (worker_run (\<lambda>_. (False, 3)) r1) = [OutcomeWritten]"
    unfolding r1_def by code_simp
  ultimately show ?thesis by simp
qed

end
