(* ===== verification/Json.thy ===== *)
theory Json
  imports Go_Strings
begin

text \<open>
  The part of Go's \<open>encoding/json\<close> that the gateway uses. Reading follows the package's
  scanner: a value is recognised byte by byte with a stack of open arrays and objects, at most 10000
  deep, so that a decoder can read one value and leave the rest; invalid UTF-8 and unpaired surrogates
  become the replacement character; numbers keep their literal. Writing follows \<open>Marshal\<close> with
  its HTML-safe escapes. Decoding into a struct matches keys exactly or up to case folding, leaves a
  field alone for \<open>null\<close>, and merges repeated keys in order. The main fact is that reading a
  written value gives it back, with every string made valid UTF-8.
\<close>

section \<open>Values\<close>

datatype json =
    JNull
  | JBool bool
  | JNum string
  | JStr string
  | JArr "json list"
  | JObj "(string \<times> json) list"

text \<open>What scanning a prefix of the input gives: an item and the rest, a syntax error, or the end of the
  input before the end of the item.\<close>

datatype 'a scan = Scanned 'a "nat list" | Bad | More

definition bytes_of :: "string \<Rightarrow> nat list" where
  "bytes_of s = map of_char s"

definition string_of :: "nat list \<Rightarrow> string" where
  "string_of bs = map char_of bs"

section \<open>Lexical scanning\<close>

definition json_space :: "nat \<Rightarrow> bool" where
  "json_space c \<longleftrightarrow> c = 32 \<or> c = 9 \<or> c = 13 \<or> c = 10"

definition is_digit :: "nat \<Rightarrow> bool" where
  "is_digit c \<longleftrightarrow> 48 \<le> c \<and> c \<le> 57"

definition hex_value :: "nat \<Rightarrow> nat option" where
  "hex_value c =
     (if 48 \<le> c \<and> c \<le> 57 then Some (c - 48)
      else if 97 \<le> c \<and> c \<le> 102 then Some (c - 87)
      else if 65 \<le> c \<and> c \<le> 70 then Some (c - 55)
      else None)"

text \<open>Four hexadecimal digits.\<close>

fun hex4 :: "nat list \<Rightarrow> nat option" where
  "hex4 (a # b # c # d # _) =
     (case (hex_value a, hex_value b, hex_value c, hex_value d) of
        (Some w, Some x, Some y, Some z) \<Rightarrow> Some (w * 4096 + x * 256 + y * 16 + z)
      | _ \<Rightarrow> None)"
| "hex4 _ = None"

text \<open>Whether the first four bytes can still become four digits.\<close>

definition hex4_prefix :: "nat list \<Rightarrow> bool" where
  "hex4_prefix s \<longleftrightarrow> (\<forall>c \<in> set (take 4 s). hex_value c \<noteq> None)"

definition surrogate :: "nat \<Rightarrow> bool" where
  "surrogate r \<longleftrightarrow> 55296 \<le> r \<and> r < 57344"

text \<open>The low half of a surrogate pair that follows as another escape, and the rune of the pair.\<close>

definition pair_rune :: "nat \<Rightarrow> nat list \<Rightarrow> nat option" where
  "pair_rune hi s =
     (if hi < 56320 \<and> take 2 s = [92, 117] then
        (case hex4 (drop 2 s) of
           Some lo \<Rightarrow> if 56320 \<le> lo \<and> lo < 57344
                      then Some ((hi - 55296) * 1024 + (lo - 56320) + 65536) else None
         | None \<Rightarrow> None)
      else None)"

definition simple_escape :: "nat \<Rightarrow> nat option" where
  "simple_escape c =
     (if c = 98 then Some 8 else if c = 102 then Some 12 else if c = 110 then Some 10
      else if c = 114 then Some 13 else if c = 116 then Some 9
      else if c = 92 \<or> c = 47 \<or> c = 34 then Some c else None)"

fun scan_cons :: "nat \<Rightarrow> nat list scan \<Rightarrow> nat list scan" where
  "scan_cons r (Scanned rs rest) = Scanned (r # rs) rest"
| "scan_cons r Bad = Bad"
| "scan_cons r More = More"

text \<open>The runes of a string literal, from behind its opening quote.\<close>

function scan_string :: "nat list \<Rightarrow> nat list scan" where
  "scan_string [] = More"
| "scan_string (c # s) =
     (if c = 34 then Scanned [] s
      else if c = 92 then
        (case s of
           [] \<Rightarrow> More
         | e # s1 \<Rightarrow>
             if e = 117 then
               (case hex4 s1 of
                  None \<Rightarrow> if hex4_prefix s1 \<and> length s1 < 4 then More else Bad
                | Some r \<Rightarrow>
                    if surrogate r then
                      (case pair_rune r (drop 4 s1) of
                         Some p \<Rightarrow> scan_cons p (scan_string (drop 10 s1))
                       | None \<Rightarrow> scan_cons RuneError (scan_string (drop 4 s1)))
                    else scan_cons r (scan_string (drop 4 s1)))
             else (case simple_escape e of
                     Some r \<Rightarrow> scan_cons r (scan_string s1)
                   | None \<Rightarrow> Bad))
      else if c < 32 then Bad
      else scan_cons (fst (decode_rune (c # s))) (scan_string (drop (snd (decode_rune (c # s)) - 1) s)))"
  by pat_completeness auto
termination
  by (relation "measure length") auto

text \<open>Numbers: an optional sign, an integer without leading zeros, a fraction, an exponent.\<close>

definition scan_int :: "nat list \<Rightarrow> nat list scan" where
  "scan_int s =
     (case s of
        [] \<Rightarrow> More
      | c # r \<Rightarrow>
          if c = 48 then Scanned [48] r
          else if is_digit c then Scanned (c # takeWhile is_digit r) (dropWhile is_digit r)
          else Bad)"

definition scan_digits :: "nat list \<Rightarrow> nat list \<Rightarrow> nat list scan" where
  "scan_digits mark s =
     (case s of
        [] \<Rightarrow> More
      | c # r \<Rightarrow>
          if is_digit c then Scanned (mark @ takeWhile is_digit s) (dropWhile is_digit s) else Bad)"

definition scan_frac :: "nat list \<Rightarrow> nat list scan" where
  "scan_frac s =
     (case s of
        [] \<Rightarrow> Scanned [] []
      | c # r \<Rightarrow> if c = 46 then scan_digits [46] r else Scanned [] s)"

definition scan_exp :: "nat list \<Rightarrow> nat list scan" where
  "scan_exp s =
     (case s of
        [] \<Rightarrow> Scanned [] []
      | c # r \<Rightarrow>
          if c = 101 \<or> c = 69 then
            (case r of
               [] \<Rightarrow> More
             | d # r1 \<Rightarrow> if d = 43 \<or> d = 45 then scan_digits [c, d] r1 else scan_digits [c] r)
          else Scanned [] s)"

fun scan_then :: "nat list scan \<Rightarrow> (nat list \<Rightarrow> nat list scan) \<Rightarrow> nat list scan" where
  "scan_then (Scanned a rest) f = (case f rest of Scanned b rest' \<Rightarrow> Scanned (a @ b) rest' | Bad \<Rightarrow> Bad | More \<Rightarrow> More)"
| "scan_then Bad f = Bad"
| "scan_then More f = More"

definition scan_unsigned :: "nat list \<Rightarrow> nat list scan" where
  "scan_unsigned s = scan_then (scan_then (scan_int s) scan_frac) scan_exp"

definition scan_number :: "nat list \<Rightarrow> nat list scan" where
  "scan_number s =
     (case s of
        c # r \<Rightarrow> if c = 45 then scan_then (Scanned [45] r) scan_unsigned else scan_unsigned s
      | [] \<Rightarrow> More)"

text \<open>The rest of a literal name.\<close>

fun scan_word :: "nat list \<Rightarrow> nat list \<Rightarrow> unit scan" where
  "scan_word [] s = Scanned () s"
| "scan_word (w # ws) [] = More"
| "scan_word (w # ws) (c # s) = (if c = w then scan_word ws s else Bad)"

section \<open>The scanner\<close>

datatype token =
    TObject | TEndObject | TArray | TEndArray | TColon | TComma | TScalar json

definition scan_literal :: "nat list \<Rightarrow> json \<Rightarrow> nat list \<Rightarrow> token scan" where
  "scan_literal w v s = (case scan_word w s of Scanned _ r \<Rightarrow> Scanned (TScalar v) r | Bad \<Rightarrow> Bad | More \<Rightarrow> More)"

definition scan_token :: "nat \<Rightarrow> nat list \<Rightarrow> token scan" where
  "scan_token c s =
     (if c = 123 then Scanned TObject s
      else if c = 125 then Scanned TEndObject s
      else if c = 91 then Scanned TArray s
      else if c = 93 then Scanned TEndArray s
      else if c = 58 then Scanned TColon s
      else if c = 44 then Scanned TComma s
      else if c = 34 then
        (case scan_string s of Scanned rs r \<Rightarrow> Scanned (TScalar (JStr (runes_string rs))) r | Bad \<Rightarrow> Bad | More \<Rightarrow> More)
      else if c = 116 then scan_literal [114, 117, 101] (JBool True) s
      else if c = 102 then scan_literal [97, 108, 115, 101] (JBool False) s
      else if c = 110 then scan_literal [117, 108, 108] JNull s
      else if c = 45 \<or> is_digit c then
        (case scan_number (c # s) of Scanned n r \<Rightarrow> Scanned (TScalar (JNum (string_of n))) r | Bad \<Rightarrow> Bad | More \<Rightarrow> More)
      else Bad)"

text \<open>An open array with its elements, or an open object with its members and the current key, both in
  reverse.\<close>

datatype frame = FArr "json list" | FObj "(string \<times> json) list" string

datatype mode = MValue | MFirstElem | MFirstKey | MKey | MColon | MAfter

definition value_start :: "nat \<Rightarrow> bool" where
  "value_start c \<longleftrightarrow> c \<in> {123, 91, 34, 45, 116, 102, 110} \<or> is_digit c"

text \<open>The bytes that may start the next token.\<close>

fun accepts :: "mode \<Rightarrow> frame list \<Rightarrow> nat \<Rightarrow> bool" where
  "accepts MValue st c \<longleftrightarrow> value_start c"
| "accepts MFirstElem st c \<longleftrightarrow> value_start c \<or> c = 93"
| "accepts MFirstKey st c \<longleftrightarrow> c = 34 \<or> c = 125"
| "accepts MKey st c \<longleftrightarrow> c = 34"
| "accepts MColon st c \<longleftrightarrow> c = 58"
| "accepts MAfter (FArr vs # st) c \<longleftrightarrow> c = 44 \<or> c = 93"
| "accepts MAfter (FObj kvs k # st) c \<longleftrightarrow> c = 44 \<or> c = 125"
| "accepts MAfter [] c \<longleftrightarrow> False"

definition maxNestingDepth :: nat where
  "maxNestingDepth = 10000"

text \<open>A complete value at the top level, or the next mode and stack.\<close>

fun close_value :: "json \<Rightarrow> frame list \<Rightarrow> json + mode \<times> frame list" where
  "close_value v [] = Inl v"
| "close_value v (FArr vs # st) = Inr (MAfter, FArr (v # vs) # st)"
| "close_value v (FObj kvs k # st) = Inr (MAfter, FObj ((k, v) # kvs) k # st)"

fun json_step :: "mode \<Rightarrow> frame list \<Rightarrow> token \<Rightarrow> (json + mode \<times> frame list) option" where
  "json_step MColon st TColon = Some (Inr (MValue, st))"
| "json_step MAfter (FArr vs # st) TComma = Some (Inr (MValue, FArr vs # st))"
| "json_step MAfter (FObj kvs k # st) TComma = Some (Inr (MKey, FObj kvs k # st))"
| "json_step m (FArr vs # st) TEndArray = Some (close_value (JArr (rev vs)) st)"
| "json_step m (FObj kvs k # st) TEndObject = Some (close_value (JObj (rev kvs)) st)"
| "json_step MFirstKey (FObj kvs k # st) (TScalar (JStr s)) = Some (Inr (MColon, FObj kvs s # st))"
| "json_step MKey (FObj kvs k # st) (TScalar (JStr s)) = Some (Inr (MColon, FObj kvs s # st))"
| "json_step m st (TScalar v) = Some (close_value v st)"
| "json_step m st TArray =
     (if length st < maxNestingDepth then Some (Inr (MFirstElem, FArr [] # st)) else None)"
| "json_step m st TObject =
     (if length st < maxNestingDepth then Some (Inr (MFirstKey, FObj [] [] # st)) else None)"
| "json_step m st _ = None"

lemma scan_cons_Scanned: "scan_cons x y = Scanned rs r \<longleftrightarrow> (\<exists>rs'. y = Scanned rs' r \<and> rs = x # rs')"
  by (cases y) auto

lemma scan_string_shorter: "scan_string s = Scanned rs r \<Longrightarrow> length r < length s"
proof (induction s arbitrary: rs r rule: scan_string.induct)
  case (2 c s)
  show ?case
    using "2.prems" 2(1-5)
    by (fastforce simp del: decode_rune.simps simp: scan_cons_Scanned split: if_splits list.splits option.splits)
qed simp

lemma scan_then_Scanned:
  "scan_then y f = Scanned n r \<longleftrightarrow> (\<exists>a b t. y = Scanned a t \<and> f t = Scanned b r \<and> n = a @ b)"
  by (cases y) (auto split: scan.split)

lemma length_dropWhile_less: "P c \<Longrightarrow> length (dropWhile P (c # s)) < length (c # s)"
  using length_dropWhile_le [of P s] by simp

lemma scan_int_shorter: "scan_int s = Scanned n r \<Longrightarrow> length r < length s"
  by (auto simp: scan_int_def less_Suc_eq_le length_dropWhile_le split: list.splits if_splits)

lemma scan_digits_shorter: "scan_digits m s = Scanned n r \<Longrightarrow> length r < length s"
  by (auto simp: scan_digits_def less_Suc_eq_le length_dropWhile_le split: list.splits if_splits)

lemma scan_frac_le: "scan_frac s = Scanned n r \<Longrightarrow> length r \<le> length s"
  by (auto simp: scan_frac_def split: list.splits if_splits dest!: scan_digits_shorter)

lemma scan_exp_le: "scan_exp s = Scanned n r \<Longrightarrow> length r \<le> length s"
  by (auto simp: scan_exp_def split: list.splits if_splits dest!: scan_digits_shorter)

lemma scan_unsigned_shorter: "scan_unsigned s = Scanned n r \<Longrightarrow> length r < length s"
  unfolding scan_unsigned_def scan_then_Scanned
  by (fastforce dest: scan_int_shorter scan_frac_le scan_exp_le)

lemma scan_number_shorter: "scan_number s = Scanned n r \<Longrightarrow> length r < length s"
  by (auto simp: scan_number_def scan_then_Scanned split: list.splits if_splits scan.splits
      dest!: scan_unsigned_shorter)

lemma scan_word_le: "scan_word w s = Scanned u r \<Longrightarrow> length r \<le> length s"
  by (induction w s rule: scan_word.induct) (auto split: if_splits)

lemma scan_token_le: "scan_token c s = Scanned t r \<Longrightarrow> length r \<le> length s"
  by (auto simp: scan_token_def scan_literal_def split: if_splits scan.splits
      dest!: scan_string_shorter scan_number_shorter scan_word_le)

text \<open>Reading a value: spaces, one token, one step of the scanner.\<close>

function parse :: "mode \<Rightarrow> frame list \<Rightarrow> nat list \<Rightarrow> json scan" where
  "parse m st s =
     (case dropWhile json_space s of
        [] \<Rightarrow> More
      | c # s1 \<Rightarrow>
          if \<not> accepts m st c then Bad
          else (case scan_token c s1 of
                  Bad \<Rightarrow> Bad
                | More \<Rightarrow> More
                | Scanned t r \<Rightarrow>
                    (case json_step m st t of
                       None \<Rightarrow> Bad
                     | Some (Inl v) \<Rightarrow> Scanned v r
                     | Some (Inr (m', st')) \<Rightarrow> parse m' st' r)))"
  by pat_completeness auto
termination
proof (relation "measure (\<lambda>(m, st, s). length s)", goal_cases)
  case (2 m st s c s1 t r z w m' st')
  have "length (c # s1) \<le> length s" using length_dropWhile_le [of json_space s] 2(1) by simp
  with scan_token_le [of c s1 t r] 2 show ?case by simp
qed simp

declare parse.simps [simp del]

section \<open>Decoding\<close>

text \<open>\<open>json.Unmarshal\<close> needs one value with nothing but space around it. A \<open>json.Decoder\<close>
  reads the next value; it ends with \<open>io.EOF\<close> when only space is left of an input that ended
  normally (\<open>eof\<close>), and with the reader's error when the value is not complete where the
  reader failed. A scalar is complete only once the byte behind it has been seen.\<close>

definition Unmarshal_value :: "string \<Rightarrow> json option" where
  "Unmarshal_value data =
     (case parse MValue [] (bytes_of data) of
        Scanned v r \<Rightarrow> if list_all json_space r then Some v else None
      | _ \<Rightarrow> None)"

datatype decoded = DecodedValue json "nat list" | DecodedEOF | DecodedSyntax | DecodedReadError

fun compound :: "json \<Rightarrow> bool" where
  "compound (JArr _) = True"
| "compound (JObj _) = True"
| "compound _ = False"

definition Decode :: "bool \<Rightarrow> nat list \<Rightarrow> decoded" where
  "Decode eof s =
     (case parse MValue [] s of
        Bad \<Rightarrow> DecodedSyntax
      | More \<Rightarrow> if \<not> eof then DecodedReadError
                else if list_all json_space s then DecodedEOF else DecodedSyntax
      | Scanned v r \<Rightarrow>
          if r = [] \<and> \<not> eof \<and> \<not> compound v then DecodedReadError else DecodedValue v r)"

text \<open>The single value of an input, as the handlers read it: one value, then \<open>io.EOF\<close>.\<close>

definition Decode_single :: "bool \<Rightarrow> nat list \<Rightarrow> json option" where
  "Decode_single eof s =
     (case Decode eof s of
        DecodedValue v r \<Rightarrow> if Decode eof r = DecodedEOF then Some v else None
      | _ \<Rightarrow> None)"

subsection \<open>Structs\<close>

text \<open>\<open>foldName\<close> on the runes that matter for the ASCII field names: lower-case letters, the Kelvin
  sign and the long s fold to an upper-case letter.\<close>

definition fold_rune :: "nat \<Rightarrow> nat" where
  "fold_rune r = (if 97 \<le> r \<and> r \<le> 122 then r - 32 else if r = 8490 then 75 else if r = 383 then 83 else r)"

definition fold_name :: "string \<Rightarrow> nat list" where
  "fold_name s = map fold_rune (string_runes s)"

definition struct_field :: "string list \<Rightarrow> string \<Rightarrow> string option" where
  "struct_field names key =
     (if key \<in> set names then Some key else find (\<lambda>n. fold_name n = fold_name key) names)"

text \<open>The members of an object, stored one after the other; \<open>strict\<close> is
  \<open>DisallowUnknownFields\<close>.\<close>

fun decode_members ::
  "string list \<Rightarrow> bool \<Rightarrow> (string \<Rightarrow> json \<Rightarrow> 'a \<Rightarrow> 'a option) \<Rightarrow> (string \<times> json) list \<Rightarrow> 'a \<Rightarrow> 'a option" where
  "decode_members names strict set' [] a = Some a"
| "decode_members names strict set' ((key, v) # kvs) a =
     (case struct_field names key of
        None \<Rightarrow> if strict then None else decode_members names strict set' kvs a
      | Some name \<Rightarrow>
          (case set' name v a of None \<Rightarrow> None | Some a' \<Rightarrow> decode_members names strict set' kvs a'))"

definition decode_struct ::
  "string list \<Rightarrow> bool \<Rightarrow> (string \<Rightarrow> json \<Rightarrow> 'a \<Rightarrow> 'a option) \<Rightarrow> json \<Rightarrow> 'a \<Rightarrow> 'a option" where
  "decode_struct names strict set' v a =
     (case v of JNull \<Rightarrow> Some a | JObj kvs \<Rightarrow> decode_members names strict set' kvs a | _ \<Rightarrow> None)"

fun decode_string :: "json \<Rightarrow> string \<Rightarrow> string option" where
  "decode_string JNull old = Some old"
| "decode_string (JStr s) old = Some s"
| "decode_string _ old = None"

fun decode_bool :: "json \<Rightarrow> bool \<Rightarrow> bool option" where
  "decode_bool JNull old = Some old"
| "decode_bool (JBool b) old = Some b"
| "decode_bool _ old = None"

text \<open>\<open>strconv.ParseInt\<close> and \<open>ParseUint\<close> on a number literal.\<close>

definition literal_int :: "string \<Rightarrow> int option" where
  "literal_int n =
     (case n of
        [] \<Rightarrow> None
      | c # r \<Rightarrow>
          (case (if c = CHR ''-'' then if r = [] then None else map_option (\<lambda>v. - int v) (digits_value r 0)
                 else map_option int (digits_value n 0)) of
             None \<Rightarrow> None
           | Some v \<Rightarrow> if in_i64 v then Some v else None))"

fun decode_int :: "json \<Rightarrow> int \<Rightarrow> int option" where
  "decode_int JNull old = Some old"
| "decode_int (JNum n) old = literal_int n"
| "decode_int _ old = None"

text \<open>A pointer becomes nil for \<open>null\<close>; otherwise what it points to, or a new zero value, is
  decoded into.\<close>

definition decode_pointer :: "'a \<Rightarrow> (json \<Rightarrow> 'a \<Rightarrow> 'a option) \<Rightarrow> json \<Rightarrow> 'a option \<Rightarrow> 'a option option" where
  "decode_pointer zero dec v old =
     (case v of
        JNull \<Rightarrow> Some None
      | _ \<Rightarrow> map_option Some (dec v (case old of None \<Rightarrow> zero | Some a \<Rightarrow> a)))"

fun decode_u64 :: "json \<Rightarrow> u64 \<Rightarrow> u64 option" where
  "decode_u64 JNull old = Some old"
| "decode_u64 (JNum n) old = ParseUint n"
| "decode_u64 _ old = None"

text \<open>A slice: \<open>null\<close> is nil; an element at a position that was filled before is decoded into.\<close>

fun decode_elements :: "'a \<Rightarrow> (json \<Rightarrow> 'a \<Rightarrow> 'a option) \<Rightarrow> json list \<Rightarrow> 'a list \<Rightarrow> 'a list option" where
  "decode_elements zero dec [] old = Some []"
| "decode_elements zero dec (v # vs) old =
     (case dec v (case old of [] \<Rightarrow> zero | a # _ \<Rightarrow> a) of
        None \<Rightarrow> None
      | Some a \<Rightarrow> map_option (Cons a) (decode_elements zero dec vs (tl old)))"

definition decode_slice :: "'a \<Rightarrow> (json \<Rightarrow> 'a \<Rightarrow> 'a option) \<Rightarrow> json \<Rightarrow> 'a list \<Rightarrow> 'a list option" where
  "decode_slice zero dec v old =
     (case v of JNull \<Rightarrow> Some [] | JArr vs \<Rightarrow> decode_elements zero dec vs old | _ \<Rightarrow> None)"

section \<open>Encoding\<close>

text \<open>The runes of a byte sequence with their widths; a replacement rune of width one is an invalid
  byte.\<close>

function utf8_decoded :: "nat list \<Rightarrow> (nat \<times> nat) list" where
  "utf8_decoded [] = []"
| "utf8_decoded (b # bs) =
     decode_rune (b # bs) # utf8_decoded (drop (snd (decode_rune (b # bs)) - 1) bs)"
  by pat_completeness auto
termination
  by (relation "measure length") auto

definition hex_digit :: "nat \<Rightarrow> nat" where
  "hex_digit n = (if n < 10 then 48 + n else 87 + n)"

definition escape_u :: "nat \<Rightarrow> nat list" where
  "escape_u r = [92, 117, hex_digit (r div 4096), hex_digit (r div 256 mod 16),
     hex_digit (r div 16 mod 16), hex_digit (r mod 16)]"

definition html_safe :: "nat \<Rightarrow> bool" where
  "html_safe r \<longleftrightarrow> 32 \<le> r \<and> r < 128 \<and> r \<notin> {34, 92, 60, 62, 38}"

definition escape_rune :: "nat \<times> nat \<Rightarrow> nat list" where
  "escape_rune rw =
     (case rw of (r, w) \<Rightarrow>
      if r < 128 then
        if html_safe r then [r]
        else if r = 92 \<or> r = 34 then [92, r]
        else if r = 8 then [92, 98] else if r = 12 then [92, 102] else if r = 10 then [92, 110]
        else if r = 13 then [92, 114] else if r = 9 then [92, 116]
        else escape_u r
      else if r = RuneError \<and> w = 1 then escape_u r
      else if r = 8232 \<or> r = 8233 then escape_u r
      else encode_rune r)"

definition print_string :: "string \<Rightarrow> nat list" where
  "print_string s = 34 # concat (map escape_rune (utf8_decoded (bytes_of s))) @ [34]"

fun join_bytes :: "nat list list \<Rightarrow> nat list" where
  "join_bytes [] = []"
| "join_bytes [x] = x"
| "join_bytes (x # y # zs) = x @ 44 # join_bytes (y # zs)"

fun print_json :: "json \<Rightarrow> nat list" where
  "print_json JNull = [110, 117, 108, 108]"
| "print_json (JBool b) = (if b then [116, 114, 117, 101] else [102, 97, 108, 115, 101])"
| "print_json (JNum n) = bytes_of n"
| "print_json (JStr s) = print_string s"
| "print_json (JArr vs) = 91 # join_bytes (map print_json vs) @ [93]"
| "print_json (JObj kvs) =
     123 # join_bytes (map (\<lambda>(k, v). print_string k @ 58 # print_json v) kvs) @ [125]"

text \<open>Numbers are written in decimal.\<close>

function decimal :: "nat \<Rightarrow> string" where
  "decimal n = (if n < 10 then [char_of (48 + n)] else decimal (n div 10) @ [char_of (48 + n mod 10)])"
  by pat_completeness auto
termination
  by (relation "measure id") auto

declare decimal.simps [simp del]

definition json_int :: "int \<Rightarrow> json" where
  "json_int i = JNum (if i < 0 then CHR ''-'' # decimal (nat (- i)) else decimal (nat i))"

definition json_u64 :: "u64 \<Rightarrow> json" where
  "json_u64 u = JNum (decimal (unat u))"

text \<open>\<open>json.Marshal\<close>, and \<open>Encoder.Encode\<close>, which adds a newline.\<close>

definition Marshal :: "json \<Rightarrow> string" where
  "Marshal v = string_of (print_json v)"

definition Encoder_Encode :: "json \<Rightarrow> string" where
  "Encoder_Encode v = string_of (print_json v @ [10])"

section \<open>Reading written strings\<close>

lemma hex_value_digit: "n < 16 \<Longrightarrow> hex_value (hex_digit n) = Some n"
  by (auto simp: hex_value_def hex_digit_def)

lemma hex4_escape:
  assumes "r < 65536"
  shows "hex4 (drop 2 (escape_u r) @ t) = Some r"
proof -
  have "r = r div 4096 * 4096 + r div 256 mod 16 * 256 + r div 16 mod 16 * 16 + r mod 16"
  proof -
    have "r = r div 16 * 16 + r mod 16" by simp
    moreover have "r div 16 = r div 256 * 16 + r div 16 mod 16"
      by (metis div_mult2_eq div_mult_mod_eq numeral_times_numeral num_double semiring_norm(12,13))
    moreover have "r div 256 = r div 4096 * 16 + r div 256 mod 16"
      using div_mult_mod_eq [of "r div 256" 16] by (simp add: div_mult2_eq [symmetric])
    ultimately show ?thesis by linarith
  qed
  moreover have "r div 4096 < 16" using assms by (simp add: less_mult_imp_div_less)
  ultimately show ?thesis by (simp add: escape_u_def hex_value_digit)
qed

lemma scan_escape_u:
  assumes "r < 65536" "valid_rune r"
  shows "scan_string (escape_u r @ t) = scan_cons r (scan_string t)"
proof -
  define x where "x = drop 2 (escape_u r) @ t"
  have e: "escape_u r @ t = 92 # 117 # x" "drop 4 x = t" by (simp_all add: x_def escape_u_def)
  have "hex4 x = Some r" unfolding x_def by (rule hex4_escape [OF assms(1)])
  moreover have "\<not> surrogate r" using assms by (auto simp: surrogate_def valid_rune_def)
  ultimately show ?thesis unfolding e(1) using e(2) by simp
qed

lemma encode_rune_Cons:
  assumes "valid_rune r" "128 \<le> r"
  obtains c cs where "encode_rune r = c # cs" "192 \<le> c"
proof (cases "encode_rune r")
  case (Cons c cs)
  then have "192 \<le> c" using assms by (auto simp: encode_rune_def Let_def split: if_splits)
  with Cons show thesis by (rule that)
qed simp

lemma scan_encoded:
  assumes "valid_rune r" "128 \<le> r"
  shows "scan_string (encode_rune r @ t) = scan_cons r (scan_string t)"
proof -
  obtain c cs where e: "encode_rune r = c # cs" "192 \<le> c" using assms by (rule encode_rune_Cons)
  have d: "decode_rune (c # cs @ t) = (r, Suc (length cs))"
    using decode_encode_rune [OF assms(1), of t] e by simp
  have "c \<noteq> 34" "c \<noteq> 92" "\<not> c < 32" using e(2) by simp_all
  then show ?thesis by (simp add: e(1) d del: decode_rune.simps)
qed

lemma scan_escape:
  assumes "valid_rune r"
  shows "scan_string (escape_rune (r, w) @ t) = scan_cons r (scan_string t)"
proof (cases "r < 128")
  case True
  then show ?thesis
    using scan_escape_u [of r t] assms by (auto simp: escape_rune_def html_safe_def simple_escape_def)
next
  case False
  then show ?thesis
    using scan_escape_u [of r t] scan_encoded [of r t] assms
    by (auto simp: escape_rune_def RuneError_def)
qed

lemma utf8_decoded_runes: "map fst (utf8_decoded bs) = utf8_runes bs"
  by (induction bs rule: utf8_decoded.induct) (simp_all del: decode_rune.simps)

lemma scan_escaped:
  "\<forall>rw \<in> set rws. valid_rune (fst rw) \<Longrightarrow>
   scan_string (concat (map escape_rune rws) @ 34 # rest) = Scanned (map fst rws) rest"
  by (induction rws) (auto simp: scan_escape)

lemma scan_printed_string:
  "scan_string (tl (print_string s) @ rest) = Scanned (string_runes s) rest"
proof -
  have "\<forall>rw \<in> set (utf8_decoded (bytes_of s)). valid_rune (fst rw)"
    using utf8_runes_valid [of "bytes_of s"] by (auto simp flip: utf8_decoded_runes)
  then show ?thesis
    using scan_escaped [of "utf8_decoded (bytes_of s)" rest]
    by (simp add: print_string_def utf8_decoded_runes string_runes_def bytes_of_def)
qed

section \<open>Reading written values\<close>

definition sanitize_string :: "string \<Rightarrow> string" where
  "sanitize_string s = runes_string (string_runes s)"

fun sanitize :: "json \<Rightarrow> json" where
  "sanitize (JStr s) = JStr (sanitize_string s)"
| "sanitize (JArr vs) = JArr (map sanitize vs)"
| "sanitize (JObj kvs) = JObj (map (\<lambda>(k, v). (sanitize_string k, sanitize v)) kvs)"
| "sanitize v = v"

text \<open>The number literals that Go writes for integers.\<close>

definition plain_decimal :: "string \<Rightarrow> bool" where
  "plain_decimal n \<longleftrightarrow> n \<noteq> [] \<and> list_all digit_char n \<and> (hd n = CHR ''0'' \<longrightarrow> n = ''0'')"

definition int_literal :: "string \<Rightarrow> bool" where
  "int_literal n \<longleftrightarrow> plain_decimal n \<or> (\<exists>r. n = CHR ''-'' # r \<and> plain_decimal r)"

fun int_literals :: "json \<Rightarrow> bool" where
  "int_literals (JNum n) = int_literal n"
| "int_literals (JArr vs) = list_all int_literals vs"
| "int_literals (JObj kvs) = list_all (\<lambda>(k, v). int_literals v) kvs"
| "int_literals _ = True"

fun json_depth :: "json \<Rightarrow> nat" where
  "json_depth (JArr vs) = Suc (foldr (max \<circ> json_depth) vs 0)"
| "json_depth (JObj kvs) = Suc (foldr (max \<circ> (\<lambda>(k, v). json_depth v)) kvs 0)"
| "json_depth _ = 0"

definition number_end :: "nat list \<Rightarrow> bool" where
  "number_end rest \<longleftrightarrow> rest = [] \<or> \<not> is_digit (hd rest) \<and> hd rest \<notin> {46, 101, 69}"

lemma digit_char_byte: "digit_char c \<longleftrightarrow> is_digit (of_char c)"
  by (auto simp: digit_char_def digit_value_def is_digit_def)

lemma scan_plain_decimal:
  assumes "plain_decimal n" "number_end rest"
  shows "scan_unsigned (bytes_of n @ rest) = Scanned (bytes_of n) rest"
proof -
  obtain c cs where n: "n = c # cs" using assms(1) by (cases n) (auto simp: plain_decimal_def)
  let ?b = "of_char c :: nat"
  have d: "\<forall>x \<in> set (bytes_of n). is_digit x"
    using assms(1) by (auto simp: plain_decimal_def bytes_of_def list_all_iff digit_char_byte)
  have z: "?b = 48 \<Longrightarrow> c = CHR ''0''"
    using of_char_eq_iff [where ?'a = nat, of c "CHR ''0''"] by simp
  have e: "dropWhile is_digit rest = rest" "takeWhile is_digit rest = []"
    using assms(2) by (cases rest; auto simp: number_end_def)+
  have "scan_int (bytes_of n @ rest) = Scanned (bytes_of n) rest"
  proof (cases "?b = 48")
    case True
    then have "cs = []" using z assms(1) n by (auto simp: plain_decimal_def)
    then show ?thesis using True n by (simp add: scan_int_def bytes_of_def)
  next
    case False
    have "takeWhile is_digit (map of_char cs @ rest) = map of_char cs"
      "dropWhile is_digit (map of_char cs @ rest) = rest"
      using d n e takeWhile_append2 [of "map of_char cs" is_digit rest]
        dropWhile_append2 [of "map of_char cs" is_digit rest] by (auto simp: bytes_of_def)
    with False d n show ?thesis by (simp add: scan_int_def bytes_of_def)
  qed
  moreover have "scan_frac rest = Scanned [] rest" "scan_exp rest = Scanned [] rest"
    using assms(2) by (auto simp: scan_frac_def scan_exp_def number_end_def split: list.split)
  ultimately show ?thesis by (simp add: scan_unsigned_def)
qed

lemma scan_int_literal:
  assumes "int_literal n" "number_end rest"
  shows "scan_number (bytes_of n @ rest) = Scanned (bytes_of n) rest"
  using assms(1) unfolding int_literal_def
proof (elim disjE exE conjE)
  assume n: "plain_decimal n"
  then obtain c cs where "n = c # cs" "is_digit (of_char c)"
    by (cases n) (auto simp: plain_decimal_def digit_char_byte)
  with scan_plain_decimal [OF n assms(2)] show ?thesis
    by (simp add: scan_number_def bytes_of_def is_digit_def)
next
  fix r
  assume "n = CHR ''-'' # r" "plain_decimal r"
  with scan_plain_decimal [OF _ assms(2)] show ?thesis
    by (simp add: scan_number_def bytes_of_def)
qed

lemma string_of_bytes [simp]: "string_of (bytes_of s) = s"
  by (simp add: string_of_def bytes_of_def comp_def)

text \<open>What the scanner does once a value is complete.\<close>

fun resume :: "json + mode \<times> frame list \<Rightarrow> nat list \<Rightarrow> json scan" where
  "resume (Inl v) rest = Scanned v rest"
| "resume (Inr (m, st)) rest = parse m st rest"

lemma parse_token:
  assumes "\<not> json_space c" "accepts m st c" "scan_token c s = Scanned t r" "json_step m st t = Some x"
  shows "parse m st (c # s) = resume x r"
  using assms by (subst parse.simps) (auto split: sum.split)

lemma parse_Inr:
  "\<not> json_space c \<Longrightarrow> accepts m st c \<Longrightarrow> scan_token c s = Scanned t r \<Longrightarrow>
   json_step m st t = Some (Inr (m', st')) \<Longrightarrow> parse m st (c # s) = parse m' st' r"
  using parse_token by simp

lemma value_mode_step:
  "m = MValue \<or> m = MFirstElem \<Longrightarrow> json_step m st (TScalar v) = Some (close_value v st)"
  by (cases st; cases v) auto

lemma parse_scalar:
  assumes "m = MValue \<or> m = MFirstElem" "value_start c" "scan_token c s = Scanned (TScalar v) r"
  shows "parse m st (c # s) = resume (close_value v st) r"
proof (rule parse_token)
  show "\<not> json_space c" using assms(2) by (auto simp: value_start_def json_space_def is_digit_def)
  show "accepts m st c" using assms(1,2) by auto
  show "json_step m st (TScalar v) = Some (close_value v st)" using assms(1) by (rule value_mode_step)
qed (rule assms(3))

definition reads_back :: "json \<Rightarrow> bool" where
  "reads_back v \<longleftrightarrow> (\<forall>m st rest. (m = MValue \<or> m = MFirstElem) \<longrightarrow>
     json_depth v + length st \<le> maxNestingDepth \<longrightarrow> number_end rest \<longrightarrow>
     parse m st (print_json v @ rest) = resume (close_value (sanitize v) st) rest)"

lemma reads_backD:
  "reads_back v \<Longrightarrow> m = MValue \<or> m = MFirstElem \<Longrightarrow> json_depth v + length st \<le> maxNestingDepth \<Longrightarrow>
   number_end rest \<Longrightarrow> parse m st (print_json v @ rest) = resume (close_value (sanitize v) st) rest"
  unfolding reads_back_def by blast

lemma print_string_token:
  obtains t where "print_string s = 34 # t"
    "\<And>rest. scan_token 34 (t @ rest) = Scanned (TScalar (JStr (sanitize_string s))) rest"
proof
  show "print_string s = 34 # tl (print_string s)" by (simp add: print_string_def)
  show "scan_token 34 (tl (print_string s) @ rest) = Scanned (TScalar (JStr (sanitize_string s))) rest" for rest
    unfolding scan_token_def scan_printed_string by (simp add: sanitize_string_def)
qed

lemma value_start_char: "value_start 34" "value_start 116" "value_start 102" "value_start 110"
  by (simp_all add: value_start_def)

lemma reads_back_scalar: "\<not> compound v \<Longrightarrow> int_literals v \<Longrightarrow> reads_back v"
  unfolding reads_back_def
proof (intro allI impI)
  fix m st rest
  assume v: "\<not> compound v" "int_literals v" and m: "m = MValue \<or> m = MFirstElem" and e: "number_end rest"
  show "parse m st (print_json v @ rest) = resume (close_value (sanitize v) st) rest"
  proof (cases v)
    case JNull
    then show ?thesis
      using parse_scalar [OF m value_start_char(4)] by (simp add: scan_token_def scan_literal_def is_digit_def)
  next
    case (JBool b)
    then show ?thesis
      using parse_scalar [OF m value_start_char(2)] parse_scalar [OF m value_start_char(3)]
      by (cases b) (simp_all add: scan_token_def scan_literal_def is_digit_def)
  next
    case (JNum n)
    then have n: "int_literal n" using v(2) by simp
    then obtain c cs where b: "bytes_of n = c # cs" "c = 45 \<or> is_digit c"
      by (cases n) (auto simp: int_literal_def plain_decimal_def bytes_of_def digit_char_byte)
    then have "scan_token c (cs @ rest) = Scanned (TScalar (JNum n)) rest"
      using scan_int_literal [OF n e] string_of_bytes [of n] by (auto simp: scan_token_def is_digit_def)
    moreover have "value_start c" using b(2) by (auto simp: value_start_def)
    ultimately show ?thesis using parse_scalar [OF m] by (simp add: JNum b(1))
  next
    case (JStr s)
    obtain t where "print_string s = 34 # t"
      "\<And>rest. scan_token 34 (t @ rest) = Scanned (TScalar (JStr (sanitize_string s))) rest"
      using print_string_token by blast
    then show ?thesis using parse_scalar [OF m value_start_char(1)] by (simp add: JStr)
  qed (use v in auto)
qed

lemma parse_comma_elem: "parse MAfter (FArr vs # st) (44 # s) = parse MValue (FArr vs # st) s"
  by (rule parse_Inr [where t = TComma]) (simp_all add: json_space_def scan_token_def)

lemma parse_comma_member: "parse MAfter (FObj kvs k # st) (44 # s) = parse MKey (FObj kvs k # st) s"
  by (rule parse_Inr [where t = TComma]) (simp_all add: json_space_def scan_token_def)

lemma parse_end_array:
  "m = MAfter \<or> m = MFirstElem \<Longrightarrow>
   parse m (FArr vs # st) (93 # s) = resume (close_value (JArr (rev vs)) st) s"
  by (subst parse_token) (auto simp: json_space_def scan_token_def)

lemma parse_end_object:
  "m = MAfter \<or> m = MFirstKey \<Longrightarrow>
   parse m (FObj kvs k # st) (125 # s) = resume (close_value (JObj (rev kvs)) st) s"
  by (subst parse_token) (auto simp: json_space_def scan_token_def)

lemma parse_array:
  "m = MValue \<or> m = MFirstElem \<Longrightarrow> length st < maxNestingDepth \<Longrightarrow>
   parse m st (91 # s) = parse MFirstElem (FArr [] # st) s"
  by (subst parse_token) (auto simp: json_space_def scan_token_def value_start_def)

lemma parse_object:
  "m = MValue \<or> m = MFirstElem \<Longrightarrow> length st < maxNestingDepth \<Longrightarrow>
   parse m st (123 # s) = parse MFirstKey (FObj [] [] # st) s"
  by (subst parse_token) (auto simp: json_space_def scan_token_def value_start_def)

lemma parse_key:
  assumes "m = MKey \<or> m = MFirstKey"
  shows "parse m (FObj kvs k # st) (print_string s @ 58 # rest) =
     parse MValue (FObj kvs (sanitize_string s) # st) rest"
proof -
  obtain t where t: "print_string s = 34 # t"
    "\<And>rest. scan_token 34 (t @ rest) = Scanned (TScalar (JStr (sanitize_string s))) rest"
    using print_string_token by blast
  have "parse m (FObj kvs k # st) (34 # t @ 58 # rest) =
      resume (Inr (MColon, FObj kvs (sanitize_string s) # st)) (58 # rest)"
    using assms by (intro parse_token [OF _ _ t(2)]) (auto simp: json_space_def)
  also have "\<dots> = parse MValue (FObj kvs (sanitize_string s) # st) rest"
    unfolding resume.simps by (rule parse_Inr [where t = TColon]) (simp_all add: json_space_def scan_token_def)
  finally show ?thesis by (simp add: t(1))
qed

lemma number_end_mark: "c = 44 \<or> c = 93 \<or> c = 125 \<or> c = 10 \<Longrightarrow> number_end (c # s)"
  by (auto simp: number_end_def is_digit_def)

lemma parse_elements:
  assumes "vs \<noteq> []" "\<forall>v \<in> set vs. reads_back v \<and> json_depth v + Suc (length st) \<le> maxNestingDepth"
    and "m = MValue \<or> m = MFirstElem"
  shows "parse m (FArr acc # st) (join_bytes (map print_json vs) @ 93 # rest) =
     resume (close_value (JArr (rev acc @ map sanitize vs)) st) rest"
  using assms
proof (induction vs arbitrary: m acc rule: induct_list012)
  case (2 v)
  then show ?case
    using reads_backD [of v m "FArr acc # st" "93 # rest"]
    by (simp add: number_end_mark parse_end_array)
next
  case (3 v w vs)
  have "parse m (FArr acc # st) (print_json v @ 44 # join_bytes (map print_json (w # vs)) @ 93 # rest) =
      parse MValue (FArr (sanitize v # acc) # st) (join_bytes (map print_json (w # vs)) @ 93 # rest)"
    using 3(3-5) reads_backD [of v m "FArr acc # st"] by (simp add: number_end_mark parse_comma_elem)
  also have "\<dots> = resume (close_value (JArr (rev (sanitize v # acc) @ map sanitize (w # vs))) st) rest"
    using 3(4) by (intro 3(2)) simp_all
  finally show ?case by simp
qed simp

lemma parse_members:
  assumes "kvs \<noteq> []" "\<forall>(k, v) \<in> set kvs. reads_back v \<and> json_depth v + Suc (length st) \<le> maxNestingDepth"
    and "m = MKey \<or> m = MFirstKey"
  shows "parse m (FObj acc k0 # st)
       (join_bytes (map (\<lambda>(k, v). print_string k @ 58 # print_json v) kvs) @ 125 # rest) =
     resume (close_value (JObj (rev acc @ map (\<lambda>(k, v). (sanitize_string k, sanitize v)) kvs)) st) rest"
  using assms
proof (induction kvs arbitrary: m acc k0 rule: induct_list012)
  case (2 kv)
  obtain k v where "kv = (k, v)" by (cases kv)
  with 2 show ?case
    using reads_backD [of v MValue "FObj acc (sanitize_string k) # st" "125 # rest"]
    by (simp add: number_end_mark parse_key parse_end_object)
next
  case (3 kv kw kvs)
  obtain k v where kv: "kv = (k, v)" by (cases kv)
  let ?p = "\<lambda>kvs. join_bytes (map (\<lambda>(k, v). print_string k @ 58 # print_json v) kvs)"
  have "parse m (FObj acc k0 # st) (print_string k @ 58 # print_json v @ 44 # ?p (kw # kvs) @ 125 # rest) =
      parse MKey (FObj ((sanitize_string k, sanitize v) # acc) (sanitize_string k) # st)
        (?p (kw # kvs) @ 125 # rest)"
    using 3(3-5) kv reads_backD [of v MValue "FObj acc (sanitize_string k) # st"]
    by (simp add: number_end_mark parse_key parse_comma_member)
  also have "\<dots> = resume (close_value (JObj (rev ((sanitize_string k, sanitize v) # acc) @
      map (\<lambda>(k, v). (sanitize_string k, sanitize v)) (kw # kvs))) st) rest"
    using 3(4) by (intro 3(2)) simp_all
  finally show ?case by (simp add: kv)
qed simp

lemma foldr_max_ge: "x \<in> set xs \<Longrightarrow> f x \<le> foldr (max \<circ> f) xs (0 :: nat)"
  by (induction xs) auto

lemma printed_reads_back: "int_literals v \<Longrightarrow> reads_back v"
proof (induction v)
  case (JArr vs)
  show ?case
    unfolding reads_back_def
  proof (intro allI impI)
    fix m and st :: "frame list" and rest
    assume a: "m = MValue \<or> m = MFirstElem" "json_depth (JArr vs) + length st \<le> maxNestingDepth"
    have "\<forall>v \<in> set vs. reads_back v \<and> json_depth v + Suc (length st) \<le> maxNestingDepth"
      using JArr a(2) foldr_max_ge [of _ vs json_depth] by (fastforce simp: list_all_iff)
    then show "parse m st (print_json (JArr vs) @ rest) = resume (close_value (sanitize (JArr vs)) st) rest"
      using a parse_elements [of vs st MFirstElem "[]" rest]
      by (cases "vs = []") (simp_all add: parse_array parse_end_array)
  qed
next
  case (JObj kvs)
  show ?case
    unfolding reads_back_def
  proof (intro allI impI)
    fix m and st :: "frame list" and rest
    assume a: "m = MValue \<or> m = MFirstElem" "json_depth (JObj kvs) + length st \<le> maxNestingDepth"
    have "\<forall>(k, v) \<in> set kvs. reads_back v \<and> json_depth v + Suc (length st) \<le> maxNestingDepth"
      using JObj a(2) foldr_max_ge [of _ kvs "\<lambda>(k, v). json_depth v"] by (fastforce simp: list_all_iff)
    then show "parse m st (print_json (JObj kvs) @ rest) = resume (close_value (sanitize (JObj kvs)) st) rest"
      using a parse_members [of kvs st MFirstKey "[]" "[]" rest]
      by (cases "kvs = []") (simp_all add: parse_object parse_end_object)
  qed
qed (simp_all add: reads_back_scalar)

subsection \<open>Whole inputs\<close>

lemma hex_digit_byte: "n < 16 \<Longrightarrow> hex_digit n < 256"
  by (simp add: hex_digit_def)

lemma escape_u_byte: "r < 65536 \<Longrightarrow> b \<in> set (escape_u r) \<Longrightarrow> b < 256"
  using hex_digit_byte [of "r div 4096"]
  by (auto simp: escape_u_def less_mult_imp_div_less intro: hex_digit_byte)

lemma escape_rune_byte: "b \<in> set (escape_rune (r, w)) \<Longrightarrow> b < 256"
  using escape_u_byte [of r b] encode_rune_byte [of b r]
  by (auto simp: escape_rune_def html_safe_def RuneError_def split: if_splits)

lemma print_string_byte: "b \<in> set (print_string s) \<Longrightarrow> b < 256"
  by (auto simp: print_string_def dest: escape_rune_byte)

lemma join_bytes_byte: "b \<in> set (join_bytes xss) \<Longrightarrow> b = 44 \<or> (\<exists>xs \<in> set xss. b \<in> set xs)"
  by (induction xss rule: join_bytes.induct) auto

lemma print_json_byte: "b \<in> set (print_json v) \<Longrightarrow> b < 256"
proof (induction v arbitrary: b)
  case (JObj kvs)
  then show ?case by (fastforce dest!: join_bytes_byte dest: print_string_byte)
qed (auto simp: bytes_of_def dest!: join_bytes_byte dest: print_string_byte split: if_splits)

lemma bytes_of_string: "\<forall>b \<in> set bs. b < 256 \<Longrightarrow> bytes_of (string_of bs) = bs"
  by (auto simp: bytes_of_def string_of_def of_char_of intro!: map_idI)

text \<open>A written value reads back with its strings made valid.\<close>

lemma parse_printed:
  assumes "int_literals v" "json_depth v \<le> maxNestingDepth" "number_end rest"
  shows "parse MValue [] (print_json v @ rest) = Scanned (sanitize v) rest"
  using reads_backD [OF printed_reads_back [OF assms(1)], of MValue "[]" rest] assms(2,3) by simp

lemma Unmarshal_Marshal:
  assumes "int_literals v" "json_depth v \<le> maxNestingDepth"
  shows "Unmarshal_value (Marshal v) = Some (sanitize v)"
proof -
  have "bytes_of (Marshal v) = print_json v"
    unfolding Marshal_def by (rule bytes_of_string) (auto dest: print_json_byte)
  then show ?thesis
    using parse_printed [OF assms, of "[]"] by (simp add: Unmarshal_value_def number_end_def)
qed

lemma parse_spaces: "list_all json_space s \<Longrightarrow> parse m st s = More"
proof -
  assume "list_all json_space s"
  then have "dropWhile json_space s = []" by (simp add: list_all_iff)
  then show ?thesis by (subst parse.simps) (simp only: list.case)
qed

lemma Decode_spaces: "list_all json_space s \<Longrightarrow> Decode True s = DecodedEOF"
  by (simp add: Decode_def parse_spaces)

lemma Decode_Encode:
  assumes "int_literals v" "json_depth v \<le> maxNestingDepth"
  shows "Decode_single True (bytes_of (Encoder_Encode v)) = Some (sanitize v)"
proof -
  have "bytes_of (Encoder_Encode v) = print_json v @ [10]"
    unfolding Encoder_Encode_def by (rule bytes_of_string) (auto dest: print_json_byte)
  moreover have "parse MValue [] (print_json v @ [10]) = Scanned (sanitize v) [10]"
    using assms by (intro parse_printed number_end_mark) simp_all
  moreover have "Decode True [10] = DecodedEOF" by (rule Decode_spaces) (simp add: json_space_def)
  ultimately show ?thesis by (simp add: Decode_single_def Decode_def [of True "print_json v @ [10]"])
qed

section \<open>Numbers and strings\<close>

lemma digit_value_char: "d < 10 \<Longrightarrow> digit_value (char_of (48 + d)) = Some d"
  by (simp add: digit_value_def of_char_of)

lemma digits_value_decimal: "digits_value (decimal n) 0 = Some n"
proof (induction n rule: decimal.induct)
  case (1 n)
  show ?case
  proof (cases "n < 10")
    case True
    then show ?thesis by (simp add: decimal.simps [of n] digit_value_char)
  next
    case False
    with 1 show ?thesis
      by (simp add: decimal.simps [of n] digits_value_append digit_value_char)
  qed
qed

lemma decimal_hd: "0 < n \<Longrightarrow> \<exists>d cs. decimal n = char_of (48 + d) # cs \<and> 0 < d \<and> d < (10 :: nat)"
proof (induction n rule: decimal.induct)
  case (1 n)
  show ?case
  proof (cases "n < 10")
    case True
    with 1(2) show ?thesis by (intro exI [of _ n] exI [of _ "[]"]) (simp add: decimal.simps [of n])
  next
    case False
    then have "0 < n div 10" by (simp add: div_greater_zero_iff)
    with 1(1) False obtain d cs where "decimal (n div 10) = char_of (48 + d) # cs" "0 < d" "d < (10 :: nat)"
      by blast
    with False show ?thesis by (intro exI [of _ d] exI) (simp add: decimal.simps [of n])
  qed
qed

lemma char_zero: "char_of (48 :: nat) = CHR ''0''"
proof -
  have "of_char (CHR ''0'') = (48 :: nat)" by simp
  then show ?thesis by (metis char_of_char)
qed

lemma char_digit_zero: "d < 10 \<Longrightarrow> char_of (48 + d) = CHR ''0'' \<longleftrightarrow> d = (0 :: nat)"
  using digit_value_char [of d] digit_value_char [of 0] by (auto simp: char_zero)

lemma plain_decimal_decimal [simp]: "plain_decimal (decimal n)"
proof -
  have "\<forall>c \<in> set (decimal n). digit_char c"
    using digits_value_digits [OF digits_value_decimal] by blast
  moreover have "decimal n \<noteq> []" by (simp add: decimal.simps [of n])
  moreover have "hd (decimal n) = CHR ''0'' \<longrightarrow> decimal n = ''0''"
    using decimal_hd [of n] by (cases "n = 0") (auto simp: decimal.simps [of 0] char_digit_zero char_zero)
  ultimately show ?thesis by (simp add: plain_decimal_def list_all_iff)
qed

lemma int_literals_int [simp]: "int_literals (json_int i)"
  by (auto simp: json_int_def int_literal_def)

lemma int_literals_u64 [simp]: "int_literals (json_u64 u)"
  by (simp add: json_u64_def int_literal_def)

lemma decode_json_int [simp]:
  assumes "in_i64 i"
  shows "decode_int (json_int i) old = Some i"
proof -
  have d: "\<exists>c cs. decimal n = c # cs \<and> c \<noteq> CHR ''-''" for n
    using plain_decimal_decimal [of n]
    by (cases "decimal n") (auto simp: plain_decimal_def digit_char_def digit_value_def)
  have "literal_int (decimal n) = (if in_i64 (int n) then Some (int n) else None)" for n
    using d [of n] digits_value_decimal [of n]
    by (auto simp: literal_int_def simp del: digits_value.simps)
  moreover have "literal_int (CHR ''-'' # decimal n) = (if in_i64 (- int n) then Some (- int n) else None)" for n
    using d [of n] digits_value_decimal [of n]
    by (auto simp: literal_int_def simp del: digits_value.simps)
  ultimately show ?thesis using assms by (simp add: json_int_def)
qed

lemma decode_json_u64 [simp]: "decode_u64 (json_u64 u) old = Some u"
proof -
  have "decimal (unat u) \<noteq> []" using plain_decimal_decimal [of "unat u"] by (simp add: plain_decimal_def)
  then show ?thesis by (simp add: json_u64_def ParseUint_def digits_value_decimal unat_u64_bound)
qed

lemma sanitize_json_int [simp]: "sanitize (json_int i) = json_int i"
  by (simp add: json_int_def)

lemma json_depth_number [simp]: "json_depth (json_int i) = 0" "json_depth (json_u64 u) = 0"
  by (simp_all add: json_int_def json_u64_def)

lemma sanitize_json_u64 [simp]: "sanitize (json_u64 u) = json_u64 u"
  by (simp add: json_u64_def)

text \<open>A string is valid UTF-8 exactly when sanitising leaves it alone.\<close>

definition valid_utf8 :: "string \<Rightarrow> bool" where
  "valid_utf8 s \<longleftrightarrow> sanitize_string s = s"

lemma sanitize_string_idem [simp]: "sanitize_string (sanitize_string s) = sanitize_string s"
  by (simp add: sanitize_string_def string_runes_string string_runes_valid)

lemma sanitize_string_Nil [simp]: "sanitize_string [] = []" "sanitize_string s = [] \<longleftrightarrow> s = []"
  by (simp_all add: sanitize_string_def)

lemma valid_utf8_sanitize [simp]: "valid_utf8 (sanitize_string s)"
  by (simp add: valid_utf8_def)

lemma valid_utf8_runes: "\<forall>r \<in> set rs. valid_rune r \<Longrightarrow> valid_utf8 (runes_string rs)"
  by (simp add: valid_utf8_def sanitize_string_def string_runes_string)

lemma utf8_runes_ascii: "\<forall>b \<in> set bs. b < 128 \<Longrightarrow> utf8_runes bs = bs"
  by (induction bs) auto

lemma sanitize_ascii:
  assumes "\<forall>c \<in> set s. of_char c < (128 :: nat)"
  shows "sanitize_string s = s"
proof -
  have r: "string_runes s = bytes_of s"
    using utf8_runes_ascii [of "bytes_of s"] assms by (auto simp: string_runes_def bytes_of_def)
  have "concat (map encode_rune (bytes_of s)) = bytes_of s"
    using assms by (induction s) (auto simp: bytes_of_def encode_rune_def valid_rune_def)
  then show ?thesis
    using string_of_bytes [of s] by (simp add: sanitize_string_def r runes_string_def string_of_def)
qed

text \<open>Written JSON has no control characters: line breaks in strings are escaped.\<close>

lemma escape_rune_visible: "b \<in> set (escape_rune (r, w)) \<Longrightarrow> 32 \<le> b"
proof -
  have "b \<in> set (escape_u r) \<Longrightarrow> 32 \<le> b" by (auto simp: escape_u_def hex_digit_def split: if_splits)
  moreover have "128 \<le> r \<Longrightarrow> b \<in> set (encode_rune r) \<Longrightarrow> 32 \<le> b"
    by (auto simp: encode_rune_def RuneError_def Let_def split: if_splits)
  ultimately show "b \<in> set (escape_rune (r, w)) \<Longrightarrow> 32 \<le> b"
    by (auto simp: escape_rune_def html_safe_def split: if_splits)
qed

lemma print_string_visible: "b \<in> set (print_string s) \<Longrightarrow> 32 \<le> b"
  by (auto simp: print_string_def dest: escape_rune_visible)

lemma int_literal_visible: "int_literal n \<Longrightarrow> b \<in> set (bytes_of n) \<Longrightarrow> 32 \<le> b"
  by (fastforce simp: int_literal_def plain_decimal_def bytes_of_def list_all_iff digit_char_byte is_digit_def)

lemma print_json_visible: "int_literals v \<Longrightarrow> b \<in> set (print_json v) \<Longrightarrow> 32 \<le> b"
proof (induction v arbitrary: b)
  case (JObj kvs)
  then show ?case by (fastforce simp: list_all_iff dest!: join_bytes_byte dest: print_string_visible)
next
  case (JArr vs)
  then show ?case by (fastforce simp: list_all_iff dest!: join_bytes_byte)
qed (auto dest: print_string_visible int_literal_visible split: if_splits)

text \<open>How long a written string or number can be.\<close>

lemma escape_rune_length: "length (escape_rune rw) \<le> 6"
  by (auto simp: escape_rune_def escape_u_def encode_rune_def Let_def split: prod.split)

lemma utf8_decoded_length: "length (utf8_decoded bs) \<le> length bs"
proof (induction bs rule: utf8_decoded.induct)
  case (2 b bs)
  then show ?case using order_trans [OF _ length_drop [THEN eq_refl]] by (simp del: decode_rune.simps)
qed simp

lemma print_string_length: "length (print_string s) \<le> 6 * length s + 2"
proof -
  have "length (concat (map escape_rune rws)) \<le> 6 * length rws" for rws
    using escape_rune_length by (induction rws) (auto intro: add_mono)
  from this [of "utf8_decoded (bytes_of s)"] show ?thesis
    using utf8_decoded_length [of "bytes_of s"] by (simp add: print_string_def bytes_of_def)
qed

lemma decimal_length: "n < 10 ^ k \<Longrightarrow> 0 < k \<Longrightarrow> length (decimal n) \<le> k"
proof (induction k arbitrary: n)
  case (Suc k)
  show ?case
  proof (cases "n < 10")
    case False
    then have "0 < k" using Suc.prems by (cases k) auto
    moreover have "n div 10 < 10 ^ k" using Suc.prems by (simp add: less_mult_imp_div_less)
    ultimately show ?thesis using Suc.IH [of "n div 10"] False by (subst decimal.simps) simp
  qed (subst decimal.simps, simp)
qed simp

lemma json_int_length: "in_i64 i \<Longrightarrow> length (print_json (json_int i)) \<le> 20"
  using decimal_length [of "nat (- i)" 19] decimal_length [of "nat i" 19] le_trans [of _ 19 20]
  by (cases "i < 0") (simp_all add: json_int_def bytes_of_def in_i64_def MinInt64_def MaxInt64_def nat_less_iff)

end
