(* ===== verification/Go_Codecs.thy ===== *)
theory Go_Codecs
  imports Json
begin

text \<open>
  The other codecs of Go's standard library that the gateway uses: SHA-256 with its hexadecimal form
  (cache keys, session secrets), and the unpadded URL alphabet of base64 in its strict form (request
  ids, session cookies, page cursors). Strict base64 decoding undoes encoding, and a decoded text
  without line breaks is the encoding of its value.
\<close>

unbundle bit_operations_syntax

section \<open>SHA-256\<close>

type_synonym word32 = "32 word"

text \<open>The constants are the first 32 bits of the fractional parts of roots of the first primes: the
  integer root of a scaled prime, found bit by bit, modulo the word size.\<close>

primrec integer_root :: "nat \<Rightarrow> nat \<Rightarrow> nat \<Rightarrow> nat \<Rightarrow> nat" where
  "integer_root d n 0 acc = acc"
| "integer_root d n (Suc b) acc = integer_root d n b (if (acc + 2 ^ b) ^ d \<le> n then acc + 2 ^ b else acc)"

definition sha_primes :: "nat list" where
  "sha_primes = filter (\<lambda>p. list_all (\<lambda>d. p mod d \<noteq> 0) [2..<p]) [2..<312]"

definition sha_K :: "word32 list" where
  "sha_K = map (\<lambda>p. word_of_nat (integer_root 3 (p * 2 ^ 96) 36 0)) sha_primes"

record sha_state =
  shaA :: word32
  shaB :: word32
  shaC :: word32
  shaD :: word32
  shaE :: word32
  shaF :: word32
  shaG :: word32
  shaH :: word32

definition sha_init :: sha_state where
  "sha_init =
     (let h = (\<lambda>i. word_of_nat (integer_root 2 (sha_primes ! i * 2 ^ 64) 36 0)) in
      \<lparr>shaA = h 0, shaB = h 1, shaC = h 2, shaD = h 3, shaE = h 4, shaF = h 5, shaG = h 6, shaH = h 7\<rparr>)"

definition sha_schedule :: "word32 list \<Rightarrow> word32 list" where
  "sha_schedule block = foldl (\<lambda>w i.
     let x = w ! (i - 15); y = w ! (i - 2);
         s0 = word_rotr 7 x XOR word_rotr 18 x XOR drop_bit 3 x;
         s1 = word_rotr 17 y XOR word_rotr 19 y XOR drop_bit 10 y
     in w @ [w ! (i - 16) + s0 + w ! (i - 7) + s1]) block [16..<64]"

definition sha_round :: "sha_state \<Rightarrow> word32 \<times> word32 \<Rightarrow> sha_state" where
  "sha_round s kw =
     (let e = shaE s; a = shaA s;
          t1 = shaH s + (word_rotr 6 e XOR word_rotr 11 e XOR word_rotr 25 e) +
               ((e AND shaF s) XOR (NOT e AND shaG s)) + fst kw + snd kw;
          t2 = (word_rotr 2 a XOR word_rotr 13 a XOR word_rotr 22 a) +
               ((a AND shaB s) XOR (a AND shaC s) XOR (shaB s AND shaC s))
      in \<lparr>shaA = t1 + t2, shaB = a, shaC = shaB s, shaD = shaC s, shaE = shaD s + t1, shaF = e,
          shaG = shaF s, shaH = shaG s\<rparr>)"

definition sha_block :: "sha_state \<Rightarrow> word32 list \<Rightarrow> sha_state" where
  "sha_block s block =
     (let r = foldl sha_round s (zip sha_K (sha_schedule block)) in
      \<lparr>shaA = shaA s + shaA r, shaB = shaB s + shaB r, shaC = shaC s + shaC r, shaD = shaD s + shaD r,
       shaE = shaE s + shaE r, shaF = shaF s + shaF r, shaG = shaG s + shaG r, shaH = shaH s + shaH r\<rparr>)"

fun sha_words :: "nat list \<Rightarrow> word32 list" where
  "sha_words (a # b # c # d # bs) =
     word_of_nat (a * 16777216 + b * 65536 + c * 256 + d) # sha_words bs"
| "sha_words _ = []"

text \<open>The big-endian bytes of a number.\<close>

definition big_endian :: "nat \<Rightarrow> nat \<Rightarrow> nat list" where
  "big_endian n v = map (\<lambda>i. v div 256 ^ (n - 1 - i) mod 256) [0..<n]"

definition sha_pad :: "nat list \<Rightarrow> nat list" where
  "sha_pad m = m @ 128 # replicate ((119 - length m mod 64) mod 64) 0 @ big_endian 8 (8 * length m)"

function sha_blocks :: "sha_state \<Rightarrow> nat list \<Rightarrow> sha_state" where
  "sha_blocks s bs =
     (if length bs < 64 then s else sha_blocks (sha_block s (sha_words (take 64 bs))) (drop 64 bs))"
  by pat_completeness auto
termination
  by (relation "measure (length \<circ> snd)") auto

declare sha_blocks.simps [simp del]

definition Sum256 :: "nat list \<Rightarrow> nat list" where
  "Sum256 m =
     (let s = sha_blocks sha_init (sha_pad m) in
      concat (map (\<lambda>w. big_endian 4 (unat w)) [shaA s, shaB s, shaC s, shaD s, shaE s, shaF s, shaG s, shaH s]))"

definition hex_string :: "nat list \<Rightarrow> string" where
  "hex_string bs = string_of (concat (map (\<lambda>b. [hex_digit (b div 16), hex_digit (b mod 16)]) bs))"

lemma length_big_endian [simp]: "length (big_endian n v) = n"
  by (simp add: big_endian_def)

lemma length_Sum256 [simp]: "length (Sum256 m) = 32"
  by (simp add: Sum256_def Let_def)

lemma length_hex_string [simp]: "length (hex_string bs) = 2 * length bs"
  by (induction bs) (simp_all add: hex_string_def string_of_def)

section \<open>Base64\<close>

text \<open>The URL alphabet: letters, digits, \<open>-\<close> and \<open>_\<close>.\<close>

definition b64_char :: "nat \<Rightarrow> nat" where
  "b64_char v =
     (if v < 26 then 65 + v else if v < 52 then 71 + v else if v < 62 then v - 4
      else if v = 62 then 45 else 95)"

definition b64_value :: "nat \<Rightarrow> nat option" where
  "b64_value c =
     (if 65 \<le> c \<and> c \<le> 90 then Some (c - 65)
      else if 97 \<le> c \<and> c \<le> 122 then Some (c - 71)
      else if 48 \<le> c \<and> c \<le> 57 then Some (c + 4)
      else if c = 45 then Some 62 else if c = 95 then Some 63 else None)"

fun b64_encode :: "nat list \<Rightarrow> nat list" where
  "b64_encode [] = []"
| "b64_encode [a] = [b64_char (a div 4), b64_char (a mod 4 * 16)]"
| "b64_encode [a, b] = [b64_char (a div 4), b64_char (a mod 4 * 16 + b div 16), b64_char (b mod 16 * 4)]"
| "b64_encode (a # b # c # bs) =
     b64_char (a div 4) # b64_char (a mod 4 * 16 + b div 16) # b64_char (b mod 16 * 4 + c div 64)
       # b64_char (c mod 64) # b64_encode bs"

text \<open>The six-bit values of the text, and the strict decoding of groups of four of them: the unused bits
  of the last value must be zero, and one value alone is an error.\<close>

fun b64_values :: "nat list \<Rightarrow> nat list option" where
  "b64_values [] = Some []"
| "b64_values (c # cs) =
     (case b64_value c of None \<Rightarrow> None | Some v \<Rightarrow> map_option (Cons v) (b64_values cs))"

fun b64_quanta :: "nat list \<Rightarrow> nat list option" where
  "b64_quanta [] = Some []"
| "b64_quanta [w] = None"
| "b64_quanta [w, x] = (if x mod 16 = 0 then Some [w * 4 + x div 16] else None)"
| "b64_quanta [w, x, y] =
     (if y mod 4 = 0 then Some [w * 4 + x div 16, x mod 16 * 16 + y div 4] else None)"
| "b64_quanta (w # x # y # z # vs) =
     map_option (\<lambda>bs. (w * 4 + x div 16) # (x mod 16 * 16 + y div 4) # (y mod 4 * 64 + z) # bs) (b64_quanta vs)"

text \<open>The decoder skips carriage returns and newlines.\<close>

definition RawURL_Encode :: "nat list \<Rightarrow> string" where
  "RawURL_Encode bs = string_of (b64_encode bs)"

definition RawURL_Decode :: "string \<Rightarrow> nat list option" where
  "RawURL_Decode s =
     (case b64_values (filter (\<lambda>c. c \<noteq> 10 \<and> c \<noteq> 13) (bytes_of s)) of
        None \<Rightarrow> None | Some vs \<Rightarrow> b64_quanta vs)"

lemma b64_value_char: "v < 64 \<Longrightarrow> b64_value (b64_char v) = Some v"
  by (auto simp: b64_value_def b64_char_def)

lemma b64_char_value: "b64_value c = Some v \<Longrightarrow> b64_char v = c \<and> v < 64"
  by (auto simp: b64_value_def b64_char_def split: if_splits)

lemma b64_char_range: "v < 64 \<Longrightarrow> 13 < b64_char v \<and> b64_char v < 256"
  by (auto simp: b64_char_def)

fun six_bits :: "nat list \<Rightarrow> nat list" where
  "six_bits [] = []"
| "six_bits [a] = [a div 4, a mod 4 * 16]"
| "six_bits [a, b] = [a div 4, a mod 4 * 16 + b div 16, b mod 16 * 4]"
| "six_bits (a # b # c # bs) =
     a div 4 # (a mod 4 * 16 + b div 16) # (b mod 16 * 4 + c div 64) # (c mod 64) # six_bits bs"

lemma b64_encode_six_bits: "b64_encode bs = map b64_char (six_bits bs)"
  by (induction bs rule: six_bits.induct) simp_all

lemma mod_mult_add_less: "b div k < m \<Longrightarrow> (a mod n) * m + b div k < n * m" if "0 < n" for a b k m n :: nat
proof -
  assume "b div k < m"
  then have "(a mod n) * m + b div k < (a mod n + 1) * m" by simp
  also have "\<dots> \<le> n * m" using that by (intro mult_le_mono1) (simp add: Suc_le_eq)
  finally show ?thesis .
qed

lemma six_bits_range: "\<forall>b \<in> set bs. b < 256 \<Longrightarrow> \<forall>v \<in> set (six_bits bs). v < 64"
proof (induction bs rule: six_bits.induct)
  case (4 a b c bs)
  have "a div 4 < 64" "b div 16 < 16" "c div 64 < 4"
    using 4(2) by (simp_all add: less_mult_imp_div_less)
  with 4 show ?case
    using mod_mult_add_less [of 4 b 16 16 a] mod_mult_add_less [of 16 c 64 4 b] by simp
next
  case (3 a b)
  have "a div 4 < 64" "b div 16 < 16" using 3 by (simp_all add: less_mult_imp_div_less)
  then show ?case
    using mod_mult_add_less [of 4 b 16 16 a] mod_less_divisor [of 16 b] by simp
next
  case (2 a)
  then show ?case using mod_less_divisor [of 4 a] by (simp add: less_mult_imp_div_less)
qed simp

lemma b64_values_chars: "\<forall>v \<in> set vs. v < 64 \<Longrightarrow> b64_values (map b64_char vs) = Some vs"
  by (induction vs) (simp_all add: b64_value_char)

lemma quanta_six_bits: "\<forall>b \<in> set bs. b < 256 \<Longrightarrow> b64_quanta (six_bits bs) = Some bs"
proof (induction bs rule: six_bits.induct)
  case (4 a b c bs)
  have "b div 16 < 16" "c div 64 < 4" using 4(2) by (simp_all add: less_mult_imp_div_less)
  then have "(a mod 4 * 16 + b div 16) div 16 = a mod 4" "(a mod 4 * 16 + b div 16) mod 16 = b div 16"
    "(b mod 16 * 4 + c div 64) div 4 = b mod 16" "(b mod 16 * 4 + c div 64) mod 4 = c div 64"
    by simp_all
  with 4 show ?case by (simp add: div_mult_mod_eq)
next
  case (3 a b)
  have "b div 16 < 16" using 3 by (simp add: less_mult_imp_div_less)
  then have "(a mod 4 * 16 + b div 16) div 16 = a mod 4" "(a mod 4 * 16 + b div 16) mod 16 = b div 16" by simp_all
  then show ?case by (simp add: div_mult_mod_eq)
qed simp_all

lemma RawURL_round_trip:
  assumes "\<forall>b \<in> set bs. b < 256"
  shows "RawURL_Decode (RawURL_Encode bs) = Some bs"
proof -
  have r: "\<forall>v \<in> set (six_bits bs). v < 64" using assms by (rule six_bits_range)
  then have e: "\<forall>c \<in> set (b64_encode bs). 13 < c \<and> c < 256"
    unfolding b64_encode_six_bits by (auto dest: b64_char_range)
  then have "bytes_of (RawURL_Encode bs) = b64_encode bs"
    unfolding RawURL_Encode_def by (intro bytes_of_string) auto
  moreover have "filter (\<lambda>c. c \<noteq> 10 \<and> c \<noteq> 13) (b64_encode bs) = b64_encode bs"
    using e by (auto simp: filter_id_conv)
  ultimately show ?thesis
    using b64_values_chars [OF r] quanta_six_bits [OF assms]
    by (simp add: RawURL_Decode_def b64_encode_six_bits)
qed

lemma six_bits_quanta:
  "\<forall>v \<in> set vs. v < 64 \<Longrightarrow> b64_quanta vs = Some bs \<Longrightarrow> six_bits bs = vs \<and> (\<forall>b \<in> set bs. b < 256)"
proof (induction vs arbitrary: bs rule: b64_quanta.induct)
  case (5 w x y z vs)
  then obtain cs where cs: "b64_quanta vs = Some cs"
    "bs = (w * 4 + x div 16) # (x mod 16 * 16 + y div 4) # (y mod 4 * 64 + z) # cs" by auto
  have "x div 16 < 4" "y div 4 < 16" using 5(2) by (simp_all add: less_mult_imp_div_less)
  then show ?case
    using 5(1) [of cs] 5(2) cs mod_less_divisor [of 16 x] mod_less_divisor [of 4 y]
    by (auto simp: div_mult_mod_eq)
next
  case (4 w x y)
  have "x div 16 < 4" "y div 4 < 16" using 4(1) by (simp_all add: less_mult_imp_div_less)
  then show ?case
    using 4 mod_less_divisor [of 16 x] mult_div_mod_eq [of 4 y] by (auto simp: div_mult_mod_eq split: if_splits)
next
  case (3 w x)
  have "x div 16 < 4" using 3(1) by (simp add: less_mult_imp_div_less)
  then show ?case using 3 mult_div_mod_eq [of 16 x] by (auto split: if_splits)
qed simp_all

lemma b64_values_range: "b64_values cs = Some vs \<Longrightarrow> map b64_char vs = cs \<and> (\<forall>v \<in> set vs. v < 64)"
  by (induction cs arbitrary: vs) (auto split: option.splits dest: b64_char_value)

text \<open>Strictness: the text is the only one, line breaks apart, for its value.\<close>

lemma RawURL_Decode_canonical:
  assumes "RawURL_Decode s = Some bs"
  shows "RawURL_Encode bs = filter (\<lambda>c. c \<noteq> char_of (10 :: nat) \<and> c \<noteq> char_of (13 :: nat)) s"
    and "\<forall>b \<in> set bs. b < 256"
proof -
  let ?t = "filter (\<lambda>c. c \<noteq> 10 \<and> c \<noteq> 13) (bytes_of s)"
  obtain vs where vs: "b64_values ?t = Some vs" "b64_quanta vs = Some bs"
    using assms by (auto simp: RawURL_Decode_def split: option.splits)
  have "six_bits bs = vs" "\<forall>b \<in> set bs. b < 256" "map b64_char vs = ?t"
    using b64_values_range [OF vs(1)] six_bits_quanta [OF _ vs(2)] by auto
  then show "\<forall>b \<in> set bs. b < 256" and "RawURL_Encode bs = filter (\<lambda>c. c \<noteq> char_of (10 :: nat) \<and> c \<noteq> char_of (13 :: nat)) s"
    by (auto simp: RawURL_Encode_def b64_encode_six_bits bytes_of_def string_of_def filter_map comp_def
        intro!: filter_cong) (metis char_of_char of_char_of)+
qed

end
