(* ===== verification/Go_Mime.thy ===== *)
theory Go_Mime
  imports Go_Strings
begin

text \<open>
  \<open>mime.ParseMediaType\<close> of Go's standard library, as far as its callers look at it: the media
  type in lower case, or an error. The HTTP handlers and the provider adapters use it to accept JSON
  bodies and event streams only.
\<close>

definition is_token_char :: "char \<Rightarrow> bool" where
  "is_token_char c \<longleftrightarrow> 32 < (of_char c :: nat) \<and> of_char c < (127 :: nat) \<and>
     c \<notin> set ''()<>@,;:/[]?='' \<and> of_char c \<notin> {34, 92 :: nat}"

definition is_tspecial :: "char \<Rightarrow> bool" where
  "is_tspecial c \<longleftrightarrow> c \<in> set ''()<>@,;:/[]?='' \<or> of_char c \<in> {34, 92 :: nat}"

definition consumeToken :: "string \<Rightarrow> string \<times> string" where
  "consumeToken v = (takeWhile is_token_char v, dropWhile is_token_char v)"

text \<open>The rest of a quoted string, with what was read so far; \<open>None\<close> without a closing quote.\<close>

fun quoted_value :: "string \<Rightarrow> string \<Rightarrow> (string \<times> string) option" where
  "quoted_value acc [] = None"
| "quoted_value acc (r # v) =
     (if of_char r = (34 :: nat) then Some (rev acc, v)
      else if of_char r = (92 :: nat) then
        (case v of
           e # v' \<Rightarrow> if is_tspecial e then quoted_value (e # acc) v' else quoted_value (r # acc) v
         | [] \<Rightarrow> quoted_value (r # acc) v)
      else if of_char r \<in> {10, 13 :: nat} then None
      else quoted_value (r # acc) v)"

definition consumeValue :: "string \<Rightarrow> string \<times> string" where
  "consumeValue v =
     (case v of
        [] \<Rightarrow> ([], [])
      | c # r \<Rightarrow>
          if of_char c \<noteq> (34 :: nat) then consumeToken v
          else (case quoted_value [] r of None \<Rightarrow> ([], v) | Some p \<Rightarrow> p))"

definition lower_char :: "char \<Rightarrow> char" where
  "lower_char c = (if 65 \<le> (of_char c :: nat) \<and> of_char c \<le> (90 :: nat) then char_of (of_char c + 32 :: nat) else c)"

text \<open>A parameter with its value and the rest; \<open>None\<close> is a parse error.\<close>

definition consumeMediaParam :: "string \<Rightarrow> (string \<times> string \<times> string) option" where
  "consumeMediaParam v =
     (case trim_left v of
        [] \<Rightarrow> None
      | c # r1 \<Rightarrow>
          if c \<noteq> CHR '';'' then None
          else (case consumeToken (trim_left r1) of (param, r2) \<Rightarrow>
            if param = [] then None
            else (case trim_left r2 of
                    [] \<Rightarrow> None
                  | d # r3 \<Rightarrow>
                      if d \<noteq> CHR ''='' then None
                      else (let r4 = trim_left r3 in
                        case consumeValue r4 of (value', r5) \<Rightarrow>
                          if value' = [] \<and> r5 = r4 then None
                          else Some (map lower_char param, value', r5)))))"

text \<open>The subtype check of the media type itself.\<close>

definition checkMediaType :: "string \<Rightarrow> bool" where
  "checkMediaType s =
     (case consumeToken s of (typ, rest) \<Rightarrow>
      typ \<noteq> [] \<and>
      (case rest of
         [] \<Rightarrow> True
       | c # r \<Rightarrow> c = CHR ''/'' \<and> (case consumeToken r of (subtype, r') \<Rightarrow> subtype \<noteq> [] \<and> r' = [])))"

lemma length_trim_left: "length (trim_left s) \<le> length s"
  by (induction s rule: trim_left.induct) (subst trim_left.simps, auto)

lemma quoted_value_shorter: "quoted_value acc v = Some (x, r) \<Longrightarrow> length r < length v"
  by (induction acc v rule: quoted_value.induct) (auto split: if_splits list.splits)

lemma consumeToken_le: "consumeToken v = (x, r) \<Longrightarrow> length r \<le> length v"
  by (auto simp: consumeToken_def length_dropWhile_le)

lemma consumeValue_le: "consumeValue v = (x, r) \<Longrightarrow> length r \<le> length v"
  by (auto simp: consumeValue_def split: list.splits if_splits option.splits
      dest!: consumeToken_le quoted_value_shorter)

lemma consumeMediaParam_shorter:
  assumes "consumeMediaParam v = Some (k, x, r)"
  shows "length r < length v"
proof -
  obtain r1 r2 r3 d param where p: "trim_left v = CHR '';'' # r1" "consumeToken (trim_left r1) = (param, r2)"
    "trim_left r2 = d # r3" "consumeValue (trim_left r3) = (x, r)"
    using assms by (auto simp: consumeMediaParam_def Let_def split: list.splits if_splits prod.splits)
  have "length r \<le> length r3" using consumeValue_le [OF p(4)] length_trim_left [of r3] by simp
  also have "\<dots> < length r2" using length_trim_left [of r2] p(3) by simp
  also have "\<dots> \<le> length r1" using consumeToken_le [OF p(2)] length_trim_left [of r1] by simp
  also have "\<dots> < length v" using length_trim_left [of v] p(1) by simp
  finally show ?thesis .
qed

lemma trimmed_param_shorter: "consumeMediaParam (trim_left v) = Some (k, x, r) \<Longrightarrow> length r < length v"
  using consumeMediaParam_shorter [of "trim_left v" k x r] length_trim_left [of v] by simp

text \<open>The parameters: a parameter given twice must have one value, and a trailing semicolon is
  ignored.\<close>

function media_params :: "(string \<rightharpoonup> string) \<Rightarrow> string \<Rightarrow> bool" where
  "media_params params v0 =
     (let v = trim_left v0 in
      if v = [] then True
      else (case consumeMediaParam v of
              None \<Rightarrow> TrimSpace v = '';''
            | Some (key, value', rest) \<Rightarrow>
                (case params key of
                   Some old \<Rightarrow> old = value' \<and> media_params params rest
                 | None \<Rightarrow> media_params (params(key \<mapsto> value')) rest)))"
  by pat_completeness auto
termination
  by (relation "measure (length \<circ> snd)") (auto dest: trimmed_param_shorter)

declare media_params.simps [simp del]

text \<open>\<open>strings.ToLower\<close> on the runes that can become ASCII: letters, the Kelvin sign and the dotted
  capital I. Every other rune stays outside the token characters, so the type is refused either way.\<close>

definition lower_rune :: "nat \<Rightarrow> nat" where
  "lower_rune r = (if 65 \<le> r \<and> r \<le> 90 then r + 32 else if r = 8490 then 107 else if r = 304 then 105 else r)"

definition ToLower :: "string \<Rightarrow> string" where
  "ToLower s = runes_string (map lower_rune (string_runes s))"

definition ParseMediaType :: "string \<Rightarrow> string option" where
  "ParseMediaType v =
     (let base = takeWhile (\<lambda>c. c \<noteq> CHR '';'') v;
          mediatype = TrimSpace (ToLower base)
      in if checkMediaType mediatype \<and> media_params Map.empty (drop (length base) v)
         then Some mediatype else None)"

end
