(* ===== verification/Chat_Json.thy ===== *)
theory Chat_Json
  imports Chat_Types Go_Codecs
begin

text \<open>
  The wire form of the OpenAI-compatible types: the JSON field names and options of the struct tags in
  \<open>internal/openai/types.go\<close>, as encoders to JSON values and decoders from them. A response whose
  strings are valid UTF-8 and whose integers fit reads back exactly as it was written, also by a
  decoder that refuses unknown fields.
\<close>

section \<open>Encoding\<close>

definition Message_json :: "Message \<Rightarrow> json" where
  "Message_json m = JObj [(''role'', JStr (msgRole m)), (''content'', JStr (msgContent m))]"

text \<open>A nil slice is written as \<open>null\<close>.\<close>

definition slice_json :: "('a \<Rightarrow> json) \<Rightarrow> 'a list \<Rightarrow> json" where
  "slice_json enc xs = (if xs = [] then JNull else JArr (map enc xs))"

text \<open>A field with \<open>omitempty\<close>.\<close>

definition optional_field :: "string \<Rightarrow> ('a \<Rightarrow> json) \<Rightarrow> 'a option \<Rightarrow> (string \<times> json) list" where
  "optional_field name enc x = (case x of None \<Rightarrow> [] | Some a \<Rightarrow> [(name, enc a)])"

definition Request_json :: "ChatCompletionRequest \<Rightarrow> json" where
  "Request_json r = JObj
     ([(''model'', JStr (reqModel r)), (''messages'', slice_json Message_json (reqMessages r))] @
      (if reqStream r then [(''stream'', JBool True)] else []))"

definition Usage_json :: "Usage \<Rightarrow> json" where
  "Usage_json u = JObj
     (optional_field ''prompt_tokens'' json_u64 (InputTokens u) @
      optional_field ''completion_tokens'' json_u64 (OutputTokens u) @
      optional_field ''total_tokens'' json_u64 (TotalTokens u))"

definition Choice_json :: "Choice \<Rightarrow> json" where
  "Choice_json c = JObj
     [(''index'', json_int (choIndex c)), (''message'', Message_json (choMessage c)),
      (''finish_reason'', JStr (choFinishReason c))]"

definition Response_json :: "ChatCompletionResponse \<Rightarrow> json" where
  "Response_json r = JObj
     ([(''id'', JStr (rspID r)), (''object'', JStr (rspObject r)), (''created'', json_int (rspCreated r)),
       (''model'', JStr (rspModel r)), (''choices'', slice_json Choice_json (rspChoices r))] @
      optional_field ''usage'' Usage_json (rspUsage r))"

section \<open>Decoding\<close>

definition Message_field :: "string \<Rightarrow> json \<Rightarrow> Message \<Rightarrow> Message option" where
  "Message_field name v m =
     (if name = ''role'' then map_option (\<lambda>s. m\<lparr>msgRole := s\<rparr>) (decode_string v (msgRole m))
      else map_option (\<lambda>s. m\<lparr>msgContent := s\<rparr>) (decode_string v (msgContent m)))"

definition zero_message :: Message where
  "zero_message = \<lparr>msgRole = [], msgContent = []\<rparr>"

definition decode_Message :: "bool \<Rightarrow> json \<Rightarrow> Message \<Rightarrow> Message option" where
  "decode_Message strict = decode_struct [''role'', ''content''] strict Message_field"

definition Request_field :: "bool \<Rightarrow> string \<Rightarrow> json \<Rightarrow> ChatCompletionRequest \<Rightarrow> ChatCompletionRequest option" where
  "Request_field strict name v r =
     (if name = ''model'' then map_option (\<lambda>s. r\<lparr>reqModel := s\<rparr>) (decode_string v (reqModel r))
      else if name = ''messages''
      then map_option (\<lambda>ms. r\<lparr>reqMessages := ms\<rparr>) (decode_slice zero_message (decode_Message strict) v (reqMessages r))
      else map_option (\<lambda>b. r\<lparr>reqStream := b\<rparr>) (decode_bool v (reqStream r)))"

definition zero_request :: ChatCompletionRequest where
  "zero_request = \<lparr>reqModel = [], reqMessages = [], reqStream = False\<rparr>"

definition decode_Request :: "bool \<Rightarrow> json \<Rightarrow> ChatCompletionRequest \<Rightarrow> ChatCompletionRequest option" where
  "decode_Request strict = decode_struct [''model'', ''messages'', ''stream''] strict (Request_field strict)"

definition Usage_field :: "string \<Rightarrow> json \<Rightarrow> Usage \<Rightarrow> Usage option" where
  "Usage_field name v u =
     (if name = ''prompt_tokens''
      then map_option (\<lambda>t. u\<lparr>InputTokens := t\<rparr>) (decode_pointer 0 decode_u64 v (InputTokens u))
      else if name = ''completion_tokens''
      then map_option (\<lambda>t. u\<lparr>OutputTokens := t\<rparr>) (decode_pointer 0 decode_u64 v (OutputTokens u))
      else map_option (\<lambda>t. u\<lparr>TotalTokens := t\<rparr>) (decode_pointer 0 decode_u64 v (TotalTokens u)))"

definition zero_usage :: Usage where
  "zero_usage = \<lparr>InputTokens = None, OutputTokens = None, TotalTokens = None\<rparr>"

definition decode_Usage :: "bool \<Rightarrow> json \<Rightarrow> Usage \<Rightarrow> Usage option" where
  "decode_Usage strict =
     decode_struct [''prompt_tokens'', ''completion_tokens'', ''total_tokens''] strict Usage_field"

definition Choice_field :: "bool \<Rightarrow> string \<Rightarrow> json \<Rightarrow> Choice \<Rightarrow> Choice option" where
  "Choice_field strict name v c =
     (if name = ''index'' then map_option (\<lambda>i. c\<lparr>choIndex := i\<rparr>) (decode_int v (choIndex c))
      else if name = ''message''
      then map_option (\<lambda>m. c\<lparr>choMessage := m\<rparr>) (decode_Message strict v (choMessage c))
      else map_option (\<lambda>s. c\<lparr>choFinishReason := s\<rparr>) (decode_string v (choFinishReason c)))"

definition zero_choice :: Choice where
  "zero_choice = \<lparr>choIndex = 0, choMessage = zero_message, choFinishReason = []\<rparr>"

definition decode_Choice :: "bool \<Rightarrow> json \<Rightarrow> Choice \<Rightarrow> Choice option" where
  "decode_Choice strict = decode_struct [''index'', ''message'', ''finish_reason''] strict (Choice_field strict)"

definition Response_field :: "bool \<Rightarrow> string \<Rightarrow> json \<Rightarrow> ChatCompletionResponse \<Rightarrow> ChatCompletionResponse option" where
  "Response_field strict name v r =
     (if name = ''id'' then map_option (\<lambda>s. r\<lparr>rspID := s\<rparr>) (decode_string v (rspID r))
      else if name = ''object'' then map_option (\<lambda>s. r\<lparr>rspObject := s\<rparr>) (decode_string v (rspObject r))
      else if name = ''created'' then map_option (\<lambda>i. r\<lparr>rspCreated := i\<rparr>) (decode_int v (rspCreated r))
      else if name = ''model'' then map_option (\<lambda>s. r\<lparr>rspModel := s\<rparr>) (decode_string v (rspModel r))
      else if name = ''choices''
      then map_option (\<lambda>cs. r\<lparr>rspChoices := cs\<rparr>) (decode_slice zero_choice (decode_Choice strict) v (rspChoices r))
      else map_option (\<lambda>u. r\<lparr>rspUsage := u\<rparr>) (decode_pointer zero_usage (decode_Usage strict) v (rspUsage r)))"

definition decode_Response :: "bool \<Rightarrow> json \<Rightarrow> ChatCompletionResponse \<Rightarrow> ChatCompletionResponse option" where
  "decode_Response strict =
     decode_struct [''id'', ''object'', ''created'', ''model'', ''choices'', ''usage''] strict (Response_field strict)"

section \<open>Round trip\<close>

text \<open>What the wire form keeps of a response: every string is made valid UTF-8.\<close>

definition sanitize_message :: "Message \<Rightarrow> Message" where
  "sanitize_message m = \<lparr>msgRole = sanitize_string (msgRole m), msgContent = sanitize_string (msgContent m)\<rparr>"

definition sanitize_choice :: "Choice \<Rightarrow> Choice" where
  "sanitize_choice c = \<lparr>choIndex = choIndex c, choMessage = sanitize_message (choMessage c),
     choFinishReason = sanitize_string (choFinishReason c)\<rparr>"

definition sanitize_response :: "ChatCompletionResponse \<Rightarrow> ChatCompletionResponse" where
  "sanitize_response r = \<lparr>rspID = sanitize_string (rspID r), rspObject = sanitize_string (rspObject r),
     rspCreated = rspCreated r, rspModel = sanitize_string (rspModel r),
     rspChoices = map sanitize_choice (rspChoices r), rspUsage = rspUsage r\<rparr>"

text \<open>The range of Go's integer fields.\<close>

definition response_ints :: "ChatCompletionResponse \<Rightarrow> bool" where
  "response_ints r \<longleftrightarrow> in_i64 (rspCreated r) \<and> list_all (\<lambda>c. in_i64 (choIndex c)) (rspChoices r)"

lemma sanitize_Message_json: "sanitize (Message_json m) = Message_json (sanitize_message m)"
  by (simp add: Message_json_def sanitize_message_def sanitize_ascii)

lemma sanitize_Choice_json: "sanitize (Choice_json c) = Choice_json (sanitize_choice c)"
  by (simp add: Choice_json_def sanitize_choice_def sanitize_ascii sanitize_Message_json)

lemma sanitize_optional:
  "(\<And>a. sanitize (enc a) = enc a) \<Longrightarrow> sanitize_string name = name \<Longrightarrow>
   map (\<lambda>(k, v). (sanitize_string k, sanitize v)) (optional_field name enc x) = optional_field name enc x"
  by (auto simp: optional_field_def split: option.split)

lemma sanitize_Usage_json: "sanitize (Usage_json u) = Usage_json u"
  by (simp add: Usage_json_def sanitize_optional sanitize_ascii)

lemma sanitize_Response_json: "sanitize (Response_json r) = Response_json (sanitize_response r)"
  by (simp add: Response_json_def sanitize_response_def slice_json_def sanitize_Usage_json
      sanitize_optional sanitize_ascii sanitize_Choice_json comp_def)

lemma decode_Message_json: "decode_Message strict (Message_json m) zero_message = Some m"
  by (simp add: decode_Message_def decode_struct_def Message_json_def Message_field_def struct_field_def zero_message_def)

lemma decode_Choice_json: "in_i64 (choIndex c) \<Longrightarrow> decode_Choice strict (Choice_json c) zero_choice = Some c"
  by (simp add: decode_Choice_def decode_struct_def Choice_json_def Choice_field_def struct_field_def
      zero_choice_def decode_Message_json)

lemma decode_elements_json:
  "(\<And>x. x \<in> set xs \<Longrightarrow> dec (enc x) zero = Some x) \<Longrightarrow> decode_elements zero dec (map enc xs) [] = Some xs"
  by (induction xs) auto

lemma decode_slice_json:
  "(\<And>x. x \<in> set xs \<Longrightarrow> dec (enc x) zero = Some x) \<Longrightarrow> decode_slice zero dec (slice_json enc xs) [] = Some xs"
  using decode_elements_json [of xs dec enc zero] by (simp add: decode_slice_def slice_json_def)

lemma decode_pointer_u64: "decode_pointer 0 decode_u64 (json_u64 u) old = Some (Some u)"
  using decode_json_u64 [of u] by (simp add: decode_pointer_def json_u64_def)

lemma decode_Usage_json: "decode_Usage strict (Usage_json u) zero_usage = Some u"
  by (cases u) (auto simp: decode_Usage_def decode_struct_def Usage_json_def Usage_field_def struct_field_def
      zero_usage_def optional_field_def decode_pointer_u64 split: option.split)

lemma decode_pointer_Usage: "decode_pointer zero_usage (decode_Usage strict) (Usage_json u) None = Some (Some u)"
  using decode_Usage_json [of strict u] by (simp add: decode_pointer_def Usage_json_def)

lemma decode_Response_json: "response_ints r \<Longrightarrow> decode_Response strict (Response_json r) zero_response = Some r"
  by (cases r) (auto simp: decode_Response_def decode_struct_def Response_json_def Response_field_def
      struct_field_def zero_response_def response_ints_def optional_field_def decode_pointer_Usage
      decode_slice_json decode_Choice_json list_all_iff split: option.split)

lemma response_ints_sanitize [simp]: "response_ints (sanitize_response r) = response_ints r"
  by (simp add: response_ints_def sanitize_response_def list_all_iff sanitize_choice_def)

lemma Response_json_ok: "int_literals (Response_json r)" "json_depth (Response_json r) \<le> 4"
proof -
  have m: "int_literals (Message_json m)" "json_depth (Message_json m) = 1" for m
    by (simp_all add: Message_json_def)
  have c: "int_literals (Choice_json c)" "json_depth (Choice_json c) = 2" for c
    by (simp_all add: Choice_json_def m)
  have u: "int_literals (Usage_json u)" "json_depth (Usage_json u) = 1" for u
    by (auto simp: Usage_json_def optional_field_def split: option.split)
  have "foldr (max \<circ> json_depth) (map Choice_json cs) 0 \<le> 2" for cs by (induction cs) (simp_all add: c)
  then show "int_literals (Response_json r)" "json_depth (Response_json r) \<le> 4"
    by (auto simp: Response_json_def slice_json_def optional_field_def list_all_iff c u split: option.split)
qed

end
