(* ===== verification/Completion_Cache.thy ===== *)
theory Completion_Cache
  imports Chat_Json
begin

text \<open>
  The completion cache (\<open>internal/cache/cache.go\<close>, the Redis store in
  \<open>internal/cache/redis/store.go\<close>, and the gateway's use of it in
  \<open>internal/gateway/cache.go\<close>). Values are the JSON form of a versioned envelope, keys the SHA-256
  digest of the JSON form of the request with its provider and model. The Redis client is an argument.
\<close>

section \<open>Cacheable completions\<close>

definition MaxValueBytes :: nat where
  "MaxValueBytes = 1048576"

definition OperationTimeout :: duration where
  "OperationTimeout = 50 * 1000000"

definition DefaultTTL :: duration where
  "DefaultTTL = 5 * 60 * 1000000000"

definition choice_complete :: "nat \<Rightarrow> Choice \<Rightarrow> bool" where
  "choice_complete i c \<longleftrightarrow>
     choIndex c = int i \<and> msgRole (choMessage c) = ''assistant'' \<and> msgContent (choMessage c) \<noteq> [] \<and>
     choFinishReason c = ''stop''"

definition complete :: "ChatCompletionResponse \<Rightarrow> bool" where
  "complete r \<longleftrightarrow>
     rspID r \<noteq> [] \<and> rspObject r = ''chat.completion'' \<and> rspModel r \<noteq> [] \<and> rspChoices r \<noteq> [] \<and>
     (\<forall>(i, c) \<in> set (enumerate 0 (rspChoices r)). choice_complete i c)"

record envelope =
  enVersion :: int
  enResponse :: ChatCompletionResponse

definition envelope_json :: "envelope \<Rightarrow> json" where
  "envelope_json e = JObj [(''version'', json_int (enVersion e)), (''response'', Response_json (enResponse e))]"

definition envelope_field :: "string \<Rightarrow> json \<Rightarrow> envelope \<Rightarrow> envelope option" where
  "envelope_field name v e =
     (if name = ''version'' then map_option (\<lambda>i. e\<lparr>enVersion := i\<rparr>) (decode_int v (enVersion e))
      else map_option (\<lambda>r. e\<lparr>enResponse := r\<rparr>) (decode_Response True v (enResponse e)))"

definition zero_envelope :: envelope where
  "zero_envelope = \<lparr>enVersion = 0, enResponse = zero_response\<rparr>"

text \<open>\<open>decoder.Decode(&value)\<close> with \<open>DisallowUnknownFields\<close>.\<close>

definition decode_envelope :: "json \<Rightarrow> envelope option" where
  "decode_envelope v = decode_struct [''version'', ''response''] True envelope_field v zero_envelope"

text \<open>Encoding the key cannot fail: it has only strings and a boolean.\<close>

definition Cache_Key :: "ChatCompletionRequest \<Rightarrow> string \<Rightarrow> string \<Rightarrow> string" where
  "Cache_Key request provider resolvedModel =
     ''routeforge:chat:v1:'' @ hex_string (Sum256 (bytes_of (Encoder_Encode (JObj
       [(''request'', Request_json request), (''provider'', JStr provider),
        (''resolved_model'', JStr resolvedModel)]))))"

text \<open>The encoder makes one write to the bounded buffer, which is empty before it.\<close>

definition boundedBuffer_Write :: "string \<Rightarrow> string \<Rightarrow> string + string" where
  "boundedBuffer_Write b data =
     (if int (length data) > int MaxValueBytes - int (length b)
      then Inl ''cache value exceeds size limit'' else Inr (b @ data))"

definition Cache_Encode :: "ChatCompletionResponse \<Rightarrow> string + string" where
  "Cache_Encode response =
     (if \<not> complete response then Inl ''completion is not cacheable''
      else case boundedBuffer_Write [] (Encoder_Encode (envelope_json \<lparr>enVersion = 1, enResponse = response\<rparr>)) of
        Inl _ \<Rightarrow> Inl ''cache value encoding failed''
      | Inr bytes \<Rightarrow> Inr bytes)"

definition Cache_Decode :: "string \<Rightarrow> string + ChatCompletionResponse" where
  "Cache_Decode data =
     (if data = [] \<or> length data > MaxValueBytes then Inl ''invalid cache value size''
      else case Decode True (bytes_of data) of
        DecodedValue v rest \<Rightarrow>
          (case decode_envelope v of
             None \<Rightarrow> Inl ''invalid cache value''
           | Some value' \<Rightarrow>
               if enVersion value' \<noteq> 1 \<or> \<not> complete (enResponse value') \<or> Decode True rest \<noteq> DecodedEOF
               then Inl ''invalid cache completion''
               else Inr (enResponse value'))
      | _ \<Rightarrow> Inl ''invalid cache value'')"

section \<open>The Redis store\<close>

text \<open>\<open>getRange\<close> and \<open>set\<close> stand for the client's calls; \<open>Inl\<close> is an error of theirs.\<close>

definition redis_Get :: "(string \<Rightarrow> int \<Rightarrow> int \<Rightarrow> unit + string) \<Rightarrow> string \<Rightarrow> string + string" where
  "redis_Get getRange key =
     (case getRange key 0 (int MaxValueBytes) of
        Inl _ \<Rightarrow> Inl ''cache lookup failed'' | Inr bytes \<Rightarrow> Inr bytes)"

definition redis_Set ::
  "(string \<Rightarrow> string \<Rightarrow> duration \<Rightarrow> bool) \<Rightarrow> string \<Rightarrow> string \<Rightarrow> duration \<Rightarrow> string option" where
  "redis_Set set' key value' ttl =
     (if length value' > MaxValueBytes \<or> ttl < 1000000 then Some ''invalid cache write''
      else if set' key value' ttl then None else Some ''cache write failed'')"

section \<open>The gateway's use\<close>

definition SetCache_ttl :: "duration \<Rightarrow> duration" where
  "SetCache_ttl ttl = (if ttl < 1000000 then DefaultTTL else ttl)"

text \<open>The response with the lookup result that is counted; \<open>None\<close> when no key was made.\<close>

definition lookupCompletion ::
  "(string \<Rightarrow> string + string) \<Rightarrow> string \<Rightarrow> ChatCompletionResponse option \<times> string option" where
  "lookupCompletion get key =
     (if key = [] then (None, None)
      else case get key of
        Inl _ \<Rightarrow> (None, Some ''error'')
      | Inr data \<Rightarrow>
          if length data > 0
          then (case Cache_Decode data of
                  Inl _ \<Rightarrow> (None, Some ''error'') | Inr response \<Rightarrow> (Some response, Some ''hit''))
          else (None, Some ''miss''))"

text \<open>The call to the store, if one is made, and the counted result.\<close>

definition storeCompletion ::
  "(string \<Rightarrow> string \<Rightarrow> duration \<Rightarrow> string option) \<Rightarrow> string \<Rightarrow> duration
   \<Rightarrow> ChatCompletionResponse \<Rightarrow> ((string \<times> string \<times> duration) \<times> string) option" where
  "storeCompletion set' key ttl response =
     (case Cache_Encode response of
        Inl _ \<Rightarrow> None
      | Inr data \<Rightarrow>
          Some ((key, data, ttl), if set' key data ttl \<noteq> None then ''error'' else ''success''))"

section \<open>Facts\<close>

lemma Cache_Encode_Inr:
  "Cache_Encode r = Inr data \<longleftrightarrow>
     complete r \<and> data = Encoder_Encode (envelope_json \<lparr>enVersion = 1, enResponse = r\<rparr>) \<and>
     length data \<le> MaxValueBytes"
  by (auto simp: Cache_Encode_def boundedBuffer_Write_def split: if_splits)

lemma Cache_Decode_complete: "Cache_Decode data = Inr r \<Longrightarrow> complete r"
  by (auto simp: Cache_Decode_def split: option.splits if_splits decoded.splits)

lemma lookupCompletion_hit: "fst (lookupCompletion get key) = Some r \<Longrightarrow> complete r"
  by (auto simp: lookupCompletion_def split: if_splits sum.splits dest: Cache_Decode_complete)

lemma Cache_Key_nonempty [simp]: "Cache_Key req name model \<noteq> []"
  by (simp add: Cache_Key_def)

lemma envelope_json_ok:
  "int_literals (envelope_json e)" "json_depth (envelope_json e) \<le> maxNestingDepth"
  using Response_json_ok [of "enResponse e"] by (simp_all add: envelope_json_def maxNestingDepth_def)

lemma sanitize_envelope_json:
  "sanitize (envelope_json e) = envelope_json (e\<lparr>enResponse := sanitize_response (enResponse e)\<rparr>)"
  by (simp add: envelope_json_def sanitize_ascii sanitize_Response_json)

lemma decode_envelope_json:
  "response_ints (enResponse e) \<Longrightarrow> in_i64 (enVersion e) \<Longrightarrow> decode_envelope (envelope_json e) = Some e"
  by (cases e) (simp add: decode_envelope_def envelope_json_def decode_struct_def envelope_field_def
      struct_field_def zero_envelope_def decode_Response_json)

lemma complete_sanitize:
  assumes "complete r"
  shows "complete (sanitize_response r)"
proof -
  have "choice_complete i (sanitize_choice c)" if "choice_complete i c" for i c
    using that by (simp add: choice_complete_def sanitize_choice_def sanitize_message_def sanitize_ascii)
  then show ?thesis
    using assms
    by (auto simp: complete_def sanitize_response_def sanitize_ascii in_set_enumerate_eq Ball_def)
qed

lemma Decode_envelope:
  "Decode True (bytes_of (Encoder_Encode (envelope_json e))) = DecodedValue (sanitize (envelope_json e)) [10] \<and>
   Decode True [10] = DecodedEOF"
proof -
  have "bytes_of (Encoder_Encode (envelope_json e)) = print_json (envelope_json e) @ [10]"
    unfolding Encoder_Encode_def by (rule bytes_of_string) (auto dest: print_json_byte)
  moreover have "parse MValue [] (print_json (envelope_json e) @ [10]) = Scanned (sanitize (envelope_json e)) [10]"
    by (intro parse_printed envelope_json_ok number_end_mark) simp
  moreover have "Decode True [10] = DecodedEOF" by (rule Decode_spaces) (simp add: json_space_def)
  ultimately show ?thesis by (simp add: Decode_def [of True "print_json _ @ [10]"])
qed

lemma Cache_Decode_Encode:
  assumes "Cache_Encode r = Inr data" "response_ints r"
  shows "Cache_Decode data = Inr (sanitize_response r)" "data \<noteq> []"
proof -
  have d: "complete r" "data = Encoder_Encode (envelope_json \<lparr>enVersion = 1, enResponse = r\<rparr>)"
    "length data \<le> MaxValueBytes"
    using assms(1) unfolding Cache_Encode_Inr by blast+
  then show "data \<noteq> []" by (simp add: Encoder_Encode_def string_of_def)
  moreover have "decode_envelope (envelope_json \<lparr>enVersion = 1, enResponse = sanitize_response r\<rparr>) =
      Some \<lparr>enVersion = 1, enResponse = sanitize_response r\<rparr>"
    using assms(2) by (intro decode_envelope_json) (simp_all add: in_i64_def MinInt64_def MaxInt64_def)
  ultimately show "Cache_Decode data = Inr (sanitize_response r)"
    using d Decode_envelope [of "\<lparr>enVersion = 1, enResponse = r\<rparr>"] complete_sanitize [OF d(1)]
    by (simp add: Cache_Decode_def sanitize_envelope_json)
qed

section \<open>Properties\<close>


text \<open>C37: What the gateway stores it reads back. When the store keeps the value, a response that was
  accepted for storing is the hit of the next lookup of its key, with every string made valid UTF-8, so
  a response in valid UTF-8 comes back exactly as it was; and the store accepts the write for every
  lifetime the gateway configures.\<close>

theorem cache_round_trip:
  fixes req provider model
  defines "key \<equiv> Cache_Key req provider model"
  assumes "storeCompletion (redis_Set (\<lambda>_ _ _. True)) key (SetCache_ttl ttl) r = Some ((k, data, t), result)"
    and "get k = Inr data" "response_ints r"
  shows "result = ''success'' \<and> lookupCompletion get key = (Some (sanitize_response r), Some ''hit'') \<and>
    (rspID r = sanitize_string (rspID r) \<and> rspModel r = sanitize_string (rspModel r) \<and>
     map sanitize_choice (rspChoices r) = rspChoices r \<longrightarrow> sanitize_response r = r)"
proof -
  have e: "Cache_Encode r = Inr data" "k = key" "t = SetCache_ttl ttl"
    "result = (if redis_Set (\<lambda>_ _ _. True) k data t \<noteq> None then ''error'' else ''success'')"
    using assms(2) by (auto simp: storeCompletion_def split: sum.splits)
  note d = Cache_Decode_Encode [OF e(1) assms(4)]
  have "length data \<le> MaxValueBytes" "rspObject r = ''chat.completion''"
    using e(1) unfolding Cache_Encode_Inr complete_def by blast+
  with e assms(3) d show ?thesis
    by (auto simp: key_def lookupCompletion_def redis_Set_def SetCache_ttl_def DefaultTTL_def
        sanitize_response_def sanitize_ascii)
qed

text \<open>A response that the example stores.\<close>

definition sample_response :: ChatCompletionResponse where
  "sample_response = \<lparr>rspID = ''1'', rspObject = ''chat.completion'', rspCreated = 0, rspModel = ''m'',
     rspChoices = [\<lparr>choIndex = 0, choMessage = \<lparr>msgRole = ''assistant'', msgContent = ''hi''\<rparr>,
       choFinishReason = ''stop''\<rparr>], rspUsage = None\<rparr>"

lemma sample_response_stored:
  "\<exists>data. storeCompletion (redis_Set (\<lambda>_ _ _. True)) key (SetCache_ttl 0) sample_response
     = Some ((key, data, DefaultTTL), ''success'')"
proof -
  have "length (Encoder_Encode (envelope_json \<lparr>enVersion = 1, enResponse = sample_response\<rparr>)) \<le> MaxValueBytes"
    by (simp add: Encoder_Encode_def string_of_def envelope_json_def Response_json_def sample_response_def
        slice_json_def optional_field_def Choice_json_def Message_json_def json_int_def decimal.simps
        bytes_of_def print_string_def escape_rune_def html_safe_def MaxValueBytes_def)
  moreover have "complete sample_response"
    by (simp add: complete_def sample_response_def choice_complete_def)
  ultimately show ?thesis
    by (simp add: storeCompletion_def Cache_Encode_def boundedBuffer_Write_def redis_Set_def
        SetCache_ttl_def DefaultTTL_def)
qed

theorem cache_round_trip_witness:
  fixes key
  defines "key \<equiv> Cache_Key \<lparr>reqModel = ''m'', reqMessages = [], reqStream = False\<rparr> ''mock'' ''m''"
  shows "\<exists>data. storeCompletion (redis_Set (\<lambda>_ _ _. True)) key (SetCache_ttl 0) sample_response
      = Some ((key, data, DefaultTTL), ''success'') \<and>
    lookupCompletion (\<lambda>_. Inr data) key = (Some sample_response, Some ''hit'')"
proof -
  obtain data where "storeCompletion (redis_Set (\<lambda>_ _ _. True)) key (SetCache_ttl 0) sample_response
      = Some ((key, data, DefaultTTL), ''success'')"
    using sample_response_stored by blast
  moreover have "response_ints sample_response"
    by (simp add: response_ints_def sample_response_def in_i64_def MinInt64_def MaxInt64_def)
  ultimately show ?thesis
    using cache_round_trip [where req = "\<lparr>reqModel = ''m'', reqMessages = [], reqStream = False\<rparr>"
        and provider = "''mock''" and model = "''m''" and get = "\<lambda>_. Inr data" and ttl = 0 and r = sample_response]
    unfolding key_def
    by (auto simp: sample_response_def sanitize_ascii sanitize_choice_def sanitize_message_def)
qed

end
