(* ===== verification/Service.thy ===== *)
theory Service
  imports Model_Resolver Circuit Runtime_Routing Recorder Completion_Cache
begin

text \<open>
  The gateway service (\<open>internal/gateway/service.go\<close>, with \<open>metrics.go\<close> and the history and
  cache calls): its state, the order in which providers are tried, and a non-streaming completion with
  its fallback loop. Everything outside the process is a function of the record \<open>world\<close>, applied
  to a counter that advances with every use: the clock, \<open>ctx.Err()\<close>, the providers, the request
  ids and the cache store may answer differently each time. What the service does, its calls of
  providers, of the accounting and of the outside, is appended to a trace. Tracing spans have no effect on the request and are left out.
\<close>

section \<open>The outside\<close>

record Provider =
  pvName :: string
  pvStreaming :: bool

text \<open>A provider stream: the chunks \<open>Next\<close> returns, and the error that ends them.\<close>

record provider_stream =
  strChunks :: "StreamChunk list"
  strEnd :: go_error

record world =
  wNow :: "nat \<Rightarrow> instant"
  wCtxErr :: "nat \<Rightarrow> go_error option"
  wComplete :: "nat \<Rightarrow> string \<Rightarrow> ChatCompletionRequest \<Rightarrow> ChatCompletionResponse \<times> go_error option"
  wStream :: "nat \<Rightarrow> string \<Rightarrow> ChatCompletionRequest \<Rightarrow> go_error + provider_stream"
  wEmit :: "nat \<Rightarrow> StreamChunk \<Rightarrow> go_error option"
  wRequestID :: "nat \<Rightarrow> string option"
  wCacheGet :: "nat \<Rightarrow> string \<Rightarrow> string + string"
  wCacheSet :: "nat \<Rightarrow> string \<Rightarrow> string \<Rightarrow> duration \<Rightarrow> string option"

datatype metric =
    RecordRoutingSelection string string bool
  | RecordFallback string string string
  | RecordProviderAttempt string string bool bool duration
  | RecordUsage string "Usage option"
  | RecordEstimatedCost string u64
  | RecordTTFC string duration
  | RecordCacheLookup string
  | RecordCacheWrite string
  | RecordPersistence WriteOutcome
  | RecordCircuitTransition string circuitState circuitState

datatype effect =
    Metric metric
  | CallComplete string ChatCompletionRequest ChatCompletionResponse "go_error option"
  | CallStream string ChatCompletionRequest "go_error + provider_stream"
  | CloseStream string
  | Emit string StreamChunk
  | Account string string "Usage option"
  | CacheSet string string duration
  | SubmitHistory RequestRecord

section \<open>State\<close>

definition defaultCircuitFailureThreshold :: int where
  "defaultCircuitFailureThreshold = 3"

definition defaultCircuitOpenDuration :: duration where
  "defaultCircuitOpenDuration = 30 * 1000000000"

text \<open>\<open>svCache\<close> is \<open>None\<close> for a nil store, and otherwise what the store's \<open>Enabled\<close>
  returns.\<close>

record Service =
  svProviders :: "Provider list"
  svResolver :: Resolver
  svFallback :: bool
  svHealth :: healthTracker
  svTelemetry :: telemetryTracker
  svRouting :: runtimeRouting
  svAccounting :: Tracker
  svPricing :: PriceBook
  svRecorder :: Recorder
  svCache :: "bool option"
  svCacheTTL :: duration
  svTick :: nat
  svTrace :: "effect list"

definition providerNames :: "Provider list \<Rightarrow> string list" where
  "providerNames providers = map pvName providers"

definition trackerFor :: "Provider list \<Rightarrow> CircuitConfig \<Rightarrow> healthTracker" where
  "trackerFor providers config = newHealthTracker (providerNames providers) config"

definition telemetryFor :: "Provider list \<Rightarrow> telemetryTracker" where
  "telemetryFor providers = newTelemetryTracker (providerNames providers) defaultTelemetrySampleCapacity"

definition zero_routing_config :: RoutingConfig where
  "zero_routing_config = \<lparr>rcPolicy = [], rcMinSamples = 0, rcSampleMaxAge = 0,
     rcExplorationInterval = 0, rcMaxLatencyOverFastestPercent = None\<rparr>"

definition default_circuit :: CircuitConfig where
  "default_circuit = \<lparr>FailureThreshold = defaultCircuitFailureThreshold,
     OpenDuration = defaultCircuitOpenDuration\<rparr>"

text \<open>The fields the constructors share; a nil resolver is the empty one.\<close>

definition build_service ::
  "Provider list \<Rightarrow> Resolver option \<Rightarrow> bool \<Rightarrow> CircuitConfig \<Rightarrow> runtimeRouting \<Rightarrow> Service" where
  "build_service providers resolver fallback config routing =
     \<lparr>svProviders = providers,
      svResolver = (case resolver of None \<Rightarrow> New_Resolver Map.empty | Some r \<Rightarrow> r),
      svFallback = fallback, svHealth = trackerFor providers config,
      svTelemetry = telemetryFor providers, svRouting = routing,
      svAccounting = NewTracker Map.empty DefaultModelCapacity, svPricing = Map.empty,
      svRecorder = NoopRecorder, svCache = None, svCacheTTL = 0, svTick = 0, svTrace = []\<rparr>"

definition NewWithCircuitBreaker :: "Provider \<Rightarrow> Resolver option \<Rightarrow> CircuitConfig \<Rightarrow> Service" where
  "NewWithCircuitBreaker p resolver config =
     build_service [p] resolver False config
       (newRuntimeRouting zero_routing_config deterministicRoutingPolicy False)"

definition New_Service :: "Provider \<Rightarrow> Resolver option \<Rightarrow> Service" where
  "New_Service p resolver = NewWithCircuitBreaker p resolver default_circuit"

definition NewAutoWithCircuitBreaker ::
  "Resolver option \<Rightarrow> CircuitConfig \<Rightarrow> Provider list \<Rightarrow> Service" where
  "NewAutoWithCircuitBreaker resolver config providers =
     build_service providers resolver True config
       (newRuntimeRouting zero_routing_config deterministicRoutingPolicy False)"

definition NewAuto :: "Resolver option \<Rightarrow> Provider list \<Rightarrow> Service" where
  "NewAuto resolver providers = NewAutoWithCircuitBreaker resolver default_circuit providers"

definition newAutoService ::
  "Resolver option \<Rightarrow> CircuitConfig \<Rightarrow> RoutingConfig \<Rightarrow> Provider list \<Rightarrow> string + Service" where
  "newAutoService resolver circuitConfig routingConfig providers =
     (case newRoutingPolicy routingConfig of
        Inl err \<Rightarrow> Inl err
      | Inr (routing, rankEligible) \<Rightarrow>
          Inr (build_service providers resolver True circuitConfig
            (newRuntimeRouting routingConfig routing rankEligible)))"

definition SetPricing :: "Service \<Rightarrow> PriceBook \<Rightarrow> Service" where
  "SetPricing s prices =
     s\<lparr>svPricing := ClonePriceBook prices, svAccounting := SetPrices (svAccounting s) prices\<rparr>"

definition SetPersistence :: "Service \<Rightarrow> Recorder option \<Rightarrow> Service" where
  "SetPersistence s recorder =
     s\<lparr>svRecorder := (case recorder of None \<Rightarrow> NoopRecorder | Some r \<Rightarrow> r)\<rparr>"

definition SetCache :: "Service \<Rightarrow> bool option \<Rightarrow> duration \<Rightarrow> Service" where
  "SetCache s store ttl =
     s\<lparr>svCache := Some (case store of None \<Rightarrow> False | Some enabled \<Rightarrow> enabled),
       svCacheTTL := SetCache_ttl ttl\<rparr>"

section \<open>Validation\<close>

definition validateCore :: "ChatCompletionRequest \<Rightarrow> go_error option" where
  "validateCore req =
     (if TrimSpace (reqModel req) = [] then Some ErrModelRequired
      else if reqMessages req = [] then Some ErrMessagesRequired
      else None)"

fun validate_roles_from :: "nat \<Rightarrow> Message list \<Rightarrow> go_error option" where
  "validate_roles_from i [] = None"
| "validate_roles_from i (m # ms) =
     (if msgRole m = ''system'' \<or> msgRole m = ''user'' \<or> msgRole m = ''assistant''
      then validate_roles_from (Suc i) ms
      else Some (UnsupportedRoleError i (msgRole m)))"

definition validateRoles :: "ChatCompletionRequest \<Rightarrow> go_error option" where
  "validateRoles req = validate_roles_from 0 (reqMessages req)"

definition isMissingMapping :: "go_error \<Rightarrow> bool" where
  "isMissingMapping err = (as_resolution_error err = Some ErrorMissingMapping)"

definition circuitOpenError :: "string \<Rightarrow> go_error" where
  "circuitOpenError providerName = NewError ErrorUnavailable providerName ErrCircuitOpen"

definition mergeUsage :: "Usage option \<Rightarrow> Usage option \<Rightarrow> Usage option" where
  "mergeUsage current incoming =
     (case incoming of
        None \<Rightarrow> current
      | Some inc \<Rightarrow>
          let base = (case current of
                        None \<Rightarrow> \<lparr>InputTokens = None, OutputTokens = None, TotalTokens = None\<rparr>
                      | Some c \<Rightarrow> c);
              m1 = (if InputTokens inc \<noteq> None then base\<lparr>InputTokens := InputTokens inc\<rparr> else base);
              m2 = (if OutputTokens inc \<noteq> None then m1\<lparr>OutputTokens := OutputTokens inc\<rparr> else m1);
              m3 = (if TotalTokens inc \<noteq> None then m2\<lparr>TotalTokens := TotalTokens inc\<rparr> else m2)
          in Some m3)"

definition clientVisibleChunk :: "StreamChunk \<Rightarrow> bool" where
  "clientVisibleChunk chunk \<longleftrightarrow> ckRole chunk \<noteq> [] \<or> ckContent chunk \<noteq> [] \<or> ckFinishReason chunk \<noteq> []"

section \<open>Calls of the components\<close>

definition tick :: "Service \<Rightarrow> Service" where
  "tick s = s\<lparr>svTick := Suc (svTick s)\<rparr>"

definition log_effects :: "effect list \<Rightarrow> Service \<Rightarrow> Service" where
  "log_effects es s = s\<lparr>svTrace := svTrace s @ es\<rparr>"

definition transition_effects :: "transition list \<Rightarrow> effect list" where
  "transition_effects trs = map (\<lambda>(n, from, to). Metric (RecordCircuitTransition n from to)) trs"

definition svc_eligible :: "world \<Rightarrow> string \<Rightarrow> Service \<Rightarrow> bool \<times> Service" where
  "svc_eligible w name s = (tracker_eligible (svHealth s) name (wNow w (svTick s)), tick s)"

definition svc_begin :: "world \<Rightarrow> string \<Rightarrow> Service \<Rightarrow> healthAttempt option \<times> Service" where
  "svc_begin w name s =
     (case tracker_begin (svHealth s) name (wNow w (svTick s)) of
        (a, t, trs) \<Rightarrow> (a, log_effects (transition_effects trs) (tick (s\<lparr>svHealth := t\<rparr>))))"

definition svc_health_outcome :: "world \<Rightarrow> healthAttempt \<Rightarrow> providerOutcome \<Rightarrow> Service \<Rightarrow> Service" where
  "svc_health_outcome w a outcome s =
     (case recordHealthOutcome (svHealth s) a outcome (wNow w (svTick s)) of
        (t, trs) \<Rightarrow> log_effects (transition_effects trs) (tick (s\<lparr>svHealth := t\<rparr>)))"

definition svc_telemetry_begin :: "world \<Rightarrow> string \<Rightarrow> Service \<Rightarrow> telemetryAttempt option \<times> Service" where
  "svc_telemetry_begin w name s =
     (case telemetry_begin (svTelemetry s) name (wNow w (svTick s)) of
        (a, t) \<Rightarrow> (a, tick (s\<lparr>svTelemetry := t\<rparr>)))"

definition svc_finishNonStreaming ::
  "world \<Rightarrow> telemetryAttempt option \<Rightarrow> providerOutcome \<Rightarrow> Service \<Rightarrow> duration \<times> Service" where
  "svc_finishNonStreaming w a outcome s =
     (case finishNonStreaming (svTelemetry s) a outcome (wNow w (svTick s)) of
        (d, t) \<Rightarrow> (d, tick (s\<lparr>svTelemetry := t\<rparr>)))"

definition svc_account :: "string \<Rightarrow> string \<Rightarrow> Usage option \<Rightarrow> Service \<Rightarrow> RecordResult \<times> Service" where
  "svc_account name model usage s =
     (case Record (svAccounting s) name model usage of
        (r, t) \<Rightarrow> (r, log_effects [Account name model usage] (s\<lparr>svAccounting := t\<rparr>)))"

definition ctx_err :: "world \<Rightarrow> Service \<Rightarrow> go_error option \<times> Service" where
  "ctx_err w s = (wCtxErr w (svTick s), tick s)"

text \<open>\<open>recordAttemptStart\<close> and \<open>recordAttemptFinish\<close> of \<open>metrics.go\<close>.\<close>

definition recordAttemptStart ::
  "routing_ctx \<Rightarrow> string \<Rightarrow> bool \<Rightarrow> nat \<Rightarrow> string \<Rightarrow> providerOutcome \<Rightarrow> Service \<Rightarrow> Service" where
  "recordAttemptStart ctx providerName streaming attemptNumber fallbackFrom fallbackReason s =
     (if attemptNumber = 1
      then log_effects [Metric (RecordRoutingSelection providerName
             (rcPolicy (rvConfig (requestRouting (svRouting s) ctx))) streaming)] s
      else log_effects [Metric (RecordFallback fallbackFrom providerName (outcome_String fallbackReason))] s)"

definition recordAttemptFinish ::
  "string \<Rightarrow> bool \<Rightarrow> nat \<Rightarrow> providerOutcome \<Rightarrow> duration \<Rightarrow> Usage option \<Rightarrow> RecordResult \<Rightarrow> Service \<Rightarrow> Service" where
  "recordAttemptFinish providerName streaming attemptNumber outcome duration usage accountingResult s =
     log_effects
       ([Metric (RecordProviderAttempt providerName (outcome_String outcome) streaming
           (1 < attemptNumber) duration),
         Metric (RecordUsage providerName usage)] @
        (if EstimatedCostAvailable accountingResult
         then [Metric (RecordEstimatedCost providerName (EstimatedCostMicroUSD accountingResult))] else [])) s"

section \<open>The order of the providers\<close>

fun eligible_split :: "world \<Rightarrow> Provider list \<Rightarrow> Service \<Rightarrow> (Provider list \<times> Provider list) \<times> Service" where
  "eligible_split w [] s = (([], []), s)"
| "eligible_split w (item # items) s =
     (case svc_eligible w (pvName item) s of
        (ok, s1) \<Rightarrow>
          (case eligible_split w items s1 of
             ((eligible, ineligible), s2) \<Rightarrow>
               ((if ok then (item # eligible, ineligible) else (eligible, item # ineligible)), s2)))"

definition candidate_price :: "PriceBook \<Rightarrow> Resolver \<Rightarrow> string \<Rightarrow> price_map \<Rightarrow> string \<Rightarrow> price_map" where
  "candidate_price prices resolver requestModel resolved name =
     (case (if IsLogical requestModel then Resolve resolver requestModel name else Inr requestModel) of
        Inl _ \<Rightarrow> resolved
      | Inr modelName \<Rightarrow>
          (case prices \<lparr>keyProvider = name, keyModel = modelName\<rparr> of
             None \<Rightarrow> resolved | Some rates \<Rightarrow> resolved(name \<mapsto> rates)))"

definition candidatePrices :: "Service \<Rightarrow> string \<Rightarrow> Provider list \<Rightarrow> routingPolicy \<Rightarrow> price_map" where
  "candidatePrices s requestModel candidates policy =
     (if \<not> usesPricing policy then Map.empty
      else foldl (candidate_price (ClonePriceBook (svPricing s)) (svResolver s) requestModel) Map.empty
             (map pvName candidates))"

definition orderedProviders ::
  "world \<Rightarrow> routing_ctx \<Rightarrow> requestMode \<Rightarrow> string \<Rightarrow> Service \<Rightarrow> Provider list \<times> Service" where
  "orderedProviders w ctx mode requestModel s =
     (let routing = requestRouting (svRouting s) ctx in
      if \<not> svFallback s \<or> \<not> rvRankEligible routing then (svProviders s, s)
      else
        (case eligible_split w (svProviders s) s of
           ((eligible, ineligible), s1) \<Rightarrow>
             let snapshots = (\<lambda>n. if n \<in> pvName ` set eligible then telemetry_snapshot (svTelemetry s1) n else None);
                 prices = candidatePrices s1 requestModel eligible (rvPolicy routing)
             in (case policy_order pvName (rvPolicy routing) eligible mode snapshots prices
                        (wNow w (svTick s1)) (rtExploration (svRouting s1)) of
                   (ordered, exploration) \<Rightarrow>
                     (ordered @ ineligible,
                      tick (s1\<lparr>svRouting := (svRouting s1)\<lparr>rtExploration := exploration\<rparr>\<rparr>)))))"

section \<open>History\<close>

definition svc_history :: "world \<Rightarrow> routing_ctx \<Rightarrow> ChatCompletionRequest \<Rightarrow> Service
   \<Rightarrow> requestHistory option \<times> Service" where
  "svc_history w ctx request s =
     (if \<not> Recorder_Enabled (svRecorder s) then (None, s)
      else
        let requestID = wRequestID w (svTick s); s1 = tick s;
            h = beginRequestHistory True requestID
                  (rcPolicy (rvConfig (requestRouting (svRouting s1) ctx))) request (wNow w (svTick s1))
        in (h, tick (if requestID = None then log_effects [Metric (RecordPersistence OutcomeWriteError)] s1
                     else s1)))"

definition svc_finish :: "world \<Rightarrow> requestHistory option \<Rightarrow> go_error option \<Rightarrow> Service \<Rightarrow> Service" where
  "svc_finish w h err s =
     (case finish_history h (wCtxErr w (svTick s)) err (wNow w (svTick s)) of
        None \<Rightarrow> s
      | Some r \<Rightarrow>
          (case Recorder_Submit (svRecorder s) r of
             (result, recorder) \<Rightarrow>
               log_effects (SubmitHistory r #
                   (if result = SubmitClosed then [Metric (RecordPersistence OutcomeWriteError)] else []))
                 (tick (s\<lparr>svRecorder := recorder\<rparr>))))"

section \<open>Complete\<close>

record fallback_vars =
  fvLastErr :: "go_error option"
  fvUsableMapping :: bool
  fvAttemptNumber :: nat
  fvFallbackFrom :: string
  fvFallbackReason :: providerOutcome

definition start_vars :: fallback_vars where
  "start_vars = \<lparr>fvLastErr = None, fvUsableMapping = False, fvAttemptNumber = 0, fvFallbackFrom = [],
     fvFallbackReason = outcomeOtherFailure\<rparr>"

text \<open>The model a provider is asked for.\<close>

definition resolve_for :: "Service \<Rightarrow> ChatCompletionRequest \<Rightarrow> string \<Rightarrow> go_error + string" where
  "resolve_for s req name =
     (if IsLogical (reqModel req) then Resolve (svResolver s) (reqModel req) name else Inr (reqModel req))"

text \<open>The lookup before admission: the key, when one was made, and a usable hit.\<close>

definition cache_phase ::
  "world \<Rightarrow> ChatCompletionRequest \<Rightarrow> string \<Rightarrow> string \<Rightarrow> Service
   \<Rightarrow> string \<times> ChatCompletionResponse option \<times> Service" where
  "cache_phase w req name model s =
     (if svCache s \<noteq> Some True then ([], None, s)
      else (case svc_eligible w name s of (ok1, s1) \<Rightarrow>
        if \<not> ok1 then ([], None, s1)
        else (case ctx_err w s1 of (e1, s2) \<Rightarrow>
          if e1 \<noteq> None then ([], None, s2)
          else
            let key = Cache_Key req name model in
            (case lookupCompletion (wCacheGet w (svTick s2)) key of (cached, result) \<Rightarrow>
              let s3 = tick (log_effects (case result of None \<Rightarrow> []
                           | Some r \<Rightarrow> [Metric (RecordCacheLookup r)]) s2) in
              case cached of
                None \<Rightarrow> (key, None, s3)
              | Some response \<Rightarrow>
                  (case svc_eligible w name s3 of (ok2, s4) \<Rightarrow>
                    if \<not> ok2 then (key, None, s4)
                    else (case ctx_err w s4 of (e2, s5) \<Rightarrow>
                      (key, if e2 = None then Some response else None, s5)))))))"

text \<open>One admitted attempt, from \<open>startAttempt\<close> to \<open>recordAttemptFinish\<close>.\<close>

definition try_complete ::
  "world \<Rightarrow> routing_ctx \<Rightarrow> string \<Rightarrow> ChatCompletionRequest \<Rightarrow> fallback_vars \<Rightarrow> healthAttempt
   \<Rightarrow> requestHistory option \<Rightarrow> Service
   \<Rightarrow> (ChatCompletionResponse \<times> go_error option \<times> providerOutcome) \<times> requestHistory option \<times> Service" where
  "try_complete w ctx name preq v a h s =
     (case startAttempt h name (reqModel preq) (wNow w (svTick s)) of (index, h1) \<Rightarrow>
      let s1 = recordAttemptStart ctx name False (fvAttemptNumber v) (fvFallbackFrom v)
                 (fvFallbackReason v) (tick s) in
      case svc_telemetry_begin w name s1 of (ta, s2) \<Rightarrow>
      case wComplete w (svTick s2) name preq of (response, err) \<Rightarrow>
      let s3 = log_effects [CallComplete name preq response err] (tick s2) in
      case svc_account name (reqModel preq) (rspUsage response) s3 of (accountingResult, s4) \<Rightarrow>
      case ctx_err w s4 of (ctxErr, s5) \<Rightarrow>
      let outcome = classifyProviderOutcome ctxErr err;
          s6 = svc_health_outcome w a outcome s5 in
      case svc_finishNonStreaming w ta outcome s6 of (duration, s7) \<Rightarrow>
      let h2 = finishAttempt h1 index outcome duration None (rspUsage response) accountingResult
                 (wNow w (svTick s7));
          s8 = recordAttemptFinish name False (fvAttemptNumber v) outcome duration (rspUsage response)
                 accountingResult (tick s7)
      in ((response, err, outcome), h2, s8))"

definition svc_store :: "world \<Rightarrow> string \<Rightarrow> ChatCompletionResponse \<Rightarrow> Service \<Rightarrow> Service" where
  "svc_store w key response s =
     (case storeCompletion (wCacheSet w (svTick s)) key (svCacheTTL s) response of
        None \<Rightarrow> s
      | Some ((k, data, ttl), result) \<Rightarrow>
          log_effects [CacheSet k data ttl, Metric (RecordCacheWrite result)] (tick s))"

text \<open>What one pass of the loop ends with: a \<open>return\<close>, or the variables for the next provider.\<close>

datatype 'r pass = Return 'r | Continue fallback_vars

text \<open>The body of the loop, split at the admission.\<close>

definition complete_admitted ::
  "world \<Rightarrow> routing_ctx \<Rightarrow> ChatCompletionRequest \<Rightarrow> string \<Rightarrow> string \<Rightarrow> string \<Rightarrow> fallback_vars \<Rightarrow> healthAttempt
   \<Rightarrow> requestHistory option \<Rightarrow> Service
   \<Rightarrow> (ChatCompletionResponse \<times> go_error option) pass \<times> requestHistory option \<times> Service" where
  "complete_admitted w ctx req name model cacheKey v a h s =
     (let preq = req\<lparr>reqModel := model\<rparr>; v' = v\<lparr>fvAttemptNumber := fvAttemptNumber v + 1\<rparr> in
      case try_complete w ctx name preq v' a h s of ((response, err, outcome), h1, s1) \<Rightarrow>
      (case err of
         None \<Rightarrow>
           let response' = (if IsLogical (reqModel req)
                            then response\<lparr>rspModel := reqModel req\<rparr> else response) in
           if cacheKey \<noteq> []
           then (case ctx_err w s1 of (e, s2) \<Rightarrow>
                   (Return (response', None), h1,
                    if e = None then svc_store w cacheKey response' s2 else s2))
           else (Return (response', None), h1, s1)
       | Some e \<Rightarrow>
           (case ctx_err w s1 of (ce, s2) \<Rightarrow>
              if \<not> svFallback s \<or> ce \<noteq> None \<or> \<not> eligibleForFallback e
              then (Return (zero_response, Some e), h1, s2)
              else (Continue (v'\<lparr>fvLastErr := Some e, fvFallbackFrom := name, fvFallbackReason := outcome\<rparr>),
                    h1, s2))))"

definition complete_item ::
  "world \<Rightarrow> routing_ctx \<Rightarrow> ChatCompletionRequest \<Rightarrow> string \<Rightarrow> fallback_vars \<Rightarrow> requestHistory option \<Rightarrow> Service
   \<Rightarrow> (ChatCompletionResponse \<times> go_error option) pass \<times> requestHistory option \<times> Service" where
  "complete_item w ctx req name v h s =
     (case resolve_for s req name of
        Inl err \<Rightarrow>
          if svFallback s \<and> isMissingMapping err then (Continue v, h, s)
          else (Return (zero_response, Some err), h, s)
      | Inr model \<Rightarrow>
          let v1 = v\<lparr>fvUsableMapping := True\<rparr> in
          case cache_phase w req name model s of (cacheKey, hit, s1) \<Rightarrow>
          (case hit of
             Some cached \<Rightarrow>
               (Return (cached, None), cacheHit h name,
                if fvAttemptNumber v1 = 0
                then log_effects [Metric (RecordRoutingSelection name
                       (rcPolicy (rvConfig (requestRouting (svRouting s1) ctx))) False)] s1
                else s1)
           | None \<Rightarrow>
             (case svc_begin w name s1 of
                (None, s2) \<Rightarrow>
                  (if \<not> svFallback s then Return (zero_response, Some (circuitOpenError name))
                   else Continue (v1\<lparr>fvLastErr := Some (circuitOpenError name)\<rparr>), h, s2)
              | (Some a, s2) \<Rightarrow> complete_admitted w ctx req name model cacheKey v1 a h s2)))"

fun complete_loop ::
  "world \<Rightarrow> routing_ctx \<Rightarrow> ChatCompletionRequest \<Rightarrow> Provider list \<Rightarrow> fallback_vars
   \<Rightarrow> requestHistory option \<Rightarrow> Service
   \<Rightarrow> (ChatCompletionResponse \<times> go_error option) \<times> requestHistory option \<times> Service" where
  "complete_loop w ctx req [] v h s =
     ((zero_response, if \<not> fvUsableMapping v then Some ErrNoUsableModelMapping else fvLastErr v), h, s)"
| "complete_loop w ctx req (item # items) v h s =
     (case complete_item w ctx req (pvName item) v h s of
        (Return r, h1, s1) \<Rightarrow> (r, h1, s1)
      | (Continue v1, h1, s1) \<Rightarrow> complete_loop w ctx req items v1 h1 s1)"

definition complete_body ::
  "world \<Rightarrow> routing_ctx \<Rightarrow> ChatCompletionRequest \<Rightarrow> requestHistory option \<Rightarrow> Service
   \<Rightarrow> (ChatCompletionResponse \<times> go_error option) \<times> requestHistory option \<times> Service" where
  "complete_body w ctx req h s =
     (case validateCore req of Some err \<Rightarrow> ((zero_response, Some err), h, s) | None \<Rightarrow>
      if reqStream req then ((zero_response, Some ErrStreamingUnsupported), h, s)
      else case validateRoles req of Some err \<Rightarrow> ((zero_response, Some err), h, s) | None \<Rightarrow>
      if svProviders s = [] then ((zero_response, Some ErrNoProviders), h, s)
      else if svFallback s \<and> \<not> IsLogical (reqModel req)
      then ((zero_response, Some ErrNativeModelInAuto), h, s)
      else (case orderedProviders w ctx nonStreamingMode (reqModel req) s of (ordered, s1) \<Rightarrow>
        complete_loop w ctx req ordered start_vars h s1))"

definition Complete ::
  "world \<Rightarrow> routing_ctx \<Rightarrow> ChatCompletionRequest \<Rightarrow> Service
   \<Rightarrow> (ChatCompletionResponse \<times> go_error option) \<times> Service" where
  "Complete w ctx0 req s =
     (case BindRouting (svRouting s) ctx0 of (ctx, _) \<Rightarrow>
      case svc_history w ctx req s of (h, s1) \<Rightarrow>
      case complete_body w ctx req h s1 of ((response, err), h1, s2) \<Rightarrow>
      ((response, err), svc_finish w h1 err s2))"

section \<open>What each call leaves alone\<close>

text \<open>The fields that no part of a request changes, the exploration counters excepted.\<close>

definition static :: "Service \<Rightarrow> Provider list \<times> Resolver \<times> bool \<times> bool option \<times> duration \<times> PriceBook \<times> routingVersion" where
  "static s = (svProviders s, svResolver s, svFallback s, svCache s, svCacheTTL s, svPricing s,
     rtCurrent (svRouting s))"

lemma recordAttemptStart_eq:
  "recordAttemptStart ctx n streaming k from reason s = log_effects [Metric
     (if k = 1 then RecordRoutingSelection n (rcPolicy (rvConfig (requestRouting (svRouting s) ctx))) streaming
      else RecordFallback from n (outcome_String reason))] s"
  by (simp add: recordAttemptStart_def)

lemmas svc_call_defs = tick_def log_effects_def svc_eligible_def svc_begin_def svc_health_outcome_def
  svc_telemetry_begin_def svc_finishNonStreaming_def svc_account_def ctx_err_def recordAttemptStart_eq
  recordAttemptFinish_def case_prod_unfold Let_def

text \<open>The effects that a request is judged by; metrics and cache writes are not among them.\<close>

fun core_effect :: "effect \<Rightarrow> bool" where
  "core_effect (CallComplete _ _ _ _) = True"
| "core_effect (CallStream _ _ _) = True"
| "core_effect (CloseStream _) = True"
| "core_effect (Emit _ _) = True"
| "core_effect (Account _ _ _) = True"
| "core_effect (SubmitHistory _) = True"
| "core_effect _ = False"

definition core :: "Service \<Rightarrow> effect list" where
  "core s = filter core_effect (svTrace s)"

lemma transitions_not_core [simp]: "filter core_effect (transition_effects trs) = []"
  by (auto simp: transition_effects_def filter_empty_conv)

text \<open>A call that touches only the clock counter and the side effects of the trace.\<close>

definition inert :: "Service \<Rightarrow> Service \<Rightarrow> bool" where
  "inert s s' \<longleftrightarrow> static s' = static s \<and> svHealth s' = svHealth s \<and> svAccounting s' = svAccounting s \<and>
     svTelemetry s' = svTelemetry s \<and> svRecorder s' = svRecorder s \<and> core s' = core s"

lemma inert_refl [simp]: "inert s s"
  by (simp add: inert_def)

lemma inert_trans: "inert s s' \<Longrightarrow> inert s' s'' \<Longrightarrow> inert s s''"
  by (simp add: inert_def)

lemma inert_tick [simp]: "inert s (tick s') = inert s s'"
  by (simp add: inert_def tick_def static_def core_def)

lemma inert_log [simp]: "filter core_effect es = [] \<Longrightarrow> inert s (log_effects es s') = inert s s'"
  by (simp add: inert_def log_effects_def static_def core_def)

lemma inert_eligible [simp]: "inert s (snd (svc_eligible w n s')) = inert s s'"
  by (simp add: svc_eligible_def)

lemma inert_ctx_err [simp]: "inert s (snd (ctx_err w s')) = inert s s'"
  by (simp add: ctx_err_def)

lemma inert_store [simp]: "inert s (svc_store w k r s') = inert s s'"
  by (auto simp: svc_store_def split: option.split)

lemma inert_cache_phase: "cache_phase w req name model s = (key, hit, s') \<Longrightarrow> inert s s'"
  by (auto simp: cache_phase_def Let_def svc_eligible_def ctx_err_def
      split: if_splits option.splits prod.splits)

lemma cache_phase_hit: "cache_phase w req name model s = (key, Some r, s') \<Longrightarrow> complete r"
  by (auto simp: cache_phase_def Let_def svc_eligible_def ctx_err_def lookupCompletion_hit
      split: if_splits option.splits prod.splits dest!: arg_cong [where f = fst] intro: lookupCompletion_hit)

section \<open>One attempt\<close>

lemma try_complete_frame:
  assumes "try_complete w ctx name preq v a h s = ((r, err, outcome), h', s')"
  shows "static s' = static s" "svRecorder s' = svRecorder s"
    "core s' = core s @ [CallComplete name preq r err, Account name (reqModel preq) (rspUsage r)]"
    "svAccounting s' = snd (Record (svAccounting s) name (reqModel preq) (rspUsage r))"
    "\<exists>now. svHealth s' = fst (recordHealthOutcome (svHealth s) a outcome now)"
    "\<exists>ctxErr. outcome = classifyProviderOutcome ctxErr err"
  using assms
  by (auto simp: try_complete_def svc_call_defs static_def core_def intro!: exI)

lemma try_complete_history:
  assumes "try_complete w ctx name preq v a h s = ((r, err, outcome), h', s')"
  shows "\<exists>e. h' = log_attempt h e \<and> evProvider e = name \<and> evModel e = reqModel preq"
proof -
  let ?st = "startAttempt h name (reqModel preq) (wNow w (svTick s))"
  have "\<exists>d ar t'. h' = finishAttempt (snd ?st) (fst ?st) outcome d None (rspUsage r) ar t'"
    using assms by (auto simp: try_complete_def svc_call_defs intro!: exI)
  then obtain d ar t' where "h' = finishAttempt (snd ?st) (fst ?st) outcome d None (rspUsage r) ar t'"
    by blast
  then show ?thesis
    by (intro exI [of _ "\<lparr>evProvider = name, evModel = reqModel preq, evStarted = wNow w (svTick s),
      evOutcome = outcome, evDuration = d, evTTFC = None, evUsage = rspUsage r, evResult = ar,
      evFinished = t'\<rparr>"]) (simp add: log_attempt_def case_prod_unfold)
qed

section \<open>One pass\<close>

lemma svc_begin_frame:
  assumes "svc_begin w name s = (a, s')"
  shows "static s' = static s" "svRecorder s' = svRecorder s" "core s' = core s"
    "svAccounting s' = svAccounting s" "svTelemetry s' = svTelemetry s"
    "\<exists>now trs. tracker_begin (svHealth s) name now = (a, svHealth s', trs)"
  using assms
  by (auto simp: svc_begin_def static_def core_def log_effects_def tick_def split: prod.splits intro!: exI)

text \<open>A provider call with its answer; the effects it has, and what the accounting is told of it.\<close>

type_synonym completion_call = "string \<times> ChatCompletionRequest \<times> ChatCompletionResponse \<times> go_error option"

definition call_name :: "completion_call \<Rightarrow> string" where
  "call_name c = fst c"

definition call_error :: "completion_call \<Rightarrow> go_error option" where
  "call_error c = snd (snd (snd c))"

definition call_effects :: "completion_call \<Rightarrow> effect list" where
  "call_effects c = (case c of (n, q, r, e) \<Rightarrow> [CallComplete n q r e, Account n (reqModel q) (rspUsage r)])"

definition call_record :: "completion_call \<Rightarrow> record_call" where
  "call_record c = (case c of (n, q, r, e) \<Rightarrow> (\<lparr>keyProvider = n, keyModel = reqModel q\<rparr>, rspUsage r))"

definition relabel :: "ChatCompletionRequest \<Rightarrow> ChatCompletionResponse \<Rightarrow> ChatCompletionResponse" where
  "relabel req r = (if IsLogical (reqModel req) then r\<lparr>rspModel := reqModel req\<rparr> else r)"

text \<open>Between two states exactly these calls were made, each accounted once right after it, and every
  trial slot taken was given back.\<close>

definition served :: "completion_call list \<Rightarrow> Service \<Rightarrow> Service \<Rightarrow> bool" where
  "served calls s s' \<longleftrightarrow>
     static s' = static s \<and> svRecorder s' = svRecorder s \<and>
     core s' = core s @ concat (map call_effects calls) \<and>
     svAccounting s' = foldl record_call (svAccounting s) (map call_record calls) \<and>
     (tracker_quiet (svHealth s) \<longrightarrow> tracker_quiet (svHealth s'))"

lemma served_inert: "inert s s' \<Longrightarrow> served [] s s'"
  by (simp add: served_def inert_def)

lemma served_trans: "served cs s s' \<Longrightarrow> served ds s' s'' \<Longrightarrow> served (cs @ ds) s s''"
  by (simp add: served_def)

lemma served_inert_right: "served cs s s' \<Longrightarrow> inert s' s'' \<Longrightarrow> served cs s s''"
  using served_trans [OF _ served_inert] by fastforce

lemma served_inert_left: "inert s s' \<Longrightarrow> served cs s' s'' \<Longrightarrow> served cs s s''"
  using served_trans [OF served_inert] by fastforce

lemma static_fallback: "static s' = static s \<Longrightarrow> svFallback s' = svFallback s"
  by (simp add: static_def)

lemma svc_begin_refused:
  "svc_begin w name s = (None, s') \<Longrightarrow> inert s s'"
  using svc_begin_frame [of w name s None s'] cb.admit_refused
  by (auto simp: inert_def)

lemma attempt_served:
  assumes b: "svc_begin w name s = (Some a, s1)"
    and t: "try_complete w ctx name preq v a h s1 = ((r, err, outcome), h', s')"
  shows "served [(name, preq, r, err)] s s'"
proof -
  note f = try_complete_frame [OF t] and g = svc_begin_frame [OF b]
  obtain now trs now' where "tracker_begin (svHealth s) name now = (Some a, svHealth s1, trs)"
    "svHealth s' = fst (recordHealthOutcome (svHealth s1) a outcome now')"
    using f(5) g(6) by blast
  then have "tracker_quiet (svHealth s) \<Longrightarrow> tracker_quiet (svHealth s')"
    by (simp add: cb.settle_quiet)
  with f g show ?thesis
    by (simp add: served_def call_effects_def call_record_def record_call_def)
qed

text \<open>What a pass may end with, given the calls it made.\<close>

definition pass_result ::
  "ChatCompletionRequest \<Rightarrow> completion_call list \<Rightarrow> (ChatCompletionResponse \<times> go_error option) pass \<Rightarrow> bool" where
  "pass_result req calls p =
     (case p of
        Continue v \<Rightarrow> \<forall>c \<in> set calls. \<exists>e. call_error c = Some e \<and> eligibleForFallback e
      | Return (response, None) \<Rightarrow>
          (calls = [] \<and> complete response) \<or>
          (\<exists>n q r. calls = [(n, q, r, None)] \<and> response = relabel req r)
      | Return (response, Some e) \<Rightarrow>
          response = zero_response \<and> (calls = [] \<or> (\<exists>n q r. calls = [(n, q, r, Some e)])))"

lemma complete_admitted_served:
  assumes b: "svc_begin w name s = (Some a, s1)"
    and c: "complete_admitted w ctx req name model key v a h s1 = (p, h', s')"
  shows "\<exists>r e. served [(name, req\<lparr>reqModel := model\<rparr>, r, e)] s s' \<and>
    pass_result req [(name, req\<lparr>reqModel := model\<rparr>, r, e)] p \<and>
    (\<forall>v'. p = Continue v' \<longrightarrow> svFallback s)"
proof -
  obtain r e outcome h1 s2 where
    t: "try_complete w ctx name (req\<lparr>reqModel := model\<rparr>) (v\<lparr>fvAttemptNumber := Suc (fvAttemptNumber v)\<rparr>) a h s1
      = ((r, e, outcome), h1, s2)"
    by (metis prod_cases3)
  have "inert s2 s'" and pr: "pass_result req [(name, req\<lparr>reqModel := model\<rparr>, r, e)] p"
    "\<forall>v'. p = Continue v' \<longrightarrow> svFallback s1"
    using c by (auto simp: complete_admitted_def t Let_def pass_result_def relabel_def call_error_def
        ctx_err_def split: option.splits if_splits)
  moreover have "svFallback s1 = svFallback s"
    using svc_begin_frame(1) [OF b] by (rule static_fallback)
  ultimately show ?thesis
    using served_inert_right [OF attempt_served [OF b t]] by metis
qed

lemma complete_item_served:
  assumes "complete_item w ctx req name v h s = (p, h', s')"
  shows "\<exists>calls. served calls s s' \<and> pass_result req calls p \<and>
    (calls = [] \<or> (\<exists>m r e. calls = [(name, req\<lparr>reqModel := m\<rparr>, r, e)] \<and> resolve_for s req name = Inr m)) \<and>
    (\<forall>v'. p = Continue v' \<longrightarrow> svFallback s)"
proof (cases "resolve_for s req name")
  case (Inl err)
  with assms show ?thesis
    by (intro exI [of _ "[]"])
      (auto simp: complete_item_def pass_result_def served_inert split: if_splits)
next
  case (Inr model)
  obtain key hit s1 where ph: "cache_phase w req name model s = (key, hit, s1)" by (metis prod_cases3)
  note in1 = inert_cache_phase [OF ph]
  show ?thesis
  proof (cases hit)
    case (Some r)
    with ph have "complete r" by (auto intro: cache_phase_hit)
    with assms Inr ph Some in1 show ?thesis
      by (intro exI [of _ "[]"])
        (auto simp: complete_item_def pass_result_def served_inert Let_def split: if_splits)
  next
    case None
    obtain a s2 where b: "svc_begin w name s1 = (a, s2)" by fastforce
    show ?thesis
    proof (cases a)
      case None
      with b have "inert s1 s2" by (auto intro: svc_begin_refused)
      then have "served [] s s2" using in1 by (auto intro: served_inert inert_trans)
      with assms Inr ph \<open>hit = None\<close> b None show ?thesis
        by (intro exI [of _ "[]"])
          (auto simp: complete_item_def pass_result_def Let_def split: if_splits)
    next
      case (Some att)
      have "svFallback s1 = svFallback s" using in1 by (simp add: inert_def static_def)
      moreover have c: "complete_admitted w ctx req name model key (v\<lparr>fvUsableMapping := True\<rparr>) att h s2 = (p, h', s')"
        using assms Inr ph \<open>hit = None\<close> b Some by (simp add: complete_item_def Let_def)
      ultimately show ?thesis
        using complete_admitted_served [OF _ c, of s1] b Some Inr served_inert_left [OF in1] by metis
    qed
  qed
qed

section \<open>The loop\<close>

text \<open>What a request may answer, given all its calls: a provider's answer is the answer of the last
  call, and every earlier call failed in a way that allows another provider.\<close>

definition loop_result ::
  "ChatCompletionRequest \<Rightarrow> completion_call list \<Rightarrow> ChatCompletionResponse \<times> go_error option \<Rightarrow> bool" where
  "loop_result req calls res \<longleftrightarrow>
     (\<forall>c \<in> set (butlast calls). \<exists>e. call_error c = Some e \<and> eligibleForFallback e) \<and>
     (case res of
        (response, None) \<Rightarrow>
          complete response \<or>
          (calls \<noteq> [] \<and> call_error (last calls) = None \<and> response = relabel req (fst (snd (snd (last calls)))))
      | (response, Some e) \<Rightarrow>
          response = zero_response \<and> (\<forall>c \<in> set calls. call_error c \<noteq> None))"

definition failed_over :: "completion_call list \<Rightarrow> bool" where
  "failed_over calls \<longleftrightarrow> (\<forall>c \<in> set calls. \<exists>e. call_error c = Some e \<and> eligibleForFallback e)"

lemma loop_result_return:
  assumes "pass_result req calls (Return res)"
  shows "loop_result req calls res"
  using assms
  by (cases res; cases "snd res") (auto simp: pass_result_def loop_result_def call_error_def)

lemma loop_result_append:
  assumes "failed_over calls" "loop_result req ds res"
  shows "loop_result req (calls @ ds) res"
proof -
  obtain response err where res: "res = (response, err)" by fastforce
  have "\<forall>c \<in> set (butlast (calls @ ds)). \<exists>e. call_error c = Some e \<and> eligibleForFallback e"
    using assms by (auto simp: failed_over_def loop_result_def butlast_append dest: in_set_butlastD)
  moreover have "\<forall>c \<in> set calls. call_error c \<noteq> None"
    using assms(1) by (auto simp: failed_over_def)
  ultimately show ?thesis
    using assms(2) unfolding loop_result_def res by (cases err) (auto simp: last_append)
qed

definition vars_ok :: "fallback_vars \<Rightarrow> bool" where
  "vars_ok v \<longleftrightarrow> (fvUsableMapping v \<longrightarrow> fvLastErr v \<noteq> None)"

lemma complete_item_vars:
  "complete_item w ctx req name v h s = (Continue v', h', s') \<Longrightarrow> vars_ok v \<Longrightarrow> vars_ok v'"
  by (auto simp: complete_item_def complete_admitted_def vars_ok_def Let_def
      split: sum.splits prod.splits option.splits if_splits)

lemma complete_loop_served:
  assumes "complete_loop w ctx req items v h s = (res, h', s')" "vars_ok v"
  shows "\<exists>calls. served calls s s' \<and> loop_result req calls res \<and>
    subseq (map call_name calls) (map pvName items) \<and> (svFallback s \<or> length calls \<le> 1) \<and>
    (\<forall>c \<in> set calls. \<exists>m. resolve_for s req (call_name c) = Inr m \<and> fst (snd c) = req\<lparr>reqModel := m\<rparr>)"
  using assms
proof (induction items arbitrary: v h s)
  case Nil
  then show ?case
    by (intro exI [of _ "[]"]) (auto simp: served_inert loop_result_def vars_ok_def split: if_splits)
next
  case (Cons item items)
  obtain p h1 s1 where it: "complete_item w ctx req (pvName item) v h s = (p, h1, s1)" by (metis prod_cases3)
  obtain calls where c: "served calls s s1" "pass_result req calls p"
    "calls = [] \<or> (\<exists>m r e. calls = [(pvName item, req\<lparr>reqModel := m\<rparr>, r, e)] \<and>
      resolve_for s req (pvName item) = Inr m)"
    "\<forall>v'. p = Continue v' \<longrightarrow> svFallback s"
    using complete_item_served [OF it] by blast
  have names: "subseq (map call_name calls) [pvName item]"
    "\<forall>c \<in> set calls. \<exists>m. resolve_for s req (call_name c) = Inr m \<and> fst (snd c) = req\<lparr>reqModel := m\<rparr>"
    using c(3) by (auto simp: call_name_def)
  show ?case
  proof (cases p)
    case (Return r)
    with Cons.prems(1) it have "r = res" "s1 = s'" by simp_all
    with c names Return show ?thesis
      using loop_result_return [of req calls res] subseq_rev_drop_many [of _ "[pvName item]" "map pvName items"]
      by (intro exI [of _ calls]) (auto intro: list_emb_append2)
  next
    case (Continue v1)
    with Cons.prems(1) it have lp: "complete_loop w ctx req items v1 h1 s1 = (res, h', s')" by simp
    have fb: "svFallback s" and st: "static s1 = static s" using c(1,4) Continue by (auto simp: served_def)
    have "vars_ok v1" using complete_item_vars it Continue Cons.prems(2) by blast
    from Cons.IH [OF lp this] obtain ds where d: "served ds s1 s'" "loop_result req ds res"
      "subseq (map call_name ds) (map pvName items)"
      "\<forall>c \<in> set ds. \<exists>m. resolve_for s1 req (call_name c) = Inr m \<and> fst (snd c) = req\<lparr>reqModel := m\<rparr>"
      by blast
    have "resolve_for s1 req n = resolve_for s req n" for n
      using st by (simp add: resolve_for_def static_def)
    moreover have "failed_over calls" using c(2) Continue by (simp add: pass_result_def failed_over_def)
    ultimately show ?thesis
      using served_trans [OF c(1) d(1)] loop_result_append [OF _ d(2)] fb names d(4)
        list_emb_append_mono [OF names(1) d(3)]
      by (intro exI [of _ "calls @ ds"]) auto
  qed
qed

section \<open>The order\<close>

lemma eligible_split_mset:
  "mset (fst (fst (eligible_split w items s))) + mset (snd (fst (eligible_split w items s))) = mset items"
  by (induction items arbitrary: s) (auto simp: case_prod_unfold)

lemma eligible_split_inert: "inert s (snd (eligible_split w items s))"
proof (induction items arbitrary: s)
  case (Cons item items)
  have "inert s (snd (svc_eligible w (pvName item) s))" by simp
  from inert_trans [OF this Cons.IH] show ?case by (simp add: case_prod_unfold)
qed simp

lemma orderedProviders_ranked:
  assumes "svFallback s" "rvRankEligible (requestRouting (svRouting s) ctx)"
  obtains es ins s1 snaps prices now st where "eligible_split w (svProviders s) s = ((es, ins), s1)"
    "fst (orderedProviders w ctx mode model s)
      = fst (policy_order pvName (rvPolicy (requestRouting (svRouting s) ctx)) es mode snaps prices now st) @ ins"
    "\<exists>x. snd (orderedProviders w ctx mode model s) = tick (s1\<lparr>svRouting := (svRouting s1)\<lparr>rtExploration := x\<rparr>\<rparr>)"
proof -
  obtain es ins s1 where e: "eligible_split w (svProviders s) s = ((es, ins), s1)" by (metis prod.exhaust)
  show ?thesis
    by (rule that [OF e]) (use assms e in \<open>auto simp: orderedProviders_def Let_def case_prod_unfold\<close>)
qed

lemma orderedProviders_mset: "mset (fst (orderedProviders w ctx mode model s)) = mset (svProviders s)"
proof (cases "svFallback s \<and> rvRankEligible (requestRouting (svRouting s) ctx)")
  case True
  then obtain es ins s1 snaps prices now st where e: "eligible_split w (svProviders s) s = ((es, ins), s1)"
    "fst (orderedProviders w ctx mode model s)
      = fst (policy_order pvName (rvPolicy (requestRouting (svRouting s) ctx)) es mode snaps prices now st) @ ins"
    by (metis orderedProviders_ranked)
  then show ?thesis
    using eligible_split_mset [of w "svProviders s" s] by (simp add: po.order_mset)
qed (auto simp: orderedProviders_def Let_def)

lemma inert_exploration: "inert s s' \<Longrightarrow> inert s (s'\<lparr>svRouting := (svRouting s')\<lparr>rtExploration := x\<rparr>\<rparr>)"
  by (simp add: inert_def static_def core_def)

lemma orderedProviders_inert: "inert s (snd (orderedProviders w ctx mode model s))"
proof (cases "svFallback s \<and> rvRankEligible (requestRouting (svRouting s) ctx)")
  case True
  then obtain es ins s1 x where e: "eligible_split w (svProviders s) s = ((es, ins), s1)"
    "snd (orderedProviders w ctx mode model s) = tick (s1\<lparr>svRouting := (svRouting s1)\<lparr>rtExploration := x\<rparr>\<rparr>)"
    by (metis orderedProviders_ranked)
  then show ?thesis
    using eligible_split_inert [of s w "svProviders s"] by (simp add: inert_exploration)
qed (auto simp: orderedProviders_def Let_def)

lemma orderedProviders_explicit:
  "\<not> svFallback s \<Longrightarrow> orderedProviders w ctx mode model s = (svProviders s, s)"
  by (simp add: orderedProviders_def Let_def)

section \<open>Whole requests\<close>

lemma svc_history_inert: "inert s (snd (svc_history w ctx req s))"
  by (simp add: svc_history_def Let_def)

text \<open>Finishing a history changes nothing that the calls of a request are judged by.\<close>

lemma svc_finish_frame:
  "static (svc_finish w h e s) = static s" "svHealth (svc_finish w h e s) = svHealth s"
  "svAccounting (svc_finish w h e s) = svAccounting s" "svTelemetry (svc_finish w h e s) = svTelemetry s"
  "core (svc_finish w h e s) = core s @ (case finish_history h (wCtxErr w (svTick s)) e (wNow w (svTick s)) of
     None \<Rightarrow> [] | Some r \<Rightarrow> [SubmitHistory r])"
  by (auto simp: svc_finish_def static_def core_def log_effects_def tick_def split: option.splits prod.splits)

lemma complete_body_served:
  assumes "complete_body w ctx req h s = (res, h', s')"
  shows "\<exists>calls. served calls s s' \<and> loop_result req calls res \<and>
    (\<exists>order. mset order = mset (svProviders s) \<and> subseq (map call_name calls) (map pvName order)) \<and>
    (svFallback s \<or> length calls \<le> 1) \<and>
    (\<forall>c \<in> set calls. \<exists>m. resolve_for s req (call_name c) = Inr m \<and> fst (snd c) = req\<lparr>reqModel := m\<rparr>)"
proof -
  obtain order s1 where o': "orderedProviders w ctx nonStreamingMode (reqModel req) s = (order, s1)" by fastforce
  have m: "mset order = mset (svProviders s)" and i: "inert s s1"
    using orderedProviders_mset [of w ctx nonStreamingMode "reqModel req" s]
      orderedProviders_inert [of s w ctx nonStreamingMode "reqModel req"] o' by simp_all
  have rf: "resolve_for s1 req n = resolve_for s req n" "svFallback s1 = svFallback s" for n
    using i by (auto simp: inert_def resolve_for_def static_def)
  consider e where "res = (zero_response, Some e)" "s' = s"
    | "complete_loop w ctx req order start_vars h s1 = (res, h', s')"
    using assms by (auto simp: complete_body_def o' split: option.splits if_splits)
  then show ?thesis
  proof cases
    case 1
    then show ?thesis
      by (intro exI [of _ "[]"] conjI exI [of _ order]) (auto simp: served_inert loop_result_def m)
  next
    case 2
    from complete_loop_served [OF this] show ?thesis
      using m rf served_inert_left [OF i] by (fastforce simp: vars_ok_def start_vars_def)
  qed
qed

lemma Complete_parts:
  obtains ctx h s1 h' s2 where "BindRouting (svRouting s) ctx0 = (ctx, rcPolicy (rvConfig (requestRouting (svRouting s) ctx)))"
    "svc_history w ctx req s = (h, s1)"
    "complete_body w ctx req h s1 = (fst (Complete w ctx0 req s), h', s2)"
    "snd (Complete w ctx0 req s) = svc_finish w h' (snd (fst (Complete w ctx0 req s))) s2"
proof -
  obtain ctx pol where c: "BindRouting (svRouting s) ctx0 = (ctx, pol)" by fastforce
  then have "pol = rcPolicy (rvConfig (requestRouting (svRouting s) ctx))"
    by (auto simp: BindRouting_def requestRouting_def split: option.splits)
  moreover obtain h s1 where "svc_history w ctx req s = (h, s1)" by fastforce
  moreover obtain res h' s2 where "complete_body w ctx req h s1 = (res, h', s2)" by (metis prod_cases3)
  ultimately show ?thesis using c that by (auto simp: Complete_def case_prod_unfold)
qed

section \<open>The history of a request\<close>

fun attempt_effect :: "effect \<Rightarrow> bool" where
  "attempt_effect (CallComplete _ _ _ _) = True"
| "attempt_effect (CallStream _ _ _) = True"
| "attempt_effect _ = False"

text \<open>The number of provider attempts the trace shows.\<close>

definition attempts :: "Service \<Rightarrow> nat" where
  "attempts s = length (filter attempt_effect (core s))"

lemma attempts_inert: "inert s s' \<Longrightarrow> attempts s' = attempts s"
  by (simp add: attempts_def inert_def)

lemma attempts_try_complete:
  "try_complete w ctx name preq v a h s = ((r, e, o'), h', s') \<Longrightarrow> attempts s' = Suc (attempts s)"
  by (simp add: attempts_def try_complete_frame(3))

text \<open>A history between attempts that has recorded every attempt since \<open>base\<close>, if history is
  kept at all.\<close>

definition history_tracks :: "nat \<Rightarrow> bool \<Rightarrow> requestHistory option \<Rightarrow> Service \<Rightarrow> bool" where
  "history_tracks base present h s \<longleftrightarrow>
     history_idle h \<and> (h \<noteq> None) = present \<and> (\<forall>n. history_count h = Some n \<longrightarrow> attempts s = base + n)"

lemma history_tracks_inert: "history_tracks base present h s \<Longrightarrow> inert s s' \<Longrightarrow> history_tracks base present h s'"
  by (simp add: history_tracks_def attempts_inert)

lemma history_count_cacheHit [simp]: "history_count (cacheHit h name) = history_count h"
  by (cases h) (simp_all add: history_count_def cacheHit_def Let_def)

lemma cacheHit_None [simp]: "cacheHit h name = None \<longleftrightarrow> h = None"
  by (cases h) (simp_all add: cacheHit_def Let_def)

lemma log_attempt_None [simp]: "log_attempt h e = None \<longleftrightarrow> h = None"
  by (cases h) (simp_all add: log_attempt_def startAttempt_def finishAttempt_def Let_def)

lemma history_tracks_cacheHit: "history_tracks base present h s \<Longrightarrow> history_tracks base present (cacheHit h name) s"
  by (simp add: history_tracks_def cacheHit_idle)

lemma history_tracks_attempt:
  "history_tracks base present h s \<Longrightarrow> evProvider e \<noteq> [] \<Longrightarrow> evModel e \<noteq> [] \<Longrightarrow> attempts s' = Suc (attempts s) \<Longrightarrow>
   history_tracks base present (log_attempt h e) s'"
  using log_attempt_None [of h e]
  by (auto simp: history_tracks_def log_attempt_event hl.log_event_idle hl.log_event_count)

lemma resolve_for_nonempty: "resolve_for s req name = Inr m \<Longrightarrow> reqModel req \<noteq> [] \<Longrightarrow> m \<noteq> []"
  by (auto simp: resolve_for_def dest: Resolve_nonempty' split: if_splits)

lemma complete_admitted_history:
  assumes "complete_admitted w ctx req name model key v a h s = (p, h', s')"
    and "history_tracks base present h s" "name \<noteq> []" "model \<noteq> []"
  shows "history_tracks base present h' s'"
proof -
  obtain r e outcome h1 s1 where
    t: "try_complete w ctx name (req\<lparr>reqModel := model\<rparr>) (v\<lparr>fvAttemptNumber := Suc (fvAttemptNumber v)\<rparr>) a h s
      = ((r, e, outcome), h1, s1)"
    by (metis prod_cases3)
  have "h' = h1" "inert s1 s'"
    using assms(1) by (auto simp: complete_admitted_def t Let_def ctx_err_def split: option.splits if_splits)
  moreover obtain ev where "h1 = log_attempt h ev" "evProvider ev = name" "evModel ev = model"
    using try_complete_history [OF t] by auto
  ultimately show ?thesis
    using assms(2-4) attempts_try_complete [OF t] by (auto intro: history_tracks_inert history_tracks_attempt)
qed

lemma complete_item_history:
  assumes "complete_item w ctx req name v h s = (p, h', s')"
    and "history_tracks base present h s" "name \<noteq> []" "reqModel req \<noteq> []"
  shows "history_tracks base present h' s'"
proof (cases "resolve_for s req name")
  case (Inl err)
  with assms show ?thesis by (auto simp: complete_item_def split: if_splits)
next
  case (Inr model)
  then have m: "model \<noteq> []" using assms(4) resolve_for_nonempty by blast
  obtain key hit s1 where ph: "cache_phase w req name model s = (key, hit, s1)" by (metis prod_cases3)
  have h1: "history_tracks base present h s1"
    using assms(2) inert_cache_phase [OF ph] by (rule history_tracks_inert)
  show ?thesis
  proof (cases hit)
    case (Some r)
    have "inert s1 s'" "h' = cacheHit h name"
      using assms(1) Inr ph Some by (auto simp: complete_item_def Let_def split: if_splits)
    with h1 show ?thesis by (auto intro: history_tracks_cacheHit history_tracks_inert)
  next
    case None
    obtain a s2 where b: "svc_begin w name s1 = (a, s2)" by fastforce
    have h2: "history_tracks base present h s2"
      using h1 svc_begin_frame(3) [OF b] by (simp add: history_tracks_def attempts_def)
    show ?thesis
      using assms(1,3) Inr ph None b h2 m
      by (cases a) (auto simp: complete_item_def Let_def intro: complete_admitted_history split: if_splits)
  qed
qed

lemma complete_loop_history:
  "complete_loop w ctx req items v h s = (res, h', s') \<Longrightarrow> history_tracks base present h s \<Longrightarrow>
   \<forall>item \<in> set items. pvName item \<noteq> [] \<Longrightarrow> reqModel req \<noteq> [] \<Longrightarrow> history_tracks base present h' s'"
proof (induction items arbitrary: v h s)
  case (Cons item items)
  obtain p h1 s1 where it: "complete_item w ctx req (pvName item) v h s = (p, h1, s1)" by (metis prod_cases3)
  from complete_item_history [OF it Cons.prems(2)] Cons.prems have "history_tracks base present h1 s1" by simp
  with Cons it show ?case by (cases p) auto
qed simp

lemma complete_body_history:
  assumes "complete_body w ctx req h s = (res, h', s')" "history_tracks base present h s"
    and "\<forall>item \<in> set (svProviders s). pvName item \<noteq> []"
  shows "history_tracks base present h' s'"
proof -
  obtain order s1 where o': "orderedProviders w ctx nonStreamingMode (reqModel req) s = (order, s1)" by fastforce
  have "set order = set (svProviders s)" and i: "inert s s1"
    using orderedProviders_mset [of w ctx nonStreamingMode "reqModel req" s]
      orderedProviders_inert [of s w ctx nonStreamingMode "reqModel req"] o'
    by (auto dest: mset_eq_setD)
  with assms(3) have names: "\<forall>item \<in> set order. pvName item \<noteq> []" by simp
  have "history_tracks base present h s1" using assms(2) i by (rule history_tracks_inert)
  moreover have "validateCore req = None \<Longrightarrow> reqModel req \<noteq> []"
    by (auto simp: validateCore_def split: if_splits)
  ultimately show ?thesis
    using assms(1,2) complete_loop_history [OF _ _ names]
    by (auto simp: complete_body_def o' split: option.splits if_splits)
qed

lemma svc_history_tracks:
  assumes "svc_history w ctx req s = (h, s1)" "\<And>t i. wRequestID w t = Some i \<Longrightarrow> i \<noteq> [] \<and> length i \<le> 64"
    and "rcPolicy (rvConfig (requestRouting (svRouting s) ctx)) \<in>
      {''deterministic'', ''latency'', ''cost'', ''cost_latency''}"
  shows "history_tracks (attempts s) (Recorder_Enabled (svRecorder s) \<and> wRequestID w (svTick s) \<noteq> None) h s1"
proof -
  let ?p = "rcPolicy (rvConfig (requestRouting (svRouting s) ctx))"
  have p: "?p \<noteq> []" "length ?p \<le> 32" "RuneCount ?p \<le> 32"
    using assms(3) by (auto simp: RuneCount_def string_runes_def)
  have "inert s s1" using svc_history_inert [of s w ctx req] assms(1) by simp
  then have a: "attempts s1 = attempts s" by (rule attempts_inert)
  show ?thesis
  proof (cases h)
    case None
    with assms(1) show ?thesis
      by (auto simp: history_tracks_def history_count_def svc_history_def beginRequestHistory_def Let_def
          split: if_splits option.splits)
  next
    case (Some h')
    then obtain i now where en: "Recorder_Enabled (svRecorder s)"
      and h: "h = beginRequestHistory True (Some i) ?p req now" and i: "wRequestID w (svTick s) = Some i"
      using assms(1) by (auto simp: svc_history_def Let_def tick_def beginRequestHistory_def split: if_splits option.splits)
    have "history_count h = Some 0" unfolding h by (simp add: history_count_def beginRequestHistory_def)
    moreover have "history_idle h"
      using p assms(2) [OF i] unfolding h by (intro begin_idle) auto
    ultimately show ?thesis using a en i Some by (simp add: history_tracks_def)
  qed
qed

section \<open>Calls seen in the trace\<close>

fun completion_call_of :: "effect \<Rightarrow> completion_call list" where
  "completion_call_of (CallComplete n q r e) = [(n, q, r, e)]"
| "completion_call_of _ = []"

text \<open>The completion calls that a request adds to the trace, and the histories it submits.\<close>

definition new_calls :: "Service \<Rightarrow> Service \<Rightarrow> completion_call list" where
  "new_calls s s' = concat (map completion_call_of (drop (length (core s)) (core s')))"

fun submission_of :: "effect \<Rightarrow> RequestRecord list" where
  "submission_of (SubmitHistory r) = [r]"
| "submission_of _ = []"

definition new_submissions :: "Service \<Rightarrow> Service \<Rightarrow> RequestRecord list" where
  "new_submissions s s' = concat (map submission_of (drop (length (core s)) (core s')))"

lemma calls_of_effects:
  "concat (map completion_call_of (concat (map call_effects cs))) = cs"
  "concat (map submission_of (concat (map call_effects cs))) = []"
  by (induction cs) (auto simp: call_effects_def)

lemma Complete_served:
  fixes w ctx0 req s
  defines "s' \<equiv> snd (Complete w ctx0 req s)" and "res \<equiv> fst (Complete w ctx0 req s)"
  obtains h order where "core s' = core s @ concat (map call_effects (new_calls s s')) @
      (case h of None \<Rightarrow> [] | Some r \<Rightarrow> [SubmitHistory r])"
    "svAccounting s' = foldl record_call (svAccounting s) (map call_record (new_calls s s'))"
    "tracker_quiet (svHealth s) \<Longrightarrow> tracker_quiet (svHealth s')"
    "static s' = static s" "loop_result req (new_calls s s') res"
    "mset order = mset (svProviders s)" "subseq (map call_name (new_calls s s')) (map pvName order)"
    "svFallback s \<or> length (new_calls s s') \<le> 1"
    "\<forall>c \<in> set (new_calls s s'). \<exists>m. resolve_for s req (call_name c) = Inr m \<and> fst (snd c) = req\<lparr>reqModel := m\<rparr>"
proof -
  obtain ctx h s1 h' s2 where hs: "svc_history w ctx req s = (h, s1)"
    and b: "complete_body w ctx req h s1 = (res, h', s2)" and f: "s' = svc_finish w h' (snd res) s2"
    using Complete_parts [of s ctx0 w req] unfolding s'_def res_def by metis
  have i: "inert s s1" using svc_history_inert [of s w ctx req] hs by simp
  obtain calls order where c: "served calls s1 s2" "loop_result req calls res"
    "mset order = mset (svProviders s1)" "subseq (map call_name calls) (map pvName order)"
    "svFallback s1 \<or> length calls \<le> 1"
    "\<forall>c \<in> set calls. \<exists>m. resolve_for s1 req (call_name c) = Inr m \<and> fst (snd c) = req\<lparr>reqModel := m\<rparr>"
    using complete_body_served [OF b] by blast
  have v: "served calls s s2" using i c(1) by (rule served_inert_left)
  have eq: "svProviders s1 = svProviders s" "svFallback s1 = svFallback s"
    "resolve_for s1 req n = resolve_for s req n" for n
    using i by (auto simp: inert_def static_def resolve_for_def)
  let ?r = "finish_history h' (wCtxErr w (svTick s2)) (snd res) (wNow w (svTick s2))"
  have core: "core s' = core s @ concat (map call_effects calls) @ (case ?r of None \<Rightarrow> [] | Some r \<Rightarrow> [SubmitHistory r])"
    using v unfolding f svc_finish_frame(5) by (simp add: served_def)
  then have calls: "new_calls s s' = calls"
    by (auto simp: new_calls_def calls_of_effects split: option.split)
  have "svAccounting s' = svAccounting s2" "svHealth s' = svHealth s2" "static s' = static s2"
    unfolding f by (simp_all add: svc_finish_frame)
  then show ?thesis
    using that [of ?r order] core v c(2-6) unfolding calls eq by (simp add: served_def)
qed

text \<open>Finishing submits the history, if one is kept, and the store accepts it.\<close>

lemma finish_submission:
  assumes v: "served calls s s2" and f: "s' = svc_finish w h' e s2"
    and t: "history_tracks (attempts s) kept h' s2"
  shows "length (new_submissions s s') = (if kept then 1 else 0) \<and>
    list_all (\<lambda>r. validateRecord r = None \<and> rrAttemptCount r = int (length (new_calls s s')))
      (new_submissions s s')"
proof -
  let ?r = "finish_history h' (wCtxErr w (svTick s2)) e (wNow w (svTick s2))"
  have core: "core s' = core s @ concat (map call_effects calls) @ (case ?r of None \<Rightarrow> [] | Some r \<Rightarrow> [SubmitHistory r])"
    using v unfolding f svc_finish_frame(5) by (simp add: served_def)
  then have calls: "new_calls s s' = calls"
    and subs: "new_submissions s s' = (case ?r of None \<Rightarrow> [] | Some r \<Rightarrow> [r])"
    by (auto simp: new_calls_def new_submissions_def calls_of_effects split: option.split)
  have "?r = None \<longleftrightarrow> h' = None" by (cases h') (simp_all add: finish_history_def Let_def)
  then have kept: "?r \<noteq> None \<longleftrightarrow> kept" using t by (auto simp: history_tracks_def)
  have "length (filter attempt_effect (concat (map call_effects calls))) = length calls"
    by (induction calls) (auto simp: call_effects_def)
  then have "attempts s2 = attempts s + length calls"
    using v by (simp add: attempts_def served_def)
  then have "validateRecord r = None \<and> rrAttemptCount r = int (length calls)" if "?r = Some r" for r
    using t that finish_valid [OF _ that] finish_history_count [OF that]
    by (cases "history_count h'") (auto simp: history_tracks_def history_count_def finish_history_def)
  then show ?thesis using kept unfolding subs calls by (auto split: option.split)
qed

section \<open>Properties\<close>


text \<open>C14: Every provider attempt is accounted exactly once: after a completion the usage tracker is the
  old one with one record per call, in order, under the provider and the model it was asked for, with
  the usage it reported, failed calls included.\<close>

theorem complete_accounts_each_call:
  fixes w ctx req s
  defines "s' \<equiv> snd (Complete w ctx req s)"
  shows "svAccounting s' = foldl record_call (svAccounting s)
    (map (\<lambda>(name, preq, response, err).
       (\<lparr>keyProvider = name, keyModel = reqModel preq\<rparr>, rspUsage response)) (new_calls s s'))"
proof -
  have "svAccounting s' = foldl record_call (svAccounting s) (map call_record (new_calls s s'))"
    unfolding s'_def by (rule Complete_served [of w ctx req s])
  moreover have "call_record = (\<lambda>(name, preq, response, err).
       (\<lparr>keyProvider = name, keyModel = reqModel preq\<rparr>, rspUsage response))"
    by (intro ext) (simp add: call_record_def)
  ultimately show ?thesis by simp
qed

definition quiet_world :: world where
  "quiet_world = \<lparr>wNow = (\<lambda>_. 0), wCtxErr = (\<lambda>_. None),
     wComplete = (\<lambda>_ _ q. (zero_response\<lparr>rspModel := reqModel q\<rparr>, None)),
     wStream = (\<lambda>_ _ _. Inr \<lparr>strChunks = [], strEnd = EOF\<rparr>), wEmit = (\<lambda>_ _. None),
     wRequestID = (\<lambda>_. Some ''rfreq_1''), wCacheGet = (\<lambda>_ _. Inr []), wCacheSet = (\<lambda>_ _ _ _. None)\<rparr>"

definition hello :: ChatCompletionRequest where
  "hello = \<lparr>reqModel = ''gpt'', reqMessages = [\<lparr>msgRole = ''user'', msgContent = ''hi''\<rparr>], reqStream = False\<rparr>"

definition one_provider :: Service where
  "one_provider = SetPersistence (New_Service \<lparr>pvName = ''openai'', pvStreaming = True\<rparr> None)
     (Some (Async (NewAsyncRecorder 4)))"

text \<open>C31: A completion submits at most one history, and one whenever history is enabled and a request
  id can be made; every history it submits is valid for the store and counts exactly the provider
  attempts of the request.\<close>

theorem complete_history_valid:
  fixes w ctx req s
  defines "s' \<equiv> snd (Complete w ctx req s)"
  assumes names: "\<forall>item \<in> set (svProviders s). pvName item \<noteq> []"
    and ids: "\<forall>t i. wRequestID w t = Some i \<longrightarrow> i \<noteq> [] \<and> length i \<le> 64"
    and policy: "snd (BindRouting (svRouting s) ctx) \<in> {''deterministic'', ''latency'', ''cost'', ''cost_latency''}"
  shows "length (new_submissions s s') =
      (if Recorder_Enabled (svRecorder s) \<and> wRequestID w (svTick s) \<noteq> None then 1 else 0) \<and>
    list_all (\<lambda>r. validateRecord r = None \<and> rrAttemptCount r = int (length (new_calls s s')))
      (new_submissions s s')"
proof -
  obtain ctx' h s1 h' s2 where
    p: "BindRouting (svRouting s) ctx = (ctx', rcPolicy (rvConfig (requestRouting (svRouting s) ctx')))"
    and hs: "svc_history w ctx' req s = (h, s1)"
    and b: "complete_body w ctx' req h s1 = (fst (Complete w ctx req s), h', s2)"
    and f: "s' = svc_finish w h' (snd (fst (Complete w ctx req s))) s2"
    unfolding s'_def by (rule Complete_parts [of s ctx w req])
  have i: "inert s s1" using svc_history_inert [of s w ctx' req] hs by simp
  obtain calls where c: "served calls s1 s2" using complete_body_served [OF b] by blast
  have v: "served calls s s2" using i c by (rule served_inert_left)
  define kept where "kept \<longleftrightarrow> Recorder_Enabled (svRecorder s) \<and> wRequestID w (svTick s) \<noteq> None"
  have "history_tracks (attempts s) kept h s1"
    using policy p ids unfolding kept_def by (intro svc_history_tracks [OF hs]) auto
  moreover have "svProviders s1 = svProviders s" using i by (simp add: inert_def static_def)
  ultimately have t: "history_tracks (attempts s) kept h' s2"
    using names by (intro complete_body_history [OF b]) simp_all
  show ?thesis
    unfolding kept_def [symmetric] by (rule finish_submission [OF v f t])
qed

theorem complete_history_valid_witness:
  "length (new_submissions one_provider (snd (Complete quiet_world None hello one_provider))) = 1 \<and>
   list_all (\<lambda>r. validateRecord r = None \<and>
     rrAttemptCount r = int (length (new_calls one_provider (snd (Complete quiet_world None hello one_provider)))))
      (new_submissions one_provider (snd (Complete quiet_world None hello one_provider)))"
proof -
  have "svRecorder one_provider = Async (NewAsyncRecorder 4)"
    "svProviders one_provider = [\<lparr>pvName = ''openai'', pvStreaming = True\<rparr>]"
    "snd (BindRouting (svRouting one_provider) None) = ''deterministic''"
    by (simp_all add: one_provider_def SetPersistence_def New_Service_def NewWithCircuitBreaker_def
        build_service_def BindRouting_def newRuntimeRouting_def zero_routing_config_def Let_def
        normalizedRoutingPolicyName_def policy_names)
  moreover have "wRequestID quiet_world = (\<lambda>_. Some ''rfreq_1'')" by (simp add: quiet_world_def)
  ultimately show ?thesis
    using complete_history_valid [of one_provider quiet_world None hello] by simp
qed

end
