(* ===== verification/Streaming.thy ===== *)
theory Streaming
  imports Service
begin

text \<open>
  Streaming completions (\<open>Stream\<close> in \<open>internal/gateway/service.go\<close>): the same fallback loop
  as a completion, except that a provider's failure is hidden from the client only until the first
  chunk has been emitted. A provider's stream is the list of chunks that \<open>Next\<close> returns before
  the error that ends it; streams that never end are outside the model.
\<close>

section \<open>One attempt\<close>

record stream_vars =
  sgCommitted :: bool
  sgUsage :: "Usage option"
  sgTTFC :: "duration option"
  sgTelemetry :: "telemetryAttempt option"

definition svc_firstContent ::
  "world \<Rightarrow> telemetryAttempt option \<Rightarrow> Service \<Rightarrow> duration option \<times> telemetryAttempt option \<times> Service" where
  "svc_firstContent w ta s =
     (case firstContent (svTelemetry s) ta (wNow w (svTick s)) of
        (d, ta', t) \<Rightarrow> (d, ta', tick (s\<lparr>svTelemetry := t\<rparr>)))"

definition svc_finishStreaming ::
  "world \<Rightarrow> telemetryAttempt option \<Rightarrow> providerOutcome \<Rightarrow> Service \<Rightarrow> duration \<times> Service" where
  "svc_finishStreaming w ta outcome s =
     (case finishStreaming (svTelemetry s) ta outcome (wNow w (svTick s)) of
        (d, t) \<Rightarrow> (d, tick (s\<lparr>svTelemetry := t\<rparr>)))"

definition svc_ignore :: "healthAttempt \<Rightarrow> Service \<Rightarrow> Service" where
  "svc_ignore a s = s\<lparr>svHealth := tracker_ignore (svHealth s) a\<rparr>"

text \<open>The end that all exits of an attempt share: \<open>finishStreaming\<close>, \<open>finishAttempt\<close> and
  \<open>recordAttemptFinish\<close>.\<close>

definition settle_stream ::
  "world \<Rightarrow> string \<Rightarrow> nat \<Rightarrow> providerOutcome \<Rightarrow> telemetryAttempt option \<Rightarrow> duration option \<Rightarrow> Usage option
   \<Rightarrow> RecordResult \<Rightarrow> int \<Rightarrow> requestHistory option \<Rightarrow> Service \<Rightarrow> requestHistory option \<times> Service" where
  "settle_stream w name n outcome ta ttfc usage ar index h s =
     (case svc_finishStreaming w ta outcome s of (duration, s1) \<Rightarrow>
        (finishAttempt h index outcome duration ttfc usage ar (wNow w (svTick s1)),
         recordAttemptFinish name True n outcome duration usage ar (tick s1)))"

text \<open>\<open>stream.Next\<close> returned an error.\<close>

definition stream_ended ::
  "world \<Rightarrow> string \<Rightarrow> string \<Rightarrow> fallback_vars \<Rightarrow> healthAttempt \<Rightarrow> int \<Rightarrow> stream_vars \<Rightarrow> go_error
   \<Rightarrow> requestHistory option \<Rightarrow> Service \<Rightarrow> go_error option pass \<times> requestHistory option \<times> Service" where
  "stream_ended w name model v a index sv err h s =
     (case svc_account name model (sgUsage sv) (log_effects [CloseStream name] s) of (ar, s1) \<Rightarrow>
      let completed = errors_is err EOF in
      case (if completed then (outcomeSuccess, s1)
            else (case ctx_err w s1 of (ce, s2) \<Rightarrow> (classifyProviderOutcome ce (Some err), s2))) of
        (outcome, s3) \<Rightarrow>
      case settle_stream w name (fvAttemptNumber v) outcome (sgTelemetry sv) (sgTTFC sv) (sgUsage sv) ar
             index h (svc_health_outcome w a outcome s3) of (h1, s4) \<Rightarrow>
      if completed then (Return None, h1, s4)
      else if \<not> sgCommitted sv \<and> svFallback s
      then (case ctx_err w s4 of (ce, s5) \<Rightarrow>
              if ce = None \<and> eligibleForFallback err
              then (Continue (v\<lparr>fvLastErr := Some err, fvFallbackFrom := name, fvFallbackReason := outcome\<rparr>),
                    h1, s5)
              else (Return (Some err), h1, s5))
      else (Return (Some err), h1, s4))"

text \<open>The client's \<open>emit\<close> failed.\<close>

definition emit_failed ::
  "world \<Rightarrow> string \<Rightarrow> string \<Rightarrow> fallback_vars \<Rightarrow> healthAttempt \<Rightarrow> int \<Rightarrow> stream_vars \<Rightarrow> go_error
   \<Rightarrow> requestHistory option \<Rightarrow> Service \<Rightarrow> go_error option pass \<times> requestHistory option \<times> Service" where
  "emit_failed w name model v a index sv err h s =
     (case svc_account name model (sgUsage sv) (log_effects [CloseStream name] s) of (ar, s1) \<Rightarrow>
      case settle_stream w name (fvAttemptNumber v) outcomeCanceled (sgTelemetry sv) (sgTTFC sv)
             (sgUsage sv) ar index h (svc_ignore a s1) of (h1, s2) \<Rightarrow>
      (Return (Some err), h1, s2))"

text \<open>The first content of an attempt is timed.\<close>

definition note_content :: "world \<Rightarrow> string \<Rightarrow> StreamChunk \<Rightarrow> stream_vars \<Rightarrow> Service \<Rightarrow> stream_vars \<times> Service" where
  "note_content w name chunk sv s =
     (if ckContent chunk = [] then (sv, s)
      else (case svc_firstContent w (sgTelemetry sv) s of (d, ta, s1) \<Rightarrow>
        (case d of
           None \<Rightarrow> (sv\<lparr>sgTelemetry := ta\<rparr>, s1)
         | Some duration \<Rightarrow>
             (sv\<lparr>sgTelemetry := ta, sgTTFC := Some duration\<rparr>,
              log_effects [Metric (RecordTTFC name duration)] s1))))"

definition client_chunk :: "ChatCompletionRequest \<Rightarrow> StreamChunk \<Rightarrow> StreamChunk" where
  "client_chunk req c =
     (if IsLogical (reqModel req) then c\<lparr>ckModel := reqModel req\<rparr> else c)\<lparr>ckUsage := None\<rparr>"

fun stream_chunks ::
  "world \<Rightarrow> ChatCompletionRequest \<Rightarrow> string \<Rightarrow> string \<Rightarrow> fallback_vars \<Rightarrow> healthAttempt \<Rightarrow> int
   \<Rightarrow> StreamChunk list \<Rightarrow> go_error \<Rightarrow> stream_vars \<Rightarrow> requestHistory option \<Rightarrow> Service
   \<Rightarrow> go_error option pass \<times> requestHistory option \<times> Service" where
  "stream_chunks w req name model v a index [] err sv h s = stream_ended w name model v a index sv err h s"
| "stream_chunks w req name model v a index (chunk # chunks) err sv h s =
     (let sv1 = sv\<lparr>sgUsage := mergeUsage (sgUsage sv) (ckUsage chunk)\<rparr> in
      if \<not> clientVisibleChunk chunk
      then stream_chunks w req name model v a index chunks err sv1 h s
      else
        let chunk' = client_chunk req chunk in
        case note_content w name chunk' sv1 s of (sv2, s1) \<Rightarrow>
        let s2 = tick (log_effects [Emit name chunk'] s1) in
        (case wEmit w (svTick s1) chunk' of
           Some e \<Rightarrow> emit_failed w name model v a index sv2 e h s2
         | None \<Rightarrow>
             stream_chunks w req name model v a index chunks err (sv2\<lparr>sgCommitted := True\<rparr>) h s2))"

text \<open>The provider did not open the stream.\<close>

definition open_failed ::
  "world \<Rightarrow> string \<Rightarrow> string \<Rightarrow> fallback_vars \<Rightarrow> healthAttempt \<Rightarrow> int \<Rightarrow> telemetryAttempt option \<Rightarrow> go_error
   \<Rightarrow> requestHistory option \<Rightarrow> Service \<Rightarrow> go_error option pass \<times> requestHistory option \<times> Service" where
  "open_failed w name model v a index ta err h s =
     (case svc_account name model None s of (ar, s1) \<Rightarrow>
      case ctx_err w s1 of (ce, s2) \<Rightarrow>
      let outcome = classifyProviderOutcome ce (Some err) in
      case settle_stream w name (fvAttemptNumber v) outcome ta None None ar index h
             (svc_health_outcome w a outcome s2) of (h1, s3) \<Rightarrow>
      case ctx_err w s3 of (ce', s4) \<Rightarrow>
      if \<not> svFallback s \<or> ce' \<noteq> None \<or> \<not> eligibleForFallback err
      then (Return (Some err), h1, s4)
      else (Continue (v\<lparr>fvLastErr := Some err, fvFallbackFrom := name, fvFallbackReason := outcome\<rparr>),
            h1, s4))"

text \<open>One admitted attempt, from \<open>startAttempt\<close> on.\<close>

definition try_stream ::
  "world \<Rightarrow> routing_ctx \<Rightarrow> ChatCompletionRequest \<Rightarrow> string \<Rightarrow> string \<Rightarrow> fallback_vars \<Rightarrow> healthAttempt
   \<Rightarrow> requestHistory option \<Rightarrow> Service \<Rightarrow> go_error option pass \<times> requestHistory option \<times> Service" where
  "try_stream w ctx req name model v0 a h s =
     (let v = v0\<lparr>fvAttemptNumber := fvAttemptNumber v0 + 1\<rparr>; preq = req\<lparr>reqModel := model\<rparr> in
      case startAttempt h name model (wNow w (svTick s)) of (index, h1) \<Rightarrow>
      let s1 = recordAttemptStart ctx name True (fvAttemptNumber v) (fvFallbackFrom v)
                 (fvFallbackReason v) (tick s) in
      case svc_telemetry_begin w name s1 of (ta, s2) \<Rightarrow>
      let answer = wStream w (svTick s2) name preq;
          s3 = tick (log_effects [CallStream name preq answer] s2) in
      (case answer of
         Inl err \<Rightarrow> open_failed w name model v a index ta err h1 s3
       | Inr st \<Rightarrow>
           stream_chunks w req name model v a index (strChunks st) (strEnd st)
             \<lparr>sgCommitted = False, sgUsage = None, sgTTFC = None, sgTelemetry = ta\<rparr> h1 s3))"

section \<open>The loop\<close>

definition stream_item ::
  "world \<Rightarrow> routing_ctx \<Rightarrow> ChatCompletionRequest \<Rightarrow> Provider \<Rightarrow> fallback_vars \<Rightarrow> requestHistory option \<Rightarrow> Service
   \<Rightarrow> go_error option pass \<times> requestHistory option \<times> Service" where
  "stream_item w ctx req item v h s =
     (let name = pvName item in
      case resolve_for s req name of
        Inl err \<Rightarrow>
          if svFallback s \<and> isMissingMapping err then (Continue v, h, s) else (Return (Some err), h, s)
      | Inr model \<Rightarrow>
          let v1 = v\<lparr>fvUsableMapping := True\<rparr> in
          if \<not> pvStreaming item
          then (Return (Some (NewError ErrorInternal name (PlainError ''streaming is unavailable''))), h, s)
          else (case svc_begin w name s of
                  (None, s1) \<Rightarrow>
                    (if \<not> svFallback s then Return (Some (circuitOpenError name))
                     else Continue (v1\<lparr>fvLastErr := Some (circuitOpenError name)\<rparr>), h, s1)
                | (Some a, s1) \<Rightarrow> try_stream w ctx req name model v1 a h s1))"

fun stream_loop ::
  "world \<Rightarrow> routing_ctx \<Rightarrow> ChatCompletionRequest \<Rightarrow> Provider list \<Rightarrow> fallback_vars
   \<Rightarrow> requestHistory option \<Rightarrow> Service \<Rightarrow> go_error option \<times> requestHistory option \<times> Service" where
  "stream_loop w ctx req [] v h s =
     (if \<not> fvUsableMapping v then Some ErrNoUsableModelMapping else fvLastErr v, h, s)"
| "stream_loop w ctx req (item # items) v h s =
     (case stream_item w ctx req item v h s of
        (Return r, h1, s1) \<Rightarrow> (r, h1, s1)
      | (Continue v1, h1, s1) \<Rightarrow> stream_loop w ctx req items v1 h1 s1)"

definition stream_body ::
  "world \<Rightarrow> routing_ctx \<Rightarrow> ChatCompletionRequest \<Rightarrow> requestHistory option \<Rightarrow> Service
   \<Rightarrow> go_error option \<times> requestHistory option \<times> Service" where
  "stream_body w ctx req h s =
     (case validateCore req of Some err \<Rightarrow> (Some err, h, s) | None \<Rightarrow>
      case validateRoles req of Some err \<Rightarrow> (Some err, h, s) | None \<Rightarrow>
      if svProviders s = [] then (Some ErrNoProviders, h, s)
      else if svFallback s \<and> \<not> IsLogical (reqModel req) then (Some ErrNativeModelInAuto, h, s)
      else (case orderedProviders w ctx streamingMode (reqModel req) s of (ordered, s1) \<Rightarrow>
        stream_loop w ctx req ordered start_vars h s1))"

definition Stream ::
  "world \<Rightarrow> routing_ctx \<Rightarrow> ChatCompletionRequest \<Rightarrow> Service \<Rightarrow> go_error option \<times> Service" where
  "Stream w ctx0 req s =
     (case BindRouting (svRouting s) ctx0 of (ctx, _) \<Rightarrow>
      case svc_history w ctx req s of (h, s1) \<Rightarrow>
      case stream_body w ctx req h s1 of (err, h1, s2) \<Rightarrow>
      (err, svc_finish w h1 err s2))"

section \<open>Effects of one attempt\<close>

text \<open>What an attempt did: its provider and request, the provider's answer, the chunks passed to the
  client, and the usage that was accounted.\<close>

record stream_attempt =
  saName :: string
  saRequest :: ChatCompletionRequest
  saAnswer :: "go_error + provider_stream"
  saEmitted :: "StreamChunk list"
  saUsage :: "Usage option"

definition attempt_effects :: "stream_attempt \<Rightarrow> effect list" where
  "attempt_effects sa =
     [CallStream (saName sa) (saRequest sa) (saAnswer sa)] @ map (Emit (saName sa)) (saEmitted sa) @
     (if isl (saAnswer sa) then [] else [CloseStream (saName sa)]) @
     [Account (saName sa) (reqModel (saRequest sa)) (saUsage sa)]"

lemmas stream_call_defs = svc_call_defs svc_firstContent_def svc_finishStreaming_def svc_ignore_def
  settle_stream_def

text \<open>A settled attempt: everything but the telemetry, the history and the calls that follow.\<close>

definition settled ::
  "string \<Rightarrow> string \<Rightarrow> Usage option \<Rightarrow> healthAttempt \<Rightarrow> effect list \<Rightarrow> Service \<Rightarrow> Service \<Rightarrow> bool" where
  "settled name model usage a pre s s' \<longleftrightarrow>
     static s' = static s \<and> svRecorder s' = svRecorder s \<and>
     core s' = core s @ pre @ [Account name model usage] \<and>
     svAccounting s' = snd (Record (svAccounting s) name model usage) \<and>
     (\<exists>outcome now. svHealth s' = fst (recordHealthOutcome (svHealth s) a outcome now))"

lemma stream_ended_settled:
  assumes "stream_ended w name model v a index sv err h s = (p, h', s')"
  shows "settled name model (sgUsage sv) a [CloseStream name] s s'"
    "\<forall>v'. p = Continue v' \<longrightarrow> \<not> sgCommitted sv \<and> svFallback s \<and> eligibleForFallback err"
    "p = Return None \<longrightarrow> errors_is err EOF"
  using assms
  by (auto simp: stream_ended_def stream_call_defs settled_def static_def core_def split: if_splits
      intro!: exI)

lemma open_failed_settled:
  assumes "open_failed w name model v a index ta err h s = (p, h', s')"
  shows "settled name model None a [] s s'" "p \<noteq> Return None"
    "\<exists>outcome d ar t. h' = finishAttempt h index outcome d None None ar t"
    "\<forall>v'. p = Continue v' \<longrightarrow> svFallback s \<and> eligibleForFallback err \<and> fvLastErr v' \<noteq> None"
  using assms
  by (auto simp: open_failed_def stream_call_defs settled_def static_def core_def split: if_splits intro!: exI)

lemma emit_failed_settled:
  assumes "emit_failed w name model v a index sv err h s = (p, h', s')"
  shows "settled name model (sgUsage sv) a [CloseStream name] s s'" "p = Return (Some err)"
  using assms tracker_ignore_eq [of _ a 0]
  by (auto simp: emit_failed_def stream_call_defs settled_def static_def core_def intro!: exI)

text \<open>A step that changes at most the telemetry, the clock counter and the side effects.\<close>

definition calm :: "Service \<Rightarrow> Service \<Rightarrow> bool" where
  "calm s s' \<longleftrightarrow> static s' = static s \<and> svHealth s' = svHealth s \<and> svAccounting s' = svAccounting s \<and>
     svRecorder s' = svRecorder s \<and> core s' = core s"

lemma note_content_calm:
  assumes "note_content w name chunk sv s = (sv', s')"
  shows "calm s s'" "sgUsage sv' = sgUsage sv" "sgCommitted sv' = sgCommitted sv"
  using assms
  by (auto simp: note_content_def svc_firstContent_def calm_def static_def core_def tick_def log_effects_def
      split: if_splits prod.splits option.splits)

lemma settled_after_emit:
  assumes "calm s s1" "settled name model usage a pre (tick (log_effects [Emit name c] s1)) s'"
  shows "settled name model usage a (Emit name c # pre) s s'"
  using assms
  by (auto simp: settled_def calm_def static_def core_def tick_def log_effects_def)

definition client_chunks :: "ChatCompletionRequest \<Rightarrow> StreamChunk list \<Rightarrow> StreamChunk list" where
  "client_chunks req chunks = map (client_chunk req) (filter clientVisibleChunk chunks)"

definition merged_usage :: "Usage option \<Rightarrow> StreamChunk list \<Rightarrow> Usage option" where
  "merged_usage u chunks = foldl (\<lambda>u c. mergeUsage u (ckUsage c)) u chunks"

text \<open>How the chunk loop of an attempt ends, given what it emitted.\<close>

definition chunks_result ::
  "ChatCompletionRequest \<Rightarrow> bool \<Rightarrow> StreamChunk list \<Rightarrow> go_error \<Rightarrow> StreamChunk list \<Rightarrow> bool \<Rightarrow> go_error option pass \<Rightarrow> bool" where
  "chunks_result req fallback chunks err emitted committed p \<longleftrightarrow>
     prefix emitted (client_chunks req chunks) \<and>
     (\<forall>v. p = Continue v \<longrightarrow> emitted = [] \<and> \<not> committed \<and> fallback \<and> eligibleForFallback err) \<and>
     (p = Return None \<longrightarrow> emitted = client_chunks req chunks \<and> errors_is err EOF)"

lemma client_chunks_simps [simp]:
  "client_chunks req [] = []"
  "client_chunks req (c # cs) =
     (if clientVisibleChunk c then client_chunk req c # client_chunks req cs else client_chunks req cs)"
  by (simp_all add: client_chunks_def)

lemma merged_usage_simps [simp]:
  "merged_usage u [] = u"
  "merged_usage u (c # cs) = merged_usage (mergeUsage u (ckUsage c)) cs"
  by (simp_all add: merged_usage_def)

lemma stream_chunks_settled:
  assumes "stream_chunks w req name model v a index chunks err sv h s = (p, h', s')"
  shows "\<exists>emitted k. settled name model (merged_usage (sgUsage sv) (take k chunks)) a
      (map (Emit name) emitted @ [CloseStream name]) s s' \<and>
    chunks_result req (svFallback s) chunks err emitted (sgCommitted sv) p"
  using assms
proof (induction chunks arbitrary: sv s)
  case Nil
  then show ?case
    using stream_ended_settled [of w name model v a index sv err h s p h' s']
    by (intro exI [of _ "[]"]) (auto simp: chunks_result_def)
next
  case (Cons chunk chunks)
  let ?sv = "sv\<lparr>sgUsage := mergeUsage (sgUsage sv) (ckUsage chunk)\<rparr>"
  show ?case
  proof (cases "clientVisibleChunk chunk")
    case False
    with Cons.prems have "stream_chunks w req name model v a index chunks err ?sv h s = (p, h', s')" by simp
    from Cons.IH [OF this] obtain emitted k where
      "settled name model (merged_usage (sgUsage ?sv) (take k chunks)) a (map (Emit name) emitted @ [CloseStream name]) s s'"
      "chunks_result req (svFallback s) chunks err emitted (sgCommitted ?sv) p" by blast
    with False show ?thesis
      by (intro exI [of _ emitted] exI [of _ "Suc k"]) (simp add: chunks_result_def)
  next
    case True
    let ?c = "client_chunk req chunk"
    obtain sv2 s1 where n: "note_content w name ?c ?sv s = (sv2, s1)" by fastforce
    note calm = note_content_calm [OF n]
    let ?s2 = "tick (log_effects [Emit name ?c] s1)"
    have fb: "svFallback ?s2 = svFallback s"
      using calm(1) by (simp add: calm_def static_def tick_def log_effects_def)
    show ?thesis
    proof (cases "wEmit w (svTick s1) ?c")
      case (Some e)
      with Cons.prems True n have f: "emit_failed w name model v a index sv2 e h ?s2 = (p, h', s')" by simp
      show ?thesis
        using settled_after_emit [OF calm(1) emit_failed_settled(1) [OF f]] emit_failed_settled(2) [OF f] calm True
        by (intro exI [of _ "[?c]"] exI [of _ "Suc 0"]) (simp add: chunks_result_def)
    next
      case None
      with Cons.prems True n have
        "stream_chunks w req name model v a index chunks err (sv2\<lparr>sgCommitted := True\<rparr>) h ?s2 = (p, h', s')" by simp
      from Cons.IH [OF this] obtain emitted k where
        st: "settled name model (merged_usage (sgUsage sv2) (take k chunks)) a (map (Emit name) emitted @ [CloseStream name]) ?s2 s'"
        and r: "chunks_result req (svFallback ?s2) chunks err emitted True p" by auto
      show ?thesis
        using settled_after_emit [OF calm(1) st] r calm True fb
        by (intro exI [of _ "?c # emitted"] exI [of _ "Suc k"]) (auto simp: chunks_result_def)
    qed
  qed
qed

section \<open>One pass\<close>

definition attempt_error :: "stream_attempt \<Rightarrow> go_error" where
  "attempt_error sa = (case saAnswer sa of Inl e \<Rightarrow> e | Inr st \<Rightarrow> strEnd st)"

definition attempt_chunks :: "stream_attempt \<Rightarrow> StreamChunk list" where
  "attempt_chunks sa = (case saAnswer sa of Inl e \<Rightarrow> [] | Inr st \<Rightarrow> strChunks st)"

definition attempt_record :: "stream_attempt \<Rightarrow> record_call" where
  "attempt_record sa = (\<lparr>keyProvider = saName sa, keyModel = reqModel (saRequest sa)\<rparr>, saUsage sa)"

text \<open>What every attempt satisfies: it passed on a prefix of its provider's visible chunks, relabelled
  and without usage, and its accounted usage is the usage reported so far.\<close>

definition attempt_sound :: "ChatCompletionRequest \<Rightarrow> stream_attempt \<Rightarrow> bool" where
  "attempt_sound req sa \<longleftrightarrow>
     prefix (saEmitted sa) (client_chunks req (attempt_chunks sa)) \<and>
     (\<exists>k. saUsage sa = merged_usage None (take k (attempt_chunks sa)))"

text \<open>An attempt that may be followed by another: nothing reached the client.\<close>

definition attempt_failed_over :: "stream_attempt \<Rightarrow> bool" where
  "attempt_failed_over sa \<longleftrightarrow> saEmitted sa = [] \<and> eligibleForFallback (attempt_error sa)"

text \<open>An attempt that answered the request in full.\<close>

definition attempt_completed :: "ChatCompletionRequest \<Rightarrow> stream_attempt \<Rightarrow> bool" where
  "attempt_completed req sa \<longleftrightarrow> \<not> isl (saAnswer sa) \<and>
     saEmitted sa = client_chunks req (attempt_chunks sa) \<and> errors_is (attempt_error sa) EOF"

definition streamed :: "stream_attempt list \<Rightarrow> Service \<Rightarrow> Service \<Rightarrow> bool" where
  "streamed sas s s' \<longleftrightarrow>
     static s' = static s \<and> svRecorder s' = svRecorder s \<and>
     core s' = core s @ concat (map attempt_effects sas) \<and>
     svAccounting s' = foldl record_call (svAccounting s) (map attempt_record sas) \<and>
     (tracker_quiet (svHealth s) \<longrightarrow> tracker_quiet (svHealth s'))"

lemma streamed_inert: "inert s s' \<Longrightarrow> streamed [] s s'"
  by (simp add: streamed_def inert_def)

lemma streamed_trans: "streamed xs s s' \<Longrightarrow> streamed ys s' s'' \<Longrightarrow> streamed (xs @ ys) s s''"
  by (simp add: streamed_def)

lemma streamed_inert_left: "inert s s' \<Longrightarrow> streamed xs s' s'' \<Longrightarrow> streamed xs s s''"
  using streamed_trans [OF streamed_inert] by fastforce

lemma settled_streamed:
  assumes b: "svc_begin w name s = (Some a, s1)"
    and c: "static s3 = static s1" "svRecorder s3 = svRecorder s1" "svAccounting s3 = svAccounting s1"
      "svHealth s3 = svHealth s1"
    and core: "core s3 = core s1 @ [CallStream name (req\<lparr>reqModel := model\<rparr>) answer]"
    and st: "settled name model usage a (map (Emit name) emitted @ (if isl answer then [] else [CloseStream name])) s3 s'"
  shows "streamed [\<lparr>saName = name, saRequest = req\<lparr>reqModel := model\<rparr>, saAnswer = answer,
    saEmitted = emitted, saUsage = usage\<rparr>] s s'"
proof -
  note g = svc_begin_frame [OF b]
  obtain now trs outcome now' where "tracker_begin (svHealth s) name now = (Some a, svHealth s1, trs)"
    "svHealth s' = fst (recordHealthOutcome (svHealth s1) a outcome now')"
    using st g(6) c(4) unfolding settled_def by metis
  then have "tracker_quiet (svHealth s) \<Longrightarrow> tracker_quiet (svHealth s')"
    by (simp add: cb.settle_quiet)
  with st c core g show ?thesis
    by (simp add: streamed_def settled_def attempt_effects_def attempt_record_def record_call_def)
qed

text \<open>The part of an attempt before the provider answers.\<close>

lemma try_stream_opened:
  assumes "try_stream w ctx req name model v a h s = (p, h', s')"
  obtains index h1 ta s3 answer where
    "static s3 = static s" "svRecorder s3 = svRecorder s" "svAccounting s3 = svAccounting s"
    "svHealth s3 = svHealth s" "core s3 = core s @ [CallStream name (req\<lparr>reqModel := model\<rparr>) answer]"
    "startAttempt h name model (wNow w (svTick s)) = (index, h1)"
    "(case answer of
        Inl err \<Rightarrow> open_failed w name model (v\<lparr>fvAttemptNumber := Suc (fvAttemptNumber v)\<rparr>) a index ta err h1 s3
      | Inr st \<Rightarrow>
          stream_chunks w req name model (v\<lparr>fvAttemptNumber := Suc (fvAttemptNumber v)\<rparr>) a index (strChunks st)
            (strEnd st) \<lparr>sgCommitted = False, sgUsage = None, sgTTFC = None, sgTelemetry = ta\<rparr> h1 s3) = (p, h', s')"
proof -
  obtain index h1 where i: "startAttempt h name model (wNow w (svTick s)) = (index, h1)" by fastforce
  define v' where "v' = v\<lparr>fvAttemptNumber := Suc (fvAttemptNumber v)\<rparr>"
  define s1 where "s1 = recordAttemptStart ctx name True (fvAttemptNumber v') (fvFallbackFrom v') (fvFallbackReason v') (tick s)"
  obtain ta s2 where t: "svc_telemetry_begin w name s1 = (ta, s2)" by fastforce
  define answer where "answer = wStream w (svTick s2) name (req\<lparr>reqModel := model\<rparr>)"
  define s3 where "s3 = tick (log_effects [CallStream name (req\<lparr>reqModel := model\<rparr>) answer] s2)"
  have fr: "static s3 = static s" "svRecorder s3 = svRecorder s" "svAccounting s3 = svAccounting s"
    "svHealth s3 = svHealth s" "core s3 = core s @ [CallStream name (req\<lparr>reqModel := model\<rparr>) answer]"
    using t unfolding s3_def s1_def
    by (auto simp: stream_call_defs static_def core_def)
  show ?thesis
    by (rule that [OF fr i, of ta])
      (use assms in \<open>simp_all add: try_stream_def i s1_def [symmetric] v'_def [symmetric] t
        answer_def [symmetric] s3_def Let_def split: sum.splits\<close>)
qed

lemma try_stream_streamed:
  assumes b: "svc_begin w name s = (Some a, s1)"
    and t: "try_stream w ctx req name model v a h s1 = (p, h', s')"
  shows "\<exists>sa. streamed [sa] s s' \<and> saName sa = name \<and> saRequest sa = req\<lparr>reqModel := model\<rparr> \<and>
    attempt_sound req sa \<and> (\<forall>v'. p = Continue v' \<longrightarrow> svFallback s \<and> attempt_failed_over sa) \<and>
    (p = Return None \<longrightarrow> attempt_completed req sa)"
proof -
  obtain index h1 ta s3 answer where
    fr: "static s3 = static s1" "svRecorder s3 = svRecorder s1" "svAccounting s3 = svAccounting s1"
      "svHealth s3 = svHealth s1" "core s3 = core s1 @ [CallStream name (req\<lparr>reqModel := model\<rparr>) answer]"
    and run: "(case answer of
        Inl err \<Rightarrow> open_failed w name model (v\<lparr>fvAttemptNumber := Suc (fvAttemptNumber v)\<rparr>) a index ta err h1 s3
      | Inr st \<Rightarrow>
          stream_chunks w req name model (v\<lparr>fvAttemptNumber := Suc (fvAttemptNumber v)\<rparr>) a index (strChunks st)
            (strEnd st) \<lparr>sgCommitted = False, sgUsage = None, sgTTFC = None, sgTelemetry = ta\<rparr> h1 s3) = (p, h', s')"
    using t by (rule try_stream_opened) blast
  have fb: "svFallback s3 = svFallback s"
    using fr(1) svc_begin_frame(1) [OF b] by (simp add: static_def)
  show ?thesis
  proof (cases answer)
    case (Inl err)
    note o' = open_failed_settled [OF run [unfolded Inl sum.case]]
    let ?sa = "\<lparr>saName = name, saRequest = req\<lparr>reqModel := model\<rparr>, saAnswer = answer,
        saEmitted = [], saUsage = None\<rparr>"
    have "streamed [?sa] s s'"
      using o'(1) Inl by (intro settled_streamed [OF b fr]) simp
    then show ?thesis
      using o'(2,4) Inl fb
      by (intro exI [of _ ?sa])
        (auto simp: attempt_sound_def attempt_failed_over_def attempt_error_def attempt_chunks_def intro: exI [of _ 0])
  next
    case (Inr st)
    from stream_chunks_settled [OF run [unfolded Inr sum.case]] obtain emitted k where
      st: "settled name model (merged_usage None (take k (strChunks st))) a (map (Emit name) emitted @ [CloseStream name]) s3 s'"
      and r: "chunks_result req (svFallback s3) (strChunks st) (strEnd st) emitted False p" by auto
    let ?sa = "\<lparr>saName = name, saRequest = req\<lparr>reqModel := model\<rparr>, saAnswer = answer,
        saEmitted = emitted, saUsage = merged_usage None (take k (strChunks st))\<rparr>"
    have "streamed [?sa] s s'"
      using st Inr by (intro settled_streamed [OF b fr]) simp
    then show ?thesis
      using r Inr fb
      by (intro exI [of _ ?sa])
        (auto simp: attempt_sound_def attempt_failed_over_def attempt_completed_def attempt_error_def
          attempt_chunks_def chunks_result_def)
  qed
qed

lemma stream_item_streamed:
  assumes "stream_item w ctx req item v h s = (p, h', s')"
  shows "\<exists>sas. streamed sas s s' \<and>
    (sas = [] \<or> (\<exists>sa m. sas = [sa] \<and> saName sa = pvName item \<and> resolve_for s req (pvName item) = Inr m \<and>
       saRequest sa = req\<lparr>reqModel := m\<rparr> \<and> attempt_sound req sa)) \<and>
    (\<forall>v'. p = Continue v' \<longrightarrow> svFallback s \<and> list_all attempt_failed_over sas) \<and>
    (p = Return None \<longrightarrow> list_ex (attempt_completed req) sas)"
proof (cases "resolve_for s req (pvName item)")
  case (Inl err)
  with assms show ?thesis
    by (intro exI [of _ "[]"]) (auto simp: stream_item_def Let_def streamed_inert split: if_splits)
next
  case (Inr model)
  obtain a s1 where b: "svc_begin w (pvName item) s = (a, s1)" by fastforce
  show ?thesis
  proof (cases "a = None \<or> \<not> pvStreaming item")
    case True
    have "inert s s'" "p \<noteq> Return None" "\<forall>v'. p = Continue v' \<longrightarrow> svFallback s"
      using assms Inr b True svc_begin_refused [of w "pvName item" s s1]
      by (auto simp: stream_item_def Let_def split: if_splits option.splits)
    then show ?thesis by (intro exI [of _ "[]"]) (auto simp: streamed_inert)
  next
    case False
    then obtain att where att: "a = Some att" "pvStreaming item" by auto
    with assms Inr b have "try_stream w ctx req (pvName item) model (v\<lparr>fvUsableMapping := True\<rparr>) att h s1 = (p, h', s')"
      by (simp add: stream_item_def Let_def)
    from try_stream_streamed [OF _ this, of s] b att obtain sa where
      "streamed [sa] s s'" "saName sa = pvName item" "saRequest sa = req\<lparr>reqModel := model\<rparr>"
      "attempt_sound req sa" "\<forall>v'. p = Continue v' \<longrightarrow> svFallback s \<and> attempt_failed_over sa"
      "p = Return None \<longrightarrow> attempt_completed req sa" by blast
    with Inr show ?thesis by (intro exI [of _ "[sa]"]) auto
  qed
qed

lemma stream_chunks_vars:
  "stream_chunks w req name model v a index chunks err sv h s = (Continue v', h', s') \<Longrightarrow> fvLastErr v' \<noteq> None"
  by (induction chunks arbitrary: sv s)
    (auto simp: stream_ended_def emit_failed_def Let_def split: prod.splits option.splits if_splits)

lemma stream_item_vars:
  assumes "stream_item w ctx req item v h s = (Continue v', h', s')" "vars_ok v"
  shows "vars_ok v'"
proof -
  have t: "fvLastErr v' \<noteq> None" if "try_stream w ctx req name model v1 a h s1 = (Continue v', h', s')" for name model v1 a s1
    using that by (rule try_stream_opened) (auto dest: open_failed_settled(4) stream_chunks_vars split: sum.splits)
  show ?thesis
    using assms t
    by (auto simp: stream_item_def Let_def vars_ok_def split: sum.splits prod.splits option.splits if_splits)
qed

section \<open>The loop\<close>

text \<open>What a stream may end with, given all its attempts: every attempt but the last left nothing with
  the client, and a stream without error is one whose last attempt was passed on in full.\<close>

definition stream_result :: "ChatCompletionRequest \<Rightarrow> stream_attempt list \<Rightarrow> go_error option \<Rightarrow> bool" where
  "stream_result req sas err \<longleftrightarrow>
     (\<forall>sa \<in> set (butlast sas). attempt_failed_over sa) \<and>
     (err = None \<longrightarrow> sas \<noteq> [] \<and> attempt_completed req (last sas))"

lemma stream_result_append:
  "\<forall>sa \<in> set xs. attempt_failed_over sa \<Longrightarrow> stream_result req ys err \<Longrightarrow> stream_result req (xs @ ys) err"
  by (auto simp: stream_result_def butlast_append dest: in_set_butlastD)

lemma stream_loop_streamed:
  assumes "stream_loop w ctx req items v h s = (err, h', s')" "vars_ok v"
  shows "\<exists>sas. streamed sas s s' \<and> stream_result req sas err \<and>
    subseq (map saName sas) (map pvName items) \<and> (svFallback s \<or> length sas \<le> 1) \<and>
    (\<forall>sa \<in> set sas. attempt_sound req sa \<and>
       (\<exists>m. resolve_for s req (saName sa) = Inr m \<and> saRequest sa = req\<lparr>reqModel := m\<rparr>))"
  using assms
proof (induction items arbitrary: v h s)
  case Nil
  then show ?case
    by (intro exI [of _ "[]"]) (auto simp: streamed_inert stream_result_def vars_ok_def split: if_splits)
next
  case (Cons item items)
  obtain p h1 s1 where it: "stream_item w ctx req item v h s = (p, h1, s1)" by (metis prod_cases3)
  obtain sas where c: "streamed sas s s1"
    "sas = [] \<or> (\<exists>sa m. sas = [sa] \<and> saName sa = pvName item \<and> resolve_for s req (pvName item) = Inr m \<and>
       saRequest sa = req\<lparr>reqModel := m\<rparr> \<and> attempt_sound req sa)"
    "\<forall>v'. p = Continue v' \<longrightarrow> svFallback s \<and> list_all attempt_failed_over sas"
    "p = Return None \<longrightarrow> list_ex (attempt_completed req) sas"
    using stream_item_streamed [OF it] by blast
  have names: "subseq (map saName sas) [pvName item]"
    "\<forall>sa \<in> set sas. attempt_sound req sa \<and>
       (\<exists>m. resolve_for s req (saName sa) = Inr m \<and> saRequest sa = req\<lparr>reqModel := m\<rparr>)"
    using c(2) by auto
  show ?case
  proof (cases p)
    case (Return r)
    with Cons.prems(1) it have eq: "r = err" "s1 = s'" by simp_all
    have "stream_result req sas err"
      using c(2,4) Return eq by (auto simp: stream_result_def)
    with c names eq show ?thesis
      by (intro exI [of _ sas]) (auto intro: list_emb_append2)
  next
    case (Continue v1)
    with Cons.prems(1) it have lp: "stream_loop w ctx req items v1 h1 s1 = (err, h', s')" by simp
    have fb: "svFallback s" "\<forall>sa \<in> set sas. attempt_failed_over sa" and st: "static s1 = static s"
      using c(1,3) Continue by (auto simp: streamed_def list_all_iff)
    have "vars_ok v1" using stream_item_vars it Continue Cons.prems(2) by blast
    from Cons.IH [OF lp this] obtain ds where d: "streamed ds s1 s'" "stream_result req ds err"
      "subseq (map saName ds) (map pvName items)"
      "\<forall>sa \<in> set ds. attempt_sound req sa \<and>
        (\<exists>m. resolve_for s1 req (saName sa) = Inr m \<and> saRequest sa = req\<lparr>reqModel := m\<rparr>)"
      by blast
    have "resolve_for s1 req n = resolve_for s req n" for n
      using st by (simp add: resolve_for_def static_def)
    then show ?thesis
      using streamed_trans [OF c(1) d(1)] stream_result_append [OF fb(2) d(2)] fb(1) names d(4)
        list_emb_append_mono [OF names(1) d(3)]
      by (intro exI [of _ "sas @ ds"]) auto
  qed
qed

section \<open>The history of a stream\<close>

text \<open>The clock never goes back, and the time to first content was measured by it.\<close>

definition monotone_clock :: "world \<Rightarrow> bool" where
  "monotone_clock w \<longleftrightarrow> (\<forall>m n. m \<le> n \<longrightarrow> wNow w m \<le> wNow w n)"

definition measured :: "world \<Rightarrow> duration option \<Rightarrow> telemetryAttempt option \<Rightarrow> nat \<Rightarrow> bool" where
  "measured w ttfc ta n \<longleftrightarrow> (\<forall>d. ttfc = Some d \<longrightarrow>
     (\<exists>x t. ta = Some x \<and> d = time_sub (wNow w t) (taStarted x) \<and> t \<le> n))"

abbreviation ttfc_measured :: "world \<Rightarrow> stream_vars \<Rightarrow> Service \<Rightarrow> bool" where
  "ttfc_measured w sv s \<equiv> measured w (sgTTFC sv) (sgTelemetry sv) (svTick s)"

lemma measured_later: "measured w ttfc ta n \<Longrightarrow> n \<le> m \<Longrightarrow> measured w ttfc ta m"
  unfolding measured_def by (fastforce intro: le_trans)

lemma time_sub_mono: "a \<le> b \<Longrightarrow> time_sub a c \<le> time_sub b c"
  by (auto simp: time_sub_def)

lemma note_content_measured:
  assumes "note_content w name chunk sv s = (sv', s')" "ttfc_measured w sv s"
  shows "ttfc_measured w sv' s'" "svTick s \<le> svTick s'"
  using assms
  by (auto simp: note_content_def svc_firstContent_def firstContent_def measured_def tick_def
      log_effects_def split: if_splits prod.splits option.splits) (force | metis le_SucI le_refl)+

text \<open>How an attempt leaves the history: finished with what was measured.\<close>

definition finished_attempt :: "world \<Rightarrow> int \<Rightarrow> requestHistory option \<Rightarrow> requestHistory option \<Rightarrow> bool" where
  "finished_attempt w index h h' \<longleftrightarrow> (\<exists>outcome d ttfc usage ar t.
     h' = finishAttempt h index outcome d ttfc usage ar t \<and>
     (monotone_clock w \<longrightarrow> (\<forall>x. ttfc = Some x \<longrightarrow> x \<le> d)))"

lemma finished_attempt_untimed: "finished_attempt w index h (finishAttempt h index outcome d None usage ar t)"
  unfolding finished_attempt_def by (intro exI conjI, rule refl) simp

lemma settle_stream_history:
  assumes "settle_stream w name n outcome ta ttfc usage ar index h s = (h', s')"
    and "measured w ttfc ta (svTick s)"
  shows "finished_attempt w index h h'"
proof -
  have "\<exists>d t. h' = finishAttempt h index outcome d ttfc usage ar t \<and>
    (monotone_clock w \<longrightarrow> (\<forall>x. ttfc = Some x \<longrightarrow> x \<le> d))"
    using assms time_sub_mono
    by (auto simp: settle_stream_def svc_finishStreaming_def finishStreaming_def monotone_clock_def measured_def
      split: prod.splits option.splits intro!: exI)
  then show ?thesis unfolding finished_attempt_def by blast
qed

lemma stream_ended_history:
  assumes "stream_ended w name model v a index sv err h s = (p, h', s')" "ttfc_measured w sv s"
  shows "finished_attempt w index h h'"
proof -
  obtain outcome ar s3 s4 where
    "settle_stream w name (fvAttemptNumber v) outcome (sgTelemetry sv) (sgTTFC sv) (sgUsage sv) ar index h s3 = (h', s4)"
    "svTick s \<le> svTick s3"
    using assms(1)
    by (auto simp: stream_ended_def Let_def svc_account_def ctx_err_def svc_health_outcome_def tick_def log_effects_def
        split: prod.splits if_splits)
  then show ?thesis using settle_stream_history measured_later [OF assms(2)] by blast
qed

lemma emit_failed_history:
  assumes "emit_failed w name model v a index sv err h s = (p, h', s')" "ttfc_measured w sv s"
  shows "finished_attempt w index h h'"
proof -
  obtain ar s3 s4 where
    "settle_stream w name (fvAttemptNumber v) outcomeCanceled (sgTelemetry sv) (sgTTFC sv) (sgUsage sv) ar index h s3 = (h', s4)"
    "svTick s \<le> svTick s3"
    using assms(1)
    by (auto simp: emit_failed_def svc_account_def svc_ignore_def tick_def log_effects_def
        split: prod.splits)
  then show ?thesis using settle_stream_history measured_later [OF assms(2)] by blast
qed

lemma stream_chunks_history:
  "stream_chunks w req name model v a index chunks err sv h s = (p, h', s') \<Longrightarrow> ttfc_measured w sv s \<Longrightarrow>
   finished_attempt w index h h'"
proof (induction chunks arbitrary: sv s)
  case Nil
  then show ?case by (auto intro: stream_ended_history)
next
  case (Cons chunk chunks)
  let ?sv = "sv\<lparr>sgUsage := mergeUsage (sgUsage sv) (ckUsage chunk)\<rparr>"
  let ?c = "client_chunk req chunk"
  have m: "ttfc_measured w ?sv s" using Cons.prems(2) by simp
  obtain sv2 s1 where n: "note_content w name ?c ?sv s = (sv2, s1)" by fastforce
  let ?s2 = "tick (log_effects [Emit name ?c] s1)"
  have "ttfc_measured w sv2 ?s2" "ttfc_measured w (sv2\<lparr>sgCommitted := True\<rparr>) ?s2"
    using measured_later [OF note_content_measured(1) [OF n m], of "svTick ?s2"]
    by (simp_all add: tick_def log_effects_def)
  then show ?case
    using Cons m n
    by (cases "clientVisibleChunk chunk"; cases "wEmit w (svTick s1) ?c") (auto intro: emit_failed_history)
qed

lemma try_stream_history:
  assumes "try_stream w ctx req name model v a h s = (p, h', s')"
  shows "\<exists>e. h' = log_attempt h e \<and> evProvider e = name \<and> evModel e = model \<and>
    (monotone_clock w \<longrightarrow> (\<forall>x. evTTFC e = Some x \<longrightarrow> x \<le> evDuration e))"
proof -
  obtain index h1 ta s3 and answer :: "go_error + provider_stream" where
    i: "startAttempt h name model (wNow w (svTick s)) = (index, h1)"
    and run: "(case answer of
        Inl err \<Rightarrow> open_failed w name model (v\<lparr>fvAttemptNumber := Suc (fvAttemptNumber v)\<rparr>) a index ta err h1 s3
      | Inr st \<Rightarrow>
          stream_chunks w req name model (v\<lparr>fvAttemptNumber := Suc (fvAttemptNumber v)\<rparr>) a index (strChunks st)
            (strEnd st) \<lparr>sgCommitted = False, sgUsage = None, sgTTFC = None, sgTelemetry = ta\<rparr> h1 s3) = (p, h', s')"
    by (rule try_stream_opened [OF assms]) (rule that; assumption)
  have "finished_attempt w index h1 h'"
  proof (cases answer)
    case (Inl err)
    from open_failed_settled(3) [OF run [unfolded this sum.case]] show ?thesis
      by (auto intro: finished_attempt_untimed)
  next
    case (Inr st)
    from stream_chunks_history [OF run [unfolded this sum.case]] show ?thesis by (simp add: measured_def)
  qed
  then obtain outcome d ttfc usage ar t where f: "h' = finishAttempt h1 index outcome d ttfc usage ar t"
    "monotone_clock w \<longrightarrow> (\<forall>x. ttfc = Some x \<longrightarrow> x \<le> d)"
    unfolding finished_attempt_def by blast
  then show ?thesis
    by (intro exI [of _ "\<lparr>evProvider = name, evModel = model, evStarted = wNow w (svTick s),
      evOutcome = outcome, evDuration = d, evTTFC = ttfc, evUsage = usage, evResult = ar, evFinished = t\<rparr>"])
      (simp add: log_attempt_def i)
qed

text \<open>A recorded attempt's time to first content never exceeds its duration.\<close>

definition ttfc_bounded :: "requestHistory option \<Rightarrow> bool" where
  "ttfc_bounded h \<longleftrightarrow> (\<forall>h'. h = Some h' \<longrightarrow>
     list_all (\<lambda>a. case arTTFCUS a of None \<Rightarrow> True | Some t \<Rightarrow> t \<le> arDurationUS a) (rrAttempts (hRecord h')))"

lemma complete_attempt_ttfc:
  "arTTFCUS a = None \<Longrightarrow> \<forall>x. ttfc = Some x \<longrightarrow> x \<le> d \<Longrightarrow>
   case arTTFCUS (complete_attempt a o' d ttfc u ar now) of None \<Rightarrow> True
   | Some t \<Rightarrow> t \<le> arDurationUS (complete_attempt a o' d ttfc u ar now)"
  by (auto simp: complete_attempt_def Let_def nonNegativeMicroseconds_mono split: option.split)

lemma ttfc_bounded_attempt:
  assumes "ttfc_bounded h" "\<forall>x. evTTFC e = Some x \<longrightarrow> x \<le> evDuration e"
  shows "ttfc_bounded (log_attempt h e)"
proof (cases h)
  case (Some h')
  have new: "arTTFCUS (new_attempt i p m t) = None" for i p m t by (simp add: new_attempt_def)
  show ?thesis
    using assms Some complete_attempt_ttfc [OF new assms(2)]
    by (auto simp: ttfc_bounded_def log_attempt_def startAttempt_def finishAttempt_def Let_def list_all_iff
        nth_append list_update_append)
qed (simp add: log_attempt_def startAttempt_def finishAttempt_def ttfc_bounded_def)

definition stream_tracks :: "world \<Rightarrow> nat \<Rightarrow> bool \<Rightarrow> requestHistory option \<Rightarrow> Service \<Rightarrow> bool" where
  "stream_tracks w base present h s \<longleftrightarrow>
     history_tracks base present h s \<and> (monotone_clock w \<longrightarrow> ttfc_bounded h)"

lemma stream_tracks_inert: "stream_tracks w base present h s \<Longrightarrow> inert s s' \<Longrightarrow> stream_tracks w base present h s'"
  by (auto simp: stream_tracks_def intro: history_tracks_inert)

lemma streamed_attempts: "streamed sas s s' \<Longrightarrow> attempts s' = attempts s + length sas"
proof -
  have "filter attempt_effect (map (Emit n) xs) = []" for n xs by (induction xs) simp_all
  then have "length (filter attempt_effect (concat (map attempt_effects sas))) = length sas"
    by (induction sas) (auto simp: attempt_effects_def)
  then show "streamed sas s s' \<Longrightarrow> attempts s' = attempts s + length sas"
    by (simp add: attempts_def streamed_def)
qed

lemma stream_item_history:
  assumes "stream_item w ctx req item v h s = (p, h', s')"
    and h: "stream_tracks w base present h s" and n: "pvName item \<noteq> []" "reqModel req \<noteq> []"
  shows "stream_tracks w base present h' s'"
proof (cases "resolve_for s req (pvName item)")
  case (Inl err)
  with assms show ?thesis by (auto simp: stream_item_def Let_def split: if_splits)
next
  case (Inr model)
  then have m: "model \<noteq> []" using n(2) resolve_for_nonempty by blast
  obtain a s1 where b: "svc_begin w (pvName item) s = (a, s1)" by fastforce
  show ?thesis
  proof (cases "a = None \<or> \<not> pvStreaming item")
    case True
    have "inert s s'" "h' = h"
      using assms(1) Inr b True svc_begin_refused [of w "pvName item" s s1]
      by (auto simp: stream_item_def Let_def split: if_splits option.splits)
    with h show ?thesis by (auto intro: stream_tracks_inert)
  next
    case False
    then obtain att where b': "svc_begin w (pvName item) s = (Some att, s1)"
      and t: "try_stream w ctx req (pvName item) model (v\<lparr>fvUsableMapping := True\<rparr>) att h s1 = (p, h', s')"
      using assms(1) Inr b by (auto simp: stream_item_def Let_def)
    obtain e where e: "h' = log_attempt h e" "evProvider e = pvName item" "evModel e = model"
      "monotone_clock w \<longrightarrow> (\<forall>x. evTTFC e = Some x \<longrightarrow> x \<le> evDuration e)"
      using try_stream_history [OF t] by blast
    have "attempts s' = Suc (attempts s)"
      using try_stream_streamed [OF b' t] streamed_attempts by fastforce
    then show ?thesis
      using h n(1) m e unfolding stream_tracks_def e(1)
      by (auto intro: history_tracks_attempt ttfc_bounded_attempt)
  qed
qed

lemma stream_loop_history:
  "stream_loop w ctx req items v h s = (err, h', s') \<Longrightarrow> stream_tracks w base present h s \<Longrightarrow>
   \<forall>item \<in> set items. pvName item \<noteq> [] \<Longrightarrow> reqModel req \<noteq> [] \<Longrightarrow> stream_tracks w base present h' s'"
proof (induction items arbitrary: v h s)
  case (Cons item items)
  obtain p h1 s1 where it: "stream_item w ctx req item v h s = (p, h1, s1)" by (metis prod_cases3)
  from stream_item_history [OF it Cons.prems(2)] Cons.prems have "stream_tracks w base present h1 s1" by simp
  with Cons it show ?case by (cases p) auto
qed simp

section \<open>Whole streams\<close>

lemma stream_body_streamed:
  assumes "stream_body w ctx req h s = (err, h', s')"
  shows "\<exists>sas. streamed sas s s' \<and> stream_result req sas err \<and>
    (\<exists>order. mset order = mset (svProviders s) \<and> subseq (map saName sas) (map pvName order)) \<and>
    (svFallback s \<or> length sas \<le> 1) \<and>
    (\<forall>sa \<in> set sas. attempt_sound req sa \<and>
       (\<exists>m. resolve_for s req (saName sa) = Inr m \<and> saRequest sa = req\<lparr>reqModel := m\<rparr>))"
proof -
  obtain order s1 where o': "orderedProviders w ctx streamingMode (reqModel req) s = (order, s1)" by fastforce
  have m: "mset order = mset (svProviders s)" and i: "inert s s1"
    using orderedProviders_mset [of w ctx streamingMode "reqModel req" s]
      orderedProviders_inert [of s w ctx streamingMode "reqModel req"] o' by simp_all
  have rf: "resolve_for s1 req n = resolve_for s req n" "svFallback s1 = svFallback s" for n
    using i by (auto simp: inert_def resolve_for_def static_def)
  consider "err \<noteq> None" "s' = s"
    | "stream_loop w ctx req order start_vars h s1 = (err, h', s')"
    using assms unfolding stream_body_def o' prod.case
    by (cases "validateCore req"; cases "validateRoles req"; cases "svProviders s = []";
        cases "svFallback s \<and> \<not> IsLogical (reqModel req)") (simp; blast)+
  then show ?thesis
  proof cases
    case 1
    then show ?thesis
      by (intro exI [of _ "[]"] conjI exI [of _ order]) (auto simp: streamed_inert stream_result_def m)
  next
    case 2
    from stream_loop_streamed [OF this] show ?thesis
      using m rf streamed_inert_left [OF i] by (fastforce simp: vars_ok_def start_vars_def)
  qed
qed

lemma stream_body_history:
  assumes "stream_body w ctx req h s = (err, h', s')" "stream_tracks w base present h s"
    and "\<forall>item \<in> set (svProviders s). pvName item \<noteq> []"
  shows "stream_tracks w base present h' s'"
proof -
  obtain order s1 where o': "orderedProviders w ctx streamingMode (reqModel req) s = (order, s1)" by fastforce
  have "set order = set (svProviders s)" and i: "inert s s1"
    using orderedProviders_mset [of w ctx streamingMode "reqModel req" s]
      orderedProviders_inert [of s w ctx streamingMode "reqModel req"] o'
    by (auto dest: mset_eq_setD)
  with assms(3) have names: "\<forall>item \<in> set order. pvName item \<noteq> []" by simp
  have "stream_tracks w base present h s1" using assms(2) i by (rule stream_tracks_inert)
  moreover have "validateCore req = None \<Longrightarrow> reqModel req \<noteq> []"
    by (auto simp: validateCore_def split: if_splits)
  ultimately show ?thesis
    using assms(1,2) stream_loop_history [OF _ _ names]
    by (auto simp: stream_body_def o' split: option.splits if_splits)
qed

lemma Stream_parts:
  obtains ctx h s1 h' s2 where
    "BindRouting (svRouting s) ctx0 = (ctx, rcPolicy (rvConfig (requestRouting (svRouting s) ctx)))"
    "svc_history w ctx req s = (h, s1)"
    "stream_body w ctx req h s1 = (fst (Stream w ctx0 req s), h', s2)"
    "snd (Stream w ctx0 req s) = svc_finish w h' (fst (Stream w ctx0 req s)) s2"
proof -
  obtain ctx pol where c: "BindRouting (svRouting s) ctx0 = (ctx, pol)" by fastforce
  then have "pol = rcPolicy (rvConfig (requestRouting (svRouting s) ctx))"
    by (auto simp: BindRouting_def requestRouting_def split: option.splits)
  moreover obtain h s1 where "svc_history w ctx req s = (h, s1)" by fastforce
  moreover obtain err h' s2 where "stream_body w ctx req h s1 = (err, h', s2)" by (metis prod_cases3)
  ultimately show ?thesis using c that by (auto simp: Stream_def case_prod_unfold)
qed

lemma submissions_of_attempts:
  "concat (map submission_of (concat (map attempt_effects sas))) = []"
proof -
  have "concat (map submission_of (map (Emit n) xs)) = []" for n xs by (induction xs) simp_all
  then show ?thesis by (induction sas) (auto simp: attempt_effects_def)
qed

text \<open>The attempts of a stream and the histories it submits, as the trace shows them.\<close>

definition stream_trace :: "Service \<Rightarrow> Service \<Rightarrow> stream_attempt list \<Rightarrow> RequestRecord list \<Rightarrow> bool" where
  "stream_trace s s' sas rs \<longleftrightarrow>
     drop (length (core s)) (core s') = concat (map attempt_effects sas) @ map SubmitHistory rs \<and>
     take (length (core s)) (core s') = core s"

lemma Stream_streamed:
  fixes w ctx req s
  defines "s' \<equiv> snd (Stream w ctx req s)" and "err \<equiv> fst (Stream w ctx req s)"
  obtains sas rs order where "stream_trace s s' sas rs"
    "svAccounting s' = foldl record_call (svAccounting s) (map attempt_record sas)"
    "tracker_quiet (svHealth s) \<Longrightarrow> tracker_quiet (svHealth s')" "static s' = static s"
    "stream_result req sas err" "mset order = mset (svProviders s)"
    "subseq (map saName sas) (map pvName order)" "svFallback s \<or> length sas \<le> 1"
    "\<forall>sa \<in> set sas. attempt_sound req sa \<and>
       (\<exists>m. resolve_for s req (saName sa) = Inr m \<and> saRequest sa = req\<lparr>reqModel := m\<rparr>)"
proof -
  obtain ctx1 h s1 h' s2 where hs: "svc_history w ctx1 req s = (h, s1)"
    and b: "stream_body w ctx1 req h s1 = (err, h', s2)" and f: "s' = svc_finish w h' err s2"
    using Stream_parts [of s ctx w req] unfolding s'_def err_def by metis
  have i: "inert s s1" using svc_history_inert [of s w ctx1 req] hs by simp
  obtain sas order where c: "streamed sas s1 s2" "stream_result req sas err"
    "mset order = mset (svProviders s1)" "subseq (map saName sas) (map pvName order)"
    "svFallback s1 \<or> length sas \<le> 1"
    "\<forall>sa \<in> set sas. attempt_sound req sa \<and>
       (\<exists>m. resolve_for s1 req (saName sa) = Inr m \<and> saRequest sa = req\<lparr>reqModel := m\<rparr>)"
    using stream_body_streamed [OF b] by blast
  have v: "streamed sas s s2" using i c(1) by (rule streamed_inert_left)
  have eq: "svProviders s1 = svProviders s" "svFallback s1 = svFallback s"
    "resolve_for s1 req n = resolve_for s req n" for n
    using i by (auto simp: inert_def static_def resolve_for_def)
  let ?r = "finish_history h' (wCtxErr w (svTick s2)) err (wNow w (svTick s2))"
  have "core s' = core s @ concat (map attempt_effects sas) @ (case ?r of None \<Rightarrow> [] | Some r \<Rightarrow> [SubmitHistory r])"
    using v unfolding f svc_finish_frame(5) by (simp add: streamed_def)
  then have "stream_trace s s' sas (case ?r of None \<Rightarrow> [] | Some r \<Rightarrow> [r])"
    by (simp add: stream_trace_def split: option.split)
  moreover have "svAccounting s' = svAccounting s2" "svHealth s' = svHealth s2" "static s' = static s2"
    unfolding f by (simp_all add: svc_finish_frame)
  ultimately show ?thesis
    using that [of sas "case ?r of None \<Rightarrow> [] | Some r \<Rightarrow> [r]" order] v c(2-6) unfolding eq
    by (simp add: streamed_def)
qed

section \<open>Properties\<close>

text \<open>C2: Commit discipline of a stream. Whatever the clock, the context, the client and the providers
  do, the trace of a stream is a sequence of attempts on distinct positions of an order of the
  configured providers, one at most in explicit mode; every attempt but the last failed with an error
  that allows fallback before anything reached the client, so the client never sees chunks of two
  providers; and a stream that ends without error has passed on every visible chunk of its last
  provider, in order.\<close>

theorem stream_commit_discipline:
  fixes w ctx req s
  defines "s' \<equiv> snd (Stream w ctx req s)"
  shows "\<exists>sas rs order. stream_trace s s' sas rs \<and> stream_result req sas (fst (Stream w ctx req s)) \<and>
    mset order = mset (svProviders s) \<and> subseq (map saName sas) (map pvName order) \<and>
    (svFallback s \<or> length sas \<le> 1)"
  unfolding s'_def by (rule Stream_streamed [where w = w and ctx = ctx and req = req and s = s]) blast


text \<open>C32: A stream's history. At most one is submitted, and one whenever history is enabled and a
  request id can be made; it is valid for the store, counts exactly the provider attempts, and, when
  the clock never goes back, no attempt's time to first content exceeds its duration, which the
  database schema also requires.\<close>

theorem stream_history_valid:
  fixes w ctx req s
  defines "s' \<equiv> snd (Stream w ctx req s)"
  assumes names: "\<forall>item \<in> set (svProviders s). pvName item \<noteq> []"
    and ids: "\<forall>t i. wRequestID w t = Some i \<longrightarrow> i \<noteq> [] \<and> length i \<le> 64"
    and policy: "snd (BindRouting (svRouting s) ctx) \<in> {''deterministic'', ''latency'', ''cost'', ''cost_latency''}"
    and clock: "monotone_clock w"
  shows "\<exists>sas rs. stream_trace s s' sas rs \<and>
    length rs = (if Recorder_Enabled (svRecorder s) \<and> wRequestID w (svTick s) \<noteq> None then 1 else 0) \<and>
    list_all (\<lambda>r. validateRecord r = None \<and> rrAttemptCount r = int (length sas) \<and>
      list_all (\<lambda>a. case arTTFCUS a of None \<Rightarrow> True | Some t \<Rightarrow> t \<le> arDurationUS a) (rrAttempts r)) rs"
proof -
  obtain ctx' h s1 h' s2 where
    p: "BindRouting (svRouting s) ctx = (ctx', rcPolicy (rvConfig (requestRouting (svRouting s) ctx')))"
    and hs: "svc_history w ctx' req s = (h, s1)"
    and b: "stream_body w ctx' req h s1 = (fst (Stream w ctx req s), h', s2)"
    and f: "s' = svc_finish w h' (fst (Stream w ctx req s)) s2"
    unfolding s'_def by (rule Stream_parts [of s ctx w req])
  define kept where "kept \<longleftrightarrow> Recorder_Enabled (svRecorder s) \<and> wRequestID w (svTick s) \<noteq> None"
  have i: "inert s s1" using svc_history_inert [of s w ctx' req] hs by simp
  have "history_tracks (attempts s) kept h s1"
    using policy p ids unfolding kept_def by (intro svc_history_tracks [OF hs]) auto
  moreover have "ttfc_bounded h"
    using hs by (auto simp: ttfc_bounded_def svc_history_def beginRequestHistory_def Let_def
        split: if_splits option.splits)
  moreover have "svProviders s1 = svProviders s" using i by (simp add: inert_def static_def)
  ultimately have "stream_tracks w (attempts s) kept h' s2"
    using names by (intro stream_body_history [OF b]) (simp_all add: stream_tracks_def)
  then have t: "history_tracks (attempts s) kept h' s2" "ttfc_bounded h'"
    using clock by (simp_all add: stream_tracks_def)
  obtain sas where c: "streamed sas s1 s2" using stream_body_streamed [OF b] by blast
  have v: "streamed sas s s2" using i c by (rule streamed_inert_left)
  let ?r = "finish_history h' (wCtxErr w (svTick s2)) (fst (Stream w ctx req s)) (wNow w (svTick s2))"
  let ?rs = "case ?r of None \<Rightarrow> [] | Some r \<Rightarrow> [r]"
  have "core s' = core s @ concat (map attempt_effects sas) @ map SubmitHistory ?rs"
    using v unfolding f svc_finish_frame(5) by (simp add: streamed_def split: option.split)
  then have tr: "stream_trace s s' sas ?rs" by (simp add: stream_trace_def)
  have "?r = None \<longleftrightarrow> h' = None" by (cases h') (simp_all add: finish_history_def Let_def)
  then have kept: "?r \<noteq> None \<longleftrightarrow> kept" using t by (auto simp: history_tracks_def)
  have "attempts s2 = attempts s + length sas" using v by (rule streamed_attempts)
  then have "validateRecord r = None \<and> rrAttemptCount r = int (length sas) \<and>
      list_all (\<lambda>a. case arTTFCUS a of None \<Rightarrow> True | Some t \<Rightarrow> t \<le> arDurationUS a) (rrAttempts r)"
    if "?r = Some r" for r
    using t that finish_valid [OF _ that] finish_history_count [OF that]
    by (cases "history_count h'")
      (auto simp: history_tracks_def history_count_def finish_history_def ttfc_bounded_def Let_def)
  then show ?thesis
    using tr kept unfolding kept_def [symmetric]
    by (intro exI [of _ sas] exI [of _ ?rs]) (auto split: option.split)
qed

theorem stream_history_valid_witness:
  fixes s'
  defines "s' \<equiv> snd (Stream quiet_world None hello one_provider)"
  shows "\<exists>sas rs. stream_trace one_provider s' sas rs \<and> length rs = 1 \<and>
    list_all (\<lambda>r. validateRecord r = None \<and> rrAttemptCount r = int (length sas) \<and>
      list_all (\<lambda>a. case arTTFCUS a of None \<Rightarrow> True | Some t \<Rightarrow> t \<le> arDurationUS a) (rrAttempts r)) rs"
proof -
  have "svRecorder one_provider = Async (NewAsyncRecorder 4)"
    "svProviders one_provider = [\<lparr>pvName = ''openai'', pvStreaming = True\<rparr>]"
    "snd (BindRouting (svRouting one_provider) None) = ''deterministic''"
    by (simp_all add: one_provider_def SetPersistence_def New_Service_def NewWithCircuitBreaker_def
        build_service_def BindRouting_def newRuntimeRouting_def zero_routing_config_def Let_def
        normalizedRoutingPolicyName_def policy_names)
  moreover have "wRequestID quiet_world = (\<lambda>_. Some ''rfreq_1'')" "monotone_clock quiet_world"
    by (simp_all add: quiet_world_def monotone_clock_def)
  ultimately show ?thesis
    unfolding s'_def using stream_history_valid [of one_provider quiet_world None hello] by simp
qed

end
