(* ===== verification/Provider_Http.thy ===== *)
theory Provider_Http
  imports Chat_Json Go_Mime
begin

text \<open>
  What the HTTP provider adapters share (\<open>internal/provider/http.go\<close> and
  \<open>internal/provider/sse.go\<close>): their clients, the classification of transport errors and statuses, the bounded
  read of a response body, and the reader of server-sent events. A body is the bytes that arrive and
  the error, if any, that a later read ends with; the reader of events is a function of the bytes that
  are left and of the event under construction.
\<close>

section \<open>Clients\<close>

text \<open>The fields of \<open>http.Client\<close> that the adapters set; the transport and the cookie jar are copied. A
  timeout of 0 is none.\<close>

datatype redirect_check = DefaultPolicy | UseLastResponse | OtherCheck

record http_client =
  hcCheckRedirect :: redirect_check
  hcTimeout :: duration

definition DefaultClient :: http_client where
  "DefaultClient = \<lparr>hcCheckRedirect = DefaultPolicy, hcTimeout = 0\<rparr>"

definition HTTPClientWithoutRedirects :: "http_client option \<Rightarrow> http_client" where
  "HTTPClientWithoutRedirects client =
     (case client of None \<Rightarrow> DefaultClient | Some c \<Rightarrow> c)\<lparr>hcCheckRedirect := UseLastResponse\<rparr>"

definition HTTPClientForStreaming :: "http_client option \<Rightarrow> http_client" where
  "HTTPClientForStreaming client = (HTTPClientWithoutRedirects client)\<lparr>hcTimeout := 0\<rparr>"

section \<open>Errors\<close>

text \<open>An error of the HTTP client: what the code asks of it is its chain, whether a \<open>net.Error\<close> in
  it is a timeout, and whether it is a protocol error.\<close>

record http_error =
  heErr :: go_error
  heTimeout :: bool
  heProtocol :: bool

definition TransportError :: "string \<Rightarrow> http_error \<Rightarrow> go_error" where
  "TransportError providerName err =
     (let kind = (if errors_is (heErr err) ContextCanceled \<or> errors_is (heErr err) ContextDeadlineExceeded \<or>
                     heTimeout err then ErrorTimeout else ErrorUnavailable)
      in NewError kind providerName (PlainError ''upstream request failed''))"

definition HTTPStatusError :: "string \<Rightarrow> int \<Rightarrow> go_error" where
  "HTTPStatusError providerName status =
     (let kind = (if status = 408 then ErrorTimeout
                  else if status = 429 then ErrorRateLimited
                  else if status \<ge> 500 then ErrorUnavailable
                  else ErrorInvalidRequest)
      in NewError kind providerName (PlainError (''upstream status '' @
           (if status < 0 then CHR ''-'' # decimal (nat (- status)) else decimal (nat status)))))"

section \<open>Bodies\<close>

record http_body =
  bodyBytes :: string
  bodyError :: "http_error option"

record http_response =
  respStatus :: int
  respContentType :: string
  respBody :: http_body

text \<open>At most \<open>limit + 1\<close> bytes are read, so a longer body is refused without seeing its end.\<close>

definition ReadResponse :: "string \<Rightarrow> http_body \<Rightarrow> nat \<Rightarrow> go_error + string" where
  "ReadResponse providerName body limit =
     (if length (bodyBytes body) > limit
      then Inl (NewError ErrorInternal providerName (PlainError ''upstream response too large''))
      else (case bodyError body of
              None \<Rightarrow> Inr (bodyBytes body)
            | Some err \<Rightarrow>
                if heProtocol err
                then Inl (NewError ErrorInternal providerName (PlainError ''invalid upstream response protocol''))
                else Inl (TransportError providerName err)))"

section \<open>Server-sent events\<close>

definition MaxSSEEventSize :: nat where
  "MaxSSEEventSize = 64 * 2 ^ 10"

definition ErrSSEEventTooLarge :: go_error where
  "ErrSSEEventTooLarge = PlainError ''upstream SSE event too large''"

definition ErrSSERead :: go_error where
  "ErrSSERead = PlainError ''read upstream SSE event''"

record SSEEvent =
  seType :: string
  seData :: string

definition zero_event :: SSEEvent where
  "zero_event = \<lparr>seType = [], seData = []\<rparr>"

text \<open>The reader: the bytes not yet scanned, whether the body ends with an error, and the event read so
  far.\<close>

record SSEReader =
  srRest :: string
  srFailed :: bool
  srEvent :: SSEEvent

definition NewSSEReader :: "http_body \<Rightarrow> SSEReader" where
  "NewSSEReader body = \<lparr>srRest = bodyBytes body, srFailed = (bodyError body \<noteq> None), srEvent = zero_event\<rparr>"

definition newline :: char where
  "newline = CHR 0x0A"

definition carriage_return :: char where
  "carriage_return = CHR 0x0D"

text \<open>\<open>bufio.Scanner\<close> with \<open>ScanLines\<close> and a buffer of \<open>MaxSSEEventSize\<close>: a line
  without its end, a line that does not fit, or no line. The last line needs no newline, also when
  reading failed behind it.\<close>

datatype scanned_line = NoLine | LineTooLong | ScannedLine string string

definition drop_cr :: "string \<Rightarrow> string" where
  "drop_cr l = (if l \<noteq> [] \<and> last l = carriage_return then butlast l else l)"

definition next_line :: "string \<Rightarrow> scanned_line" where
  "next_line s =
     (let raw = takeWhile (\<lambda>c. c \<noteq> newline) s in
      if s = [] then NoLine
      else if length raw \<ge> MaxSSEEventSize then LineTooLong
      else ScannedLine (drop_cr raw) (drop (length raw + 1) s))"

text \<open>\<open>strings.Cut(line, ":")\<close> with one leading space of the value removed.\<close>

definition cut_field :: "string \<Rightarrow> string \<times> string" where
  "cut_field line =
     (let field = takeWhile (\<lambda>c. c \<noteq> CHR '':'') line;
          value' = drop (length field + 1) line
      in (field, if HasPrefix value' '' '' then tl value' else value'))"

text \<open>A further line of data is separated by a newline.\<close>

definition separate_data :: "SSEEvent \<Rightarrow> SSEEvent" where
  "separate_data ev = (if length (seData ev) > 0 then ev\<lparr>seData := seData ev @ [newline]\<rparr> else ev)"

lemma next_line_shorter: "next_line s = ScannedLine l r \<Longrightarrow> length r < length s"
  by (auto simp: next_line_def Let_def split: if_splits)

text \<open>What one line does to the event: an error, a complete event, or the event so far.\<close>

datatype line_effect = LineError go_error SSEEvent | LineEvent SSEEvent | LineMore SSEEvent

definition sse_line :: "SSEEvent \<Rightarrow> string \<Rightarrow> line_effect" where
  "sse_line ev line =
     (if line = [] then
        if length (seData ev) = 0 \<and> seType ev = [] then LineMore ev else LineEvent ev
      else if HasPrefix line '':'' then LineMore ev
      else (case cut_field line of (field, value') \<Rightarrow>
        if field = ''event'' then LineMore (ev\<lparr>seType := value'\<rparr>)
        else if field = ''data'' then
          (let ev1 = separate_data ev in
           if length (seData ev1) + length value' > MaxSSEEventSize then LineError ErrSSEEventTooLarge ev1
           else LineMore (ev1\<lparr>seData := seData ev1 @ value'\<rparr>))
        else LineMore ev))"

function sse_scan :: "bool \<Rightarrow> SSEEvent \<Rightarrow> string \<Rightarrow> (go_error + SSEEvent) \<times> string \<times> SSEEvent" where
  "sse_scan failed ev s =
     (case next_line s of
        NoLine \<Rightarrow>
          (Inl (if failed \<or> length (seData ev) > 0 \<or> seType ev \<noteq> [] then ErrSSERead else EOF), s, ev)
      | LineTooLong \<Rightarrow> (Inl ErrSSERead, s, ev)
      | ScannedLine line r \<Rightarrow>
          (case sse_line ev line of
             LineError err ev' \<Rightarrow> (Inl err, r, ev')
           | LineEvent e \<Rightarrow> (Inr e, r, zero_event)
           | LineMore ev' \<Rightarrow> sse_scan failed ev' r))"
  by pat_completeness auto
termination
  by (relation "measure (\<lambda>(failed, ev, s). length s)") (auto dest: next_line_shorter)

declare sse_scan.simps [simp del]

definition SSE_Next :: "SSEReader \<Rightarrow> (go_error + SSEEvent) \<times> SSEReader" where
  "SSE_Next r =
     (case sse_scan (srFailed r) (srEvent r) (srRest r) of
        (result, rest, ev) \<Rightarrow> (result, r\<lparr>srRest := rest, srEvent := ev\<rparr>))"

section \<open>Facts on the reader\<close>

lemma sse_scan_shorter: "sse_scan failed ev s = (Inr e, r, ev') \<Longrightarrow> length r < length s"
proof (induction failed ev s rule: sse_scan.induct)
  case (1 failed ev s)
  then obtain line t where l: "next_line s = ScannedLine line t"
    by (cases "next_line s") (simp_all add: sse_scan.simps [of failed ev s])
  with 1 next_line_shorter [OF l] show ?case
    by (fastforce simp: sse_scan.simps [of failed ev s] split: line_effect.splits)
qed

text \<open>Every event the reader returns fits the limit and has something to say.\<close>

lemma sse_line_event: "sse_line ev line = LineEvent e \<Longrightarrow> e = ev \<and> (seData e \<noteq> [] \<or> seType e \<noteq> [])"
  by (auto simp: sse_line_def Let_def split: if_splits prod.splits)

lemma sse_line_more:
  "sse_line ev line = LineMore ev' \<Longrightarrow> length (seData ev) \<le> MaxSSEEventSize \<Longrightarrow> length (seData ev') \<le> MaxSSEEventSize"
  by (auto simp: sse_line_def Let_def split: if_splits prod.splits)

lemma sse_scan_bounded:
  "sse_scan failed ev s = (Inr e, r, ev') \<Longrightarrow> length (seData ev) \<le> MaxSSEEventSize \<Longrightarrow>
   length (seData e) \<le> MaxSSEEventSize \<and> ev' = zero_event \<and> (seData e \<noteq> [] \<or> seType e \<noteq> [])"
proof (induction failed ev s rule: sse_scan.induct)
  case (1 failed ev s)
  then obtain line t where l: "next_line s = ScannedLine line t"
    by (cases "next_line s") (simp_all add: sse_scan.simps [of failed ev s])
  with 1 show ?case
    by (auto simp: sse_scan.simps [of failed ev s] split: line_effect.splits
        dest: sse_line_event sse_line_more)
qed

text \<open>All events up to the error that ends them.\<close>

function sse_all :: "SSEReader \<Rightarrow> SSEEvent list \<times> go_error" where
  "sse_all r =
     (case SSE_Next r of
        (Inl err, _) \<Rightarrow> ([], err)
      | (Inr ev, r') \<Rightarrow> (case sse_all r' of (evs, err) \<Rightarrow> (ev # evs, err)))"
  by pat_completeness auto
termination
  by (relation "measure (length \<circ> srRest)") (auto simp: SSE_Next_def dest: sse_scan_shorter split: prod.splits)

declare sse_all.simps [simp del]

section \<open>Writing events\<close>

text \<open>The text of an event: its type, one line for each line of its data, an empty line.\<close>

function split_lines :: "string \<Rightarrow> string list" where
  "split_lines s =
     (let l = takeWhile (\<lambda>c. c \<noteq> newline) s in
      if length l = length s then [l] else l # split_lines (drop (length l + 1) s))"
  by pat_completeness auto
termination
proof (relation "measure length", goal_cases)
  case (2 s l)
  then show ?case using length_takeWhile_le [of "\<lambda>c. c \<noteq> newline" s] by (cases s) auto
qed simp

declare split_lines.simps [simp del]

definition data_lines :: "string \<Rightarrow> string" where
  "data_lines data = concat (map (\<lambda>l. ''data: '' @ l @ [newline]) (split_lines data))"

definition render_event :: "SSEEvent \<Rightarrow> string" where
  "render_event ev =
     (if seType ev = [] then [] else ''event: '' @ seType ev @ [newline]) @
     (if seData ev = [] then [] else data_lines (seData ev)) @ [newline]"

text \<open>A line that survives the scanner.\<close>

definition plain_line :: "string \<Rightarrow> bool" where
  "plain_line l \<longleftrightarrow> newline \<notin> set l \<and> (l \<noteq> [] \<longrightarrow> last l \<noteq> carriage_return) \<and> length l + 7 < MaxSSEEventSize"

text \<open>An event that a text can carry: something to say, plain lines, no empty first line of data.\<close>

definition writable_event :: "SSEEvent \<Rightarrow> bool" where
  "writable_event ev \<longleftrightarrow> (seType ev \<noteq> [] \<or> seData ev \<noteq> []) \<and> plain_line (seType ev) \<and>
     list_all plain_line (split_lines (seData ev)) \<and> (seData ev \<noteq> [] \<longrightarrow> hd (seData ev) \<noteq> newline) \<and>
     length (seData ev) \<le> MaxSSEEventSize"

lemma newline_facts: "newline \<noteq> CHR ''d''" "newline \<noteq> CHR ''a''" "newline \<noteq> CHR ''t''" "newline \<noteq> CHR ''e''"
  "newline \<noteq> CHR ''v''" "newline \<noteq> CHR ''n''" "newline \<noteq> CHR '':''" "newline \<noteq> CHR '' ''" "newline \<noteq> carriage_return"
  "carriage_return \<noteq> CHR '' ''"
  by (simp_all add: newline_def carriage_return_def)

lemma next_line_plain:
  assumes "newline \<notin> set l" "l \<noteq> []" "last l \<noteq> carriage_return" "length l < MaxSSEEventSize"
  shows "next_line (l @ newline # s) = ScannedLine l s"
proof -
  have "takeWhile (\<lambda>c. c \<noteq> newline) (l @ newline # s) = l"
    using assms(1) by (subst takeWhile_append2) auto
  then show ?thesis using assms by (simp add: next_line_def drop_cr_def)
qed

lemma next_line_empty: "next_line (newline # s) = ScannedLine [] s"
  by (simp add: next_line_def drop_cr_def MaxSSEEventSize_def)

lemma field_line:
  assumes "plain_line l" "name = ''data'' \<or> name = ''event''"
  shows "next_line (name @ '': '' @ l @ newline # s) = ScannedLine (name @ '': '' @ l) s"
proof -
  have "next_line ((name @ '': '' @ l) @ newline # s) = ScannedLine (name @ '': '' @ l) s"
    using assms newline_facts by (intro next_line_plain) (auto simp: plain_line_def)
  then show ?thesis by simp
qed

lemma scan_data_line:
  assumes "plain_line l" "length (seData (separate_data ev)) + length l \<le> MaxSSEEventSize"
  shows "sse_scan failed ev (''data: '' @ l @ newline # s) =
    sse_scan failed (ev\<lparr>seData := seData (separate_data ev) @ l\<rparr>) s"
proof -
  have "(separate_data ev)\<lparr>seData := x\<rparr> = ev\<lparr>seData := x\<rparr>" for x by (simp add: separate_data_def)
  then have "sse_line ev (''data'' @ '': '' @ l) = LineMore (ev\<lparr>seData := seData (separate_data ev) @ l\<rparr>)"
    using assms(2) by (simp add: sse_line_def cut_field_def HasPrefix_def Let_def)
  then show ?thesis
    using field_line [OF assms(1), of "''data''" s] by (subst sse_scan.simps) simp
qed

lemma scan_type_line:
  assumes "plain_line l"
  shows "sse_scan failed ev (''event: '' @ l @ newline # s) = sse_scan failed (ev\<lparr>seType := l\<rparr>) s"
proof -
  have "sse_line ev (''event'' @ '': '' @ l) = LineMore (ev\<lparr>seType := l\<rparr>)"
    by (simp add: sse_line_def cut_field_def HasPrefix_def Let_def)
  then show ?thesis
    using field_line [OF assms, of "''event''" s] by (subst sse_scan.simps) simp
qed

lemma scan_event_end:
  "seData ev \<noteq> [] \<or> seType ev \<noteq> [] \<Longrightarrow> sse_scan failed ev (newline # s) = (Inr ev, s, zero_event)"
  by (subst sse_scan.simps) (auto simp: next_line_empty sse_line_def)

text \<open>The first line of some data and what follows it.\<close>

lemma split_first_line:
  obtains (last) "newline \<notin> set d" "split_lines d = [d]" "data_lines d = ''data: '' @ d @ [newline]"
  | (more) l r where "d = l @ newline # r" "newline \<notin> set l" "split_lines d = l # split_lines r"
      "data_lines d = ''data: '' @ l @ newline # data_lines r"
proof -
  let ?l = "takeWhile (\<lambda>c. c \<noteq> newline) d"
  consider "newline \<notin> set d" | l r where "d = l @ newline # r" "newline \<notin> set l"
    by (metis split_list_first)
  then show thesis
  proof cases
    case 1
    then have "?l = d" by (simp add: takeWhile_eq_all_conv) metis
    then have "split_lines d = [d]" by (subst split_lines.simps) (simp only: Let_def if_True simp_thms)
    with 1 show thesis by (intro last) (simp_all add: data_lines_def)
  next
    case (2 l r)
    then have "?l = l" by (subst 2(1), subst takeWhile_append2) auto
    then have "split_lines d = l # split_lines r" using 2(1) by (subst split_lines.simps) simp
    with 2 show thesis by (intro more) (simp_all add: data_lines_def)
  qed
qed

lemma scan_more_lines:
  "seData ev \<noteq> [] \<Longrightarrow> list_all plain_line (split_lines d) \<Longrightarrow>
   length (seData ev) + 1 + length d \<le> MaxSSEEventSize \<Longrightarrow>
   sse_scan failed ev (data_lines d @ s) = sse_scan failed (ev\<lparr>seData := seData ev @ newline # d\<rparr>) s"
proof (induction "length d" arbitrary: d ev rule: less_induct)
  case less
  have sep: "seData (separate_data ev) = seData ev @ [newline]"
    using less.prems(1) by (simp add: separate_data_def)
  show ?case
  proof (cases d rule: split_first_line)
    case last
    with less.prems scan_data_line [of d ev failed s] show ?thesis by (simp add: sep)
  next
    case (more l r)
    have "sse_scan failed ev (data_lines d @ s) =
        sse_scan failed (ev\<lparr>seData := seData ev @ newline # l\<rparr>) (data_lines r @ s)"
      using less.prems more scan_data_line [of l ev failed "data_lines r @ s"] by (simp add: sep)
    then show ?thesis
      using less.hyps [of r "ev\<lparr>seData := seData ev @ newline # l\<rparr>"] less.prems more by simp
  qed
qed

lemma scan_first_lines:
  assumes "seData ev = []" "d \<noteq> []" "hd d \<noteq> newline" "list_all plain_line (split_lines d)"
    "length d \<le> MaxSSEEventSize"
  shows "sse_scan failed ev (data_lines d @ s) = sse_scan failed (ev\<lparr>seData := d\<rparr>) s"
proof -
  have sep: "separate_data ev = ev" using assms(1) by (simp add: separate_data_def)
  show ?thesis
  proof (cases d rule: split_first_line)
    case last
    with assms scan_data_line [of d ev failed s] show ?thesis by (simp add: sep)
  next
    case (more l r)
    then have "l \<noteq> []" using assms(3) by auto
    with assms more scan_data_line [of l ev failed "data_lines r @ s"]
      scan_more_lines [of "ev\<lparr>seData := l\<rparr>" r failed s]
    show ?thesis by (simp add: sep)
  qed
qed

lemma scan_rendered:
  assumes "writable_event ev"
  shows "sse_scan failed zero_event (render_event ev @ s) = (Inr ev, s, zero_event)"
proof -
  let ?t = "zero_event\<lparr>seType := seType ev\<rparr>"
  have d: "sse_scan failed ?t ((if seData ev = [] then [] else data_lines (seData ev)) @ newline # s) =
      (Inr ev, s, zero_event)"
  proof (cases "seData ev = []")
    case True
    with assms show ?thesis
      using scan_event_end [of ?t failed s] by (cases ev) (auto simp: zero_event_def writable_event_def)
  next
    case False
    with assms have "sse_scan failed ?t (data_lines (seData ev) @ newline # s) =
        sse_scan failed (?t\<lparr>seData := seData ev\<rparr>) (newline # s)"
      by (intro scan_first_lines) (auto simp: writable_event_def zero_event_def)
    with False show ?thesis
      using scan_event_end [of "?t\<lparr>seData := seData ev\<rparr>" failed s] by (cases ev) (simp add: zero_event_def)
  qed
  show ?thesis
  proof (cases "seType ev = []")
    case True
    then have "?t = zero_event" by (simp add: zero_event_def)
    with True d show ?thesis by (simp add: render_event_def)
  next
    case False
    with assms d show ?thesis
      using scan_type_line [of "seType ev" failed zero_event]
      by (simp add: render_event_def writable_event_def)
  qed
qed

lemma sse_all_rendered:
  "list_all writable_event evs \<Longrightarrow>
   sse_all \<lparr>srRest = concat (map render_event evs), srFailed = False, srEvent = zero_event\<rparr> = (evs, EOF)"
proof (induction evs)
  case Nil
  have "sse_scan False zero_event [] = (Inl EOF, [], zero_event)"
    by (subst sse_scan.simps) (simp add: next_line_def zero_event_def)
  then show ?case by (subst sse_all.simps) (simp add: SSE_Next_def)
next
  case (Cons ev evs)
  then show ?case
    by (subst sse_all.simps) (simp add: SSE_Next_def scan_rendered)
qed

lemma SSE_Next_event:
  assumes "SSE_Next r = (Inr ev, r')"
  obtains rest ev' where "sse_scan (srFailed r) (srEvent r) (srRest r) = (Inr ev, rest, ev')"
    "r' = r\<lparr>srRest := rest, srEvent := ev'\<rparr>"
  using assms by (auto simp: SSE_Next_def split: prod.splits)

lemma sse_all_bounded:
  "length (seData (srEvent r)) \<le> MaxSSEEventSize \<Longrightarrow>
   list_all (\<lambda>ev. length (seData ev) \<le> MaxSSEEventSize \<and> (seData ev \<noteq> [] \<or> seType ev \<noteq> [])) (fst (sse_all r))"
proof (induction r rule: sse_all.induct)
  case (1 r)
  obtain res r' where n: "SSE_Next r = (res, r')" by fastforce
  show ?case
  proof (cases res)
    case (Inl err)
    then show ?thesis by (subst sse_all.simps) (simp add: n)
  next
    case (Inr ev)
    with n obtain rest ev' where e: "sse_scan (srFailed r) (srEvent r) (srRest r) = (Inr ev, rest, ev')"
      "r' = r\<lparr>srRest := rest, srEvent := ev'\<rparr>"
      by (auto elim: SSE_Next_event)
    with sse_scan_bounded [OF e(1) 1(2)] 1(1) [OF n [symmetric] Inr] n Inr show ?thesis
      by (subst sse_all.simps) (simp add: split_beta zero_event_def)
  qed
qed

section \<open>Properties\<close>

text \<open>C23: The event reader reads what was written. Whatever events are written as text, an optional
  type and the lines of the data each on a line of its own, the reader returns exactly them, in order,
  and then the end of the stream; and whatever bytes arrive instead, no event it returns is empty or
  larger than the limit.\<close>

theorem sse_round_trip:
  "(list_all writable_event evs \<longrightarrow>
      sse_all (NewSSEReader \<lparr>bodyBytes = concat (map render_event evs), bodyError = None\<rparr>) = (evs, EOF)) \<and>
   list_all (\<lambda>ev. length (seData ev) \<le> MaxSSEEventSize \<and> (seData ev \<noteq> [] \<or> seType ev \<noteq> []))
      (fst (sse_all (NewSSEReader body)))"
  using sse_all_rendered [of evs] sse_all_bounded [of "NewSSEReader body"]
  by (simp add: NewSSEReader_def zero_event_def)

theorem sse_round_trip_witness:
  fixes evs
  defines "evs \<equiv> [\<lparr>seType = ''ping'', seData = []\<rparr>, \<lparr>seType = [], seData = ''a'' @ newline # ''b''\<rparr>]"
  shows "sse_all (NewSSEReader \<lparr>bodyBytes = concat (map render_event evs), bodyError = None\<rparr>) = (evs, EOF)"
proof -
  have "split_lines [] = [[]]" by (simp add: split_lines.simps)
  moreover have "split_lines (''a'' @ newline # ''b'') = [''a'', ''b'']"
    by (simp add: split_lines.simps newline_def)
  ultimately have "list_all writable_event evs"
    by (simp add: evs_def writable_event_def plain_line_def newline_def carriage_return_def MaxSSEEventSize_def)
  with sse_round_trip [of evs] show ?thesis by simp
qed

end
