(* ===== verification/Adapter_Stream.thy ===== *)
theory Adapter_Stream
  imports Provider_Http
begin

text \<open>
  What the two HTTP adapters share: the request they send and what they make of the answer, and the
  loop of their streams. There \<open>Next\<close> reads server-sent events
  until one of them gives a chunk, an error or the end of the stream. What an adapter does with one
  event is its own function, a parameter here; the adapters' theories instantiate it. The equivalence at
  the end says that calling \<open>Next\<close> again and again is the same as reading all events first and
  handling them one by one.
\<close>

section \<open>Requests\<close>

text \<open>What both adapters hold besides their HTTP clients, and a request they send. The clients and the
  URL parser of \<open>http.NewRequestWithContext\<close> belong to the environment: a client answers a
  request with an error or a response.\<close>

record adapter =
  adAPIKey :: string
  adBaseURL :: string

record http_request =
  hrURL :: string
  hrHeader :: "(string \<times> string) list"
  hrBody :: string

type_synonym http_client = "http_request \<Rightarrow> http_error + http_response"

definition TrimRight_slash :: "string \<Rightarrow> string" where
  "TrimRight_slash s = rev (dropWhile (\<lambda>c. c = CHR ''/'') (rev s))"

definition success_status :: "int \<Rightarrow> bool" where
  "success_status status \<longleftrightarrow> \<not> (status < 200 \<or> status \<ge> 300)"

definition is_event_stream :: "string \<Rightarrow> bool" where
  "is_event_stream contentType \<longleftrightarrow> ParseMediaType contentType = Some ''text/event-stream''"

section \<open>The loop\<close>

text \<open>What an event comes to: nothing yet, a chunk, an error, or the end.\<close>

datatype event_effect = Skip | Chunk StreamChunk | Fail go_error | Finish

type_synonym 's event_handler = "int \<Rightarrow> 's \<Rightarrow> SSEEvent \<Rightarrow> event_effect \<times> 's"

record 's adapter_stream =
  asState :: 's
  asReader :: SSEReader
  asDone :: bool

lemma SSE_Next_shorter: "SSE_Next r = (Inr ev, r') \<Longrightarrow> length (srRest r') < length (srRest r)"
  by (auto simp: SSE_Next_def dest: sse_scan_shorter split: prod.splits)

function event_loop ::
  "'s event_handler \<Rightarrow> (go_error \<Rightarrow> go_error) \<Rightarrow> int \<Rightarrow> 's \<Rightarrow> SSEReader
   \<Rightarrow> (go_error + StreamChunk) \<times> 's adapter_stream" where
  "event_loop handle readErr now s r =
     (case SSE_Next r of
        (Inl err, r') \<Rightarrow> (Inl (readErr err), \<lparr>asState = s, asReader = r', asDone = False\<rparr>)
      | (Inr ev, r') \<Rightarrow>
          (case handle now s ev of
             (Skip, s') \<Rightarrow> event_loop handle readErr now s' r'
           | (Chunk c, s') \<Rightarrow> (Inr c, \<lparr>asState = s', asReader = r', asDone = False\<rparr>)
           | (Fail err, s') \<Rightarrow> (Inl err, \<lparr>asState = s', asReader = r', asDone = False\<rparr>)
           | (Finish, s') \<Rightarrow> (Inl EOF, \<lparr>asState = s', asReader = r', asDone = True\<rparr>)))"
  by pat_completeness auto
termination
  by (relation "measure (\<lambda>(handle, readErr, now, s, r). length (srRest r))") (auto dest: SSE_Next_shorter [OF sym])

declare event_loop.simps [simp del]

definition adapter_Next ::
  "'s event_handler \<Rightarrow> (go_error \<Rightarrow> go_error) \<Rightarrow> int \<Rightarrow> 's adapter_stream
   \<Rightarrow> (go_error + StreamChunk) \<times> 's adapter_stream" where
  "adapter_Next handle readErr now st =
     (if asDone st then (Inl EOF, st) else event_loop handle readErr now (asState st) (asReader st))"

text \<open>What a failed read of the events means: the context's error if it has ended, an unavailable
  provider when the stream broke off, and otherwise an internal error.\<close>

definition stream_read_error :: "string \<Rightarrow> go_error option \<Rightarrow> go_error \<Rightarrow> go_error" where
  "stream_read_error name ctxErr err =
     (case ctxErr of
        Some e \<Rightarrow> TransportError name \<lparr>heErr = e, heTimeout = False, heProtocol = False\<rparr>
      | None \<Rightarrow>
          if errors_is err EOF \<or> errors_is err ErrSSERead
          then NewError ErrorUnavailable name (PlainError ''upstream stream ended unexpectedly'')
          else NewError ErrorInternal name (PlainError ''incomplete upstream stream''))"

section \<open>Reading a stream to its end\<close>

lemma event_loop_shorter:
  "event_loop handle readErr now s r = (Inr c, st) \<Longrightarrow> length (srRest (asReader st)) < length (srRest r)"
proof (induction handle readErr now s r rule: event_loop.induct)
  case (1 handle readErr now s r)
  obtain res r' where n: "SSE_Next r = (res, r')" by fastforce
  show ?case
  proof (cases res)
    case (Inl err)
    with 1 n show ?thesis by (subst (asm) (2) event_loop.simps) simp
  next
    case (Inr ev)
    obtain eff s' where h: "handle now s ev = (eff, s')" by fastforce
    have "length (srRest r') < length (srRest r)" using n Inr by (simp add: SSE_Next_shorter)
    with 1 n Inr h show ?thesis
      by (cases eff) (force simp: event_loop.simps [of handle readErr now s r])+
  qed
qed

lemma adapter_Next_shorter:
  "adapter_Next handle readErr now st = (Inr c, st') \<Longrightarrow>
   length (srRest (asReader st')) < length (srRest (asReader st))"
  by (auto simp: adapter_Next_def dest: event_loop_shorter split: if_splits)

text \<open>All chunks of a stream and the error that ends them; \<open>clock\<close> is the time of each call.\<close>

function adapter_drain ::
  "'s event_handler \<Rightarrow> (go_error \<Rightarrow> go_error) \<Rightarrow> (nat \<Rightarrow> int) \<Rightarrow> nat \<Rightarrow> 's adapter_stream
   \<Rightarrow> StreamChunk list \<times> go_error" where
  "adapter_drain handle readErr clock n st =
     (case adapter_Next handle readErr (clock n) st of
        (Inl err, _) \<Rightarrow> ([], err)
      | (Inr c, st') \<Rightarrow>
          (case adapter_drain handle readErr clock (Suc n) st' of (cs, err) \<Rightarrow> (c # cs, err)))"
  by pat_completeness auto
termination
  by (relation "measure (\<lambda>(handle, readErr, clock, n, st). length (srRest (asReader st)))")
    (auto dest: adapter_Next_shorter [OF sym])

declare adapter_drain.simps [simp del]

text \<open>The reference: handle the events one by one.\<close>

fun process_events ::
  "'s event_handler \<Rightarrow> (nat \<Rightarrow> int) \<Rightarrow> nat \<Rightarrow> 's \<Rightarrow> SSEEvent list \<Rightarrow> go_error \<Rightarrow> StreamChunk list \<times> go_error" where
  "process_events handle clock n s [] err = ([], err)"
| "process_events handle clock n s (ev # evs) err =
     (case handle (clock n) s ev of
        (Skip, s') \<Rightarrow> process_events handle clock n s' evs err
      | (Chunk c, s') \<Rightarrow>
          (case process_events handle clock (Suc n) s' evs err of (cs, e) \<Rightarrow> (c # cs, e))
      | (Fail e, s') \<Rightarrow> ([], e)
      | (Finish, s') \<Rightarrow> ([], EOF))"

definition drain_step ::
  "'s event_handler \<Rightarrow> (go_error \<Rightarrow> go_error) \<Rightarrow> (nat \<Rightarrow> int) \<Rightarrow> nat
   \<Rightarrow> (go_error + StreamChunk) \<times> 's adapter_stream \<Rightarrow> StreamChunk list \<times> go_error" where
  "drain_step handle readErr clock n res =
     (case res of
        (Inl err, _) \<Rightarrow> ([], err)
      | (Inr c, st') \<Rightarrow>
          (case adapter_drain handle readErr clock (Suc n) st' of (cs, err) \<Rightarrow> (c # cs, err)))"

lemma adapter_drain_step:
  "\<not> asDone st \<Longrightarrow> adapter_drain handle readErr clock n st =
     drain_step handle readErr clock n (event_loop handle readErr (clock n) (asState st) (asReader st))"
  by (subst adapter_drain.simps) (simp add: adapter_Next_def drain_step_def)

lemma drain_process:
  fixes r :: SSEReader
  shows "drain_step handle readErr clock n (event_loop handle readErr (clock n) s r) =
     process_events handle clock n s (fst (sse_all r)) (readErr (snd (sse_all r)))"
proof (induction "length (srRest r)" arbitrary: r s n rule: less_induct)
  case less
  obtain res r' where n: "SSE_Next r = (res, r')" by fastforce
  show ?case
  proof (cases res)
    case (Inl err)
    with n show ?thesis
      by (simp add: event_loop.simps [of handle readErr "clock n" s r] sse_all.simps [of r] drain_step_def)
  next
    case (Inr ev)
    obtain eff s' where h: "handle (clock n) s ev = (eff, s')" by fastforce
    have l: "length (srRest r') < length (srRest r)" using n Inr by (simp add: SSE_Next_shorter)
    have all: "sse_all r = (ev # fst (sse_all r'), snd (sse_all r'))"
      using n Inr by (simp add: sse_all.simps [of r] split_beta)
    have next': "adapter_drain handle readErr clock (Suc n) \<lparr>asState = s', asReader = r', asDone = False\<rparr> =
        process_events handle clock (Suc n) s' (fst (sse_all r')) (readErr (snd (sse_all r')))"
      using less.hyps [OF l, where s = s' and n = "Suc n"] by (simp add: adapter_drain_step)
    show ?thesis
      using n Inr h less.hyps [OF l, where s = s' and n = n] next'
      by (cases eff) (simp_all add: all event_loop.simps [of handle readErr "clock n" s r] drain_step_def split_beta)
  qed
qed

lemma adapter_drain_process:
  "adapter_drain handle readErr clock n \<lparr>asState = s, asReader = r, asDone = False\<rparr> =
     process_events handle clock n s (fst (sse_all r)) (readErr (snd (sse_all r)))"
  by (simp add: adapter_drain_step drain_process)

section \<open>The contract of an adapter\<close>

text \<open>A usage report that adds up: the total is there exactly when both parts are, and it is their sum
  without wrap-around.\<close>

definition usage_exact :: "Usage \<Rightarrow> bool" where
  "usage_exact u \<longleftrightarrow>
     (case (InputTokens u, OutputTokens u, TotalTokens u) of
        (Some i, Some o', Some t) \<Rightarrow> unat t = unat i + unat o'
      | (Some i, Some o', None) \<Rightarrow> False
      | (_, _, t) \<Rightarrow> t = None)"

definition chunk_exact :: "StreamChunk \<Rightarrow> bool" where
  "chunk_exact c \<longleftrightarrow> pred_option usage_exact (ckUsage c)"

lemma usage_exact_New:
  "\<not> MaxUint64 - o' < i \<Longrightarrow> usage_exact (NewUsage i o' (i + o'))"
  by (simp add: usage_exact_def NewUsage_def u64_overflow_iff unat_add_exact)

text \<open>The errors an adapter reports: typed provider errors with its own name.\<close>

definition own_error :: "string \<Rightarrow> go_error \<Rightarrow> bool" where
  "own_error name e \<longleftrightarrow> (\<exists>k m. e = NewError k name (PlainError m))"

lemma own_error_intros [simp, intro]:
  "own_error name (NewError k name (PlainError m))"
  "own_error name (TransportError name he)"
  "own_error name (HTTPStatusError name status)"
  "own_error name (stream_read_error name ctxErr err)"
  by (auto simp: own_error_def TransportError_def HTTPStatusError_def stream_read_error_def Let_def
      split: option.split)

lemma own_error_not_EOF: "own_error name e \<Longrightarrow> \<not> errors_is e EOF"
  by (auto simp: own_error_def NewError_def)

lemma own_error_kind: "own_error name e \<Longrightarrow> \<exists>k. as_provider_error e = Some (k, name)"
  by (auto simp: own_error_def NewError_def)

text \<open>What the handler of an adapter's events promises: its errors are its own, it finishes on a
  terminal event only, and the usage it reports adds up as long as what it has remembered does.\<close>

locale event_adapter =
  fixes handle :: "'s event_handler"
    and name :: string
    and inv :: "'s \<Rightarrow> bool"
    and terminal :: "SSEEvent \<Rightarrow> bool"
  assumes fail_own: "handle now s ev = (Fail e, s') \<Longrightarrow> own_error name e"
    and finish_terminal: "handle now s ev = (Finish, s') \<Longrightarrow> terminal ev"
    and chunk_usage: "inv s \<Longrightarrow> handle now s ev = (Chunk c, s') \<Longrightarrow> chunk_exact c"
    and inv_kept: "inv s \<Longrightarrow> handle now s ev = (eff, s') \<Longrightarrow> inv s'"
begin

lemma process_end:
  assumes "own_error name err"
  shows "own_error name (snd (process_events handle clock n s evs err)) \<or>
    snd (process_events handle clock n s evs err) = EOF \<and> (\<exists>ev \<in> set evs. terminal ev)"
proof (induction evs arbitrary: n s)
  case (Cons ev evs)
  obtain eff s' where h: "handle (clock n) s ev = (eff, s')" by fastforce
  have "own_error name (snd (process_events handle clock m s' evs err)) \<or>
    snd (process_events handle clock m s' evs err) = EOF \<and> (\<exists>ev' \<in> set (ev # evs). terminal ev')" for m
    using Cons.IH [of m s'] by auto
  with h fail_own [of "clock n" s ev] finish_terminal [of "clock n" s ev] show ?case
    by (cases eff) (simp_all add: split_beta)
qed (simp add: assms)

lemma process_usage: "inv s \<Longrightarrow> list_all chunk_exact (fst (process_events handle clock n s evs err))"
proof (induction evs arbitrary: n s)
  case (Cons ev evs)
  obtain eff s' where h: "handle (clock n) s ev = (eff, s')" by fastforce
  with Cons chunk_usage inv_kept [OF Cons.prems h] show ?case
    by (cases eff) (auto simp: split_beta)
qed simp

text \<open>A stream read to its end.\<close>

lemma drain_end:
  fixes r :: SSEReader and clock :: "nat \<Rightarrow> int" and ctxErr :: "go_error option" and s :: 's
  defines "d \<equiv> adapter_drain handle (stream_read_error name ctxErr) clock 0 \<lparr>asState = s, asReader = r, asDone = False\<rparr>"
  shows "own_error name (snd d) \<or> snd d = EOF \<and> (\<exists>ev \<in> set (fst (sse_all r)). terminal ev)"
  unfolding d_def adapter_drain_process by (rule process_end) simp

lemma drain_usage:
  "inv s \<Longrightarrow> list_all chunk_exact
     (fst (adapter_drain handle readErr clock 0 \<lparr>asState = s, asReader = r, asDone = False\<rparr>))"
  by (simp add: adapter_drain_process process_usage)

end

end
