(* ===== verification/OpenAI_Adapter.thy ===== *)
theory OpenAI_Adapter
  imports Adapter_Stream
begin

text \<open>
  The OpenAI adapter (\<open>internal/provider/openai/openai.go\<close>): the request it sends, the
  completion it makes of a response, and its stream of server-sent events. The HTTP clients, with their
  redirect policy, are functions from requests to answers.
\<close>

section \<open>The adapter\<close>

definition openai_Name :: string where
  "openai_Name = ''openai''"

definition openai_maxResponseSize :: nat where
  "openai_maxResponseSize = 2 * 2 ^ 20"

definition openai_New :: "string \<Rightarrow> string \<Rightarrow> adapter" where
  "openai_New apiKey baseURL = \<lparr>adAPIKey = apiKey, adBaseURL = TrimRight_slash baseURL\<rparr>"

text \<open>The request body: the messages as they came, and usage asked for when streaming.\<close>

definition openai_request :: "ChatCompletionRequest \<Rightarrow> bool \<Rightarrow> json" where
  "openai_request req stream = JObj
     ([(''model'', JStr (reqModel req)), (''messages'', JArr (map Message_json (reqMessages req)))] @
      (if stream then [(''stream'', JBool True), (''stream_options'', JObj [(''include_usage'', JBool True)])]
       else []))"

definition openai_upstreamRequest ::
  "(string \<Rightarrow> bool) \<Rightarrow> adapter \<Rightarrow> ChatCompletionRequest \<Rightarrow> bool \<Rightarrow> go_error + http_request" where
  "openai_upstreamRequest validURL p req stream =
     (let body = Marshal (openai_request req stream);
          url = adBaseURL p @ ''/v1/chat/completions''
      in if \<not> validURL url then Inl (NewError ErrorInternal openai_Name (PlainError ''create request''))
         else Inr \<lparr>hrURL = url,
           hrHeader = [(''Authorization'', ''Bearer '' @ adAPIKey p), (''Content-Type'', ''application/json'')],
           hrBody = body\<rparr>)"

definition malformed_usage :: go_error where
  "malformed_usage = PlainError ''malformed upstream usage''"

definition openai_normalizeUsage :: "Usage option \<Rightarrow> go_error + Usage option" where
  "openai_normalizeUsage upstream =
     (case upstream of
        None \<Rightarrow> Inr None
      | Some u \<Rightarrow>
          (case (InputTokens u, OutputTokens u, TotalTokens u) of
             (None, None, None) \<Rightarrow> Inr None
           | (Some prompt, Some completion, Some total') \<Rightarrow>
               if prompt > MaxUint64 - completion \<or> total' \<noteq> prompt + completion then Inl malformed_usage
               else Inr (Some (NewUsage prompt completion total'))
           | _ \<Rightarrow> Inl malformed_usage))"

section \<open>Completions\<close>

definition malformed_response :: go_error where
  "malformed_response = PlainError ''malformed upstream response''"

definition openai_decode :: "string \<Rightarrow> go_error + ChatCompletionResponse" where
  "openai_decode body =
     (case Option.bind (Unmarshal_value body) (\<lambda>v. decode_Response False v zero_response) of
        None \<Rightarrow> Inl (NewError ErrorInternal openai_Name malformed_response)
      | Some decoded \<Rightarrow>
          if rspChoices decoded = [] then Inl (NewError ErrorInternal openai_Name malformed_response)
          else (case openai_normalizeUsage (rspUsage decoded) of
                  Inl err \<Rightarrow> Inl (NewError ErrorInternal openai_Name err)
                | Inr usage \<Rightarrow> Inr \<lparr>rspID = rspID decoded, rspObject = rspObject decoded,
                    rspCreated = rspCreated decoded, rspModel = rspModel decoded,
                    rspChoices = rspChoices decoded, rspUsage = usage\<rparr>))"

definition openai_Complete ::
  "http_client \<Rightarrow> (string \<Rightarrow> bool) \<Rightarrow> adapter \<Rightarrow> ChatCompletionRequest \<Rightarrow> go_error + ChatCompletionResponse" where
  "openai_Complete client validURL p req =
     (case openai_upstreamRequest validURL p req False of
        Inl err \<Rightarrow> Inl err
      | Inr upstreamReq \<Rightarrow>
          (case client upstreamReq of
             Inl err \<Rightarrow> Inl (TransportError openai_Name err)
           | Inr resp \<Rightarrow>
               if \<not> success_status (respStatus resp) then Inl (HTTPStatusError openai_Name (respStatus resp))
               else (case ReadResponse openai_Name (respBody resp) openai_maxResponseSize of
                       Inl err \<Rightarrow> Inl err
                     | Inr responseBody \<Rightarrow> openai_decode responseBody)))"

section \<open>Streams\<close>

record streamDelta =
  sdRole :: string
  sdContent :: string

record streamChoice =
  scDelta :: streamDelta
  scFinishReason :: "string option"

record streamResponse =
  ssID :: string
  ssCreated :: int
  ssModel :: string
  ssChoices :: "streamChoice list"
  ssUsage :: "Usage option"

definition zero_streamChoice :: streamChoice where
  "zero_streamChoice = \<lparr>scDelta = \<lparr>sdRole = [], sdContent = []\<rparr>, scFinishReason = None\<rparr>"

definition zero_streamResponse :: streamResponse where
  "zero_streamResponse = \<lparr>ssID = [], ssCreated = 0, ssModel = [], ssChoices = [], ssUsage = None\<rparr>"

definition streamDelta_field :: "string \<Rightarrow> json \<Rightarrow> streamDelta \<Rightarrow> streamDelta option" where
  "streamDelta_field name v d =
     (if name = ''role'' then map_option (\<lambda>s. d\<lparr>sdRole := s\<rparr>) (decode_string v (sdRole d))
      else map_option (\<lambda>s. d\<lparr>sdContent := s\<rparr>) (decode_string v (sdContent d)))"

definition streamChoice_field :: "string \<Rightarrow> json \<Rightarrow> streamChoice \<Rightarrow> streamChoice option" where
  "streamChoice_field name v c =
     (if name = ''delta'' then map_option (\<lambda>d. c\<lparr>scDelta := d\<rparr>)
        (decode_struct [''role'', ''content''] False streamDelta_field v (scDelta c))
      else map_option (\<lambda>s. c\<lparr>scFinishReason := s\<rparr>) (decode_pointer [] decode_string v (scFinishReason c)))"

definition decode_streamChoice :: "json \<Rightarrow> streamChoice \<Rightarrow> streamChoice option" where
  "decode_streamChoice = decode_struct [''delta'', ''finish_reason''] False streamChoice_field"

definition streamResponse_field :: "string \<Rightarrow> json \<Rightarrow> streamResponse \<Rightarrow> streamResponse option" where
  "streamResponse_field name v r =
     (if name = ''id'' then map_option (\<lambda>s. r\<lparr>ssID := s\<rparr>) (decode_string v (ssID r))
      else if name = ''created'' then map_option (\<lambda>i. r\<lparr>ssCreated := i\<rparr>) (decode_int v (ssCreated r))
      else if name = ''model'' then map_option (\<lambda>s. r\<lparr>ssModel := s\<rparr>) (decode_string v (ssModel r))
      else if name = ''choices''
      then map_option (\<lambda>cs. r\<lparr>ssChoices := cs\<rparr>) (decode_slice zero_streamChoice decode_streamChoice v (ssChoices r))
      else map_option (\<lambda>u. r\<lparr>ssUsage := u\<rparr>) (decode_pointer zero_usage (decode_Usage False) v (ssUsage r)))"

definition decode_streamResponse :: "json \<Rightarrow> streamResponse option" where
  "decode_streamResponse v =
     decode_struct [''id'', ''created'', ''model'', ''choices'', ''usage''] False streamResponse_field v zero_streamResponse"

definition malformed_event :: go_error where
  "malformed_event = PlainError ''malformed upstream stream event''"

text \<open>The chunk of a decoded event.\<close>

definition openai_chunk :: "streamResponse \<Rightarrow> event_effect" where
  "openai_chunk decoded =
     (case openai_normalizeUsage (ssUsage decoded) of
        Inl err \<Rightarrow> Fail (NewError ErrorInternal openai_Name err)
      | Inr usage \<Rightarrow>
          (case ssChoices decoded of
             [] \<Rightarrow> (case usage of
                      None \<Rightarrow> Fail (NewError ErrorInternal openai_Name malformed_event)
                    | Some u \<Rightarrow> Chunk (zero_chunk\<lparr>ckUsage := Some u\<rparr>))
           | choice # _ \<Rightarrow>
               Chunk \<lparr>ckID = ssID decoded, ckCreated = ssCreated decoded, ckModel = ssModel decoded,
                 ckRole = sdRole (scDelta choice), ckContent = sdContent (scDelta choice),
                 ckFinishReason = (case scFinishReason choice of None \<Rightarrow> [] | Some r \<Rightarrow> r),
                 ckUsage = usage\<rparr>))"

definition openai_event :: "int \<Rightarrow> unit \<Rightarrow> SSEEvent \<Rightarrow> event_effect \<times> unit" where
  "openai_event now s event =
     (if seData event = ''[DONE]'' then Finish
      else if seData event = [] then Skip
      else (case Option.bind (Unmarshal_value (seData event)) decode_streamResponse of
              None \<Rightarrow> Fail (NewError ErrorInternal openai_Name malformed_event)
            | Some decoded \<Rightarrow> openai_chunk decoded), ())"

definition openai_Next ::
  "go_error option \<Rightarrow> unit adapter_stream \<Rightarrow> (go_error + StreamChunk) \<times> unit adapter_stream" where
  "openai_Next ctxErr st = adapter_Next openai_event (stream_read_error openai_Name ctxErr) 0 st"

definition openai_Stream ::
  "http_client \<Rightarrow> (string \<Rightarrow> bool) \<Rightarrow> adapter \<Rightarrow> ChatCompletionRequest \<Rightarrow> go_error + unit adapter_stream" where
  "openai_Stream client validURL p req =
     (case openai_upstreamRequest validURL p req True of
        Inl err \<Rightarrow> Inl err
      | Inr upstreamReq \<Rightarrow>
          (case client upstreamReq of
             Inl err \<Rightarrow> Inl (TransportError openai_Name err)
           | Inr resp \<Rightarrow>
               if \<not> success_status (respStatus resp) then Inl (HTTPStatusError openai_Name (respStatus resp))
               else if \<not> is_event_stream (respContentType resp)
               then Inl (NewError ErrorInternal openai_Name (PlainError ''unexpected upstream content type''))
               else Inr \<lparr>asState = (), asReader = NewSSEReader (respBody resp), asDone = False\<rparr>))"

section \<open>The adapter's contract\<close>

lemma openai_normalizeUsage_Inr: "openai_normalizeUsage u = Inr v \<Longrightarrow> pred_option usage_exact v"
  by (auto simp: openai_normalizeUsage_def usage_exact_New split: option.splits if_splits)

lemma openai_normalizeUsage_Inl: "openai_normalizeUsage u = Inl e \<Longrightarrow> e = malformed_usage"
  by (auto simp: openai_normalizeUsage_def split: option.splits if_splits)

lemma openai_chunk_Fail: "openai_chunk d = Fail e \<Longrightarrow> own_error openai_Name e"
  by (auto simp: openai_chunk_def malformed_event_def malformed_usage_def
      dest: openai_normalizeUsage_Inl split: sum.splits list.splits option.splits)

lemma openai_chunk_Chunk: "openai_chunk d = Chunk c \<Longrightarrow> chunk_exact c"
  by (auto simp: openai_chunk_def chunk_exact_def dest: openai_normalizeUsage_Inr
      split: sum.splits list.splits option.splits)

lemma openai_chunk_Finish: "openai_chunk d \<noteq> Finish"
  by (auto simp: openai_chunk_def split: sum.splits list.splits option.splits)

interpretation oa: event_adapter openai_event openai_Name "\<lambda>_. True" "\<lambda>ev. seData ev = ''[DONE]''"
proof
  fix now s ev e s'
  assume "openai_event now s ev = (Fail e, s')"
  then show "own_error openai_Name e"
    by (auto simp: openai_event_def malformed_event_def split: if_splits option.splits
        dest: openai_chunk_Fail openai_chunk_Chunk simp: openai_chunk_Finish)
next
  fix now s ev s'
  assume "openai_event now s ev = (Finish, s')"
  then show "seData ev = ''[DONE]''"
    by (auto simp: openai_event_def split: if_splits option.splits
        dest: openai_chunk_Fail openai_chunk_Chunk simp: openai_chunk_Finish)
next
  fix now s ev c s'
  assume "openai_event now s ev = (Chunk c, s')"
  then show "chunk_exact c"
    by (auto simp: openai_event_def split: if_splits option.splits
        dest: openai_chunk_Fail openai_chunk_Chunk simp: openai_chunk_Finish)
qed simp

lemma openai_upstream_Inl: "openai_upstreamRequest validURL p req stream = Inl e \<Longrightarrow> own_error openai_Name e"
  by (auto simp: openai_upstreamRequest_def Let_def split: if_splits)

lemma ReadResponse_Inl: "ReadResponse name body limit = Inl e \<Longrightarrow> own_error name e"
  by (auto simp: ReadResponse_def split: if_splits option.splits)

lemma openai_decode_facts:
  "openai_decode body = Inl e \<Longrightarrow> own_error openai_Name e"
  "openai_decode body = Inr r \<Longrightarrow> rspChoices r \<noteq> [] \<and> pred_option usage_exact (rspUsage r)"
  by (auto simp: openai_decode_def malformed_response_def malformed_usage_def
      dest: openai_normalizeUsage_Inl openai_normalizeUsage_Inr split: option.splits if_splits sum.splits)

lemma openai_Complete_facts:
  "openai_Complete client validURL p req = Inl e \<Longrightarrow> own_error openai_Name e"
  "openai_Complete client validURL p req = Inr r \<Longrightarrow> rspChoices r \<noteq> [] \<and> pred_option usage_exact (rspUsage r)"
  by (auto simp: openai_Complete_def dest: openai_upstream_Inl ReadResponse_Inl openai_decode_facts
      split: sum.splits if_splits)

section \<open>Properties\<close>

text \<open>C10: The OpenAI stream is exactly the events that arrived. For whatever body the upstream sends,
  calling \<open>Next\<close> until it fails gives the same chunks and the same final error as reading all
  events first and translating them one at a time; the stream ends as complete only if the terminator
  arrived, and otherwise with an error under the adapter's own name; and every usage report that
  passes adds up without overflow.\<close>

theorem openai_stream_faithful:
  "let evs = sse_all (NewSSEReader body);
     d = adapter_drain openai_event (stream_read_error openai_Name ctxErr) clock 0
     \<lparr>asState = (), asReader = NewSSEReader body, asDone = False\<rparr>
   in d = process_events openai_event clock 0 () (fst evs) (stream_read_error openai_Name ctxErr (snd evs)) \<and>
    (own_error openai_Name (snd d) \<or> snd d = EOF \<and> (\<exists>ev \<in> set (fst evs). seData ev = ''[DONE]'')) \<and>
    list_all chunk_exact (fst d)"
  unfolding Let_def
  by (intro conjI adapter_drain_process oa.drain_end oa.drain_usage TrueI)

end
