(* ===== verification/Anthropic_Adapter.thy ===== *)
theory Anthropic_Adapter
  imports OpenAI_Adapter
begin

text \<open>
  The Anthropic adapter (\<open>internal/provider/anthropic/anthropic.go\<close>): the translation of a chat
  request to the messages API, of its answers back, and the state machine of its event stream with the
  usage it accumulates. The clock of \<open>time.Now().Unix()\<close> is an argument.
\<close>

section \<open>The adapter\<close>

definition anthropic_Name :: string where
  "anthropic_Name = ''anthropic''"

definition apiVersion :: string where
  "apiVersion = ''2023-06-01''"

definition defaultMaxTokens :: int where
  "defaultMaxTokens = 1024"

definition anthropic_maxResponseSize :: nat where
  "anthropic_maxResponseSize = 2 * 2 ^ 20"

definition anthropic_New :: "string \<Rightarrow> string \<Rightarrow> adapter" where
  "anthropic_New apiKey baseURL = \<lparr>adAPIKey = apiKey, adBaseURL = TrimRight_slash baseURL\<rparr>"

text \<open>\<open>strings.Join\<close>, and the split of a conversation into system text and other messages.\<close>

fun Join :: "string list \<Rightarrow> string \<Rightarrow> string" where
  "Join [] sep = []"
| "Join [x] sep = x"
| "Join (x # y # xs) sep = x @ sep @ Join (y # xs) sep"

fun split_system :: "Message list \<Rightarrow> string list \<times> Message list" where
  "split_system [] = ([], [])"
| "split_system (item # items) =
     (case split_system items of (systemMessages, messages) \<Rightarrow>
        if msgRole item = ''system'' then (msgContent item # systemMessages, messages)
        else (systemMessages, item # messages))"

definition anthropic_request :: "string \<Rightarrow> string \<Rightarrow> Message list \<Rightarrow> bool \<Rightarrow> json" where
  "anthropic_request model system messages stream = JObj
     ([(''model'', JStr model), (''max_tokens'', json_int defaultMaxTokens)] @
      (if system = [] then [] else [(''system'', JStr system)]) @
      [(''messages'', slice_json Message_json messages)] @
      (if stream then [(''stream'', JBool True)] else []))"

definition anthropic_upstreamRequest ::
  "(string \<Rightarrow> bool) \<Rightarrow> adapter \<Rightarrow> ChatCompletionRequest \<Rightarrow> bool \<Rightarrow> go_error + http_request" where
  "anthropic_upstreamRequest validURL p req stream =
     (case split_system (reqMessages req) of (systemMessages, messages) \<Rightarrow>
        if messages = []
        then Inl (NewError ErrorInvalidRequest anthropic_Name
               (PlainError ''at least one non-system message is required''))
        else
          (let body = Marshal (anthropic_request (reqModel req)
                 (Join systemMessages [newline, newline]) messages stream);
               url = adBaseURL p @ ''/v1/messages''
           in if \<not> validURL url then Inl (NewError ErrorInternal anthropic_Name (PlainError ''create request''))
              else Inr \<lparr>hrURL = url,
                hrHeader = [(''X-Api-Key'', adAPIKey p), (''Anthropic-Version'', apiVersion),
                  (''Content-Type'', ''application/json'')],
                hrBody = body\<rparr>))"

section \<open>What the upstream sends\<close>

record anthropic_usage =
  auInput :: "u64 option"
  auOutput :: "u64 option"

record contentBlock =
  cbType :: string
  cbText :: string

record anthropic_response =
  arID :: string
  arModel :: string
  arContent :: "contentBlock list"
  arStopReason :: string
  arUsage :: "anthropic_usage option"

record start_message =
  smID :: string
  smModel :: string
  smUsage :: "anthropic_usage option"

record event_delta =
  edType :: string
  edText :: string
  edStopReason :: string

record streamEvent =
  evType :: string
  evMessage :: start_message
  evContentBlock :: contentBlock
  evDelta :: event_delta
  evUsage :: "anthropic_usage option"

definition zero_contentBlock :: contentBlock where
  "zero_contentBlock = \<lparr>cbType = [], cbText = []\<rparr>"

definition zero_anthropic_usage :: anthropic_usage where
  "zero_anthropic_usage = \<lparr>auInput = None, auOutput = None\<rparr>"

definition zero_anthropic_response :: anthropic_response where
  "zero_anthropic_response = \<lparr>arID = [], arModel = [], arContent = [], arStopReason = [], arUsage = None\<rparr>"

definition zero_streamEvent :: streamEvent where
  "zero_streamEvent = \<lparr>evType = [], evMessage = \<lparr>smID = [], smModel = [], smUsage = None\<rparr>,
     evContentBlock = zero_contentBlock, evDelta = \<lparr>edType = [], edText = [], edStopReason = []\<rparr>, evUsage = None\<rparr>"

definition anthropic_usage_field :: "string \<Rightarrow> json \<Rightarrow> anthropic_usage \<Rightarrow> anthropic_usage option" where
  "anthropic_usage_field name v u =
     (if name = ''input_tokens''
      then map_option (\<lambda>t. u\<lparr>auInput := t\<rparr>) (decode_pointer 0 decode_u64 v (auInput u))
      else map_option (\<lambda>t. u\<lparr>auOutput := t\<rparr>) (decode_pointer 0 decode_u64 v (auOutput u)))"

definition decode_anthropic_usage :: "json \<Rightarrow> anthropic_usage option \<Rightarrow> anthropic_usage option option" where
  "decode_anthropic_usage = decode_pointer zero_anthropic_usage
     (decode_struct [''input_tokens'', ''output_tokens''] False anthropic_usage_field)"

definition contentBlock_field :: "string \<Rightarrow> json \<Rightarrow> contentBlock \<Rightarrow> contentBlock option" where
  "contentBlock_field name v b =
     (if name = ''type'' then map_option (\<lambda>s. b\<lparr>cbType := s\<rparr>) (decode_string v (cbType b))
      else map_option (\<lambda>s. b\<lparr>cbText := s\<rparr>) (decode_string v (cbText b)))"

definition decode_contentBlock :: "json \<Rightarrow> contentBlock \<Rightarrow> contentBlock option" where
  "decode_contentBlock = decode_struct [''type'', ''text''] False contentBlock_field"

definition anthropic_response_field :: "string \<Rightarrow> json \<Rightarrow> anthropic_response \<Rightarrow> anthropic_response option" where
  "anthropic_response_field name v r =
     (if name = ''id'' then map_option (\<lambda>s. r\<lparr>arID := s\<rparr>) (decode_string v (arID r))
      else if name = ''model'' then map_option (\<lambda>s. r\<lparr>arModel := s\<rparr>) (decode_string v (arModel r))
      else if name = ''content''
      then map_option (\<lambda>bs. r\<lparr>arContent := bs\<rparr>) (decode_slice zero_contentBlock decode_contentBlock v (arContent r))
      else if name = ''stop_reason'' then map_option (\<lambda>s. r\<lparr>arStopReason := s\<rparr>) (decode_string v (arStopReason r))
      else map_option (\<lambda>u. r\<lparr>arUsage := u\<rparr>) (decode_anthropic_usage v (arUsage r)))"

definition decode_anthropic_response :: "json \<Rightarrow> anthropic_response option" where
  "decode_anthropic_response v =
     decode_struct [''id'', ''model'', ''content'', ''stop_reason'', ''usage''] False anthropic_response_field v
       zero_anthropic_response"

definition start_message_field :: "string \<Rightarrow> json \<Rightarrow> start_message \<Rightarrow> start_message option" where
  "start_message_field name v m =
     (if name = ''id'' then map_option (\<lambda>s. m\<lparr>smID := s\<rparr>) (decode_string v (smID m))
      else if name = ''model'' then map_option (\<lambda>s. m\<lparr>smModel := s\<rparr>) (decode_string v (smModel m))
      else map_option (\<lambda>u. m\<lparr>smUsage := u\<rparr>) (decode_anthropic_usage v (smUsage m)))"

definition event_delta_field :: "string \<Rightarrow> json \<Rightarrow> event_delta \<Rightarrow> event_delta option" where
  "event_delta_field name v d =
     (if name = ''type'' then map_option (\<lambda>s. d\<lparr>edType := s\<rparr>) (decode_string v (edType d))
      else if name = ''text'' then map_option (\<lambda>s. d\<lparr>edText := s\<rparr>) (decode_string v (edText d))
      else map_option (\<lambda>s. d\<lparr>edStopReason := s\<rparr>) (decode_string v (edStopReason d)))"

definition streamEvent_field :: "string \<Rightarrow> json \<Rightarrow> streamEvent \<Rightarrow> streamEvent option" where
  "streamEvent_field name v e =
     (if name = ''type'' then map_option (\<lambda>s. e\<lparr>evType := s\<rparr>) (decode_string v (evType e))
      else if name = ''message'' then map_option (\<lambda>m. e\<lparr>evMessage := m\<rparr>)
        (decode_struct [''id'', ''model'', ''usage''] False start_message_field v (evMessage e))
      else if name = ''content_block''
      then map_option (\<lambda>b. e\<lparr>evContentBlock := b\<rparr>) (decode_contentBlock v (evContentBlock e))
      else if name = ''delta'' then map_option (\<lambda>d. e\<lparr>evDelta := d\<rparr>)
        (decode_struct [''type'', ''text'', ''stop_reason''] False event_delta_field v (evDelta e))
      else map_option (\<lambda>u. e\<lparr>evUsage := u\<rparr>) (decode_anthropic_usage v (evUsage e)))"

definition decode_streamEvent :: "json \<Rightarrow> streamEvent option" where
  "decode_streamEvent v =
     decode_struct [''type'', ''message'', ''content_block'', ''delta'', ''usage''] False streamEvent_field v zero_streamEvent"

section \<open>Usage\<close>

definition normalizeCompleteUsage :: "anthropic_usage option \<Rightarrow> go_error + Usage option" where
  "normalizeCompleteUsage upstream =
     (case upstream of
        None \<Rightarrow> Inr None
      | Some u \<Rightarrow>
          (case (auInput u, auOutput u) of
             (None, None) \<Rightarrow> Inr None
           | (Some i, Some o') \<Rightarrow>
               if i > MaxUint64 - o' then Inl malformed_usage else Inr (Some (NewUsage i o' (i + o')))
           | _ \<Rightarrow> Inl malformed_usage))"

definition anthropic_mergeUsage :: "Usage option \<Rightarrow> anthropic_usage option \<Rightarrow> go_error + Usage option" where
  "anthropic_mergeUsage current upstream =
     (case upstream of
        None \<Rightarrow> Inr current
      | Some u \<Rightarrow>
          if auInput u = None \<and> auOutput u = None then Inr current
          else
            (let old = (case current of None \<Rightarrow> zero_usage | Some c \<Rightarrow> c);
                 input = (if auInput u \<noteq> None then auInput u else InputTokens old);
                 output = (if auOutput u \<noteq> None then auOutput u else OutputTokens old)
             in case (input, output) of
                  (Some i, Some o') \<Rightarrow>
                    if i > MaxUint64 - o' then Inl malformed_usage
                    else Inr (Some \<lparr>InputTokens = input, OutputTokens = output, TotalTokens = Some (i + o')\<rparr>)
                | _ \<Rightarrow> Inr (Some \<lparr>InputTokens = input, OutputTokens = output, TotalTokens = TotalTokens old\<rparr>)))"

section \<open>Completions\<close>

definition finish_reason :: "string \<Rightarrow> string" where
  "finish_reason stopReason = (if stopReason = ''max_tokens'' then ''length'' else ''stop'')"

definition anthropic_decode :: "int \<Rightarrow> string \<Rightarrow> go_error + ChatCompletionResponse" where
  "anthropic_decode now body =
     (case Option.bind (Unmarshal_value body) decode_anthropic_response of
        None \<Rightarrow> Inl (NewError ErrorInternal anthropic_Name malformed_response)
      | Some decoded \<Rightarrow>
          if arID decoded = [] then Inl (NewError ErrorInternal anthropic_Name malformed_response)
          else
            (let content = concat (map cbText (filter (\<lambda>b. cbType b = ''text'') (arContent decoded)))
             in case normalizeCompleteUsage (arUsage decoded) of
                  Inl err \<Rightarrow> Inl (NewError ErrorInternal anthropic_Name err)
                | Inr usage \<Rightarrow>
                    Inr \<lparr>rspID = arID decoded, rspObject = ''chat.completion'', rspCreated = now,
                      rspModel = arModel decoded,
                      rspChoices = [\<lparr>choIndex = 0,
                        choMessage = \<lparr>msgRole = ''assistant'', msgContent = content\<rparr>,
                        choFinishReason = finish_reason (arStopReason decoded)\<rparr>],
                      rspUsage = usage\<rparr>))"

definition anthropic_Complete ::
  "http_client \<Rightarrow> (string \<Rightarrow> bool) \<Rightarrow> int \<Rightarrow> adapter \<Rightarrow> ChatCompletionRequest \<Rightarrow> go_error + ChatCompletionResponse" where
  "anthropic_Complete client validURL now p req =
     (case anthropic_upstreamRequest validURL p req False of
        Inl err \<Rightarrow> Inl err
      | Inr upstreamReq \<Rightarrow>
          (case client upstreamReq of
             Inl err \<Rightarrow> Inl (TransportError anthropic_Name err)
           | Inr resp \<Rightarrow>
               if \<not> success_status (respStatus resp) then Inl (HTTPStatusError anthropic_Name (respStatus resp))
               else (case ReadResponse anthropic_Name (respBody resp) anthropic_maxResponseSize of
                       Inl err \<Rightarrow> Inl err
                     | Inr responseBody \<Rightarrow> anthropic_decode now responseBody)))"

section \<open>Streams\<close>

record anthropic_stream =
  anID :: string
  anModel :: string
  anSentRole :: bool
  anUsage :: "Usage option"

definition textChunk :: "int \<Rightarrow> anthropic_stream \<Rightarrow> string \<Rightarrow> StreamChunk \<times> anthropic_stream" where
  "textChunk now s content =
     (let chunk = zero_chunk\<lparr>ckID := anID s, ckCreated := now, ckModel := anModel s, ckContent := content\<rparr>
      in if \<not> anSentRole s then (chunk\<lparr>ckRole := ''assistant''\<rparr>, s\<lparr>anSentRole := True\<rparr>) else (chunk, s))"

definition usage_chunk :: "Usage option \<Rightarrow> StreamChunk" where
  "usage_chunk usage = zero_chunk\<lparr>ckUsage := usage\<rparr>"

definition anthropic_fail :: "string \<Rightarrow> event_effect" where
  "anthropic_fail reason = Fail (NewError ErrorInternal anthropic_Name (PlainError reason))"

definition message_start :: "anthropic_stream \<Rightarrow> streamEvent \<Rightarrow> event_effect \<times> anthropic_stream" where
  "message_start s decoded =
     (let s1 = s\<lparr>anID := smID (evMessage decoded), anModel := smModel (evMessage decoded)\<rparr>
      in case anthropic_mergeUsage (anUsage s1) (smUsage (evMessage decoded)) of
           Inl err \<Rightarrow> (Fail (NewError ErrorInternal anthropic_Name err), s1)
         | Inr usage \<Rightarrow>
             (if usage \<noteq> None then Chunk (usage_chunk usage) else Skip, s1\<lparr>anUsage := usage\<rparr>))"

definition message_delta :: "int \<Rightarrow> anthropic_stream \<Rightarrow> streamEvent \<Rightarrow> event_effect \<times> anthropic_stream" where
  "message_delta now s decoded =
     (case anthropic_mergeUsage (anUsage s) (evUsage decoded) of
        Inl err \<Rightarrow> (Fail (NewError ErrorInternal anthropic_Name err), s)
      | Inr usage \<Rightarrow>
          (let s1 = s\<lparr>anUsage := usage\<rparr> in
           if edStopReason (evDelta decoded) = []
           then (if evUsage decoded \<noteq> None then Chunk (usage_chunk usage) else Skip, s1)
           else (Chunk (zero_chunk\<lparr>ckID := anID s1, ckCreated := now, ckModel := anModel s1,
                   ckFinishReason := finish_reason (edStopReason (evDelta decoded)), ckUsage := usage\<rparr>), s1)))"

definition text_effect :: "StreamChunk \<times> anthropic_stream \<Rightarrow> event_effect \<times> anthropic_stream" where
  "text_effect p = (Chunk (fst p), snd p)"

definition decode_event :: "SSEEvent \<Rightarrow> streamEvent option" where
  "decode_event event =
     (if seData event = [] then Some zero_streamEvent
      else Option.bind (Unmarshal_value (seData event)) decode_streamEvent)"

definition event_type :: "SSEEvent \<Rightarrow> streamEvent \<Rightarrow> string" where
  "event_type event decoded = (if seType event = [] then evType decoded else seType event)"

definition anthropic_event :: "int \<Rightarrow> anthropic_stream \<Rightarrow> SSEEvent \<Rightarrow> event_effect \<times> anthropic_stream" where
  "anthropic_event now s event =
     (case decode_event event of
        None \<Rightarrow> (anthropic_fail ''malformed upstream stream event'', s)
      | Some decoded \<Rightarrow>
          (let eventType = event_type event decoded in
           if eventType = ''ping'' \<or> eventType = ''content_block_stop'' then (Skip, s)
           else if eventType = ''message_start'' then message_start s decoded
           else if eventType = ''content_block_start'' then
             (if cbType (evContentBlock decoded) \<noteq> ''text''
              then (anthropic_fail ''unsupported upstream content block'', s)
              else if cbText (evContentBlock decoded) = [] then (Skip, s)
              else text_effect (textChunk now s (cbText (evContentBlock decoded))))
           else if eventType = ''content_block_delta'' then
             (if edType (evDelta decoded) \<noteq> ''text_delta''
              then (anthropic_fail ''unsupported upstream content delta'', s)
              else text_effect (textChunk now s (edText (evDelta decoded))))
           else if eventType = ''message_delta'' then message_delta now s decoded
           else if eventType = ''message_stop'' then (Finish, s)
           else (anthropic_fail ''unsupported upstream stream event'', s)))"

definition anthropic_Next ::
  "go_error option \<Rightarrow> int \<Rightarrow> anthropic_stream adapter_stream
   \<Rightarrow> (go_error + StreamChunk) \<times> anthropic_stream adapter_stream" where
  "anthropic_Next ctxErr now st = adapter_Next anthropic_event (stream_read_error anthropic_Name ctxErr) now st"

definition new_anthropic_stream :: anthropic_stream where
  "new_anthropic_stream = \<lparr>anID = [], anModel = [], anSentRole = False, anUsage = None\<rparr>"

definition anthropic_Stream ::
  "http_client \<Rightarrow> (string \<Rightarrow> bool) \<Rightarrow> adapter \<Rightarrow> ChatCompletionRequest \<Rightarrow> go_error + anthropic_stream adapter_stream" where
  "anthropic_Stream client validURL p req =
     (case anthropic_upstreamRequest validURL p req True of
        Inl err \<Rightarrow> Inl err
      | Inr upstreamReq \<Rightarrow>
          (case client upstreamReq of
             Inl err \<Rightarrow> Inl (TransportError anthropic_Name err)
           | Inr resp \<Rightarrow>
               if \<not> success_status (respStatus resp) then Inl (HTTPStatusError anthropic_Name (respStatus resp))
               else if \<not> is_event_stream (respContentType resp)
               then Inl (NewError ErrorInternal anthropic_Name (PlainError ''unexpected upstream content type''))
               else Inr \<lparr>asState = new_anthropic_stream, asReader = NewSSEReader (respBody resp), asDone = False\<rparr>))"

section \<open>The adapter's contract\<close>

text \<open>The event that ends a stream.\<close>

definition is_message_stop :: "SSEEvent \<Rightarrow> bool" where
  "is_message_stop ev \<longleftrightarrow>
     (case decode_event ev of None \<Rightarrow> False | Some decoded \<Rightarrow> event_type ev decoded = ''message_stop'')"

definition remembered_exact :: "anthropic_stream \<Rightarrow> bool" where
  "remembered_exact s \<longleftrightarrow> pred_option usage_exact (anUsage s)"

lemma normalizeCompleteUsage_facts:
  "normalizeCompleteUsage u = Inr (Some v) \<Longrightarrow> usage_exact v"
  "normalizeCompleteUsage u = Inl e \<Longrightarrow> e = malformed_usage"
  by (auto simp: normalizeCompleteUsage_def usage_exact_New split: option.splits if_splits)

lemma mergeUsage_Inl: "anthropic_mergeUsage c u = Inl e \<Longrightarrow> e = malformed_usage"
  by (auto simp: anthropic_mergeUsage_def Let_def split: option.splits if_splits)

lemma usage_exact_sum:
  "\<not> MaxUint64 - o' < i \<Longrightarrow>
   usage_exact \<lparr>InputTokens = Some i, OutputTokens = Some o', TotalTokens = Some (i + o')\<rparr>"
  using usage_exact_New [of o' i] by (simp add: NewUsage_def)

lemma mergeUsage_exact:
  assumes "anthropic_mergeUsage c u = Inr v" "pred_option usage_exact c"
  shows "pred_option usage_exact v"
proof -
  define old where "old = (case c of None \<Rightarrow> zero_usage | Some c \<Rightarrow> c)"
  have "usage_exact old" using assms(2) by (auto simp: old_def usage_exact_def zero_usage_def split: option.splits)
  with assms show ?thesis
    unfolding anthropic_mergeUsage_def old_def [symmetric] Let_def
    by (auto simp: usage_exact_sum split: option.splits if_splits)
      (auto simp: usage_exact_def split: option.splits)
qed

lemmas anthropic_step_defs =
  anthropic_event_def message_start_def message_delta_def text_effect_def anthropic_fail_def Let_def

lemma textChunk_facts:
  "ckUsage (fst (textChunk now s t)) = None" "anUsage (snd (textChunk now s t)) = anUsage s"
  "anSentRole (snd (textChunk now s t))"
  "ckRole (fst (textChunk now s t)) = (if anSentRole s then [] else ''assistant'')"
  by (simp_all add: textChunk_def Let_def zero_chunk_def)

lemma anthropic_event_Fail: "anthropic_event now s ev = (Fail e, s') \<Longrightarrow> own_error anthropic_Name e"
  by (auto simp: anthropic_step_defs malformed_usage_def dest: mergeUsage_Inl
      split: option.splits if_splits sum.splits)

lemma anthropic_event_Finish: "anthropic_event now s ev = (Finish, s') \<Longrightarrow> is_message_stop ev"
  by (auto simp: anthropic_step_defs is_message_stop_def split: option.splits if_splits sum.splits)

lemma anthropic_event_usage:
  assumes "remembered_exact s" "anthropic_event now s ev = (eff, s')"
  shows "remembered_exact s' \<and> (case eff of Chunk c \<Rightarrow> chunk_exact c | _ \<Rightarrow> True)"
  using assms
  by (auto simp: anthropic_step_defs remembered_exact_def chunk_exact_def usage_chunk_def zero_chunk_def
      textChunk_facts dest: mergeUsage_exact split: option.splits if_splits sum.splits)

interpretation an: event_adapter anthropic_event anthropic_Name remembered_exact is_message_stop
  by unfold_locales
    (auto dest: anthropic_event_Fail anthropic_event_Finish anthropic_event_usage)

text \<open>The role goes out once, with the first text.\<close>

fun role_once :: "StreamChunk list \<Rightarrow> bool" where
  "role_once [] = True"
| "role_once (c # cs) =
     (if ckRole c = [] then ckContent c = [] \<and> role_once cs
      else ckRole c = ''assistant'' \<and> list_all (\<lambda>d. ckRole d = []) cs)"

lemma anthropic_event_role:
  assumes "anthropic_event now s ev = (eff, s')"
  shows "(case eff of
      Chunk c \<Rightarrow> ckRole c = [] \<and> ckContent c = [] \<and> anSentRole s' = anSentRole s \<or>
        anSentRole s' \<and> ckRole c = (if anSentRole s then [] else ''assistant'')
    | _ \<Rightarrow> anSentRole s' = anSentRole s)"
  using assms
  by (auto simp: anthropic_step_defs usage_chunk_def zero_chunk_def textChunk_facts
      split: option.splits if_splits sum.splits)

lemma roles_after: "anSentRole s \<Longrightarrow> list_all (\<lambda>d. ckRole d = []) (fst (process_events anthropic_event clock n s evs err))"
proof (induction evs arbitrary: n s)
  case (Cons ev evs)
  obtain eff s' where h: "anthropic_event (clock n) s ev = (eff, s')" by fastforce
  with Cons anthropic_event_role [OF h] show ?case by (cases eff) (auto simp: split_beta)
qed simp

lemma roles_once: "role_once (fst (process_events anthropic_event clock n s evs err)) \<or> anSentRole s"
proof (induction evs arbitrary: n s)
  case (Cons ev evs)
  obtain eff s' where h: "anthropic_event (clock n) s ev = (eff, s')" by fastforce
  with Cons.IH [of _ s'] anthropic_event_role [OF h] roles_after [of s'] show ?case
    by (cases eff) (auto simp: split_beta)
qed simp

lemma split_system_split:
  "split_system ms = (map msgContent (filter (\<lambda>m. msgRole m = ''system'') ms), filter (\<lambda>m. msgRole m \<noteq> ''system'') ms)"
  by (induction ms) auto

lemma anthropic_upstream_Inl:
  "anthropic_upstreamRequest validURL p req stream = Inl e \<Longrightarrow> own_error anthropic_Name e"
  by (auto simp: anthropic_upstreamRequest_def Let_def split: if_splits prod.splits)

lemma anthropic_decode_facts:
  "anthropic_decode now body = Inl e \<Longrightarrow> own_error anthropic_Name e"
  "anthropic_decode now body = Inr r \<Longrightarrow> length (rspChoices r) = 1 \<and> rspID r \<noteq> [] \<and> rspCreated r = now"
  by (auto simp: anthropic_decode_def malformed_response_def malformed_usage_def Let_def
      dest: normalizeCompleteUsage_facts split: option.splits if_splits sum.splits)

lemma anthropic_decode_usage: "anthropic_decode now body = Inr r \<Longrightarrow> pred_option usage_exact (rspUsage r)"
  by (cases "rspUsage r") (auto simp: anthropic_decode_def Let_def
      dest: normalizeCompleteUsage_facts split: option.splits if_splits sum.splits)

lemma anthropic_Complete_facts:
  "anthropic_Complete client validURL now p req = Inl e \<Longrightarrow> own_error anthropic_Name e"
  "anthropic_Complete client validURL now p req = Inr r \<Longrightarrow>
     length (rspChoices r) = 1 \<and> pred_option usage_exact (rspUsage r)"
  by (auto simp: anthropic_Complete_def dest: anthropic_upstream_Inl ReadResponse_Inl anthropic_decode_facts
      anthropic_decode_usage split: sum.splits if_splits)

section \<open>Properties\<close>

text \<open>C11: The Anthropic stream as an OpenAI stream. Whatever bytes arrive, the chunks are those of the
  events translated one at a time; the stream ends as complete only if \<open>message_stop\<close> arrived;
  the usage that accumulates over \<open>message_start\<close> and \<open>message_delta\<close> carries a total
  exactly when both counts are known, and it is their sum; and the assistant's role goes out exactly
  once, with the first text.\<close>

theorem anthropic_stream_faithful:
  "let evs = sse_all (NewSSEReader body);
     d = adapter_drain anthropic_event (stream_read_error anthropic_Name ctxErr) clock 0
     \<lparr>asState = new_anthropic_stream, asReader = NewSSEReader body, asDone = False\<rparr>
   in d = process_events anthropic_event clock 0 new_anthropic_stream (fst evs)
        (stream_read_error anthropic_Name ctxErr (snd evs)) \<and>
    (own_error anthropic_Name (snd d) \<or> snd d = EOF \<and> (\<exists>ev \<in> set (fst evs). is_message_stop ev)) \<and>
    list_all chunk_exact (fst d) \<and> role_once (fst d)"
proof -
  have "remembered_exact new_anthropic_stream" "\<not> anSentRole new_anthropic_stream"
    by (simp_all add: remembered_exact_def new_anthropic_stream_def)
  then show ?thesis
    unfolding Let_def
    by (intro conjI adapter_drain_process an.drain_end an.drain_usage)
      (use roles_once [of clock 0 new_anthropic_stream] in \<open>auto simp: adapter_drain_process\<close>)
qed

end
