(* ===== verification/Mock_Provider.thy ===== *)
theory Mock_Provider
  imports Adapter_Stream
begin

text \<open>
  The provider that answers without a network (\<open>internal/provider/mock/mock.go\<close>) and the
  registry of providers by name (\<open>internal/provider/registry.go\<close>). The mock's stream is a small
  state machine; the lemmas say what it delivers for every configuration of its injected error.
\<close>

section \<open>The mock provider\<close>

definition mock_Name :: string where
  "mock_Name = ''mock''"

record mock_provider =
  mpResponseText :: string
  mpErr :: "go_error option"
  mpStreamChunks :: "string list"
  mpStreamErr :: "go_error option"
  mpStreamErrAfter :: int

record mock_stream =
  mkModel :: string
  mkChunks :: "string list"
  mkErr :: "go_error option"
  mkErrAfter :: int
  mkIndex :: nat
  mkFinished :: bool

definition mock_id :: string where
  "mock_id = ''chatcmpl-routeforge-mock''"

definition mock_usage :: Usage where
  "mock_usage = NewUsage 3 4 7"

definition mock_Stream :: "mock_provider \<Rightarrow> ChatCompletionRequest \<Rightarrow> go_error + mock_stream" where
  "mock_Stream p req =
     (case mpStreamErr p of
        Some err \<Rightarrow>
          if mpStreamErrAfter p = 0 then Inl err
          else Inr \<lparr>mkModel = reqModel req,
            mkChunks = (if mpStreamChunks p = [] then [''Hello'', '' from'', '' RouteForge.''] else mpStreamChunks p),
            mkErr = Some err, mkErrAfter = mpStreamErrAfter p, mkIndex = 0, mkFinished = False\<rparr>
      | None \<Rightarrow> Inr \<lparr>mkModel = reqModel req,
          mkChunks = (if mpStreamChunks p = [] then [''Hello'', '' from'', '' RouteForge.''] else mpStreamChunks p),
          mkErr = None, mkErrAfter = mpStreamErrAfter p, mkIndex = 0, mkFinished = False\<rparr>)"

definition mock_content :: "instant \<Rightarrow> mock_stream \<Rightarrow> StreamChunk" where
  "mock_content now s =
     zero_chunk\<lparr>ckID := mock_id, ckCreated := now, ckModel := mkModel s, ckContent := mkChunks s ! mkIndex s,
       ckRole := (if mkIndex s = 0 then ''assistant'' else [])\<rparr>"

definition mock_stop :: "instant \<Rightarrow> mock_stream \<Rightarrow> StreamChunk" where
  "mock_stop now s =
     zero_chunk\<lparr>ckID := mock_id, ckCreated := now, ckModel := mkModel s, ckFinishReason := ''stop'',
       ckUsage := Some mock_usage\<rparr>"

definition mock_Next :: "go_error option \<Rightarrow> instant \<Rightarrow> mock_stream \<Rightarrow> (go_error + StreamChunk) \<times> mock_stream" where
  "mock_Next ctxErr now s =
     (case ctxErr of
        Some err \<Rightarrow> (Inl err, s)
      | None \<Rightarrow>
          if mkErr s \<noteq> None \<and> int (mkIndex s) = mkErrAfter s then (Inl (the (mkErr s)), s)
          else if mkIndex s < length (mkChunks s)
          then (Inr (mock_content now s), s\<lparr>mkIndex := mkIndex s + 1\<rparr>)
          else if \<not> mkFinished s then (Inr (mock_stop now s), s\<lparr>mkFinished := True\<rparr>)
          else (Inl EOF, s))"

definition mock_Complete ::
  "instant \<Rightarrow> mock_provider \<Rightarrow> ChatCompletionRequest \<Rightarrow> go_error + ChatCompletionResponse" where
  "mock_Complete now p req =
     (case mpErr p of
        Some err \<Rightarrow> Inl err
      | None \<Rightarrow>
          (let text = (if mpResponseText p = [] then ''Hello from RouteForge's mock provider.'' else mpResponseText p)
           in Inr \<lparr>rspID = mock_id, rspObject = ''chat.completion'', rspCreated = now, rspModel = reqModel req,
                rspChoices = [\<lparr>choIndex = 0, choMessage = \<lparr>msgRole = ''assistant'', msgContent = text\<rparr>,
                  choFinishReason = ''stop''\<rparr>],
                rspUsage = Some mock_usage\<rparr>))"

section \<open>The registry\<close>

text \<open>Providers are kept by name; of two with the same name the later one stays.\<close>

definition NewRegistry :: "('p \<Rightarrow> string) \<Rightarrow> 'p list \<Rightarrow> string \<rightharpoonup> 'p" where
  "NewRegistry Name providers = foldl (\<lambda>m item. m(Name item \<mapsto> item)) Map.empty providers"

definition Registry_Get :: "(string \<rightharpoonup> 'p) \<Rightarrow> string \<Rightarrow> 'p option" where
  "Registry_Get r name = r name"

lemma registry_latest:
  "Registry_Get (NewRegistry Name ps) n = find (\<lambda>p. Name p = n) (rev ps)"
  by (induction ps rule: rev_induct) (auto simp: NewRegistry_def Registry_Get_def)

section \<open>What a mock stream delivers\<close>

text \<open>The stream read by calls at the given times while the context lives.\<close>

function mock_drain :: "(nat \<Rightarrow> instant) \<Rightarrow> nat \<Rightarrow> mock_stream \<Rightarrow> StreamChunk list \<times> go_error" where
  "mock_drain clock n s =
     (case mock_Next None (clock n) s of
        (Inl err, _) \<Rightarrow> ([], err)
      | (Inr c, s') \<Rightarrow> (case mock_drain clock (Suc n) s' of (cs, err) \<Rightarrow> (c # cs, err)))"
  by pat_completeness auto
termination
  by (relation "measure (\<lambda>(clock, n, s). length (mkChunks s) - mkIndex s + (if mkFinished s then 0 else 1))")
    (auto simp: mock_Next_def split: if_splits)

declare mock_drain.simps [simp del]

text \<open>Without an injected error, or with one beyond the end, everything arrives and then the stop chunk;
  with one at position \<open>k\<close>, exactly the first \<open>k\<close> pieces arrive.\<close>

lemma mock_drain_contents:
  "mkIndex s \<le> length (mkChunks s) \<Longrightarrow> \<not> mkFinished s \<Longrightarrow>
   map ckContent (fst (mock_drain clock n s)) =
     (if mkErr s \<noteq> None \<and> int (mkIndex s) \<le> mkErrAfter s \<and> mkErrAfter s \<le> int (length (mkChunks s))
      then drop (mkIndex s) (take (nat (mkErrAfter s)) (mkChunks s))
      else drop (mkIndex s) (mkChunks s) @ [[]])"
proof (induction clock n s rule: mock_drain.induct)
  case (1 clock n s)
  consider (err) "mkErr s \<noteq> None" "int (mkIndex s) = mkErrAfter s"
    | (more) "\<not> (mkErr s \<noteq> None \<and> int (mkIndex s) = mkErrAfter s)" "mkIndex s < length (mkChunks s)"
    | (last) "\<not> (mkErr s \<noteq> None \<and> int (mkIndex s) = mkErrAfter s)" "mkIndex s = length (mkChunks s)"
    using 1(2) by linarith
  then show ?case
  proof cases
    case err
    then show ?thesis using 1(2) by (subst mock_drain.simps) (auto simp: mock_Next_def)
  next
    case more
    let ?s' = "s\<lparr>mkIndex := mkIndex s + 1\<rparr>"
    have n: "mock_Next None (clock n) s = (Inr (mock_content (clock n) s), ?s')"
      using more by (auto simp: mock_Next_def)
    have "ckContent (mock_content (clock n) s) = mkChunks s ! mkIndex s" by (simp add: mock_content_def)
    moreover have "drop (mkIndex s) (take k (mkChunks s)) =
        mkChunks s ! mkIndex s # drop (Suc (mkIndex s)) (take k (mkChunks s))" if "mkIndex s < k" for k
      using that more(2) by (subst Cons_nth_drop_Suc [symmetric]) auto
    ultimately show ?thesis
      using 1(1) [OF n [symmetric] refl] 1(3) more
      by (subst mock_drain.simps) (auto simp: n split_beta Cons_nth_drop_Suc)
  next
    case last
    let ?s' = "s\<lparr>mkFinished := True\<rparr>"
    have n: "mock_Next None (clock n) s = (Inr (mock_stop (clock n) s), ?s')"
      using last 1(3) by (auto simp: mock_Next_def)
    have e: "mock_drain clock (Suc n) ?s' = ([], EOF)"
      using last by (subst mock_drain.simps) (auto simp: mock_Next_def)
    show ?thesis using last
      by (subst mock_drain.simps) (auto simp: n e mock_stop_def zero_chunk_def)
  qed
qed

end
