(* ===== verification/Stream_Idle.thy ===== *)
theory Stream_Idle
  imports Prelude
begin

text \<open>
  The watchdog of idle streams (\<open>internal/provider/stream_idle.go\<close>): a goroutine that cancels the
  context of an upstream stream when nothing was read for the timeout. The model interleaves the
  goroutine, the readers of the body, the owner of the stream and the clock. A stream is cancelled for
  idleness only when no read was seen for the timeout, an idle stream is noticed, and the goroutine
  always ends once the context is cancelled, so that \<open>Stop\<close> returns.
\<close>

section \<open>Timers\<close>

text \<open>
  A \<open>time.Timer\<close>: the time at which it is due, and whether its value waits in the channel. Stopping a
  timer discards a value that was not received; the result says whether there was anything to stop.
\<close>

record timer =
  tmDue :: "instant option"
  tmFired :: bool

definition NewTimer :: "instant \<Rightarrow> duration \<Rightarrow> timer" where
  "NewTimer now timeout = \<lparr>tmDue = Some (time_add now timeout), tmFired = False\<rparr>"

definition timer_Stop :: "timer \<Rightarrow> bool \<times> timer" where
  "timer_Stop t = (tmDue t \<noteq> None \<or> tmFired t, \<lparr>tmDue = None, tmFired = False\<rparr>)"

definition timer_Reset :: "instant \<Rightarrow> duration \<Rightarrow> timer \<Rightarrow> timer" where
  "timer_Reset now timeout t = \<lparr>tmDue = Some (time_add now timeout), tmFired = False\<rparr>"

text \<open>The runtime delivers the value of a timer that is due.\<close>

definition timer_expire :: "instant \<Rightarrow> timer \<Rightarrow> timer" where
  "timer_expire now t =
     (case tmDue t of
        None \<Rightarrow> t
      | Some due \<Rightarrow> if due \<le> now then \<lparr>tmDue = None, tmFired = True\<rparr> else t)"

section \<open>The watchdog\<close>

record StreamIdleWatchdog =
  wdCanceled :: bool
  wdActivity :: bool
  wdDone :: bool
  wdTimer :: timer

definition NewStreamIdleWatchdog :: "instant \<Rightarrow> duration \<Rightarrow> bool \<Rightarrow> StreamIdleWatchdog" where
  "NewStreamIdleWatchdog now timeout parentDone =
     \<lparr>wdCanceled = parentDone, wdActivity = False, wdDone = False, wdTimer = NewTimer now timeout\<rparr>"

text \<open>\<open>timer.Stop\<close>, and the receive that empties the channel when it was too late.\<close>

definition stop_and_drain :: "timer \<Rightarrow> timer" where
  "stop_and_drain t = (case timer_Stop t of (stopped, t1) \<Rightarrow> if stopped then t1 else t1\<lparr>tmFired := False\<rparr>)"

text \<open>The deferred function of the goroutine.\<close>

definition run_return :: "StreamIdleWatchdog \<Rightarrow> StreamIdleWatchdog" where
  "run_return w = w\<lparr>wdTimer := stop_and_drain (wdTimer w), wdDone := True\<rparr>"

definition run_canceled :: "StreamIdleWatchdog \<Rightarrow> StreamIdleWatchdog" where
  "run_canceled w = run_return w"

definition run_activity :: "instant \<Rightarrow> duration \<Rightarrow> StreamIdleWatchdog \<Rightarrow> StreamIdleWatchdog" where
  "run_activity now timeout w =
     w\<lparr>wdActivity := False, wdTimer := timer_Reset now timeout (stop_and_drain (wdTimer w))\<rparr>"

definition run_timeout :: "StreamIdleWatchdog \<Rightarrow> StreamIdleWatchdog" where
  "run_timeout w = run_return (w\<lparr>wdTimer := (wdTimer w)\<lparr>tmFired := False\<rparr>, wdCanceled := True\<rparr>)"

text \<open>One round of the goroutine's \<open>select\<close>: any branch that is ready.\<close>

inductive run_step :: "instant \<Rightarrow> duration \<Rightarrow> StreamIdleWatchdog \<Rightarrow> StreamIdleWatchdog \<Rightarrow> bool" for now timeout where
  canceled: "\<not> wdDone w \<Longrightarrow> wdCanceled w \<Longrightarrow> run_step now timeout w (run_canceled w)"
| active: "\<not> wdDone w \<Longrightarrow> wdActivity w \<Longrightarrow> run_step now timeout w (run_activity now timeout w)"
| idle: "\<not> wdDone w \<Longrightarrow> tmFired (wdTimer w) \<Longrightarrow> run_step now timeout w (run_timeout w)"

inductive_simps run_step_simps: "run_step now timeout w w'"

text \<open>A send that is dropped when the channel is full.\<close>

definition Activity :: "StreamIdleWatchdog \<Rightarrow> StreamIdleWatchdog" where
  "Activity w = w\<lparr>wdActivity := True\<rparr>"

text \<open>\<open>Stop\<close> first cancels the context; it returns when the goroutine is done.\<close>

definition Stop_cancel :: "StreamIdleWatchdog \<Rightarrow> StreamIdleWatchdog" where
  "Stop_cancel w = w\<lparr>wdCanceled := True\<rparr>"

definition Stop_returns :: "StreamIdleWatchdog \<Rightarrow> bool" where
  "Stop_returns w \<longleftrightarrow> wdDone w"

text \<open>A read of the wrapped body, with the number of bytes that the body gave.\<close>

definition activity_Read :: "int \<Rightarrow> StreamIdleWatchdog \<Rightarrow> StreamIdleWatchdog" where
  "activity_Read n w = (if 0 < n then Activity w else w)"

section \<open>Runs\<close>

text \<open>
  What an observer notes of a run: the time, the time at which the timer was last set, the time of the
  last read that gave bytes, and, when the goroutine cancelled for idleness, the time of it and whether
  a read was waiting to be noticed.
\<close>

record wd_note =
  noNow :: instant
  noSet :: instant
  noRead :: instant
  noIdle :: "(instant \<times> bool) option"

inductive watchdog_run :: "duration \<Rightarrow> StreamIdleWatchdog \<Rightarrow> wd_note \<Rightarrow> bool" for timeout where
  start: "watchdog_run timeout (NewStreamIdleWatchdog now timeout parentDone)
            \<lparr>noNow = now, noSet = now, noRead = now, noIdle = None\<rparr>"
| clock: "watchdog_run timeout w n \<Longrightarrow> noNow n \<le> now \<Longrightarrow> watchdog_run timeout w (n\<lparr>noNow := now\<rparr>)"
| expiry: "watchdog_run timeout w n \<Longrightarrow> watchdog_run timeout (w\<lparr>wdTimer := timer_expire (noNow n) (wdTimer w)\<rparr>) n"
| canceled: "watchdog_run timeout w n \<Longrightarrow> \<not> wdDone w \<Longrightarrow> wdCanceled w \<Longrightarrow> watchdog_run timeout (run_canceled w) n"
| active: "watchdog_run timeout w n \<Longrightarrow> \<not> wdDone w \<Longrightarrow> wdActivity w \<Longrightarrow>
     watchdog_run timeout (run_activity (noNow n) timeout w) (n\<lparr>noSet := noNow n\<rparr>)"
| idle: "watchdog_run timeout w n \<Longrightarrow> \<not> wdDone w \<Longrightarrow> tmFired (wdTimer w) \<Longrightarrow>
     watchdog_run timeout (run_timeout w) (n\<lparr>noIdle := Some (noNow n, wdActivity w)\<rparr>)"
| read: "watchdog_run timeout w n \<Longrightarrow>
     watchdog_run timeout (activity_Read k w) (if 0 < k then n\<lparr>noRead := noNow n\<rparr> else n)"
| stop: "watchdog_run timeout w n \<Longrightarrow> watchdog_run timeout (Stop_cancel w) n"
| parent: "watchdog_run timeout w n \<Longrightarrow> watchdog_run timeout (w\<lparr>wdCanceled := True\<rparr>) n"

lemmas watchdog_defs = NewStreamIdleWatchdog_def NewTimer_def timer_Stop_def timer_Reset_def
  stop_and_drain_def run_return_def run_canceled_def run_activity_def run_timeout_def Activity_def
  Stop_cancel_def activity_Read_def time_add_def

text \<open>
  The invariant: while the goroutine runs its timer is either set for the timeout after the last reset
  or has fired at or after that time; every read since the last reset waits in the channel; a finished
  goroutine has released the context and its timer.
\<close>

definition wd_inv :: "duration \<Rightarrow> StreamIdleWatchdog \<Rightarrow> wd_note \<Rightarrow> bool" where
  "wd_inv timeout w n \<longleftrightarrow>
     noSet n \<le> noNow n \<and> noRead n \<le> noNow n \<and>
     (\<not> wdDone w \<longrightarrow> noIdle n = None \<and> (wdActivity w \<or> noRead n \<le> noSet n) \<and>
        (tmDue (wdTimer w) = Some (noSet n + timeout) \<and> \<not> tmFired (wdTimer w) \<or>
         tmDue (wdTimer w) = None \<and> tmFired (wdTimer w) \<and> noSet n + timeout \<le> noNow n)) \<and>
     (wdDone w \<longrightarrow> wdCanceled w \<and> tmDue (wdTimer w) = None \<and> \<not> tmFired (wdTimer w)) \<and>
     (case noIdle n of
        None \<Rightarrow> True
      | Some (at, waiting) \<Rightarrow> at \<le> noNow n \<and> noSet n + timeout \<le> at \<and> wdCanceled w \<and>
          (\<not> waiting \<longrightarrow> noRead n \<le> at - timeout \<or> at \<le> noRead n))"

lemma wd_inv_expiry: "wd_inv timeout w n \<Longrightarrow> wd_inv timeout (w\<lparr>wdTimer := timer_expire (noNow n) (wdTimer w)\<rparr>) n"
  by (auto simp: wd_inv_def timer_expire_def split: option.splits)

lemma wd_inv_goroutine:
  assumes "wd_inv timeout w n" "\<not> wdDone w"
  shows "wdCanceled w \<Longrightarrow> wd_inv timeout (run_canceled w) n"
    and "wd_inv timeout (run_activity (noNow n) timeout w) (n\<lparr>noSet := noNow n\<rparr>)"
    and "tmFired (wdTimer w) \<Longrightarrow> wd_inv timeout (run_timeout w) (n\<lparr>noIdle := Some (noNow n, wdActivity w)\<rparr>)"
  using assms by (auto simp: wd_inv_def watchdog_defs)

lemma wd_inv_read:
  "wd_inv timeout w n \<Longrightarrow> wd_inv timeout (activity_Read k w) (if 0 < k then n\<lparr>noRead := noNow n\<rparr> else n)"
  by (auto simp: wd_inv_def watchdog_defs split: option.split)

lemma watchdog_run_inv: "watchdog_run timeout w n \<Longrightarrow> wd_inv timeout w n"
proof (induction rule: watchdog_run.induct)
  case (clock w n now)
  then show ?case by (auto simp: wd_inv_def split: option.split)
next
  case (stop w n)
  then show ?case by (auto simp: wd_inv_def watchdog_defs split: option.split)
next
  case (parent w n)
  then show ?case by (auto simp: wd_inv_def watchdog_defs split: option.split)
qed (simp_all add: wd_inv_expiry wd_inv_goroutine wd_inv_read, simp add: wd_inv_def watchdog_defs)

section \<open>The end of the goroutine\<close>

text \<open>Every round of the loop uses up the notice of activity or the goroutine itself.\<close>

definition rounds_left :: "StreamIdleWatchdog \<Rightarrow> nat" where
  "rounds_left w = (if wdDone w then 0 else if wdActivity w then 2 else 1)"

lemma run_step_decreases: "run_step now timeout w w' \<Longrightarrow> rounds_left w' < rounds_left w"
  by (auto simp: run_step_simps rounds_left_def watchdog_defs)

lemma run_step_enabled: "wdCanceled w \<Longrightarrow> \<not> wdDone w \<Longrightarrow> \<exists>w'. run_step now timeout w w'"
  by (blast intro: run_step.canceled)

lemma run_step_canceled: "run_step now timeout w w' \<Longrightarrow> wdCanceled w \<Longrightarrow> wdCanceled w'"
  by (auto simp: run_step_simps watchdog_defs)

lemma run_steps_canceled: "(run_step now timeout)\<^sup>*\<^sup>* w w' \<Longrightarrow> wdCanceled w \<Longrightarrow> wdCanceled w'"
  by (induction rule: rtranclp_induct) (auto dest: run_step_canceled)

lemma run_steps_bounded: "(run_step now timeout ^^ k) w w' \<Longrightarrow> k + rounds_left w' \<le> rounds_left w"
proof (induction k arbitrary: w')
  case (Suc k)
  then obtain v where "(run_step now timeout ^^ k) w v" "run_step now timeout v w'" by auto
  with Suc.IH [of v] run_step_decreases [of now timeout v w'] show ?case by simp
qed simp

text \<open>A goroutine that ended has released its timer.\<close>

definition released :: "StreamIdleWatchdog \<Rightarrow> bool" where
  "released w \<longleftrightarrow> (wdDone w \<longrightarrow> tmDue (wdTimer w) = None \<and> \<not> tmFired (wdTimer w))"

lemma stop_and_drain_empty: "stop_and_drain t = \<lparr>tmDue = None, tmFired = False\<rparr>"
  by (simp add: stop_and_drain_def timer_Stop_def)

lemma run_step_released: "run_step now timeout w w' \<Longrightarrow> released w'"
  by (auto simp: run_step_simps released_def stop_and_drain_empty run_canceled_def run_activity_def
      run_timeout_def run_return_def)

lemma run_steps_released: "(run_step now timeout)\<^sup>*\<^sup>* w w' \<Longrightarrow> released w \<Longrightarrow> released w'"
  by (induction rule: rtranclp_induct) (auto dest: run_step_released)

lemma wd_inv_noticed:
  assumes "wd_inv timeout w n" "\<not> wdDone w" "noSet n + timeout \<le> noNow n"
  shows "\<exists>w'. run_step (noNow n) timeout (w\<lparr>wdTimer := timer_expire (noNow n) (wdTimer w)\<rparr>) w' \<and>
    wdCanceled w' \<and> Stop_returns w'"
proof (intro exI conjI)
  let ?w = "w\<lparr>wdTimer := timer_expire (noNow n) (wdTimer w)\<rparr>"
  have "tmFired (wdTimer ?w)" using assms by (auto simp: wd_inv_def timer_expire_def split: option.split)
  then show "run_step (noNow n) timeout ?w (run_timeout ?w)" using assms(2) by (intro run_step.idle) simp_all
  show "wdCanceled (run_timeout ?w)" "Stop_returns (run_timeout ?w)"
    by (simp_all add: watchdog_defs Stop_returns_def)
qed

section \<open>Properties\<close>


text \<open>Streams are cancelled for idleness only when they are idle, and idle streams are noticed. In
  every run in which the watchdog cancelled the stream, the timer had not been set for the timeout, and
  unless a read was just waiting to be noticed no bytes were read during the timeout before the
  cancellation. While the goroutine runs, the next delivery of the timer after the timeout has passed
  makes the cancelling branch ready.\<close>

lemma idle_streams_canceled:
  assumes "watchdog_run timeout w n"
  shows "(\<forall>at waiting. noIdle n = Some (at, waiting) \<longrightarrow> wdCanceled w \<and> noSet n \<le> at - timeout \<and>
      (waiting \<or> noRead n \<le> at - timeout \<or> at \<le> noRead n)) \<and>
    (\<not> wdDone w \<longrightarrow> (wdActivity w \<or> noRead n \<le> noSet n) \<and>
      (noSet n + timeout \<le> noNow n \<longrightarrow>
        (\<exists>w'. run_step (noNow n) timeout (w\<lparr>wdTimer := timer_expire (noNow n) (wdTimer w)\<rparr>) w' \<and>
           wdCanceled w' \<and> Stop_returns w')))"
  using watchdog_run_inv [OF assms] wd_inv_noticed [of timeout w n] by (auto simp: wd_inv_def)

section \<open>Witnesses\<close>

text \<open>A stream that read once after three seconds and then stayed silent for the five seconds of its
  timeout.\<close>

definition quiet_stream :: StreamIdleWatchdog where
  "quiet_stream = (run_activity 3 5 (activity_Read 7 (NewStreamIdleWatchdog 0 5 False)))"

definition quiet_note :: wd_note where
  "quiet_note = \<lparr>noNow = 9, noSet = 3, noRead = 3, noIdle = None\<rparr>"

lemma quiet_stream_runs: "watchdog_run 5 quiet_stream quiet_note"
proof -
  have "watchdog_run 5 (NewStreamIdleWatchdog 0 5 False) \<lparr>noNow = 3, noSet = 0, noRead = 0, noIdle = None\<rparr>"
    using watchdog_run.clock [OF watchdog_run.start [of 5 0 False], of 3] by simp
  from watchdog_run.read [OF this, of 7]
  have "watchdog_run 5 (activity_Read 7 (NewStreamIdleWatchdog 0 5 False)) \<lparr>noNow = 3, noSet = 0, noRead = 3, noIdle = None\<rparr>"
    by simp
  from watchdog_run.active [OF this]
  have "watchdog_run 5 quiet_stream \<lparr>noNow = 3, noSet = 3, noRead = 3, noIdle = None\<rparr>"
    by (simp add: quiet_stream_def watchdog_defs)
  from watchdog_run.clock [OF this, of 9] show ?thesis by (simp add: quiet_note_def)
qed


lemma idle_streams_canceled_witness:
  "\<exists>w'. run_step 9 5 (quiet_stream\<lparr>wdTimer := timer_expire 9 (wdTimer quiet_stream)\<rparr>) w' \<and>
     wdCanceled w' \<and> Stop_returns w'"
  using idle_streams_canceled [OF quiet_stream_runs]
  by (simp add: quiet_note_def quiet_stream_def watchdog_defs)

end
