(* ===== verification/Http_Api.thy ===== *)
theory Http_Api
  imports Streaming Anthropic_Adapter
begin

text \<open>
  The client-facing HTTP API (\<open>internal/httpapi\<close>): the chat completion handler with its checks of
  method, media type and body, the table of error responses, the writer of the event stream, and the
  response writer and outcome of the tracing middleware. The network answers every write with the
  number of bytes it took and possibly an error; the completer behind the handler is an argument.
\<close>

section \<open>The response writer\<close>

text \<open>\<open>tracingResponseWriter\<close>: headers may change until the status is sent, the first status wins,
  and what reached the client is the body. The outcome is set by the handler for a failed stream.\<close>

record response_writer =
  rwHeader :: "string \<rightharpoonup> string"
  rwStatus :: int
  rwSent :: "string \<rightharpoonup> string"
  rwBody :: string
  rwWrites :: nat
  rwOutcome :: string

type_synonym network = "nat \<Rightarrow> string \<Rightarrow> nat \<times> go_error option"

definition new_writer :: response_writer where
  "new_writer = \<lparr>rwHeader = Map.empty, rwStatus = 0, rwSent = Map.empty, rwBody = [], rwWrites = 0, rwOutcome = []\<rparr>"

definition set_header :: "string \<Rightarrow> string \<Rightarrow> response_writer \<Rightarrow> response_writer" where
  "set_header k v w = w\<lparr>rwHeader := (rwHeader w)(k \<mapsto> v)\<rparr>"

definition rw_WriteHeader :: "int \<Rightarrow> response_writer \<Rightarrow> response_writer" where
  "rw_WriteHeader status w = (if rwStatus w \<noteq> 0 then w else w\<lparr>rwStatus := status, rwSent := rwHeader w\<rparr>)"

definition rw_Write :: "network \<Rightarrow> string \<Rightarrow> response_writer \<Rightarrow> (nat \<times> go_error option) \<times> response_writer" where
  "rw_Write net data w =
     (let w1 = (if rwStatus w = 0 then w\<lparr>rwStatus := 200, rwSent := rwHeader w\<rparr> else w) in
      case net (rwWrites w1) data of (written, err) \<Rightarrow>
        ((min written (length data), err),
         w1\<lparr>rwBody := rwBody w1 @ take written data, rwWrites := Suc (rwWrites w1)\<rparr>))"

definition rw_Flush :: "response_writer \<Rightarrow> response_writer" where
  "rw_Flush w = (if rwStatus w = 0 then w\<lparr>rwStatus := 200, rwSent := rwHeader w\<rparr> else w)"

definition setTraceOutcome :: "string \<Rightarrow> response_writer \<Rightarrow> response_writer" where
  "setTraceOutcome outcome w = w\<lparr>rwOutcome := outcome\<rparr>"

section \<open>Errors\<close>

record APIError =
  aeMessage :: string
  aeType :: string
  aeParam :: "string option"
  aeCode :: string

definition ErrorResponse_json :: "APIError \<Rightarrow> json" where
  "ErrorResponse_json e = JObj [(''error'', JObj
     ([(''message'', JStr (aeMessage e)), (''type'', JStr (aeType e))] @
      optional_field ''param'' JStr (aeParam e) @ [(''code'', JStr (aeCode e))]))]"

definition writeJSON :: "network \<Rightarrow> int \<Rightarrow> json \<Rightarrow> response_writer \<Rightarrow> response_writer" where
  "writeJSON net status value' w =
     snd (rw_Write net (Encoder_Encode value')
       (rw_WriteHeader status (set_header ''Content-Type'' ''application/json'' w)))"

definition writeError ::
  "network \<Rightarrow> int \<Rightarrow> string \<Rightarrow> string \<Rightarrow> string option \<Rightarrow> string \<Rightarrow> response_writer \<Rightarrow> response_writer" where
  "writeError net status message errorType param code =
     writeJSON net status (ErrorResponse_json \<lparr>aeMessage = message, aeType = errorType, aeParam = param, aeCode = code\<rparr>)"

text \<open>\<open>Error()\<close> of the program's errors; the \<open>%q\<close> verb is an argument.\<close>

fun kind_text :: "ErrorKind \<Rightarrow> string" where
  "kind_text ErrorInvalidRequest = ''invalid_request''"
| "kind_text ErrorUnavailable = ''unavailable''"
| "kind_text ErrorTimeout = ''timeout''"
| "kind_text ErrorRateLimited = ''rate_limited''"
| "kind_text ErrorInternal = ''internal''"
| "kind_text (OtherErrorKind s) = s"

fun error_text :: "(string \<Rightarrow> string) \<Rightarrow> go_error \<Rightarrow> string" where
  "error_text quote ErrModelRequired = ''model is required''"
| "error_text quote ErrMessagesRequired = ''at least one message is required''"
| "error_text quote ErrStreamingUnsupported = ''streaming is not supported''"
| "error_text quote ErrNoProviders = ''no providers are configured''"
| "error_text quote ErrNativeModelInAuto = ''provider-native models require explicit provider selection''"
| "error_text quote ErrNoUsableModelMapping = ''logical model is unavailable for configured providers''"
| "error_text quote ErrCircuitOpen = ''provider circuit is open''"
| "error_text quote (UnsupportedRoleError i r) = ''messages['' @ decimal i @ ''].role '' @ quote r @ '' is not supported''"
| "error_text quote (ResolutionError ErrorUnknownAlias) = ''unknown logical model''"
| "error_text quote (ResolutionError ErrorMissingMapping) = ''logical model is unavailable for the selected provider''"
| "error_text quote (ProviderError k n e) =
     (if n = [] then ''provider '' @ kind_text k @ '': '' @ error_text quote e
      else ''provider '' @ n @ '' '' @ kind_text k @ '': '' @ error_text quote e)"
| "error_text quote EOF = ''EOF''"
| "error_text quote ContextCanceled = ''context canceled''"
| "error_text quote ContextDeadlineExceeded = ''context deadline exceeded''"
| "error_text quote (PlainError m) = m"
| "error_text quote (WrapError m e) = m"

definition writeProviderError :: "network \<Rightarrow> go_error \<Rightarrow> response_writer \<Rightarrow> response_writer" where
  "writeProviderError net err =
     (case as_provider_error err of
        None \<Rightarrow> writeError net 500 ''an internal error occurred'' ''server_error'' None ''internal_error''
      | Some (kind, _) \<Rightarrow>
          (case kind of
             ErrorInvalidRequest \<Rightarrow>
               writeError net 400 ''the provider rejected the request'' ''invalid_request_error'' None ''provider_invalid_request''
           | ErrorRateLimited \<Rightarrow>
               writeError net 429 ''the provider rate limit was exceeded'' ''rate_limit_error'' None ''provider_rate_limited''
           | ErrorTimeout \<Rightarrow> writeError net 504 ''the provider timed out'' ''server_error'' None ''provider_timeout''
           | ErrorUnavailable \<Rightarrow>
               writeError net 503 ''the provider is unavailable'' ''server_error'' None ''provider_unavailable''
           | _ \<Rightarrow> writeError net 502 ''the provider request failed'' ''server_error'' None ''provider_error''))"

definition writeCompletionError ::
  "network \<Rightarrow> (string \<Rightarrow> string) \<Rightarrow> go_error \<Rightarrow> response_writer \<Rightarrow> response_writer" where
  "writeCompletionError net quote err =
     (if errors_is err ErrModelRequired
      then writeError net 400 (error_text quote err) ''invalid_request_error'' (Some ''model'') ''model_required''
      else if errors_is err ErrMessagesRequired
      then writeError net 400 (error_text quote err) ''invalid_request_error'' (Some ''messages'') ''messages_required''
      else if errors_is err ErrStreamingUnsupported
      then writeError net 400 (error_text quote err) ''invalid_request_error'' (Some ''stream'') ''unsupported_parameter''
      else if as_role_error err \<noteq> None
      then writeError net 400 (error_text quote err) ''invalid_request_error'' (Some ''messages'') ''unsupported_value''
      else if errors_is err ErrNativeModelInAuto
      then writeError net 400 ''provider-native models require explicit provider selection''
             ''invalid_request_error'' (Some ''model'') ''provider_required''
      else if as_resolution_error err = Some ErrorUnknownAlias
      then writeError net 400 ''the requested logical model is unknown''
             ''invalid_request_error'' (Some ''model'') ''unknown_model''
      else if as_resolution_error err \<noteq> None \<or> errors_is err ErrNoUsableModelMapping
      then writeError net 503 ''the requested model is unavailable'' ''server_error'' None ''model_unavailable''
      else writeProviderError net err)"

section \<open>The event stream\<close>

definition ChunkDelta_json :: "StreamChunk \<Rightarrow> json" where
  "ChunkDelta_json c = JObj
     ((if ckRole c = [] then [] else [(''role'', JStr (ckRole c))]) @
      (if ckContent c = [] then [] else [(''content'', JStr (ckContent c))]))"

definition ChunkChoice_json :: "StreamChunk \<Rightarrow> json" where
  "ChunkChoice_json c = JObj
     [(''index'', json_int 0), (''delta'', ChunkDelta_json c),
      (''finish_reason'', if ckFinishReason c = [] then JNull else JStr (ckFinishReason c))]"

definition ChatCompletionChunk_json :: "StreamChunk \<Rightarrow> json" where
  "ChatCompletionChunk_json c = JObj
     [(''id'', JStr (ckID c)), (''object'', JStr ''chat.completion.chunk''), (''created'', json_int (ckCreated c)),
      (''model'', JStr (ckModel c)), (''choices'', JArr [ChunkChoice_json c])]"

definition chunk_frame :: "StreamChunk \<Rightarrow> string" where
  "chunk_frame c = ''data: '' @ Marshal (ChatCompletionChunk_json c) @ [newline, newline]"

definition done_frame :: string where
  "done_frame = ''data: [DONE]'' @ [newline, newline]"

definition prepareSSE :: "response_writer \<Rightarrow> response_writer" where
  "prepareSSE w =
     (let w1 = set_header ''Cache-Control'' ''no-cache'' (set_header ''Content-Type'' ''text/event-stream'' w)
      in w1\<lparr>rwHeader := (rwHeader w1)(''Content-Length'' := None)\<rparr>)"

definition emit :: "network \<Rightarrow> StreamChunk \<Rightarrow> bool \<times> response_writer \<Rightarrow> go_error option \<times> bool \<times> response_writer" where
  "emit net chunk st =
     (case st of (committed, w) \<Rightarrow>
      case rw_Write net (chunk_frame chunk) (if committed then w else prepareSSE w) of
        ((written, err), w1) \<Rightarrow>
          (err, committed \<or> written > 0, if err = None then rw_Flush w1 else w1))"

text \<open>The completer's \<open>Stream\<close>: given the answer to its \<open>i\<close>-th emit, the chunks it emits and its
  error. Emits reach the handler in order.\<close>

type_synonym streamer = "ChatCompletionRequest \<Rightarrow> (nat \<Rightarrow> StreamChunk \<Rightarrow> go_error option) \<Rightarrow> StreamChunk list \<times> go_error option"

fun emit_all :: "network \<Rightarrow> StreamChunk list \<Rightarrow> bool \<times> response_writer \<Rightarrow> bool \<times> response_writer" where
  "emit_all net [] st = st"
| "emit_all net (c # cs) st = emit_all net cs (snd (emit net c st))"

definition recordCommittedStreamFailure :: "bool \<Rightarrow> response_writer \<Rightarrow> response_writer" where
  "recordCommittedStreamFailure canceled w =
     setTraceOutcome (if canceled then ''cancellation'' else ''failure'') w"

definition streamChatCompletions ::
  "network \<Rightarrow> (string \<Rightarrow> string) \<Rightarrow> bool \<Rightarrow> bool \<Rightarrow> streamer \<Rightarrow> ChatCompletionRequest \<Rightarrow> response_writer \<Rightarrow> response_writer" where
  "streamChatCompletions net quote flusher canceled stream req w =
     (if \<not> flusher
      then writeError net 500 ''streaming is unavailable'' ''server_error'' None ''streaming_unavailable'' w
      else
        (case stream req (\<lambda>i c. snd (net (rwWrites w + i) (chunk_frame c))) of (chunks, err) \<Rightarrow>
         case emit_all net chunks (False, w) of (committed, w1) \<Rightarrow>
         case err of
           Some e \<Rightarrow> if \<not> committed then writeCompletionError net quote e w1
                     else recordCommittedStreamFailure canceled w1
         | None \<Rightarrow> rw_Flush (snd (rw_Write net done_frame (if committed then w1 else prepareSSE w1)))))"

section \<open>The chat handler\<close>

definition maxRequestBodyBytes :: nat where
  "maxRequestBodyBytes = 2 ^ 20"

record http_in =
  hiMethod :: string
  hiPath :: string
  hiContentType :: string
  hiBody :: http_body

text \<open>\<open>http.MaxBytesReader\<close>: at most the limit arrives, and the reader ends normally only if the
  whole body fits.\<close>

definition limited_bytes :: "http_body \<Rightarrow> nat list" where
  "limited_bytes body = bytes_of (take maxRequestBodyBytes (bodyBytes body))"

definition limited_eof :: "http_body \<Rightarrow> bool" where
  "limited_eof body \<longleftrightarrow> length (bodyBytes body) \<le> maxRequestBodyBytes \<and> bodyError body = None"

definition ensureSingleJSONValue :: "bool \<Rightarrow> nat list \<Rightarrow> bool" where
  "ensureSingleJSONValue eof rest \<longleftrightarrow> Decode eof rest = DecodedEOF"

definition health :: "network \<Rightarrow> http_in \<Rightarrow> response_writer \<Rightarrow> response_writer" where
  "health net r w =
     (if hiMethod r \<noteq> ''GET''
      then writeError net 405 ''method not allowed'' ''invalid_request_error'' None ''method_not_allowed''
             (set_header ''Allow'' ''GET'' w)
      else writeJSON net 200 (JObj [(''status'', JStr ''ok'')]) w)"

text \<open>The request of a body, or the status, message and code of its refusal.\<close>

definition read_request :: "http_body \<Rightarrow> string + ChatCompletionRequest" where
  "read_request body =
     (let invalid = ''request body must contain valid JSON'' in
      case Decode (limited_eof body) (limited_bytes body) of
        DecodedValue v rest \<Rightarrow>
          (case decode_Request False v zero_request of
             None \<Rightarrow> Inl invalid
           | Some req \<Rightarrow>
               if ensureSingleJSONValue (limited_eof body) rest then Inr req
               else Inl ''request body must contain a single JSON object'')
      | DecodedReadError \<Rightarrow>
          Inl (if length (bodyBytes body) > maxRequestBodyBytes then ''request body is too large'' else invalid)
      | _ \<Rightarrow> Inl invalid)"

text \<open>The handler's result: the request the completer was called with, if it was, and the response.\<close>

definition chatCompletions ::
  "network \<Rightarrow> (string \<Rightarrow> string) \<Rightarrow> bool \<Rightarrow> bool \<Rightarrow>
   (ChatCompletionRequest \<Rightarrow> ChatCompletionResponse \<times> go_error option) \<Rightarrow> streamer \<Rightarrow> http_in \<Rightarrow> response_writer
   \<Rightarrow> ChatCompletionRequest option \<times> response_writer" where
  "chatCompletions net quote flusher canceled complete' stream r w =
     (if hiMethod r \<noteq> ''POST''
      then (None, writeError net 405 ''method not allowed'' ''invalid_request_error'' None ''method_not_allowed''
              (set_header ''Allow'' ''POST'' w))
      else if ParseMediaType (hiContentType r) \<noteq> Some ''application/json''
      then (None, writeError net 415 ''content type must be application/json'' ''invalid_request_error'' None
              ''unsupported_media_type'' w)
      else (case read_request (hiBody r) of
              Inl message \<Rightarrow> (None, writeError net 400 message ''invalid_request_error'' None ''invalid_json'' w)
            | Inr req \<Rightarrow>
                if reqStream req
                then (Some req, streamChatCompletions net quote flusher canceled stream req w)
                else (case complete' req of
                        (response, Some err) \<Rightarrow> (Some req, writeCompletionError net quote err w)
                      | (response, None) \<Rightarrow> (Some req, writeJSON net 200 (Response_json response) w))))"

section \<open>The tracing middleware\<close>

definition chatCompletionsRoute :: string where
  "chatCompletionsRoute = ''/v1/chat/completions''"

definition requestOutcome :: "bool \<Rightarrow> int \<Rightarrow> string" where
  "requestOutcome canceled status =
     (if canceled then ''cancellation''
      else if status \<ge> 500 then ''server_error''
      else if status \<ge> 400 then ''client_error''
      else ''success'')"

text \<open>What the middleware records of a request: its policy, mode and outcome. Other requests pass
  through unrecorded.\<close>

record request_metric =
  rmPolicy :: string
  rmStreaming :: bool
  rmOutcome :: string

definition traced_outcome :: "bool \<Rightarrow> response_writer \<Rightarrow> string" where
  "traced_outcome canceled w =
     (let status = (if rwStatus w = 0 then 200 else rwStatus w)
      in if rwOutcome w \<noteq> [] then rwOutcome w else requestOutcome canceled status)"

definition TraceRequests ::
  "(http_in \<Rightarrow> response_writer \<Rightarrow> ChatCompletionRequest option \<times> response_writer) \<Rightarrow> string \<Rightarrow> bool \<Rightarrow> http_in \<Rightarrow> response_writer
   \<Rightarrow> request_metric option \<times> response_writer" where
  "TraceRequests next policy canceled r w =
     (if hiMethod r \<noteq> ''POST'' \<or> hiPath r \<noteq> chatCompletionsRoute then (None, snd (next r w))
      else (case next r w of (called, w1) \<Rightarrow>
        (Some \<lparr>rmPolicy = policy,
           rmStreaming = (case called of None \<Rightarrow> False | Some req \<Rightarrow> reqStream req),
           rmOutcome = traced_outcome canceled w1\<rparr>, w1)))"

section \<open>The stream on the wire\<close>

lemma Marshal_visible:
  assumes "int_literals v"
  shows "newline \<notin> set (Marshal v)" "carriage_return \<notin> set (Marshal v)"
proof -
  have "32 \<le> (of_char c :: nat)" if "c \<in> set (Marshal v)" for c
    using that print_json_visible [OF assms] print_json_byte [of _ v]
    by (auto simp: Marshal_def string_of_def of_char_of)
  then show "newline \<notin> set (Marshal v)" "carriage_return \<notin> set (Marshal v)"
    by (fastforce simp: newline_def carriage_return_def)+
qed

lemma chunk_json_ok: "int_literals (ChatCompletionChunk_json c)" "json_depth (ChatCompletionChunk_json c) \<le> maxNestingDepth"
  by (auto simp: ChatCompletionChunk_json_def ChunkChoice_json_def ChunkDelta_json_def maxNestingDepth_def)

definition chunk_event :: "StreamChunk \<Rightarrow> SSEEvent" where
  "chunk_event c = \<lparr>seType = [], seData = Marshal (ChatCompletionChunk_json c)\<rparr>"

definition done_event :: SSEEvent where
  "done_event = \<lparr>seType = [], seData = ''[DONE]''\<rparr>"

text \<open>A chunk whose frame the reader takes in one event.\<close>

definition frame_fits :: "StreamChunk \<Rightarrow> bool" where
  "frame_fits c \<longleftrightarrow> length (Marshal (ChatCompletionChunk_json c)) + 7 < MaxSSEEventSize"

text \<open>What the wire keeps of a chunk: its strings made valid, no usage.\<close>

definition wire_chunk :: "StreamChunk \<Rightarrow> StreamChunk" where
  "wire_chunk c = \<lparr>ckID = sanitize_string (ckID c), ckCreated = ckCreated c, ckModel = sanitize_string (ckModel c),
     ckRole = sanitize_string (ckRole c), ckContent = sanitize_string (ckContent c),
     ckFinishReason = sanitize_string (ckFinishReason c), ckUsage = None\<rparr>"

lemma split_lines_single: "newline \<notin> set d \<Longrightarrow> split_lines d = [d]"
  by (cases d rule: split_first_line) auto

lemma render_data: "newline \<notin> set d \<Longrightarrow> d \<noteq> [] \<Longrightarrow> render_event \<lparr>seType = [], seData = d\<rparr> = ''data: '' @ d @ [newline, newline]"
  by (simp add: render_event_def data_lines_def split_lines_single)

lemma Marshal_obj: "Marshal (JObj kvs) = CHR ''{'' # string_of (tl (print_json (JObj kvs)))"
proof -
  have "char_of (123 :: nat) = CHR ''{''" by code_simp
  then show ?thesis by (simp add: Marshal_def string_of_def)
qed

lemma chunk_frame_event: "chunk_frame c = render_event (chunk_event c)"
  using Marshal_visible(1) [OF chunk_json_ok(1), of c]
  by (simp add: chunk_frame_def chunk_event_def render_data Marshal_obj ChatCompletionChunk_json_def)

lemma done_frame_event: "done_frame = render_event done_event"
  by (simp add: done_frame_def done_event_def render_data newline_def)

lemma chunk_event_writable: "frame_fits c \<Longrightarrow> writable_event (chunk_event c)"
proof -
  have "Marshal (ChatCompletionChunk_json c) \<noteq> []" "hd (Marshal (ChatCompletionChunk_json c)) \<noteq> newline"
    by (simp_all add: Marshal_obj ChatCompletionChunk_json_def newline_def)
  moreover from this(1) have "last (Marshal (ChatCompletionChunk_json c)) \<noteq> carriage_return"
    using Marshal_visible(2) [OF chunk_json_ok(1), of c] last_in_set by metis
  moreover note Marshal_visible(1) [OF chunk_json_ok(1), of c]
  ultimately show "frame_fits c \<Longrightarrow> writable_event (chunk_event c)"
    by (auto simp: writable_event_def chunk_event_def plain_line_def split_lines_single frame_fits_def
        MaxSSEEventSize_def)
qed

lemma done_event_writable: "writable_event done_event"
proof -
  have "split_lines ''[DONE]'' = [''[DONE]'']" by (rule split_lines_single) (simp add: newline_def)
  then show ?thesis
    by (simp add: writable_event_def done_event_def plain_line_def newline_def carriage_return_def MaxSSEEventSize_def)
qed

text \<open>The adapter decodes a chunk that the handler wrote.\<close>

lemma sanitize_chunk_json: "sanitize (ChatCompletionChunk_json c) = ChatCompletionChunk_json (wire_chunk c)"
  by (simp add: ChatCompletionChunk_json_def ChunkChoice_json_def ChunkDelta_json_def wire_chunk_def sanitize_ascii)

lemma decode_chunk_json:
  assumes "in_i64 (ckCreated c)"
  shows "decode_streamResponse (ChatCompletionChunk_json c) =
    Some \<lparr>ssID = ckID c, ssCreated = ckCreated c, ssModel = ckModel c,
      ssChoices = [\<lparr>scDelta = \<lparr>sdRole = ckRole c, sdContent = ckContent c\<rparr>,
        scFinishReason = (if ckFinishReason c = [] then None else Some (ckFinishReason c))\<rparr>],
      ssUsage = None\<rparr>"
proof -
  have "decode_streamChoice (ChunkChoice_json c) zero_streamChoice =
    Some \<lparr>scDelta = \<lparr>sdRole = ckRole c, sdContent = ckContent c\<rparr>,
      scFinishReason = (if ckFinishReason c = [] then None else Some (ckFinishReason c))\<rparr>"
    by (auto simp: decode_streamChoice_def decode_struct_def ChunkChoice_json_def ChunkDelta_json_def
        streamChoice_field_def streamDelta_field_def struct_field_def zero_streamChoice_def decode_pointer_def
        fold_name_def fold_rune_def string_runes_def)
  then show ?thesis using assms
    by (simp add: decode_streamResponse_def decode_struct_def ChatCompletionChunk_json_def
        streamResponse_field_def struct_field_def zero_streamResponse_def decode_slice_def
        fold_name_def fold_rune_def string_runes_def)
qed

lemma openai_event_chunk:
  assumes "in_i64 (ckCreated c)"
  shows "openai_event now s (chunk_event c) = (Chunk (wire_chunk c), ())"
proof -
  have u: "Unmarshal_value (Marshal (ChatCompletionChunk_json c)) = Some (ChatCompletionChunk_json (wire_chunk c))"
    by (simp add: Unmarshal_Marshal [OF chunk_json_ok] sanitize_chunk_json)
  have "in_i64 (ckCreated (wire_chunk c))" using assms by (simp add: wire_chunk_def)
  then have "decode_streamResponse (ChatCompletionChunk_json (wire_chunk c)) = Some r \<Longrightarrow> openai_chunk r = Chunk (wire_chunk c)" for r
    by (auto simp: decode_chunk_json openai_chunk_def openai_normalizeUsage_def wire_chunk_def)
  with decode_chunk_json [of "wire_chunk c"] u \<open>in_i64 (ckCreated (wire_chunk c))\<close> show ?thesis
    by (simp add: openai_event_def chunk_event_def) (simp add: Marshal_obj ChatCompletionChunk_json_def)
qed

lemma openai_event_done: "openai_event now s done_event = (Finish, ())"
  by (simp add: openai_event_def done_event_def)

text \<open>Chunks in the range of Go's integers that fit the reader.\<close>

definition relayable :: "StreamChunk \<Rightarrow> bool" where
  "relayable c \<longleftrightarrow> frame_fits c \<and> in_i64 (ckCreated c)"

text \<open>Ten kilobytes of text always fit.\<close>

lemma small_delta:
  "length (print_json (ChunkDelta_json c)) \<le> 6 * length (ckRole c) + 6 * length (ckContent c) + 100"
  using print_string_length [of "ckRole c"] print_string_length [of "ckContent c"]
    print_string_length [of "''role''"] print_string_length [of "''content''"]
  by (simp add: ChunkDelta_json_def)

lemma small_choice:
  "length (print_json (ChunkChoice_json c)) \<le>
   6 * length (ckRole c) + 6 * length (ckContent c) + 6 * length (ckFinishReason c) + 300"
  using small_delta [of c] print_string_length [of "ckFinishReason c"] print_string_length [of "''index''"]
    print_string_length [of "''delta''"] print_string_length [of "''finish_reason''"] json_int_length [of 0]
  by (simp add: ChunkChoice_json_def in_i64_def MinInt64_def MaxInt64_def)

lemma small_relayable:
  assumes "length (ckID c) + length (ckModel c) + length (ckRole c) + length (ckContent c) + length (ckFinishReason c) \<le> 10000"
    "in_i64 (ckCreated c)"
  shows "relayable c"
  using assms small_choice [of c] print_string_length [of "ckID c"] print_string_length [of "ckModel c"]
    print_string_length [of "''id''"] print_string_length [of "''object''"]
    print_string_length [of "''chat.completion.chunk''"] print_string_length [of "''created''"]
    print_string_length [of "''model''"] print_string_length [of "''choices''"] json_int_length [of "ckCreated c"]
  by (simp add: relayable_def frame_fits_def Marshal_def string_of_def ChatCompletionChunk_json_def MaxSSEEventSize_def)

lemma process_chunks:
  "list_all relayable cs \<Longrightarrow>
   process_events openai_event clock n () (map chunk_event cs @ evs) err =
     (map wire_chunk cs @ fst (process_events openai_event clock (n + length cs) () evs err),
      snd (process_events openai_event clock (n + length cs) () evs err))"
  by (induction cs arbitrary: n) (simp_all add: relayable_def openai_event_chunk split_beta)

lemma drain_frames:
  assumes "list_all relayable cs"
  shows "adapter_drain openai_event (stream_read_error openai_Name None) clock 0
      \<lparr>asState = (), asReader = NewSSEReader \<lparr>bodyBytes = concat (map chunk_frame cs) @ (if fin then done_frame else []),
         bodyError = None\<rparr>, asDone = False\<rparr> =
    (map wire_chunk cs, if fin then EOF
       else NewError ErrorUnavailable openai_Name (PlainError ''upstream stream ended unexpectedly''))"
proof -
  let ?evs = "map chunk_event cs @ (if fin then [done_event] else [])"
  have "list_all writable_event ?evs"
    using assms chunk_event_writable done_event_writable by (auto simp: list_all_iff relayable_def)
  moreover have "concat (map chunk_frame cs) @ (if fin then done_frame else []) = concat (map render_event ?evs)"
    by (simp add: chunk_frame_event [THEN ext] done_frame_event comp_def)
  ultimately have "sse_all (NewSSEReader \<lparr>bodyBytes = concat (map chunk_frame cs) @ (if fin then done_frame else []),
      bodyError = None\<rparr>) = (?evs, EOF)"
    using sse_all_rendered [of ?evs] by (simp add: NewSSEReader_def)
  then show ?thesis
    using process_chunks [OF assms, of clock 0]
    by (auto simp: adapter_drain_process openai_event_done stream_read_error_def)
qed

section \<open>Media types\<close>

lemma ToLower_lower:
  assumes "\<forall>c \<in> set s. of_char c < (128 :: nat) \<and> \<not> (65 \<le> (of_char c :: nat) \<and> of_char c \<le> (90 :: nat))"
  shows "ToLower s = s"
proof -
  have r: "string_runes s = map of_char s"
    using utf8_runes_ascii [of "map of_char s"] assms by (auto simp: string_runes_def)
  moreover have "map lower_rune (map of_char s) = map of_char s"
    using assms by (auto simp: lower_rune_def)
  ultimately show ?thesis
    using sanitize_ascii [of s] assms by (simp only: ToLower_def sanitize_string_def) auto
qed

lemma media_params_Nil: "media_params p []"
proof -
  have "trim_left [] = []" by (subst trim_left.simps) simp
  then show ?thesis by (subst media_params.simps) simp
qed

lemma ParseMediaType_json: "ParseMediaType ''application/json'' = Some ''application/json''"
  by (simp add: ParseMediaType_def ToLower_lower TrimSpace_plain plain_char_def checkMediaType_def
      consumeToken_def is_token_char_def media_params_Nil Let_def)

section \<open>What the writer holds\<close>

text \<open>A network that takes every write.\<close>

definition reliable :: network where
  "reliable k data = (length data, None)"

lemma rw_Write_reliable:
  "rw_Write reliable data w = ((length data, None),
     (if rwStatus w = 0 then w\<lparr>rwStatus := 200, rwSent := rwHeader w\<rparr> else w)
       \<lparr>rwBody := rwBody w @ data, rwWrites := Suc (rwWrites w)\<rparr>)"
  by (simp add: rw_Write_def reliable_def)

lemma writeJSON_new:
  "rwStatus (writeJSON reliable status v w) = (if rwStatus w = 0 then status else rwStatus w)"
  "rwStatus w = 0 \<Longrightarrow> status \<noteq> 0 \<Longrightarrow> rwSent (writeJSON reliable status v w) ''Content-Type'' = Some ''application/json''"
  "rwBody (writeJSON reliable status v w) = rwBody w @ Encoder_Encode v"
  "rwOutcome (writeJSON reliable status v w) = rwOutcome w"
  if "status \<noteq> 0"
  using that by (auto simp: writeJSON_def rw_Write_reliable rw_WriteHeader_def set_header_def)

lemma emit_all_committed:
  "rwStatus w \<noteq> 0 \<Longrightarrow> emit_all reliable cs (True, w) =
     (True, w\<lparr>rwBody := rwBody w @ concat (map chunk_frame cs), rwWrites := rwWrites w + length cs\<rparr>)"
  by (induction cs arbitrary: w) (simp_all add: emit_def rw_Write_reliable rw_Flush_def)

lemma chunk_frame_nonempty [simp]: "chunk_frame c \<noteq> []"
  by (simp add: chunk_frame_def)

lemma emit_all_new:
  assumes "rwStatus w = 0" "cs \<noteq> []"
  obtains w' where "emit_all reliable cs (False, w) = (True, w')" "rwStatus w' = 200"
    "rwBody w' = rwBody w @ concat (map chunk_frame cs)" "rwSent w' ''Content-Type'' = Some ''text/event-stream''"
    "rwOutcome w' = rwOutcome w"
proof -
  obtain c cs' where cs: "cs = c # cs'" using assms(2) by (cases cs) auto
  show thesis
    using assms(1) that [of "snd (emit_all reliable cs (False, w))"]
    by (simp add: cs emit_def rw_Write_reliable rw_Flush_def emit_all_committed prepareSSE_def set_header_def)
qed

lemma writeError_new:
  "rwStatus w = 0 \<Longrightarrow> status \<noteq> 0 \<Longrightarrow>
   rwStatus (writeError reliable status m t p c w) = status \<and>
   rwBody (writeError reliable status m t p c w) =
     rwBody w @ Encoder_Encode (ErrorResponse_json \<lparr>aeMessage = m, aeType = t, aeParam = p, aeCode = c\<rparr>) \<and>
   rwSent (writeError reliable status m t p c w) ''Content-Type'' = Some ''application/json'' \<and>
   rwOutcome (writeError reliable status m t p c w) = rwOutcome w"
  by (simp add: writeError_def writeJSON_new)

text \<open>An error response: a status of at least 400, and a body that is one JSON error object.\<close>

definition error_reply :: "response_writer \<Rightarrow> bool" where
  "error_reply w \<longleftrightarrow> 400 \<le> rwStatus w \<and> rwSent w ''Content-Type'' = Some ''application/json'' \<and>
     (\<exists>e. Decode_single True (bytes_of (rwBody w)) = Some (sanitize (ErrorResponse_json e)))"

lemma ErrorResponse_ok: "int_literals (ErrorResponse_json e)" "json_depth (ErrorResponse_json e) \<le> maxNestingDepth"
  by (auto simp: ErrorResponse_json_def optional_field_def maxNestingDepth_def split: option.split)

lemma writeError_reply:
  "rwStatus w = 0 \<Longrightarrow> rwBody w = [] \<Longrightarrow> 400 \<le> status \<Longrightarrow> error_reply (writeError reliable status m t p c w)"
  using Decode_Encode [OF ErrorResponse_ok] by (auto simp: error_reply_def writeError_new)

lemma writeCompletionError_reply:
  "rwStatus w = 0 \<Longrightarrow> rwBody w = [] \<Longrightarrow> error_reply (writeCompletionError reliable quote e w)"
  by (simp add: writeCompletionError_def writeProviderError_def writeError_reply
      split: option.split prod.split ErrorKind.split)

text \<open>A body is read as a request exactly when it arrived whole, fits, and is one value.\<close>

lemma Decode_no_EOF: "Decode False s \<noteq> DecodedEOF"
  by (auto simp: Decode_def split: scan.splits)

lemma read_request_exact:
  "read_request body = Inr req \<longleftrightarrow>
     length (bodyBytes body) \<le> maxRequestBodyBytes \<and> bodyError body = None \<and>
     Option.bind (Decode_single True (bytes_of (bodyBytes body))) (\<lambda>v. decode_Request False v zero_request) = Some req"
proof (cases "limited_eof body")
  case True
  then have "limited_bytes body = bytes_of (bodyBytes body)"
    by (simp add: limited_eof_def limited_bytes_def)
  with True show ?thesis
    by (auto simp: read_request_def Decode_single_def ensureSingleJSONValue_def limited_eof_def
        split: decoded.splits option.splits if_splits)
next
  case False
  then have "read_request body \<noteq> Inr req"
    by (auto simp: read_request_def ensureSingleJSONValue_def Decode_no_EOF Let_def
        split: decoded.splits option.splits)
  with False show ?thesis by (auto simp: limited_eof_def)
qed

lemma response_reply:
  "Decode_single True (bytes_of (Encoder_Encode (Response_json r))) = Some (Response_json (sanitize_response r))"
  using Decode_Encode [OF Response_json_ok(1), of r] Response_json_ok(2) [of r]
  by (simp add: maxNestingDepth_def sanitize_Response_json)

text \<open>What the handler has written once a stream is over.\<close>

lemma relayed_response:
  fixes quote canceled and stream :: streamer
  assumes "stream req (\<lambda>i c. None) = (chunks, err)"
  defines "w \<equiv> streamChatCompletions reliable quote True canceled stream req new_writer"
  shows "if err = None \<or> chunks \<noteq> [] then rwStatus w = 200 \<and>
      rwSent w ''Content-Type'' = Some ''text/event-stream'' \<and>
      rwBody w = concat (map chunk_frame chunks) @ (if err = None then done_frame else []) \<and>
      rwOutcome w = (if err = None then [] else if canceled then ''cancellation'' else ''failure'')
    else error_reply w"
proof -
  have s: "stream req (\<lambda>i c. snd (reliable (rwWrites new_writer + i) (chunk_frame c))) = (chunks, err)"
    using assms(1) by (simp add: reliable_def)
  have new: "rwStatus new_writer = 0" "rwBody new_writer = []" "rwOutcome new_writer = []"
    by (simp_all add: new_writer_def)
  show ?thesis
  proof (cases "chunks = []")
    case True
    with s show ?thesis
      by (cases err) (simp_all add: w_def streamChatCompletions_def writeCompletionError_reply new rw_Write_reliable
          rw_Flush_def prepareSSE_def set_header_def Let_def)
  next
    case False
    obtain w' where w': "emit_all reliable chunks (False, new_writer) = (True, w')" "rwStatus w' = 200"
      "rwBody w' = concat (map chunk_frame chunks)" "rwSent w' ''Content-Type'' = Some ''text/event-stream''"
      "rwOutcome w' = []"
      using emit_all_new [OF new(1) False] new by auto
    with s False show ?thesis
      by (cases err) (simp_all add: w_def streamChatCompletions_def rw_Write_reliable rw_Flush_def
          recordCommittedStreamFailure_def setTraceOutcome_def)
  qed
qed

section \<open>Properties\<close>

text \<open>C6: A relayed stream is read as it was emitted. When the handler streams an answer over a
  connection that takes every write, a client that reads the response with the OpenAI adapter receives
  exactly the chunks the gateway emitted, with invalid UTF-8 replaced and without usage, and sees the
  end of the stream exactly when the gateway's stream succeeded; when it failed after the first chunk the
  client gets an unavailable error instead of an end and the request is recorded as failed or canceled;
  when it failed before the first chunk the client gets an ordinary error response.\<close>

theorem stream_relayed:
  assumes "stream req (\<lambda>i c. None) = (chunks, err)" "list_all relayable chunks"
  shows "let w = streamChatCompletions reliable quote True canceled stream req new_writer;
       read = adapter_drain openai_event (stream_read_error openai_Name None) clock 0
         \<lparr>asState = (), asReader = NewSSEReader \<lparr>bodyBytes = rwBody w, bodyError = None\<rparr>, asDone = False\<rparr>
     in if err = None \<or> chunks \<noteq> [] then
          rwStatus w = 200 \<and> rwSent w ''Content-Type'' = Some ''text/event-stream'' \<and>
          read = (map wire_chunk chunks, if err = None then EOF
            else NewError ErrorUnavailable openai_Name (PlainError ''upstream stream ended unexpectedly'')) \<and>
          (traced_outcome canceled w \<in> {''failure'', ''cancellation''} \<longleftrightarrow> err \<noteq> None \<or> canceled)
        else error_reply w"
  using relayed_response [of stream req chunks err quote canceled] drain_frames [OF assms(2), of clock "err = None"] assms(1)
  by (auto simp: Let_def traced_outcome_def requestOutcome_def split: if_splits)

theorem stream_relayed_witness:
  "let c = zero_chunk\<lparr>ckID := ''x'', ckRole := ''assistant'', ckContent := ''hi''\<rparr>;
     w = streamChatCompletions reliable (\<lambda>s. s) True False (\<lambda>req answers. ([c], None)) zero_request new_writer
   in adapter_drain openai_event (stream_read_error openai_Name None) (\<lambda>_. 0) 0
        \<lparr>asState = (), asReader = NewSSEReader \<lparr>bodyBytes = rwBody w, bodyError = None\<rparr>, asDone = False\<rparr>
      = ([c], EOF)"
proof -
  define c where "c = zero_chunk\<lparr>ckID := ''x'', ckRole := ''assistant'', ckContent := ''hi''\<rparr>"
  have "relayable c"
    by (rule small_relayable) (simp_all add: c_def zero_chunk_def in_i64_def MinInt64_def MaxInt64_def)
  moreover have "wire_chunk c = c" by (simp add: c_def zero_chunk_def wire_chunk_def sanitize_ascii)
  ultimately show ?thesis
    using stream_relayed [of "\<lambda>req answers. ([c], None)" zero_request "[c]" None "\<lambda>s. s" False "\<lambda>_. 0"]
    by (simp add: Let_def c_def [symmetric])
qed



text \<open>C16: How upstream failures reach the client. Whatever goes wrong in a completion of either HTTP
  adapter, the client is answered with status 400, 429, 502, 503 or 504; the status is 429, 503 or 504
  exactly for the failures that permit fallback and degrade the provider's health; and the response is
  determined by the kind of the failure alone, so neither upstream text nor the provider's name reaches
  the client.\<close>

theorem upstream_errors_mapped:
  assumes "openai_Complete client validURL p req = Inl e \<or> anthropic_Complete client validURL now p req = Inl e"
  shows "let status = rwStatus (writeCompletionError reliable quote e new_writer) in
    status \<in> {400, 429, 502, 503, 504} \<and>
    (status \<in> {429, 503, 504} \<longleftrightarrow> eligibleForFallback e) \<and>
    (eligibleForFallback e \<longleftrightarrow> degradesProviderHealth (Some e)) \<and>
    (\<exists>kind name. as_provider_error e = Some (kind, name) \<and>
       (\<forall>other m net w. writeCompletionError net quote e w =
          writeCompletionError net quote (NewError kind other (PlainError m)) w))"
proof -
  obtain kind name m where e: "e = NewError kind name (PlainError m)"
    using assms openai_Complete_facts(1) anthropic_Complete_facts(1) unfolding own_error_def by metis
  have "rwStatus new_writer = 0" by (simp add: new_writer_def)
  then show ?thesis
    unfolding e Let_def
    by (cases kind) (auto simp: NewError_def writeCompletionError_def writeProviderError_def writeError_new
        eligibleForFallback_def degradesProviderHealth_def classifyProviderOutcome_def classifyKind_def degradesHealth_def)
qed

theorem upstream_errors_mapped_witness:
  "let client = (\<lambda>_. Inr \<lparr>respStatus = 429, respContentType = [], respBody = \<lparr>bodyBytes = ''secret'', bodyError = None\<rparr>\<rparr>)
   in rwStatus (writeCompletionError reliable (\<lambda>s. s)
        (HTTPStatusError openai_Name 429) new_writer) \<in> {400, 429, 502, 503, 504} \<and>
      openai_Complete client (\<lambda>_. True) (openai_New [] []) zero_request = Inl (HTTPStatusError openai_Name 429)"
proof -
  let ?client = "\<lambda>_. Inr \<lparr>respStatus = 429, respContentType = [], respBody = \<lparr>bodyBytes = ''secret'', bodyError = None\<rparr>\<rparr>"
  have "openai_Complete ?client (\<lambda>_. True) (openai_New [] []) zero_request = Inl (HTTPStatusError openai_Name 429)"
    by (simp add: openai_Complete_def openai_upstreamRequest_def success_status_def Let_def)
  with upstream_errors_mapped [OF disjI1, OF this, of "\<lambda>s. s"] show ?thesis by (simp add: Let_def)
qed

end
