(* ===== verification/Admin_Auth.thy ===== *)
theory Admin_Auth
  imports Http_Api
begin

text \<open>
  Session authentication of the admin API (\<open>internal/adminapi/auth.go\<close>): the bounded table of
  sessions, the login with its rate limit, logout, and the handler that lets a request through. The
  clock and the random source are arguments. A run is any sequence of requests at times that do not go
  back, with a log of what was asked and answered; the theorems are about every run.
\<close>

section \<open>Requests and replies\<close>

record admin_request =
  aqMethod :: string
  aqPath :: string
  aqQuery :: string
  aqContentType :: string
  aqOrigins :: "string list"
  aqFetchSite :: string
  aqCookies :: "string list"
  aqBody :: http_body

record admin_cookie =
  coValue :: string
  coExpires :: instant
  coMaxAge :: int
  coSecure :: bool

record admin_reply =
  apStatus :: int
  apHeader :: "(string \<times> string) list"
  apCookie :: "admin_cookie option"
  apBody :: "json option"

definition admin_writeJSON :: "int \<Rightarrow> json \<Rightarrow> admin_reply" where
  "admin_writeJSON status value' =
     \<lparr>apStatus = status, apHeader = [(''Content-Type'', ''application/json'')], apCookie = None, apBody = Some value'\<rparr>"

text \<open>A value that the encoder refuses leaves the body empty; the header has been written by then.\<close>

definition admin_writeEncoded :: "int \<Rightarrow> json option \<Rightarrow> admin_reply" where
  "admin_writeEncoded status value' =
     \<lparr>apStatus = status, apHeader = [(''Content-Type'', ''application/json'')], apCookie = None, apBody = value'\<rparr>"

definition admin_writeError :: "int \<Rightarrow> string \<Rightarrow> string \<Rightarrow> admin_reply" where
  "admin_writeError status code message =
     admin_writeJSON status (JObj [(''error'', JObj [(''code'', JStr code), (''message'', JStr message)])])"

section \<open>Sessions\<close>

text \<open>The table of sessions is an association list without duplicate keys, so that its size is the
  length.\<close>

definition delete_entry :: "nat list \<Rightarrow> (nat list \<times> instant) list \<Rightarrow> (nat list \<times> instant) list" where
  "delete_entry key entries = filter (\<lambda>e. fst e \<noteq> key) entries"

definition put_entry :: "nat list \<Rightarrow> instant \<Rightarrow> (nat list \<times> instant) list \<Rightarrow> (nat list \<times> instant) list" where
  "put_entry key expiry entries = (key, expiry) # delete_entry key entries"

definition maxSessions :: nat where
  "maxSessions = 128"

record AuthConfig =
  acEnabled :: bool
  acSecret :: string
  acTTL :: duration
  acOrigin :: string

record sessions =
  snEntries :: "(nat list \<times> instant) list"
  snSecret :: "nat list"
  snTTL :: duration
  snOrigin :: string
  snSecure :: bool
  snWindow :: instant
  snLogins :: int

definition newSessions :: "AuthConfig \<Rightarrow> sessions" where
  "newSessions config =
     \<lparr>snEntries = [], snSecret = Sum256 (bytes_of (acSecret config)), snTTL = acTTL config,
      snOrigin = acOrigin config, snSecure = HasPrefix (acOrigin config) ''https://'',
      snWindow = time_zero, snLogins = 0\<rparr>"

definition cookieKey :: "admin_request \<Rightarrow> nat list option" where
  "cookieKey r =
     (case aqCookies r of
        [value'] \<Rightarrow>
          if length value' \<noteq> 43 then None
          else (case RawURL_Decode value' of
                  None \<Rightarrow> None
                | Some raw \<Rightarrow> if length raw \<noteq> 32 then None else Some (Sum256 raw))
      | _ \<Rightarrow> None)"

definition prune :: "instant \<Rightarrow> sessions \<Rightarrow> sessions" where
  "prune now s = s\<lparr>snEntries := filter (\<lambda>e. now < snd e) (snEntries s)\<rparr>"

definition valid :: "instant \<Rightarrow> admin_request \<Rightarrow> sessions \<Rightarrow> bool \<times> sessions" where
  "valid now r s =
     (case cookieKey r of
        None \<Rightarrow> (False, s)
      | Some key \<Rightarrow>
          (let s1 = prune now s in
           (case map_of (snEntries s1) key of None \<Rightarrow> False | Some expiry \<Rightarrow> now < expiry, s1)))"

definition session_cookie :: "sessions \<Rightarrow> string \<Rightarrow> instant \<Rightarrow> int \<Rightarrow> admin_cookie" where
  "session_cookie s value' expiry maxAge =
     \<lparr>coValue = value', coExpires = expiry, coMaxAge = maxAge, coSecure = snSecure s\<rparr>"

definition authFailure :: admin_reply where
  "authFailure = admin_writeError 401 ''unauthorized'' ''authentication required''"

definition unix_instant :: "int \<Rightarrow> instant" where
  "unix_instant seconds = (62135596800 + seconds) * 1000000000"

definition minute :: duration where
  "minute = 60 * 1000000000"

text \<open>The login's rate limit: at most 20 attempts from the start of a window of a minute.\<close>

definition admit_login :: "instant \<Rightarrow> sessions \<Rightarrow> bool \<times> sessions" where
  "admit_login now s =
     (let s1 = (if \<not> now < time_add (snWindow s) minute then s\<lparr>snWindow := now, snLogins := 0\<rparr> else s);
          limited = (snLogins s1 \<ge> 20)
      in (limited, if limited then s1 else s1\<lparr>snLogins := snLogins s1 + 1\<rparr>))"

text \<open>The secret of a login body of at most a kilobyte: one JSON object with no other field.\<close>

definition login_secret :: "http_body \<Rightarrow> string option" where
  "login_secret body =
     (let eof = (length (bodyBytes body) \<le> 1024 \<and> bodyError body = None);
          decode = decode_struct [''secret''] True (\<lambda>name v old. decode_string v old)
      in case Decode_single eof (bytes_of (take 1024 (bodyBytes body))) of
           None \<Rightarrow> None
         | Some v \<Rightarrow> (case decode v [] of
             None \<Rightarrow> None
           | Some secret \<Rightarrow> if length secret > 256 then None else Some secret))"

definition auth_unavailable :: admin_reply where
  "auth_unavailable = admin_writeError 503 ''auth_unavailable'' ''authentication unavailable''"

text \<open>The second half of a login, with the new token.\<close>

definition open_session :: "instant \<Rightarrow> nat list \<Rightarrow> admin_request \<Rightarrow> sessions \<Rightarrow> admin_reply \<times> sessions" where
  "open_session now raw r s =
     (let key = Sum256 raw;
          s1 = prune now s;
          old = cookieKey r;
          replacing = (case old of None \<Rightarrow> False | Some k \<Rightarrow> map_of (snEntries s1) k \<noteq> None);
          collision = (map_of (snEntries s1) key \<noteq> None)
      in if collision \<or> (length (snEntries s1) \<ge> maxSessions \<and> \<not> replacing) then (auth_unavailable, s1)
         else
           (let kept = (case old of None \<Rightarrow> snEntries s1 | Some k \<Rightarrow> delete_entry k (snEntries s1));
                expiry = time_add now (snTTL s1);
                s2 = s1\<lparr>snEntries := put_entry key expiry kept\<rparr>
            in ((admin_writeJSON 200 (JObj [(''authenticated'', JBool True)]))
                  \<lparr>apCookie := Some (session_cookie s2 (RawURL_Encode raw) expiry (quot (snTTL s2) 1000000000))\<rparr>,
                s2)))"

definition login ::
  "instant \<Rightarrow> instant \<Rightarrow> nat list option \<Rightarrow> admin_request \<Rightarrow> sessions \<Rightarrow> admin_reply \<times> sessions" where
  "login now1 now2 random r s =
     (case admit_login now1 s of (limited, s1) \<Rightarrow>
      if limited
      then ((admin_writeError 429 ''login_limited'' ''login temporarily unavailable'')
              \<lparr>apHeader := [(''Retry-After'', ''60''), (''Content-Type'', ''application/json'')]\<rparr>, s1)
      else (case login_secret (aqBody r) of
              None \<Rightarrow> (authFailure, s1)
            | Some secret \<Rightarrow>
                if Sum256 (bytes_of secret) \<noteq> snSecret s1 then (authFailure, s1)
                else (case random of
                        None \<Rightarrow> (auth_unavailable, s1)
                      | Some raw \<Rightarrow> open_session now2 raw r s1)))"

section \<open>The handler\<close>

definition trustedJSON :: "admin_request \<Rightarrow> string \<Rightarrow> bool" where
  "trustedJSON r origin \<longleftrightarrow>
     aqQuery r = [] \<and> ParseMediaType (aqContentType r) = Some ''application/json'' \<and>
     aqOrigins r = [origin] \<and> aqFetchSite r \<noteq> ''cross-site''"

text \<open>A request is answered here or passed on, perhaps with the permission to write routing settings.\<close>

datatype auth_result = Replied admin_reply | Forwarded bool

definition session_path :: string where
  "session_path = ''/admin/v1/auth/session''"

definition login_path :: string where
  "login_path = ''/admin/v1/auth/login''"

definition logout_path :: string where
  "logout_path = ''/admin/v1/auth/logout''"

definition session_status :: "bool \<Rightarrow> bool \<Rightarrow> json" where
  "session_status enabled authenticated = JObj [(''enabled'', JBool enabled), (''authenticated'', JBool authenticated)]"

definition logout :: "admin_request \<Rightarrow> sessions \<Rightarrow> admin_reply \<times> sessions" where
  "logout r s =
     (let s1 = (case cookieKey r of None \<Rightarrow> s | Some key \<Rightarrow> s\<lparr>snEntries := delete_entry key (snEntries s)\<rparr>)
      in ((admin_writeJSON 200 (JObj [(''authenticated'', JBool False)]))
            \<lparr>apCookie := Some (session_cookie s1 [] (unix_instant 1) (- 1))\<rparr>, s1))"

definition forward :: "admin_request \<Rightarrow> string option \<Rightarrow> auth_result" where
  "forward r origin =
     (if aqPath r = ''/admin/v1/routing/config'' \<and> aqMethod r = ''PUT'' then
        (case origin of
           None \<Rightarrow> Replied (admin_writeError 403 ''forbidden'' ''request not permitted'')
         | Some org \<Rightarrow>
             if \<not> trustedJSON r org then Replied (admin_writeError 403 ''forbidden'' ''request not permitted'')
             else Forwarded True)
      else Forwarded False)"

definition method_refused :: admin_reply where
  "method_refused = (admin_writeError 405 ''method_not_allowed'' ''method not allowed'')
     \<lparr>apHeader := [(''Allow'', ''POST''), (''Content-Type'', ''application/json'')]\<rparr>"

definition auth_dispatch ::
  "instant \<Rightarrow> instant \<Rightarrow> nat list option \<Rightarrow> admin_request \<Rightarrow> sessions option \<Rightarrow> auth_result \<times> sessions option" where
  "auth_dispatch now1 now2 random r store =
     (if aqPath r = session_path then
        if aqMethod r \<noteq> ''GET'' \<or> aqQuery r \<noteq> []
        then (Replied (admin_writeError 400 ''invalid_request'' ''invalid session request''), store)
        else (case store of
                None \<Rightarrow> (Replied (admin_writeJSON 200 (session_status False True)), None)
              | Some s \<Rightarrow> (case valid now1 r s of (ok, s1) \<Rightarrow>
                  (Replied (admin_writeJSON 200 (session_status True ok)), Some s1)))
      else if aqPath r = login_path \<or> aqPath r = logout_path then
        if aqMethod r \<noteq> ''POST'' then (Replied method_refused, store)
        else (case store of
                None \<Rightarrow> (Replied (admin_writeError 404 ''not_found'' ''endpoint not found''), None)
              | Some s \<Rightarrow>
                  if \<not> trustedJSON r (snOrigin s)
                  then (Replied (admin_writeError 403 ''forbidden'' ''request not permitted''), Some s)
                  else if aqPath r = login_path
                  then (case login now1 now2 random r s of (reply, s1) \<Rightarrow> (Replied reply, Some s1))
                  else (case logout r s of (reply, s1) \<Rightarrow> (Replied reply, Some s1)))
      else (case store of
              None \<Rightarrow> (forward r None, None)
            | Some s \<Rightarrow> (case valid now1 r s of (ok, s1) \<Rightarrow>
                if \<not> ok then (Replied authFailure, Some s1) else (forward r (Some (snOrigin s1)), Some s1))))"

text \<open>Every reply forbids caching and content sniffing.\<close>

definition secured :: "admin_reply \<Rightarrow> admin_reply" where
  "secured reply = reply\<lparr>apHeader :=
     [(''Cache-Control'', ''no-store''), (''X-Content-Type-Options'', ''nosniff'')] @ apHeader reply\<rparr>"

definition authHandler ::
  "instant \<Rightarrow> instant \<Rightarrow> nat list option \<Rightarrow> admin_request \<Rightarrow> sessions option \<Rightarrow> auth_result \<times> sessions option" where
  "authHandler now1 now2 random r store =
     (case auth_dispatch now1 now2 random r store of
        (Replied reply, store') \<Rightarrow> (Replied (secured reply), store')
      | (Forwarded write, store') \<Rightarrow> (Forwarded write, store'))"

definition Authenticate :: "AuthConfig \<Rightarrow> sessions option" where
  "Authenticate config = (if acEnabled config then Some (newSessions config) else None)"

section \<open>Runs\<close>

text \<open>What is logged of a request: its times, its random bytes, the request itself and the answer.\<close>

record auth_event =
  avNow1 :: instant
  avNow2 :: instant
  avRandom :: "nat list option"
  avRequest :: admin_request
  avResult :: auth_result

inductive auth_run :: "AuthConfig \<Rightarrow> sessions \<Rightarrow> auth_event list \<Rightarrow> instant \<Rightarrow> bool" for config where
  start: "time_zero \<le> t \<Longrightarrow> auth_run config (newSessions config) [] t"
| step: "auth_run config s log t \<Longrightarrow> t \<le> now1 \<Longrightarrow> now1 \<le> now2 \<Longrightarrow>
     authHandler now1 now2 random r (Some s) = (result, Some s') \<Longrightarrow>
     auth_run config s' (\<lparr>avNow1 = now1, avNow2 = now2, avRandom = random, avRequest = r, avResult = result\<rparr> # log) now2"

text \<open>A login attempt that reached the secret, a login that knew it and drew the token of a key, and a
  logout of a key.\<close>

definition is_login_request :: "AuthConfig \<Rightarrow> auth_event \<Rightarrow> bool" where
  "is_login_request config e \<longleftrightarrow> aqPath (avRequest e) = login_path \<and> aqMethod (avRequest e) = ''POST'' \<and>
     trustedJSON (avRequest e) (acOrigin config)"

definition opened :: "AuthConfig \<Rightarrow> auth_event \<Rightarrow> nat list \<Rightarrow> bool" where
  "opened config e key \<longleftrightarrow> is_login_request config e \<and>
     (\<exists>secret raw. login_secret (aqBody (avRequest e)) = Some secret \<and>
        Sum256 (bytes_of secret) = Sum256 (bytes_of (acSecret config)) \<and>
        avRandom e = Some raw \<and> Sum256 raw = key)"

definition closed :: "AuthConfig \<Rightarrow> auth_event \<Rightarrow> nat list \<Rightarrow> bool" where
  "closed config e key \<longleftrightarrow> aqPath (avRequest e) = logout_path \<and> aqMethod (avRequest e) = ''POST'' \<and>
     trustedJSON (avRequest e) (acOrigin config) \<and> cookieKey (avRequest e) = Some key"

text \<open>A session that is still open: its login is in the log, and no logout since.\<close>

definition session_open :: "AuthConfig \<Rightarrow> auth_event list \<Rightarrow> nat list \<Rightarrow> instant \<Rightarrow> bool" where
  "session_open config log key expiry \<longleftrightarrow>
     (\<exists>later e earlier. log = later @ e # earlier \<and> opened config e key \<and>
        expiry = time_add (avNow2 e) (acTTL config) \<and> list_all (\<lambda>l. \<not> closed config l key) later)"

lemma session_open_Cons:
  "session_open config log key expiry \<Longrightarrow> \<not> closed config e key \<Longrightarrow> session_open config (e # log) key expiry"
  unfolding session_open_def by (metis append_Cons list.pred_inject(2))

lemma session_open_new:
  "opened config e key \<Longrightarrow> session_open config (e # log) key (time_add (avNow2 e) (acTTL config))"
  unfolding session_open_def by (rule exI [of _ "[]"]) auto

subsection \<open>The table of sessions\<close>

definition sessions_ok :: "AuthConfig \<Rightarrow> sessions \<Rightarrow> auth_event list \<Rightarrow> bool" where
  "sessions_ok config s log \<longleftrightarrow>
     snSecret s = Sum256 (bytes_of (acSecret config)) \<and> snTTL s = acTTL config \<and> snOrigin s = acOrigin config \<and>
     distinct (map fst (snEntries s)) \<and> length (snEntries s) \<le> maxSessions \<and>
     (\<forall>(key, expiry) \<in> set (snEntries s). session_open config log key expiry)"

lemma prune_fields [simp]:
  "snSecret (prune now s) = snSecret s" "snTTL (prune now s) = snTTL s" "snOrigin (prune now s) = snOrigin s"
  "snWindow (prune now s) = snWindow s" "snLogins (prune now s) = snLogins s"
  by (simp_all add: prune_def)

lemma admit_fields [simp]:
  "snEntries (snd (admit_login now s)) = snEntries s" "snSecret (snd (admit_login now s)) = snSecret s"
  "snTTL (snd (admit_login now s)) = snTTL s" "snOrigin (snd (admit_login now s)) = snOrigin s"
  by (simp_all add: admit_login_def Let_def)

lemma sessions_ok_prune: "sessions_ok config s log \<Longrightarrow> sessions_ok config (prune now s) log"
  by (auto simp: sessions_ok_def prune_def distinct_map_filter intro: le_trans [OF length_filter_le])

lemma sessions_ok_sub:
  "sessions_ok config s log \<Longrightarrow> snEntries s' = filter P (snEntries s) \<Longrightarrow> snSecret s' = snSecret s \<Longrightarrow>
   snTTL s' = snTTL s \<Longrightarrow> snOrigin s' = snOrigin s \<Longrightarrow>
   (\<forall>(key, expiry) \<in> set (snEntries s'). \<not> closed config e key) \<Longrightarrow> sessions_ok config s' (e # log)"
  by (fastforce simp: sessions_ok_def distinct_map_filter intro: session_open_Cons le_trans [OF length_filter_le])

lemma not_closed: "aqPath (avRequest e) \<noteq> logout_path \<Longrightarrow> \<not> closed config e key"
  by (simp add: closed_def)

lemma delete_entry_shorter:
  "map_of xs k \<noteq> None \<Longrightarrow> length (delete_entry k xs) < length xs"
  unfolding delete_entry_def by (rule length_filter_less [of "(k, the (map_of xs k))"]) (auto dest: map_of_SomeD)

lemma length_delete_entry: "length (delete_entry k xs) \<le> length xs"
  by (simp add: delete_entry_def)

lemma session_capacity:
  assumes "map_of xs key = None" "length xs \<le> maxSessions"
    "\<not> (maxSessions \<le> length xs \<and> \<not> (case old of None \<Rightarrow> False | Some k \<Rightarrow> map_of xs k \<noteq> None))"
  shows "length (put_entry key expiry (case old of None \<Rightarrow> xs | Some k \<Rightarrow> delete_entry k xs)) \<le> maxSessions"
proof -
  let ?kept = "case old of None \<Rightarrow> xs | Some k \<Rightarrow> delete_entry k xs"
  have "length ?kept \<le> length xs" by (simp add: length_delete_entry split: option.split)
  moreover have "length ?kept < length xs" if "maxSessions \<le> length xs"
    using that assms(3) delete_entry_shorter by (fastforce split: option.splits)
  ultimately have "length ?kept < maxSessions" using assms(2) by linarith
  then show ?thesis
    using length_delete_entry [of key ?kept] by (simp add: put_entry_def)
qed

lemma open_session_ok:
  assumes "sessions_ok config s log" "opened config e (Sum256 raw)"
  shows "sessions_ok config (snd (open_session (avNow2 e) raw r s)) (e # log)"
proof -
  let ?s1 = "prune (avNow2 e) s" and ?key = "Sum256 raw"
  let ?kept = "case cookieKey r of None \<Rightarrow> snEntries ?s1 | Some k \<Rightarrow> delete_entry k (snEntries ?s1)"
  have ok: "sessions_ok config ?s1 log" using assms(1) by (rule sessions_ok_prune)
  have nc: "\<not> closed config e k" for k
    using assms(2) by (intro not_closed) (simp add: opened_def is_login_request_def login_path_def logout_path_def)
  have ok': "sessions_ok config ?s1 (e # log)"
    using ok nc by (auto simp: sessions_ok_def intro: session_open_Cons)
  show ?thesis
  proof (cases "map_of (snEntries ?s1) ?key \<noteq> None \<or> length (snEntries ?s1) \<ge> maxSessions \<and>
      \<not> (case cookieKey r of None \<Rightarrow> False | Some k \<Rightarrow> map_of (snEntries ?s1) k \<noteq> None)")
    case True
    then show ?thesis using ok' by (simp add: open_session_def Let_def)
  next
    case False
    let ?entries = "put_entry ?key (time_add (avNow2 e) (snTTL ?s1)) ?kept"
    have s': "snd (open_session (avNow2 e) raw r s) = ?s1\<lparr>snEntries := ?entries\<rparr>"
      using False by (auto simp: open_session_def Let_def)
    have "distinct (map fst ?entries)"
      using ok by (auto simp: sessions_ok_def put_entry_def delete_entry_def distinct_map_filter split: option.split)
    moreover have "set ?entries \<subseteq> insert (?key, time_add (avNow2 e) (acTTL config)) (set (snEntries ?s1))"
      using ok by (auto simp: sessions_ok_def put_entry_def delete_entry_def split: option.splits)
    moreover have "length ?entries \<le> maxSessions"
      using False ok by (intro session_capacity) (auto simp: sessions_ok_def)
    ultimately show ?thesis
      using ok' session_open_new [OF assms(2), of log] unfolding s' by (fastforce simp: sessions_ok_def)
  qed
qed

lemma sessions_ok_keep:
  "sessions_ok config s log \<Longrightarrow> snEntries s' = snEntries s \<Longrightarrow> snSecret s' = snSecret s \<Longrightarrow>
   snTTL s' = snTTL s \<Longrightarrow> snOrigin s' = snOrigin s \<Longrightarrow> aqPath (avRequest e) \<noteq> logout_path \<Longrightarrow>
   sessions_ok config s' (e # log)"
  using sessions_ok_sub [of config s log s' "\<lambda>_. True" e] not_closed [of e config] by auto

lemma login_ok:
  assumes "sessions_ok config s log" "is_login_request config e"
  shows "sessions_ok config (snd (login now1 (avNow2 e) (avRandom e) (avRequest e) s)) (e # log)"
proof -
  let ?s1 = "snd (admit_login now1 s)"
  have keep: "sessions_ok config ?s1 (e # log)" and ok1: "sessions_ok config ?s1 log"
    using assms by (auto simp: is_login_request_def login_path_def logout_path_def
        intro!: sessions_ok_keep [OF assms(1)]) (simp add: sessions_ok_def)
  consider (refused) "snd (login now1 (avNow2 e) (avRandom e) (avRequest e) s) = ?s1"
    | (open_it) secret raw where "login_secret (aqBody (avRequest e)) = Some secret"
        "Sum256 (bytes_of secret) = snSecret s" "avRandom e = Some raw"
        "snd (login now1 (avNow2 e) (avRandom e) (avRequest e) s) = snd (open_session (avNow2 e) raw (avRequest e) ?s1)"
  proof (cases "fst (admit_login now1 s) \<or> login_secret (aqBody (avRequest e)) = None \<or> avRandom e = None \<or>
      Sum256 (bytes_of (the (login_secret (aqBody (avRequest e))))) \<noteq> snSecret s")
    case True
    then show thesis by (intro refused) (auto simp: login_def split_beta split: option.splits)
  next
    case False
    then show thesis by (auto simp: login_def split_beta intro!: open_it)
  qed
  then show ?thesis
  proof cases
    case refused
    with keep show ?thesis by simp
  next
    case open_it
    with assms have "opened config e (Sum256 raw)" by (auto simp: opened_def sessions_ok_def)
    with open_it ok1 open_session_ok show ?thesis by simp
  qed
qed

lemma logout_ok:
  assumes "sessions_ok config s log"
  shows "sessions_ok config (snd (logout (avRequest e) s)) (e # log)"
proof (cases "cookieKey (avRequest e)")
  case None
  then show ?thesis
    using assms by (intro sessions_ok_sub [of config s log _ "\<lambda>_. True"]) (auto simp: logout_def closed_def Let_def)
next
  case (Some key)
  then show ?thesis
    using assms by (intro sessions_ok_sub [of config s log _ "\<lambda>x. fst x \<noteq> key"])
      (auto simp: logout_def delete_entry_def closed_def Let_def)
qed

lemma valid_ok:
  assumes "sessions_ok config s log" "aqPath (avRequest e) \<noteq> logout_path"
  shows "sessions_ok config (snd (valid now r s)) (e # log)"
proof (cases "cookieKey r")
  case None
  then show ?thesis using assms by (intro sessions_ok_keep [OF assms(1)]) (auto simp: valid_def)
next
  case (Some key)
  then have "sessions_ok config (snd (valid now r s)) log"
    using sessions_ok_prune [OF assms(1)] by (simp add: valid_def Let_def)
  then show ?thesis using assms(2) by (intro sessions_ok_keep) auto
qed

lemma paths_distinct [simp]: "session_path \<noteq> login_path" "session_path \<noteq> logout_path" "login_path \<noteq> logout_path"
  "logout_path \<noteq> login_path" "logout_path \<noteq> session_path" "login_path \<noteq> session_path"
  by (simp_all add: session_path_def login_path_def logout_path_def)

text \<open>What the handler does to the sessions, by the kind of request.\<close>

lemma authHandler_cases:
  assumes "authHandler now1 now2 random r (Some s) = (result, Some s')"
  obtains (same) "s' = s" "\<forall>w. result \<noteq> Forwarded w"
    "\<not> (aqPath r = logout_path \<and> aqMethod r = ''POST'' \<and> trustedJSON r (snOrigin s))"
    "\<not> (aqPath r = login_path \<and> aqMethod r = ''POST'' \<and> trustedJSON r (snOrigin s))"
  | (checked) "s' = snd (valid now1 r s)" "aqPath r \<noteq> logout_path" "aqPath r \<noteq> login_path"
    "\<forall>w. result = Forwarded w \<longrightarrow> fst (valid now1 r s)"
    "result = Forwarded True \<longrightarrow> trustedJSON r (snOrigin s) \<and> aqMethod r = ''PUT''"
  | (login) "aqPath r = login_path" "aqMethod r = ''POST''" "trustedJSON r (snOrigin s)"
    "s' = snd (login now1 now2 random r s)" "\<forall>w. result \<noteq> Forwarded w"
  | (logout) "aqPath r = logout_path" "aqMethod r = ''POST''" "trustedJSON r (snOrigin s)"
    "s' = snd (logout r s)" "\<forall>w. result \<noteq> Forwarded w"
proof -
  have vo: "snOrigin (snd (valid now1 r s)) = snOrigin s"
    by (simp add: valid_def Let_def split: option.split)
  consider "aqPath r = session_path" | "aqPath r = login_path" | "aqPath r = logout_path"
    | "aqPath r \<notin> {session_path, login_path, logout_path}" by auto
  then show thesis
  proof cases
    case 1
    show thesis
    proof (cases "aqMethod r \<noteq> ''GET'' \<or> aqQuery r \<noteq> []")
      case True
      with 1 assms show thesis by (intro same) (auto simp: authHandler_def auth_dispatch_def)
    next
      case False
      with 1 assms show thesis by (intro checked) (auto simp: authHandler_def auth_dispatch_def split: prod.splits)
    qed
  next
    case 2
    show thesis
    proof (cases "aqMethod r = ''POST'' \<and> trustedJSON r (snOrigin s)")
      case True
      with 2 assms show thesis by (intro login) (auto simp: authHandler_def auth_dispatch_def split: prod.splits)
    next
      case False
      with 2 assms show thesis by (intro same) (auto simp: authHandler_def auth_dispatch_def split: if_splits)
    qed
  next
    case 3
    show thesis
    proof (cases "aqMethod r = ''POST'' \<and> trustedJSON r (snOrigin s)")
      case True
      with 3 assms show thesis by (intro logout) (auto simp: authHandler_def auth_dispatch_def split: prod.splits)
    next
      case False
      with 3 assms show thesis by (intro same) (auto simp: authHandler_def auth_dispatch_def split: if_splits)
    qed
  next
    case 4
    with assms vo show thesis
      by (intro checked) (auto simp: authHandler_def auth_dispatch_def forward_def split: prod.splits if_splits)
  qed
qed

lemma auth_run_ok: "auth_run config s log t \<Longrightarrow> sessions_ok config s log"
proof (induction rule: auth_run.induct)
  case (start t)
  then show ?case by (simp add: sessions_ok_def newSessions_def maxSessions_def)
next
  case (step s log t now1 now2 random r result s')
  let ?e = "\<lparr>avNow1 = now1, avNow2 = now2, avRandom = random, avRequest = r, avResult = result\<rparr>"
  have "snOrigin s = acOrigin config" using step.IH by (simp add: sessions_ok_def)
  with step(4) show ?case
  proof (cases rule: authHandler_cases)
    case same
    then show ?thesis
      using step.IH \<open>snOrigin s = acOrigin config\<close>
      by (intro sessions_ok_sub [of config s log _ "\<lambda>_. True"]) (auto simp: closed_def)
  next
    case checked
    then show ?thesis using valid_ok [OF step.IH, of ?e now1 r] by simp
  next
    case login
    then show ?thesis
      using login_ok [OF step.IH, of ?e now1] \<open>snOrigin s = acOrigin config\<close> by (simp add: is_login_request_def)
  next
    case logout
    then show ?thesis using logout_ok [OF step.IH, of ?e] by simp
  qed
qed

subsection \<open>The rate of logins\<close>

text \<open>A login that was not turned away by the limit, and the number of those in an interval.\<close>

definition tried :: "AuthConfig \<Rightarrow> auth_event \<Rightarrow> bool" where
  "tried config e \<longleftrightarrow> is_login_request config e \<and>
     (case avResult e of Replied reply \<Rightarrow> apStatus reply \<noteq> 429 | Forwarded _ \<Rightarrow> False)"

definition tries :: "AuthConfig \<Rightarrow> auth_event list \<Rightarrow> instant set \<Rightarrow> nat" where
  "tries config log I = length (filter (\<lambda>e. tried config e \<and> avNow1 e \<in> I) log)"

lemma tries_Cons: "tries config (e # log) I = (if tried config e \<and> avNow1 e \<in> I then 1 else 0) + tries config log I"
  by (simp add: tries_def)

lemma tries_mono: "I \<subseteq> J \<Longrightarrow> tries config log I \<le> tries config log J"
  by (induction log) (auto simp: tries_def)

lemma tries_Un: "tries config log (I \<union> J) \<le> tries config log I + tries config log J"
  by (induction log) (auto simp: tries_def)

definition rate_ok :: "AuthConfig \<Rightarrow> sessions \<Rightarrow> auth_event list \<Rightarrow> instant \<Rightarrow> bool" where
  "rate_ok config s log t \<longleftrightarrow>
     snWindow s \<le> t \<and> snOrigin s = acOrigin config \<and> snLogins s \<le> 20 \<and>
     (\<forall>e \<in> set log. tried config e \<longrightarrow> avNow1 e < snWindow s + minute) \<and>
     int (tries config log {snWindow s ..}) \<le> snLogins s \<and>
     (\<forall>a \<ge> snWindow s - minute. tries config log {a ..< snWindow s} \<le> 20) \<and>
     (\<forall>a. tries config log {a ..< a + minute} \<le> 40)"

lemma rate_ok_quiet:
  "rate_ok config s log t \<Longrightarrow> \<not> tried config e \<Longrightarrow> snWindow s' = snWindow s \<Longrightarrow> snLogins s' = snLogins s \<Longrightarrow>
   snOrigin s' = snOrigin s \<Longrightarrow> t \<le> t' \<Longrightarrow> rate_ok config s' (e # log) t'"
  by (auto simp: rate_ok_def tries_Cons)

text \<open>An admitted login inside the current window, and one that opens a new window.\<close>

lemma rate_ok_same_window:
  assumes "rate_ok config s log t" "t \<le> avNow1 e" "avNow1 e < snWindow s + minute" "snLogins s < 20"
    "snWindow s' = snWindow s" "snLogins s' = snLogins s + 1" "snOrigin s' = snOrigin s" "avNow1 e \<le> t'"
  shows "rate_ok config s' (e # log) t'"
proof -
  let ?W = "snWindow s"
  have W: "?W \<le> avNow1 e" using assms(1,2) by (simp add: rate_ok_def)
  have now: "int (tries config (e # log) {?W ..}) \<le> snLogins s + 1"
    using assms(1) by (simp add: rate_ok_def tries_Cons)
  have "tries config (e # log) {a ..< a + minute} \<le> 40" for a
  proof (cases "avNow1 e \<in> {a ..< a + minute}")
    case False
    then show ?thesis using assms(1) by (auto simp: rate_ok_def tries_Cons)
  next
    case True
    have "tries config (e # log) {a ..< ?W} \<le> 20"
      using assms(1) True W by (simp add: rate_ok_def tries_Cons)
    moreover have "tries config (e # log) {?W ..} \<le> 20" using now assms(4) by linarith
    moreover have "tries config (e # log) {a ..< a + minute} \<le> tries config (e # log) ({a ..< ?W} \<union> {?W ..})"
      by (rule tries_mono) auto
    ultimately show ?thesis using tries_Un [of config "e # log" "{a ..< ?W}" "{?W ..}"] by linarith
  qed
  moreover have "tries config (e # log) {a ..< ?W} = tries config log {a ..< ?W}" for a
    using W by (simp add: tries_Cons)
  ultimately show ?thesis
    using assms now W by (auto simp: rate_ok_def)
qed

lemma rate_ok_new_window:
  assumes "rate_ok config s log t" "t \<le> avNow1 e" "snWindow s + minute \<le> avNow1 e"
    "snWindow s' = avNow1 e" "snLogins s' = 1" "snOrigin s' = snOrigin s" "avNow1 e \<le> t'"
  shows "rate_ok config s' (e # log) t'"
proof -
  let ?W = "snWindow s" and ?n = "avNow1 e"
  have early: "tries config log {?n ..} = 0"
    using assms(1,3) by (fastforce simp: rate_ok_def tries_def filter_empty_conv)
  have old: "tries config log {?W ..} \<le> 20" using assms(1) by (simp add: rate_ok_def)
  have recent: "tries config log {a ..< b} \<le> 20" if "?n - minute \<le> a" for a b
  proof -
    have "{a ..< b} \<subseteq> {?W ..}" using that assms(3) by auto
    from tries_mono [OF this, of config log] old show ?thesis by linarith
  qed
  have "tries config (e # log) {a ..< a + minute} \<le> 40" for a
  proof (cases "?n \<in> {a ..< a + minute}")
    case False
    then show ?thesis using assms(1) by (auto simp: rate_ok_def tries_Cons)
  next
    case True
    then show ?thesis using recent [of a "a + minute"] by (simp add: tries_Cons)
  qed
  then show ?thesis
    using assms early recent by (auto simp: rate_ok_def tries_Cons minute_def)
qed

lemma valid_window [simp]:
  "snWindow (snd (valid now r s)) = snWindow s" "snLogins (snd (valid now r s)) = snLogins s"
  "snOrigin (snd (valid now r s)) = snOrigin s"
  by (simp_all add: valid_def Let_def split: option.split)

lemma logout_window [simp]:
  "snWindow (snd (logout r s)) = snWindow s" "snLogins (snd (logout r s)) = snLogins s"
  "snOrigin (snd (logout r s)) = snOrigin s"
  by (simp_all add: logout_def Let_def split: option.split)

lemma login_window [simp]:
  "snWindow (snd (login now1 now2 random r s)) = snWindow (snd (admit_login now1 s))"
  "snLogins (snd (login now1 now2 random r s)) = snLogins (snd (admit_login now1 s))"
  "snOrigin (snd (login now1 now2 random r s)) = snOrigin s"
  by (auto simp: login_def open_session_def Let_def split_beta split: option.split)

lemma auth_run_rate: "auth_run config s log t \<Longrightarrow> rate_ok config s log t"
proof (induction rule: auth_run.induct)
  case (start t)
  then show ?case by (simp add: rate_ok_def newSessions_def tries_def)
next
  case (step s log t now1 now2 random r result s')
  let ?e = "\<lparr>avNow1 = now1, avNow2 = now2, avRandom = random, avRequest = r, avResult = result\<rparr>"
  have origin: "snOrigin s = acOrigin config" and few: "snLogins s \<le> 20" using step.IH by (auto simp: rate_ok_def)
  have t': "t \<le> now2" using step by linarith
  from step(4) show ?case
  proof (cases rule: authHandler_cases)
    case same
    then show ?thesis
      using rate_ok_quiet [OF step.IH, of ?e s'] t' origin by (auto simp: tried_def is_login_request_def)
  next
    case checked
    then show ?thesis
      using rate_ok_quiet [OF step.IH, of ?e s'] t' by (simp add: tried_def is_login_request_def)
  next
    case logout
    then show ?thesis
      using rate_ok_quiet [OF step.IH, of ?e s'] t' by (simp add: tried_def is_login_request_def)
  next
    case login
    consider (limited) "now1 < snWindow s + minute" "20 \<le> snLogins s"
      | (same_window) "now1 < snWindow s + minute" "snLogins s < 20" | (new_window) "snWindow s + minute \<le> now1"
      by linarith
    then show ?thesis
    proof cases
      case limited
      then have "admit_login now1 s = (True, s)" by (simp add: admit_login_def time_add_def)
      moreover from this have "\<not> tried config ?e"
        using login step(4) by (auto simp: tried_def authHandler_def auth_dispatch_def login_def
            admin_writeError_def admin_writeJSON_def secured_def)
      ultimately show ?thesis using rate_ok_quiet [OF step.IH, of ?e s'] login t' by simp
    next
      case same_window
      then have "snd (admit_login now1 s) = s\<lparr>snLogins := snLogins s + 1\<rparr>"
        by (simp add: admit_login_def time_add_def)
      with same_window login step(2,3) show ?thesis
        using rate_ok_same_window [OF step.IH, of ?e s' now2] by simp
    next
      case new_window
      then have "snd (admit_login now1 s) = s\<lparr>snWindow := now1, snLogins := 1\<rparr>"
        by (simp add: admit_login_def time_add_def)
      with new_window login step(2,3) show ?thesis
        using rate_ok_new_window [OF step.IH, of ?e s' now2] by simp
    qed
  qed
qed

text \<open>What a forwarded request shows.\<close>

lemma forwarded_authenticated:
  assumes "auth_run config s log t"
    and "authHandler now1 now2 random r (Some s) = (Forwarded write, Some s')"
  shows "\<exists>key expiry. cookieKey r = Some key \<and> session_open config log key expiry \<and> now1 < expiry \<and>
    (write \<longrightarrow> aqMethod r = ''PUT'' \<and> trustedJSON r (acOrigin config))"
proof -
  have ok: "sessions_ok config s log" by (rule auth_run_ok [OF assms(1)])
  from assms(2) show ?thesis
  proof (cases rule: authHandler_cases)
    case checked
    then have "fst (valid now1 r s)" by simp
    then obtain key expiry where k: "cookieKey r = Some key" "now1 < expiry" "(key, expiry) \<in> set (snEntries s)"
      by (auto simp: valid_def prune_def Let_def split: option.splits dest: map_of_SomeD)
    with ok checked show ?thesis by (fastforce simp: sessions_ok_def)
  qed auto
qed

section \<open>Properties\<close>

text \<open>C7: Only authenticated sessions pass. In every run of the admin API, a request goes through to the
  handlers behind it only if it carries the token of a session that an earlier login opened by
  presenting the configured secret, that has not expired and was not logged out since; the permission to
  change routing settings goes only to a PUT request from the configured origin.\<close>

theorem admin_access_authenticated:
  assumes "auth_run config s log t"
    and "authHandler now1 now2 random r (Some s) = (Forwarded write, Some s')"
  shows "\<exists>key expiry. cookieKey r = Some key \<and> session_open config log key expiry \<and> now1 < expiry \<and>
    (write \<longrightarrow> aqMethod r = ''PUT'' \<and> trustedJSON r (acOrigin config))"
  using forwarded_authenticated [OF assms] .

text \<open>A run with one login, and the session it opened.\<close>

definition demo_auth :: AuthConfig where
  "demo_auth = \<lparr>acEnabled = True, acSecret = ''s'', acTTL = 1000, acOrigin = ''o''\<rparr>"

definition demo_token :: "nat list" where
  "demo_token = replicate 32 0"

definition demo_login :: admin_request where
  "demo_login = \<lparr>aqMethod = ''POST'', aqPath = login_path, aqQuery = [], aqContentType = ''application/json'',
     aqOrigins = [''o''], aqFetchSite = [], aqCookies = [],
     aqBody = \<lparr>bodyBytes = Encoder_Encode (JObj [(''secret'', JStr ''s'')]), bodyError = None\<rparr>\<rparr>"

definition demo_sessions :: sessions where
  "demo_sessions = snd (login 1 2 (Some demo_token) demo_login (newSessions demo_auth))"

lemma demo_run: "\<exists>log. auth_run demo_auth demo_sessions log 2"
proof -
  have "trustedJSON demo_login (snOrigin (newSessions demo_auth))"
    by (simp add: trustedJSON_def demo_login_def newSessions_def demo_auth_def ParseMediaType_json)
  then have "authHandler 1 2 (Some demo_token) demo_login (Some (newSessions demo_auth)) =
      (Replied (secured (fst (login 1 2 (Some demo_token) demo_login (newSessions demo_auth)))), Some demo_sessions)"
    by (simp add: authHandler_def auth_dispatch_def demo_sessions_def split_beta) (simp add: demo_login_def)
  from auth_run.step [OF auth_run.start [of 0] _ _ this] show ?thesis by fastforce
qed

lemma demo_secret: "login_secret (aqBody demo_login) = Some ''s''"
proof -
  let ?v = "JObj [(''secret'', JStr ''s'')]"
  have "length (Encoder_Encode ?v) \<le> 1024"
    using print_string_length [of "''secret''"] print_string_length [of "''s''"]
    by (simp add: Encoder_Encode_def string_of_def)
  moreover have "Decode_single True (bytes_of (Encoder_Encode ?v)) = Some ?v"
    using Decode_Encode [of ?v] by (simp add: maxNestingDepth_def sanitize_ascii)
  ultimately show ?thesis by (simp add: login_secret_def demo_login_def decode_struct_def struct_field_def)
qed

lemma demo_session:
  "snEntries demo_sessions = [(Sum256 demo_token, 1002)]" "snOrigin demo_sessions = ''o''"
  using demo_secret
  by (simp_all add: demo_sessions_def login_def admit_login_def newSessions_def demo_auth_def open_session_def
      prune_def put_entry_def delete_entry_def time_add_def minute_def maxSessions_def Let_def)
    (simp_all add: demo_login_def cookieKey_def)

lemma demo_cookie:
  assumes "aqCookies r = [RawURL_Encode demo_token]"
  shows "cookieKey r = Some (Sum256 demo_token)"
proof -
  have "length (RawURL_Encode demo_token) = 43" unfolding demo_token_def by code_simp
  moreover have "RawURL_Decode (RawURL_Encode demo_token) = Some demo_token"
    by (rule RawURL_round_trip) (simp add: demo_token_def)
  ultimately show ?thesis using assms by (simp add: cookieKey_def) (simp add: demo_token_def)
qed

lemma demo_valid: "aqCookies r = [RawURL_Encode demo_token] \<Longrightarrow> now < 1002 \<Longrightarrow> valid now r demo_sessions = (True, demo_sessions)"
  using demo_session by (simp add: valid_def demo_cookie prune_def Let_def)

definition demo_read :: admin_request where
  "demo_read = \<lparr>aqMethod = ''GET'', aqPath = ''/admin/v1/requests'', aqQuery = [], aqContentType = [],
     aqOrigins = [], aqFetchSite = [], aqCookies = [RawURL_Encode demo_token],
     aqBody = \<lparr>bodyBytes = [], bodyError = None\<rparr>\<rparr>"

theorem admin_access_authenticated_witness:
  "\<exists>log key expiry. auth_run demo_auth demo_sessions log 2 \<and> cookieKey demo_read = Some key \<and>
     session_open demo_auth log key expiry \<and> 3 < expiry"
proof -
  have "authHandler 3 3 None demo_read (Some demo_sessions) = (Forwarded False, Some demo_sessions)"
    by (simp add: authHandler_def auth_dispatch_def demo_valid demo_read_def session_path_def login_path_def
        logout_path_def forward_def)
  with admin_access_authenticated [of demo_auth demo_sessions _ 2 3 3 None demo_read] demo_run show ?thesis by blast
qed



end
