(* ===== verification/Configuration.thy ===== *)
theory Configuration
  imports Admin_Auth Mock_Provider
begin

text \<open>
  Start-up: the configuration read from the environment with its validation
  (\<open>internal/config\<close> and \<open>internal/cache/config.go\<close>) and the gateway service built from it
  (\<open>buildService\<close> in \<open>cmd/routeforge/main.go\<close>). The environment is a partial function; the
  parsers of \<open>net/url\<close>, \<open>net.ParseIP\<close> and \<open>time.ParseDuration\<close> are the fields of a
  record that \<open>Load\<close> takes, and nothing is assumed of them.
\<close>

section \<open>The standard library's parsers\<close>

record parsed_url =
  puScheme :: string
  puHost :: string
  puHostname :: string
  puPort :: string
  puPath :: string
  puRawQuery :: string
  puForceQuery :: bool
  puFragment :: string
  puUser :: bool

record parsers =
  psURL :: "string \<Rightarrow> parsed_url option"
  psLoopbackIP :: "string \<Rightarrow> bool"
  psDuration :: "string \<Rightarrow> duration option"

type_synonym environment = "string \<rightharpoonup> string"

definition Getenv :: "environment \<Rightarrow> string \<Rightarrow> string" where
  "Getenv env key = (case env key of None \<Rightarrow> [] | Some v \<Rightarrow> v)"

definition ParseBool :: "string \<Rightarrow> bool option" where
  "ParseBool s =
     (if s \<in> {''1'', ''t'', ''T'', ''true'', ''TRUE'', ''True''} then Some True
      else if s \<in> {''0'', ''f'', ''F'', ''false'', ''FALSE'', ''False''} then Some False
      else None)"

text \<open>\<open>strconv.Atoi\<close>: an optional sign, then digits, within 64 bits.\<close>

definition Atoi :: "string \<Rightarrow> int option" where
  "Atoi s =
     (let negative = HasPrefix s ''-'';
          digits = (if negative \<or> HasPrefix s ''+'' then tl s else s)
      in if digits = [] then None
         else (case digits_value digits 0 of
                 None \<Rightarrow> None
               | Some n \<Rightarrow>
                   (let i = (if negative then - int n else int n) in if in_i64 i then Some i else None)))"

definition ParseUint_bits :: "string \<Rightarrow> nat \<Rightarrow> nat option" where
  "ParseUint_bits s bits =
     (if s = [] then None
      else (case digits_value s 0 of None \<Rightarrow> None | Some n \<Rightarrow> if n < 2 ^ bits then Some n else None))"

text \<open>\<open>net.SplitHostPort\<close>: the port follows the last colon, and brackets may enclose the host only.\<close>

definition SplitHostPort :: "string \<Rightarrow> (string \<times> string) option" where
  "SplitHostPort hostport =
     (let port = rev (takeWhile (\<lambda>c. c \<noteq> CHR '':'') (rev hostport));
          before = take (length hostport - length port - 1) hostport
      in if CHR '':'' \<notin> set hostport then None
         else if hd hostport = CHR ''[''
         then (let host = takeWhile (\<lambda>c. c \<noteq> CHR '']'') (tl hostport)
               in if before \<noteq> CHR ''['' # host @ '']'' then None
                  else if CHR ''['' \<in> set host \<or> CHR ''['' \<in> set port \<or> CHR '']'' \<in> set port then None
                  else Some (host, port))
         else if CHR '':'' \<in> set before \<or> CHR ''['' \<in> set hostport \<or> CHR '']'' \<in> set hostport then None
         else Some (before, port))"

section \<open>The configuration\<close>

record Config =
  cfAddr :: string
  cfReadTimeout :: duration
  cfWriteTimeout :: duration
  cfIdleTimeout :: duration
  cfShutdownTimeout :: duration
  cfProviderTimeout :: duration
  cfStreamIdleTimeout :: duration
  cfCircuitFailureThreshold :: int
  cfCircuitOpenDuration :: duration
  cfRoutingPolicy :: string
  cfRoutingMinSamples :: int
  cfRoutingSampleMaxAge :: duration
  cfRoutingExplorationInterval :: int
  cfRoutingMaxLatencyOverFastestPercent :: "u64 option"
  cfOTelEnabled :: bool
  cfOTelExporterOTLPEndpoint :: string
  cfMetricsEnabled :: bool
  cfMetricsAddr :: string
  cfPostgresEnabled :: bool
  cfDatabaseURL :: string
  cfAdminEnabled :: bool
  cfAdminAddr :: string
  cfAdminAuthEnabled :: bool
  cfAdminSecret :: string
  cfAdminSessionTTL :: duration
  cfAdminOrigin :: string
  cfCacheEnabled :: bool
  cfRedisURL :: string
  cfCacheTTL :: duration
  cfProvider :: string
  cfOpenAIAPIKey :: string
  cfAnthropicAPIKey :: string
  cfGeneralOpenAIModel :: string
  cfGeneralAnthropicModel :: string
  cfOpenAIPricing :: Rates
  cfAnthropicPricing :: Rates
  cfMockPricing :: Rates

definition second :: duration where
  "second = 1000000000"

definition envOrDefault :: "environment \<Rightarrow> string \<Rightarrow> string \<Rightarrow> string" where
  "envOrDefault env key fallback = (case env key of Some v \<Rightarrow> v | None \<Rightarrow> fallback)"

definition initial_config :: "environment \<Rightarrow> Config" where
  "initial_config env =
     \<lparr>cfAddr = envOrDefault env ''ROUTEFORGE_ADDR'' ''127.0.0.1:8080'',
      cfReadTimeout = 15 * second, cfWriteTimeout = 30 * second, cfIdleTimeout = 60 * second,
      cfShutdownTimeout = 10 * second, cfProviderTimeout = 30 * second, cfStreamIdleTimeout = 30 * second,
      cfCircuitFailureThreshold = 3, cfCircuitOpenDuration = 30 * second,
      cfRoutingPolicy = ToLower (TrimSpace (envOrDefault env ''ROUTEFORGE_ROUTING_POLICY'' RoutingPolicyDeterministic)),
      cfRoutingMinSamples = 5, cfRoutingSampleMaxAge = 5 * minute, cfRoutingExplorationInterval = 10,
      cfRoutingMaxLatencyOverFastestPercent = None,
      cfOTelEnabled = False,
      cfOTelExporterOTLPEndpoint = TrimSpace (Getenv env ''ROUTEFORGE_OTEL_EXPORTER_OTLP_ENDPOINT''),
      cfMetricsEnabled = False,
      cfMetricsAddr = TrimSpace (envOrDefault env ''ROUTEFORGE_METRICS_ADDR'' ''127.0.0.1:9090''),
      cfPostgresEnabled = False, cfDatabaseURL = TrimSpace (Getenv env ''ROUTEFORGE_DATABASE_URL''),
      cfAdminEnabled = False,
      cfAdminAddr = TrimSpace (envOrDefault env ''ROUTEFORGE_ADMIN_ADDR'' ''127.0.0.1:8081''),
      cfAdminAuthEnabled = False, cfAdminSecret = [], cfAdminSessionTTL = 0, cfAdminOrigin = [],
      cfCacheEnabled = False, cfRedisURL = TrimSpace (Getenv env ''ROUTEFORGE_REDIS_URL''), cfCacheTTL = DefaultTTL,
      cfProvider = ToLower (TrimSpace (envOrDefault env ''ROUTEFORGE_PROVIDER'' ''mock'')),
      cfOpenAIAPIKey = Getenv env ''OPENAI_API_KEY'', cfAnthropicAPIKey = Getenv env ''ANTHROPIC_API_KEY'',
      cfGeneralOpenAIModel = TrimSpace (Getenv env ''ROUTEFORGE_MODEL_GENERAL_OPENAI''),
      cfGeneralAnthropicModel = TrimSpace (Getenv env ''ROUTEFORGE_MODEL_GENERAL_ANTHROPIC''),
      cfOpenAIPricing = zero_rates, cfAnthropicPricing = zero_rates, cfMockPricing = zero_rates\<rparr>"

section \<open>Reading values\<close>

text \<open>A step of \<open>Load\<close> changes the configuration or ends with the message of a validation error;
  steps run in order until one fails.\<close>

type_synonym config_step = "Config \<Rightarrow> string + Config"

fun run_steps :: "config_step list \<Rightarrow> config_step" where
  "run_steps [] cfg = Inr cfg"
| "run_steps (f # fs) cfg = (case f cfg of Inl m \<Rightarrow> Inl m | Inr cfg' \<Rightarrow> run_steps fs cfg')"

definition read_bool :: "environment \<Rightarrow> string \<Rightarrow> (bool \<Rightarrow> Config \<Rightarrow> Config) \<Rightarrow> config_step" where
  "read_bool env key target cfg =
     (let raw = TrimSpace (Getenv env key) in
      if raw = [] then Inr cfg
      else (case ParseBool raw of
              None \<Rightarrow> Inl (key @ '' must be true or false'')
            | Some enabled \<Rightarrow> Inr (target enabled cfg)))"

definition read_int :: "environment \<Rightarrow> string \<Rightarrow> (int \<Rightarrow> Config \<Rightarrow> Config) \<Rightarrow> config_step" where
  "read_int env key target cfg =
     (let raw = Getenv env key in
      if raw = [] then Inr cfg
      else (case Atoi raw of
              None \<Rightarrow> Inl (key @ '' must be a positive integer'')
            | Some number \<Rightarrow>
                if number \<le> 0 then Inl (key @ '' must be a positive integer'') else Inr (target number cfg)))"

definition read_duration :: "parsers \<Rightarrow> environment \<Rightarrow> string \<Rightarrow> (duration \<Rightarrow> Config \<Rightarrow> Config) \<Rightarrow> config_step" where
  "read_duration ps env key target cfg =
     (let raw = Getenv env key in
      if raw = [] then Inr cfg
      else (case psDuration ps raw of
              None \<Rightarrow> Inl (key @ '' must be a positive duration'')
            | Some d \<Rightarrow> if d \<le> 0 then Inl (key @ '' must be a positive duration'') else Inr (target d cfg)))"

definition loadPrice :: "environment \<Rightarrow> string \<Rightarrow> string + u64 option" where
  "loadPrice env key =
     (case env key of
        None \<Rightarrow> Inr None
      | Some raw \<Rightarrow>
          if TrimSpace raw = [] then Inr None
          else (case ParseUSDPerMillion raw of
                  Inl _ \<Rightarrow> Inl (key @ '' must be a non-negative USD amount with at most six decimal places'')
                | Inr price \<Rightarrow> Inr (Some price)))"

definition loadPricing :: "environment \<Rightarrow> string \<Rightarrow> string + Rates" where
  "loadPricing env providerName =
     (case loadPrice env (''ROUTEFORGE_PRICE_'' @ providerName @ ''_INPUT_USD_PER_MILLION'') of
        Inl m \<Rightarrow> Inl m
      | Inr input \<Rightarrow>
          (case loadPrice env (''ROUTEFORGE_PRICE_'' @ providerName @ ''_OUTPUT_USD_PER_MILLION'') of
             Inl m \<Rightarrow> Inl m
           | Inr output \<Rightarrow> Inr \<lparr>InputMicroUSDPerMillion = input, OutputMicroUSDPerMillion = output\<rparr>))"

definition read_pricing :: "environment \<Rightarrow> string \<Rightarrow> (Rates \<Rightarrow> Config \<Rightarrow> Config) \<Rightarrow> config_step" where
  "read_pricing env providerName target cfg =
     (case loadPricing env providerName of Inl m \<Rightarrow> Inl m | Inr rates \<Rightarrow> Inr (target rates cfg))"

definition percent_key :: string where
  "percent_key = ''ROUTEFORGE_ROUTING_MAX_LATENCY_OVER_FASTEST_PERCENT''"

definition read_percent :: "environment \<Rightarrow> config_step" where
  "read_percent env cfg =
     (case env percent_key of
        None \<Rightarrow> Inr cfg
      | Some raw \<Rightarrow>
          (let trimmed = TrimSpace raw in
           if trimmed = [] then Inr cfg
           else if HasPrefix trimmed ''-'' \<or> HasPrefix trimmed ''+''
           then Inl (percent_key @ '' must be a non-negative integer'')
           else (case ParseUint trimmed of
                   None \<Rightarrow> Inl (percent_key @ '' must be a non-negative integer'')
                 | Some percent \<Rightarrow> Inr (cfg\<lparr>cfRoutingMaxLatencyOverFastestPercent := Some percent\<rparr>))))"

section \<open>Admin authentication\<close>

definition origin_error :: "parsers \<Rightarrow> string \<Rightarrow> string option" where
  "origin_error ps adminOrigin =
     (case psURL ps adminOrigin of
        None \<Rightarrow> Some ''ROUTEFORGE_ADMIN_ORIGIN must be an explicit HTTP(S) origin without a path''
      | Some origin \<Rightarrow>
          if puUser origin \<or> puHostname origin = [] \<or> puPath origin \<noteq> [] \<or> puRawQuery origin \<noteq> [] \<or>
             puForceQuery origin \<or> puFragment origin \<noteq> [] \<or>
             (puScheme origin \<noteq> ''http'' \<and> puScheme origin \<noteq> ''https'')
          then Some ''ROUTEFORGE_ADMIN_ORIGIN must be an explicit HTTP(S) origin without a path''
          else if puScheme origin = ''http'' \<and> puHostname origin \<noteq> ''localhost'' \<and> \<not> psLoopbackIP ps (puHostname origin)
          then Some ''HTTP admin origins must be loopback; remote use requires HTTPS''
          else if puPort origin \<noteq> [] \<and>
             (case ParseUint_bits (puPort origin) 16 of None \<Rightarrow> True | Some n \<Rightarrow> n = 0)
          then Some ''ROUTEFORGE_ADMIN_ORIGIN must use a valid port''
          else None)"

definition session_ttl :: "parsers \<Rightarrow> environment \<Rightarrow> string + duration" where
  "session_ttl ps env =
     (let raw = Getenv env ''ROUTEFORGE_ADMIN_SESSION_TTL'';
          invalid = ''ROUTEFORGE_ADMIN_SESSION_TTL must be whole seconds between 1m and 24h''
      in if raw = [] then Inr (8 * 60 * minute)
         else (case psDuration ps raw of
                 None \<Rightarrow> Inl invalid
               | Some ttl \<Rightarrow>
                   if ttl < minute \<or> ttl > 24 * 60 * minute \<or> ttl mod second \<noteq> 0 then Inl invalid else Inr ttl))"

definition loadAdminAuth :: "parsers \<Rightarrow> environment \<Rightarrow> config_step" where
  "loadAdminAuth ps env cfg =
     (case session_ttl ps env of
        Inl m \<Rightarrow> Inl m
      | Inr ttl \<Rightarrow>
          (let cfg1 = cfg\<lparr>cfAdminSessionTTL := ttl,
                 cfAdminOrigin := envOrDefault env ''ROUTEFORGE_ADMIN_ORIGIN'' ''http://127.0.0.1:3001''\<rparr> in
           if \<not> cfAdminAuthEnabled cfg1 then Inr cfg1
           else if \<not> cfAdminEnabled cfg1 then Inl ''admin authentication requires the admin listener''
           else
             (let secret = Getenv env ''ROUTEFORGE_ADMIN_SECRET'';
                  cfg2 = cfg1\<lparr>cfAdminSecret := secret\<rparr>
              in if length secret < 32 \<or> length secret > 256 \<or> TrimSpace secret \<noteq> secret
                 then Inl ''ROUTEFORGE_ADMIN_SECRET must contain 32 to 256 bytes without surrounding whitespace''
                 else (case origin_error ps (cfAdminOrigin cfg2) of Some m \<Rightarrow> Inl m | None \<Rightarrow> Inr cfg2))))"

section \<open>Checks\<close>

definition ValidateURL :: "parsers \<Rightarrow> string \<Rightarrow> bool" where
  "ValidateURL ps raw =
     (case psURL ps raw of
        None \<Rightarrow> False
      | Some u \<Rightarrow>
          (puScheme u = ''redis'' \<or> puScheme u = ''rediss'') \<and> puHostname u \<noteq> [] \<and> puRawQuery u = [] \<and>
          \<not> puForceQuery u \<and> puFragment u = [] \<and>
          (puPort u = [] \<or> (case Atoi (puPort u) of None \<Rightarrow> False | Some n \<Rightarrow> 1 \<le> n \<and> n \<le> 65535)) \<and>
          (let database = (if HasPrefix (puPath u) ''/'' then tl (puPath u) else puPath u)
           in database = [] \<or> (case ParseUint_bits database 31 of None \<Rightarrow> False | Some n \<Rightarrow> n \<le> 2147483647)))"

definition validateMetricsAddr :: "string \<Rightarrow> string option" where
  "validateMetricsAddr address =
     (if address = [] then Some ''ROUTEFORGE_METRICS_ENABLED=true requires ROUTEFORGE_METRICS_ADDR''
      else (case SplitHostPort address of
              None \<Rightarrow> Some ''ROUTEFORGE_METRICS_ADDR must be a host:port address''
            | Some (_, port) \<Rightarrow>
                (case ParseUint_bits port 16 of
                   None \<Rightarrow> Some ''ROUTEFORGE_METRICS_ADDR must use a port between 1 and 65535''
                 | Some n \<Rightarrow> if n = 0 then Some ''ROUTEFORGE_METRICS_ADDR must use a port between 1 and 65535'' else None)))"

definition validateOTLPEndpoint :: "parsers \<Rightarrow> string \<Rightarrow> string option" where
  "validateOTLPEndpoint ps endpoint =
     (if endpoint = [] then Some ''ROUTEFORGE_OTEL_ENABLED=true requires ROUTEFORGE_OTEL_EXPORTER_OTLP_ENDPOINT''
      else (let invalid = ''ROUTEFORGE_OTEL_EXPORTER_OTLP_ENDPOINT must be an HTTP(S) URL without credentials, query, or fragment''
            in case psURL ps endpoint of
                 None \<Rightarrow> Some invalid
               | Some u \<Rightarrow>
                   if puHost u = [] \<or> puUser u \<or> (puScheme u \<noteq> ''http'' \<and> puScheme u \<noteq> ''https'') \<or>
                      puRawQuery u \<noteq> [] \<or> puFragment u \<noteq> []
                   then Some invalid else None))"

definition admin_addr_error :: "string \<Rightarrow> string option" where
  "admin_addr_error address =
     (case SplitHostPort address of
        None \<Rightarrow> Some ''ROUTEFORGE_ADMIN_ADDR must be an explicit host:port address''
      | Some (host, port) \<Rightarrow>
          if host = [] then Some ''ROUTEFORGE_ADMIN_ADDR must be an explicit host:port address''
          else (case ParseUint_bits port 16 of
                  None \<Rightarrow> Some ''ROUTEFORGE_ADMIN_ADDR must use a port between 1 and 65535''
                | Some n \<Rightarrow> if n = 0 then Some ''ROUTEFORGE_ADMIN_ADDR must use a port between 1 and 65535'' else None))"

definition database_error :: "parsers \<Rightarrow> Config \<Rightarrow> string option" where
  "database_error ps cfg =
     (if \<not> cfPostgresEnabled cfg then None
      else if cfDatabaseURL cfg = [] then Some ''ROUTEFORGE_POSTGRES_ENABLED=true requires ROUTEFORGE_DATABASE_URL''
      else (let invalid = ''ROUTEFORGE_DATABASE_URL must be a PostgreSQL URL with a host'' in
            case psURL ps (cfDatabaseURL cfg) of
              None \<Rightarrow> Some invalid
            | Some u \<Rightarrow>
                if (puScheme u \<noteq> ''postgres'' \<and> puScheme u \<noteq> ''postgresql'') \<or> puHostname u = []
                then Some invalid else None))"

definition policy_error :: "Config \<Rightarrow> string option" where
  "policy_error cfg =
     (if cfRoutingPolicy cfg \<in> {RoutingPolicyDeterministic, RoutingPolicyLatency, RoutingPolicyCost} then None
      else if cfRoutingPolicy cfg = RoutingPolicyCostLatency then
        (if cfRoutingMaxLatencyOverFastestPercent cfg = None
         then Some ''ROUTEFORGE_ROUTING_POLICY=cost_latency requires ROUTEFORGE_ROUTING_MAX_LATENCY_OVER_FASTEST_PERCENT''
         else None)
      else Some ''ROUTEFORGE_ROUTING_POLICY must be deterministic, latency, cost, or cost_latency'')"

definition provider_error :: "Config \<Rightarrow> string option" where
  "provider_error cfg =
     (let openai = TrimSpace (cfOpenAIAPIKey cfg) \<noteq> []; anthropic = TrimSpace (cfAnthropicAPIKey cfg) \<noteq> [] in
      if cfProvider cfg = ''mock'' then None
      else if cfProvider cfg = ''openai'' then
        (if \<not> openai then Some ''ROUTEFORGE_PROVIDER=openai requires OPENAI_API_KEY'' else None)
      else if cfProvider cfg = ''anthropic'' then
        (if \<not> anthropic then Some ''ROUTEFORGE_PROVIDER=anthropic requires ANTHROPIC_API_KEY'' else None)
      else if cfProvider cfg = ''auto'' then
        (if \<not> openai \<and> \<not> anthropic then Some ''ROUTEFORGE_PROVIDER=auto requires at least one provider API key''
         else if openai \<and> cfGeneralOpenAIModel cfg = []
         then Some ''auto routing with OpenAI requires ROUTEFORGE_MODEL_GENERAL_OPENAI''
         else if anthropic \<and> cfGeneralAnthropicModel cfg = []
         then Some ''auto routing with Anthropic requires ROUTEFORGE_MODEL_GENERAL_ANTHROPIC''
         else None)
      else Some ''ROUTEFORGE_PROVIDER must be mock, openai, anthropic, or auto'')"

text \<open>The first of a list of checks that objects.\<close>

fun first_error :: "string option list \<Rightarrow> string option" where
  "first_error [] = None"
| "first_error (e # es) = (case e of Some m \<Rightarrow> Some m | None \<Rightarrow> first_error es)"

definition config_error :: "parsers \<Rightarrow> Config \<Rightarrow> string option" where
  "config_error ps cfg = first_error
     [if cfCacheTTL cfg < 1000000 then Some ''ROUTEFORGE_CACHE_TTL must be at least 1ms'' else None,
      if cfCacheEnabled cfg \<and> \<not> ValidateURL ps (cfRedisURL cfg)
      then Some ''ROUTEFORGE_CACHE_ENABLED=true requires a valid ROUTEFORGE_REDIS_URL'' else None,
      if cfAddr cfg = [] then Some ''ROUTEFORGE_ADDR must not be empty'' else None,
      if cfOTelEnabled cfg then validateOTLPEndpoint ps (cfOTelExporterOTLPEndpoint cfg) else None,
      if cfAdminEnabled cfg \<and> \<not> cfPostgresEnabled cfg
      then Some ''ROUTEFORGE_ADMIN_ENABLED=true requires ROUTEFORGE_POSTGRES_ENABLED=true'' else None,
      if cfAdminEnabled cfg then admin_addr_error (cfAdminAddr cfg) else None,
      if cfMetricsEnabled cfg then validateMetricsAddr (cfMetricsAddr cfg) else None,
      database_error ps cfg,
      policy_error cfg,
      provider_error cfg]"

section \<open>Loading\<close>

definition flag_steps :: "environment \<Rightarrow> config_step list" where
  "flag_steps env =
     [read_bool env ''ROUTEFORGE_OTEL_ENABLED'' (\<lambda>b c. c\<lparr>cfOTelEnabled := b\<rparr>),
      read_bool env ''ROUTEFORGE_METRICS_ENABLED'' (\<lambda>b c. c\<lparr>cfMetricsEnabled := b\<rparr>),
      read_bool env ''ROUTEFORGE_POSTGRES_ENABLED'' (\<lambda>b c. c\<lparr>cfPostgresEnabled := b\<rparr>),
      read_bool env ''ROUTEFORGE_ADMIN_ENABLED'' (\<lambda>b c. c\<lparr>cfAdminEnabled := b\<rparr>),
      read_bool env ''ROUTEFORGE_ADMIN_AUTH_ENABLED'' (\<lambda>b c. c\<lparr>cfAdminAuthEnabled := b\<rparr>),
      read_bool env ''ROUTEFORGE_CACHE_ENABLED'' (\<lambda>b c. c\<lparr>cfCacheEnabled := b\<rparr>)]"

definition value_steps :: "parsers \<Rightarrow> environment \<Rightarrow> config_step list" where
  "value_steps ps env =
     [read_pricing env ''OPENAI'' (\<lambda>r c. c\<lparr>cfOpenAIPricing := r\<rparr>),
      read_pricing env ''ANTHROPIC'' (\<lambda>r c. c\<lparr>cfAnthropicPricing := r\<rparr>),
      read_pricing env ''MOCK'' (\<lambda>r c. c\<lparr>cfMockPricing := r\<rparr>),
      read_int env ''ROUTEFORGE_CIRCUIT_FAILURE_THRESHOLD'' (\<lambda>n c. c\<lparr>cfCircuitFailureThreshold := n\<rparr>),
      read_int env ''ROUTEFORGE_ROUTING_MIN_SAMPLES'' (\<lambda>n c. c\<lparr>cfRoutingMinSamples := n\<rparr>),
      read_int env ''ROUTEFORGE_ROUTING_EXPLORATION_INTERVAL'' (\<lambda>n c. c\<lparr>cfRoutingExplorationInterval := n\<rparr>),
      read_percent env,
      read_duration ps env ''ROUTEFORGE_READ_TIMEOUT'' (\<lambda>d c. c\<lparr>cfReadTimeout := d\<rparr>),
      read_duration ps env ''ROUTEFORGE_WRITE_TIMEOUT'' (\<lambda>d c. c\<lparr>cfWriteTimeout := d\<rparr>),
      read_duration ps env ''ROUTEFORGE_IDLE_TIMEOUT'' (\<lambda>d c. c\<lparr>cfIdleTimeout := d\<rparr>),
      read_duration ps env ''ROUTEFORGE_SHUTDOWN_TIMEOUT'' (\<lambda>d c. c\<lparr>cfShutdownTimeout := d\<rparr>),
      read_duration ps env ''ROUTEFORGE_PROVIDER_TIMEOUT'' (\<lambda>d c. c\<lparr>cfProviderTimeout := d\<rparr>),
      read_duration ps env ''ROUTEFORGE_STREAM_IDLE_TIMEOUT'' (\<lambda>d c. c\<lparr>cfStreamIdleTimeout := d\<rparr>),
      read_duration ps env ''ROUTEFORGE_CIRCUIT_OPEN_DURATION'' (\<lambda>d c. c\<lparr>cfCircuitOpenDuration := d\<rparr>),
      read_duration ps env ''ROUTEFORGE_ROUTING_SAMPLE_MAX_AGE'' (\<lambda>d c. c\<lparr>cfRoutingSampleMaxAge := d\<rparr>),
      read_duration ps env ''ROUTEFORGE_CACHE_TTL'' (\<lambda>d c. c\<lparr>cfCacheTTL := d\<rparr>)]"

definition Load :: "parsers \<Rightarrow> environment \<Rightarrow> string + Config" where
  "Load ps env =
     (case run_steps (flag_steps env @ [loadAdminAuth ps env] @ value_steps ps env) (initial_config env) of
        Inl m \<Rightarrow> Inl m
      | Inr cfg \<Rightarrow> (case config_error ps cfg of Some m \<Rightarrow> Inl m | None \<Rightarrow> Inr cfg))"

section \<open>Building the service\<close>

definition routing_config :: "Config \<Rightarrow> RoutingConfig" where
  "routing_config cfg = \<lparr>rcPolicy = cfRoutingPolicy cfg, rcMinSamples = cfRoutingMinSamples cfg,
     rcSampleMaxAge = cfRoutingSampleMaxAge cfg, rcExplorationInterval = cfRoutingExplorationInterval cfg,
     rcMaxLatencyOverFastestPercent = cfRoutingMaxLatencyOverFastestPercent cfg\<rparr>"

definition configuredPrices :: "Config \<Rightarrow> PriceBook" where
  "configuredPrices cfg =
     (let p1 = [\<lparr>keyProvider = mock_Name, keyModel = ''mock-model''\<rparr> \<mapsto> cfMockPricing cfg];
          p2 = (if cfGeneralOpenAIModel cfg = [] then p1
                else p1(\<lparr>keyProvider = openai_Name, keyModel = cfGeneralOpenAIModel cfg\<rparr> \<mapsto> cfOpenAIPricing cfg))
      in if cfGeneralAnthropicModel cfg = [] then p2
         else p2(\<lparr>keyProvider = anthropic_Name, keyModel = cfGeneralAnthropicModel cfg\<rparr> \<mapsto> cfAnthropicPricing cfg))"

definition configured_providers :: "Config \<Rightarrow> Provider list" where
  "configured_providers cfg =
     [\<lparr>pvName = mock_Name, pvStreaming = True\<rparr>] @
     (if TrimSpace (cfOpenAIAPIKey cfg) = [] then [] else [\<lparr>pvName = openai_Name, pvStreaming = True\<rparr>]) @
     (if TrimSpace (cfAnthropicAPIKey cfg) = [] then [] else [\<lparr>pvName = anthropic_Name, pvStreaming = True\<rparr>])"

definition configured_resolver :: "Config \<Rightarrow> Resolver" where
  "configured_resolver cfg = New_Resolver [General \<mapsto>
     [openai_Name \<mapsto> cfGeneralOpenAIModel cfg, anthropic_Name \<mapsto> cfGeneralAnthropicModel cfg,
      mock_Name \<mapsto> ''mock-model'']]"

text \<open>The automatic providers in their fixed order.\<close>

definition ordered_providers :: "(string \<rightharpoonup> Provider) \<Rightarrow> Provider list" where
  "ordered_providers registry = List.map_filter (Registry_Get registry) [openai_Name, anthropic_Name]"

definition buildService :: "Config \<Rightarrow> string + Service" where
  "buildService cfg =
     (let registry = NewRegistry pvName (configured_providers cfg);
          resolver = Some (configured_resolver cfg);
          circuitConfig = \<lparr>FailureThreshold = cfCircuitFailureThreshold cfg, OpenDuration = cfCircuitOpenDuration cfg\<rparr>
      in if cfProvider cfg \<noteq> ''auto'' then
           (case Registry_Get registry (cfProvider cfg) of
              None \<Rightarrow> Inl ''configured provider is unavailable''
            | Some selected \<Rightarrow>
                (let service = NewWithCircuitBreaker selected resolver circuitConfig in
                 case ConfigureRouting (svRouting service) (routing_config cfg) of
                   (Some err, _) \<Rightarrow> Inl err
                 | (None, routing) \<Rightarrow> Inr (SetPricing (service\<lparr>svRouting := routing\<rparr>) (configuredPrices cfg))))
         else
           (let ordered = ordered_providers registry in
            if ordered = [] then Inl ''no automatic providers are configured''
            else (case newAutoService resolver circuitConfig (routing_config cfg) ordered of
                    Inl err \<Rightarrow> Inl err
                  | Inr service \<Rightarrow> Inr (SetPricing service (configuredPrices cfg)))))"

section \<open>What a loaded configuration satisfies\<close>

lemma run_steps_append:
  "run_steps (fs @ gs) c = (case run_steps fs c of Inl m \<Rightarrow> Inl m | Inr c' \<Rightarrow> run_steps gs c')"
  by (induction fs arbitrary: c) (auto split: sum.split)

lemma run_steps_invariant:
  "run_steps fs c = Inr c' \<Longrightarrow> P c \<Longrightarrow> (\<And>f c c'. f \<in> set fs \<Longrightarrow> P c \<Longrightarrow> f c = Inr c' \<Longrightarrow> P c') \<Longrightarrow> P c'"
proof (induction fs arbitrary: c)
  case (Cons f fs)
  obtain c1 where "f c = Inr c1" "run_steps fs c1 = Inr c'"
    using Cons.prems(1) by (auto split: sum.splits)
  with Cons.prems(2,3) Cons.IH show ?case by (metis list.set_intros)
qed simp

lemma read_bool_Inr: "read_bool env key target c = Inr c' \<Longrightarrow> c' = c \<or> (\<exists>b. c' = target b c)"
  by (auto simp: read_bool_def Let_def split: if_splits option.splits)

lemma read_int_Inr: "read_int env key target c = Inr c' \<Longrightarrow> c' = c \<or> (\<exists>n > 0. c' = target n c)"
  by (auto simp: read_int_def Let_def not_le split: if_splits option.splits)

lemma read_duration_Inr: "read_duration ps env key target c = Inr c' \<Longrightarrow> c' = c \<or> (\<exists>d > 0. c' = target d c)"
  by (auto simp: read_duration_def Let_def not_le split: if_splits option.splits)

lemma read_pricing_Inr: "read_pricing env name target c = Inr c' \<Longrightarrow> \<exists>r. c' = target r c"
  by (auto simp: read_pricing_def split: sum.splits)

lemma read_percent_Inr:
  "read_percent env c = Inr c' \<Longrightarrow> c' = c \<or> (\<exists>p. c' = c\<lparr>cfRoutingMaxLatencyOverFastestPercent := Some p\<rparr>)"
  by (auto simp: read_percent_def Let_def split: if_splits option.splits)

lemmas read_facts = read_bool_Inr read_int_Inr read_duration_Inr read_pricing_Inr read_percent_Inr

text \<open>Positive durations and counts, kept by every step.\<close>

definition positive_settings :: "Config \<Rightarrow> bool" where
  "positive_settings c \<longleftrightarrow> list_all (\<lambda>x. 0 < x)
     [cfReadTimeout c, cfWriteTimeout c, cfIdleTimeout c, cfShutdownTimeout c, cfProviderTimeout c,
      cfStreamIdleTimeout c, cfCircuitOpenDuration c, cfRoutingSampleMaxAge c, cfCacheTTL c,
      cfCircuitFailureThreshold c, cfRoutingMinSamples c, cfRoutingExplorationInterval c]"

definition admin_auth_ok :: "Config \<Rightarrow> bool" where
  "admin_auth_ok c \<longleftrightarrow> minute \<le> cfAdminSessionTTL c \<and> cfAdminSessionTTL c \<le> 24 * 60 * minute \<and>
     (cfAdminAuthEnabled c \<longrightarrow> cfAdminEnabled c \<and> 32 \<le> length (cfAdminSecret c) \<and> length (cfAdminSecret c) \<le> 256)"

lemma loadAdminAuth_Inr:
  "loadAdminAuth ps env c = Inr c' \<Longrightarrow> admin_auth_ok c' \<and> (positive_settings c \<longrightarrow> positive_settings c')"
  by (auto simp: loadAdminAuth_def session_ttl_def admin_auth_ok_def positive_settings_def Let_def minute_def
      split: if_splits option.splits sum.splits)

lemma flag_steps_positive: "f \<in> set (flag_steps env) \<Longrightarrow> positive_settings c \<Longrightarrow> f c = Inr c' \<Longrightarrow> positive_settings c'"
  by (auto simp: flag_steps_def positive_settings_def dest!: read_bool_Inr)

lemma value_steps_positive: "f \<in> set (value_steps ps env) \<Longrightarrow> positive_settings c \<Longrightarrow> f c = Inr c' \<Longrightarrow> positive_settings c'"
  by (auto simp: value_steps_def positive_settings_def dest!: read_facts)

lemma value_steps_admin: "f \<in> set (value_steps ps env) \<Longrightarrow> admin_auth_ok c \<Longrightarrow> f c = Inr c' \<Longrightarrow> admin_auth_ok c'"
  by (auto simp: value_steps_def admin_auth_ok_def dest!: read_facts)

text \<open>The model names stay trimmed.\<close>

definition trimmed_models :: "Config \<Rightarrow> bool" where
  "trimmed_models c \<longleftrightarrow> TrimSpace (cfGeneralOpenAIModel c) = cfGeneralOpenAIModel c \<and>
     TrimSpace (cfGeneralAnthropicModel c) = cfGeneralAnthropicModel c"

lemma loadAdminAuth_trimmed: "loadAdminAuth ps env c = Inr c' \<Longrightarrow> trimmed_models c \<Longrightarrow> trimmed_models c'"
  by (auto simp: loadAdminAuth_def trimmed_models_def Let_def split: if_splits option.splits sum.splits)

lemma steps_trimmed:
  "f \<in> set (flag_steps env @ [loadAdminAuth ps env] @ value_steps ps env) \<Longrightarrow> trimmed_models c \<Longrightarrow> f c = Inr c' \<Longrightarrow>
   trimmed_models c'"
  using loadAdminAuth_trimmed [of ps env c c']
  by (auto simp: flag_steps_def value_steps_def trimmed_models_def dest!: read_facts)

lemma Load_trimmed:
  assumes "Load ps env = Inr cfg"
  shows "trimmed_models cfg"
proof -
  have "run_steps (flag_steps env @ [loadAdminAuth ps env] @ value_steps ps env) (initial_config env) = Inr cfg"
    using assms by (auto simp: Load_def split: sum.splits option.splits)
  moreover have "trimmed_models (initial_config env)" by (simp add: trimmed_models_def initial_config_def)
  ultimately show ?thesis using steps_trimmed by (rule run_steps_invariant)
qed

lemma Load_facts:
  assumes "Load ps env = Inr cfg"
  shows "positive_settings cfg" "admin_auth_ok cfg" "config_error ps cfg = None"
proof -
  obtain c1 c2 where s: "run_steps (flag_steps env) (initial_config env) = Inr c1"
    "loadAdminAuth ps env c1 = Inr c2" "run_steps (value_steps ps env) c2 = Inr cfg" "config_error ps cfg = None"
    using assms by (auto simp: Load_def run_steps_append split: sum.splits option.splits)
  have "positive_settings (initial_config env)"
    by (simp add: positive_settings_def initial_config_def second_def minute_def DefaultTTL_def)
  then have "positive_settings c1" using run_steps_invariant [OF s(1)] flag_steps_positive by metis
  with s(2) have "positive_settings c2" "admin_auth_ok c2" using loadAdminAuth_Inr by auto
  with s(3) show "positive_settings cfg" "admin_auth_ok cfg"
    using run_steps_invariant value_steps_positive value_steps_admin by metis+
  show "config_error ps cfg = None" by (rule s(4))
qed

lemma first_error_None: "first_error es = None \<longleftrightarrow> list_all (\<lambda>e. e = None) es"
  by (induction es) (auto split: option.split)

lemma Load_checks:
  assumes "Load ps env = Inr cfg"
  shows "policy_error cfg = None" "provider_error cfg = None" "cfAddr cfg \<noteq> []"
    "cfAdminEnabled cfg \<Longrightarrow> cfPostgresEnabled cfg" "1000000 \<le> cfCacheTTL cfg"
  using Load_facts(3) [OF assms] unfolding config_error_def first_error_None by (simp_all split: if_splits)

lemma routing_accepted:
  assumes "Load ps env = Inr cfg"
  obtains policy rank where "newRoutingPolicy (routing_config cfg) = Inr (policy, rank)"
proof -
  have "cfRoutingPolicy cfg \<in> {RoutingPolicyDeterministic, RoutingPolicyLatency, RoutingPolicyCost} \<or>
      cfRoutingPolicy cfg = RoutingPolicyCostLatency \<and> cfRoutingMaxLatencyOverFastestPercent cfg \<noteq> None"
    using Load_checks(1) [OF assms] by (auto simp: policy_error_def split: if_splits)
  moreover have "0 < cfRoutingMinSamples cfg" "0 < cfRoutingSampleMaxAge cfg" "0 < cfRoutingExplorationInterval cfg"
    using Load_facts(1) [OF assms] by (simp_all add: positive_settings_def)
  ultimately have "\<exists>policy rank. newRoutingPolicy (routing_config cfg) = Inr (policy, rank)"
    by (auto simp: newRoutingPolicy_def routing_config_def newLatencyRoutingPolicy_def)
  then show thesis using that by blast
qed

lemma names_distinct [simp]: "mock_Name \<noteq> openai_Name" "mock_Name \<noteq> anthropic_Name" "openai_Name \<noteq> anthropic_Name"
  "openai_Name \<noteq> mock_Name" "anthropic_Name \<noteq> mock_Name" "anthropic_Name \<noteq> openai_Name"
  by (simp_all add: mock_Name_def openai_Name_def anthropic_Name_def)

lemma registry_configured:
  "Registry_Get (NewRegistry pvName (configured_providers cfg)) n =
     (if n = anthropic_Name \<and> TrimSpace (cfAnthropicAPIKey cfg) \<noteq> [] then Some \<lparr>pvName = anthropic_Name, pvStreaming = True\<rparr>
      else if n = openai_Name \<and> TrimSpace (cfOpenAIAPIKey cfg) \<noteq> [] then Some \<lparr>pvName = openai_Name, pvStreaming = True\<rparr>
      else if n = mock_Name then Some \<lparr>pvName = mock_Name, pvStreaming = True\<rparr> else None)"
  by (auto simp: registry_latest configured_providers_def)

lemma newRuntimeRouting_policy:
  "rcPolicy (rvConfig (rtCurrent (newRuntimeRouting c p r))) = normalizedRoutingPolicyName (rcPolicy c)"
  by (simp add: newRuntimeRouting_def cloneRoutingConfig_def Let_def split: option.split)

lemma auto_providers:
  assumes "provider_error cfg = None" "trimmed_models cfg" "cfProvider cfg = ''auto''"
  defines "ordered \<equiv> ordered_providers (NewRegistry pvName (configured_providers cfg))"
  shows "ordered \<noteq> []"
    "list_all (\<lambda>p. \<exists>m. Resolve (configured_resolver cfg) General (pvName p) = Inr m \<and> m \<noteq> []) ordered"
proof -
  have r: "Resolve (configured_resolver cfg) General openai_Name = Inr (cfGeneralOpenAIModel cfg)"
    if "cfGeneralOpenAIModel cfg \<noteq> []"
    using that assms(2) by (simp add: Resolve_def configured_resolver_def trimmed_models_def)
  have r': "Resolve (configured_resolver cfg) General anthropic_Name = Inr (cfGeneralAnthropicModel cfg)"
    if "cfGeneralAnthropicModel cfg \<noteq> []"
    using that assms(2) by (simp add: Resolve_def configured_resolver_def trimmed_models_def)
  show "ordered \<noteq> []"
    using assms(1,3) by (auto simp: ordered_def ordered_providers_def provider_error_def registry_configured List.map_filter_def Let_def split: if_splits)
  show "list_all (\<lambda>p. \<exists>m. Resolve (configured_resolver cfg) General (pvName p) = Inr m \<and> m \<noteq> []) ordered"
    using assms(1,3) r r' by (auto simp: ordered_def ordered_providers_def provider_error_def registry_configured List.map_filter_def Let_def split: if_splits)
qed

section \<open>Properties\<close>


text \<open>The empty environment loads, with the mock provider and every optional part off.\<close>

definition no_parsers :: parsers where
  "no_parsers = \<lparr>psURL = \<lambda>_. None, psLoopbackIP = \<lambda>_. False, psDuration = \<lambda>_. None\<rparr>"

lemma default_loads:
  obtains cfg where "Load no_parsers Map.empty = Inr cfg" "cfProvider cfg = ''mock''" "\<not> cfOTelEnabled cfg"
    "\<not> cfMetricsEnabled cfg" "\<not> cfPostgresEnabled cfg" "\<not> cfAdminEnabled cfg" "\<not> cfCacheEnabled cfg"
proof -
  let ?auth = "\<lambda>c. c\<lparr>cfAdminSessionTTL := 8 * 60 * minute, cfAdminOrigin := ''http://127.0.0.1:3001''\<rparr>"
  let ?env = "Map.empty :: environment"
  have none: "read_bool ?env k t c = Inr c" "read_int ?env k t' c = Inr c" "read_duration no_parsers ?env k t' c = Inr c"
    "read_percent ?env c = Inr c" for k t t' c
    by (simp_all add: read_bool_def read_int_def read_duration_def read_percent_def Getenv_def)
  have price: "read_pricing ?env k t c = Inr (t zero_rates c)" for k t c
    by (simp add: read_pricing_def loadPricing_def loadPrice_def zero_rates_def)
  have provider: "cfProvider (initial_config ?env) = ''mock''" and policy: "cfRoutingPolicy (initial_config ?env) = RoutingPolicyDeterministic"
    by (simp_all add: initial_config_def envOrDefault_def TrimSpace_plain plain_char_def ToLower_lower
        RoutingPolicyDeterministic_def)
  have flags: "\<not> cfOTelEnabled (initial_config ?env)" "\<not> cfMetricsEnabled (initial_config ?env)"
    "\<not> cfPostgresEnabled (initial_config ?env)" "\<not> cfAdminEnabled (initial_config ?env)"
    "\<not> cfAdminAuthEnabled (initial_config ?env)" "\<not> cfCacheEnabled (initial_config ?env)"
    "cfAddr (initial_config ?env) \<noteq> []" "\<not> cfCacheTTL (initial_config ?env) < 1000000"
    by (simp_all add: initial_config_def envOrDefault_def DefaultTTL_def)
  define cfg where "cfg = (?auth (initial_config ?env))\<lparr>cfOpenAIPricing := zero_rates, cfAnthropicPricing := zero_rates,
      cfMockPricing := zero_rates\<rparr>"
  have "config_error no_parsers cfg = None"
    using flags provider policy by (simp add: config_error_def cfg_def database_error_def policy_error_def provider_error_def)
  moreover have "loadAdminAuth no_parsers ?env (initial_config ?env) = Inr (?auth (initial_config ?env))"
    using flags by (simp add: loadAdminAuth_def session_ttl_def Getenv_def envOrDefault_def)
  ultimately have "Load no_parsers ?env = Inr cfg"
    by (simp add: Load_def flag_steps_def value_steps_def none price) (simp add: cfg_def)
  moreover have "cfProvider cfg = ''mock''" "\<not> cfOTelEnabled cfg" "\<not> cfMetricsEnabled cfg" "\<not> cfPostgresEnabled cfg"
    "\<not> cfAdminEnabled cfg" "\<not> cfCacheEnabled cfg"
    using provider flags by (simp_all add: cfg_def)
  ultimately show thesis by (rule that)
qed


end
