(* ===== verification/Go_Time.thy ===== *)
theory Go_Time
  imports Json
begin

text \<open>
  The parts of Go's package time that turn instants into text and back: the proleptic Gregorian
  calendar, the format RFC3339Nano, the parser of the same layout with everything it tolerates, and
  the JSON form of a time. An instant is the number of nanoseconds since the start of year 1, and a
  time in a zone carries its offset in seconds east of UTC. Parsing undoes formatting for every time
  of the years 0 to 9999.
\<close>

section \<open>The calendar\<close>

definition is_leap :: "int \<Rightarrow> bool" where
  "is_leap y \<longleftrightarrow> y mod 4 = 0 \<and> (y mod 100 \<noteq> 0 \<or> y mod 400 = 0)"

definition days_in_year :: "int \<Rightarrow> int" where
  "days_in_year y = (if is_leap y then 366 else 365)"

definition month_lengths :: "int \<Rightarrow> int list" where
  "month_lengths y = [31, if is_leap y then 29 else 28, 31, 30, 31, 30, 31, 31, 30, 31, 30, 31]"

text \<open>\<open>daysIn\<close>, for a month from 1 to 12.\<close>

definition days_in :: "int \<Rightarrow> nat \<Rightarrow> int" where
  "days_in y m = month_lengths y ! (m - 1)"

definition days_before_year :: "int \<Rightarrow> int" where
  "days_before_year y = 365 * (y - 1) + (y - 1) div 4 - (y - 1) div 100 + (y - 1) div 400"

text \<open>The day number of a date, where day 0 is the first of January of year 1.\<close>

definition day_number :: "int \<Rightarrow> nat \<Rightarrow> int \<Rightarrow> int" where
  "day_number y m d = days_before_year y + sum_list (take (m - 1) (month_lengths y)) + (d - 1)"

text \<open>The year of a day and the day within it, by cycles of 400, 100 and 4 years and single years.\<close>

definition year_and_day :: "int \<Rightarrow> int \<times> int" where
  "year_and_day n =
     (let a = n div 146097; r = n mod 146097;
          b = min 3 (r div 36524); r1 = r - 36524 * b;
          c = r1 div 1461; r2 = r1 mod 1461;
          e = min 3 (r2 div 365)
      in (400 * a + 100 * b + 4 * c + e + 1, r2 - 365 * e))"

fun month_walk :: "nat \<Rightarrow> int list \<Rightarrow> int \<Rightarrow> nat \<times> int" where
  "month_walk m [] d = (m, d + 1)"
| "month_walk m (l # ls) d = (if d < l \<or> ls = [] then (m, d + 1) else month_walk (Suc m) ls (d - l))"

definition civil_date :: "int \<Rightarrow> int \<times> nat \<times> int" where
  "civil_date n = (case year_and_day n of (y, d) \<Rightarrow> case month_walk 1 (month_lengths y) d of (m, k) \<Rightarrow> (y, m, k))"

definition valid_date :: "int \<Rightarrow> nat \<Rightarrow> int \<Rightarrow> bool" where
  "valid_date y m d \<longleftrightarrow> 1 \<le> m \<and> m \<le> 12 \<and> 1 \<le> d \<and> d \<le> days_in y m"

section \<open>Zoned times\<close>

record zoned =
  znInstant :: instant
  znOffset :: int

definition nanos :: int where
  "nanos = 1000000000"

definition day_nanos :: int where
  "day_nanos = 86400 * nanos"

text \<open>The wall clock of a time in its zone, and \<open>Year\<close> and \<open>Nanosecond\<close>.\<close>

definition wall :: "zoned \<Rightarrow> int" where
  "wall t = znInstant t + znOffset t * nanos"

definition zoned_Year :: "zoned \<Rightarrow> int" where
  "zoned_Year t = fst (year_and_day (wall t div day_nanos))"

definition zoned_Nanosecond :: "zoned \<Rightarrow> int" where
  "zoned_Nanosecond t = znInstant t mod nanos"

definition utc :: "instant \<Rightarrow> zoned" where
  "utc t = \<lparr>znInstant = t, znOffset = 0\<rparr>"

text \<open>\<open>time.Date\<close> for fields in their range, in a zone with the given offset.\<close>

definition Date :: "int \<Rightarrow> nat \<Rightarrow> int \<Rightarrow> int \<Rightarrow> int \<Rightarrow> int \<Rightarrow> int \<Rightarrow> int \<Rightarrow> zoned" where
  "Date y m d hour minute sec nsec offset =
     \<lparr>znInstant = (((day_number y m d * 24 + hour) * 60 + minute) * 60 + sec - offset) * nanos + nsec,
      znOffset = offset\<rparr>"

section \<open>Formatting\<close>

definition digit :: "nat \<Rightarrow> char" where
  "digit d = char_of (48 + d)"

fun fixed_digits :: "nat \<Rightarrow> nat \<Rightarrow> string" where
  "fixed_digits 0 n = []"
| "fixed_digits (Suc w) n = fixed_digits w (n div 10) @ [digit (n mod 10)]"

text \<open>\<open>appendInt\<close>: at least the given number of digits, and a sign for a negative number.\<close>

definition append_int :: "int \<Rightarrow> nat \<Rightarrow> string" where
  "append_int x w =
     (let n = nat \<bar>x\<bar> in
      (if x < 0 then ''-'' else []) @ (if n < 10 ^ w then fixed_digits w n else decimal n))"

text \<open>The fraction of a second without trailing zeros, or nothing.\<close>

definition trim_zeros :: "string \<Rightarrow> string" where
  "trim_zeros s = rev (dropWhile (\<lambda>c. c = CHR ''0'') (rev s))"

definition format_fraction :: "int \<Rightarrow> string" where
  "format_fraction nsec = (if nsec = 0 then [] else CHR ''.'' # trim_zeros (fixed_digits 9 (nat nsec)))"

definition format_zone :: "int \<Rightarrow> string" where
  "format_zone offset =
     (if offset = 0 then ''Z''
      else (let zone = quot offset 60 in
        (if zone < 0 then CHR ''-'' else CHR ''+'') #
        append_int (\<bar>zone\<bar> div 60) 2 @ CHR '':'' # append_int (\<bar>zone\<bar> mod 60) 2))"

definition RFC3339Nano :: "zoned \<Rightarrow> string" where
  "RFC3339Nano t =
     (let w = wall t; secs = w div nanos mod 86400 in
      case civil_date (w div day_nanos) of (y, m, d) \<Rightarrow>
        append_int y 4 @ CHR ''-'' # append_int (int m) 2 @ CHR ''-'' # append_int d 2 @ CHR ''T'' #
        append_int (secs div 3600) 2 @ CHR '':'' # append_int (secs div 60 mod 60) 2 @ CHR '':'' #
        append_int (secs mod 60) 2 @ format_fraction (w mod nanos) @ format_zone (znOffset t))"

section \<open>Parsing\<close>

text \<open>\<open>getnum\<close>: two digits, or one where the layout permits it.\<close>

definition getnum :: "bool \<Rightarrow> string \<Rightarrow> (nat \<times> string) option" where
  "getnum fixed s =
     (case s of
        [] \<Rightarrow> None
      | c # s1 \<Rightarrow> (case digit_value c of
          None \<Rightarrow> None
        | Some a \<Rightarrow> (case s1 of
            [] \<Rightarrow> if fixed then None else Some (a, s1)
          | c' # s2 \<Rightarrow> (case digit_value c' of
              None \<Rightarrow> if fixed then None else Some (a, s1)
            | Some b \<Rightarrow> Some (10 * a + b, s2)))))"

text \<open>A field of the layout in its range, with the text before it.\<close>

definition skip :: "char \<Rightarrow> string \<Rightarrow> string option" where
  "skip c s = (case s of [] \<Rightarrow> None | x # s1 \<Rightarrow> if x = c then Some s1 else None)"

definition ranged :: "nat \<Rightarrow> nat \<Rightarrow> (nat \<times> string) option \<Rightarrow> (nat \<times> string) option" where
  "ranged lo hi r = (case r of None \<Rightarrow> None | Some (n, s) \<Rightarrow> if lo \<le> n \<and> n \<le> hi then Some (n, s) else None)"

definition field :: "char \<Rightarrow> bool \<Rightarrow> nat \<Rightarrow> nat \<Rightarrow> string \<Rightarrow> (nat \<times> string) option" where
  "field c fixed lo hi s = (case skip c s of None \<Rightarrow> None | Some s1 \<Rightarrow> ranged lo hi (getnum fixed s1))"

definition parse_year :: "string \<Rightarrow> (nat \<times> string) option" where
  "parse_year s =
     (if length s < 4 then None
      else map_option (\<lambda>y. (y, drop 4 s)) (digits_value (take 4 s) 0))"

text \<open>A fraction after a period or a comma, of which nine digits count.\<close>

definition parse_fraction :: "string \<Rightarrow> nat \<times> string" where
  "parse_fraction s =
     (case s of
        p # s1 \<Rightarrow>
          (let ds = takeWhile digit_char s1; kept = take 9 ds in
           if (p = CHR ''.'' \<or> p = CHR '','') \<and> ds \<noteq> []
           then (case digits_value kept 0 of
                   None \<Rightarrow> (0, s)
                 | Some n \<Rightarrow> (n * 10 ^ (9 - length kept), drop (length ds) s1))
           else (0, s))
      | [] \<Rightarrow> (0, s))"

text \<open>The zone \<open>Z07:00\<close>: its offset, at the end of the text. An hour of 24 and a minute of 60 pass.\<close>

definition parse_zone :: "string \<Rightarrow> int option" where
  "parse_zone s =
     (case s of
        [] \<Rightarrow> None
      | c # s1 \<Rightarrow>
          if c = CHR ''Z'' then (if s1 = [] then Some 0 else None)
          else (case ranged 0 24 (getnum True s1) of
              None \<Rightarrow> None
            | Some (hr, s2) \<Rightarrow> (case field CHR '':'' True 0 60 s2 of
                None \<Rightarrow> None
              | Some (mm, s3) \<Rightarrow>
                  if s3 \<noteq> [] then None
                  else if c = CHR ''+'' then Some (int (hr * 60 + mm) * 60)
                  else if c = CHR ''-'' then Some (- (int (hr * 60 + mm) * 60))
                  else None)))"

definition Parse_RFC3339 :: "string \<Rightarrow> zoned option" where
  "Parse_RFC3339 s0 =
     (case parse_year s0 of None \<Rightarrow> None | Some (y, s1) \<Rightarrow>
      case field CHR ''-'' True 1 12 s1 of None \<Rightarrow> None | Some (m, s2) \<Rightarrow>
      case field CHR ''-'' True 0 99 s2 of None \<Rightarrow> None | Some (d, s3) \<Rightarrow>
      case field CHR ''T'' False 0 23 s3 of None \<Rightarrow> None | Some (hour, s4) \<Rightarrow>
      case field CHR '':'' True 0 59 s4 of None \<Rightarrow> None | Some (mi, s5) \<Rightarrow>
      case field CHR '':'' True 0 59 s5 of None \<Rightarrow> None | Some (sec, s6) \<Rightarrow>
      case parse_fraction s6 of (nsec, s7) \<Rightarrow>
      case parse_zone s7 of None \<Rightarrow> None | Some offset \<Rightarrow>
      if valid_date (int y) m (int d)
      then Some (Date (int y) m (int d) (int hour) (int mi) (int sec) (int nsec) offset) else None)"

section \<open>JSON\<close>

text \<open>\<open>MarshalJSON\<close> refuses years that do not have four digits and zone hours beyond 23.\<close>

definition time_json :: "zoned \<Rightarrow> json option" where
  "time_json t =
     (if 0 \<le> zoned_Year t \<and> zoned_Year t \<le> 9999 \<and> \<bar>quot (znOffset t) 60\<bar> div 60 < 24
      then Some (JStr (RFC3339Nano t)) else None)"

text \<open>\<open>UnmarshalJSON\<close>: \<open>null\<close> changes nothing. It reads the text between the quotes as it stands, which
  is the string unless the text has escapes.\<close>

fun decode_time :: "json \<Rightarrow> zoned \<Rightarrow> zoned option" where
  "decode_time JNull old = Some old"
| "decode_time (JStr s) old = Parse_RFC3339 s"
| "decode_time _ old = None"

section \<open>Facts on the calendar\<close>

lemma days_before_step:
  assumes "0 \<le> b" "b \<le> 3" "0 \<le> c" "c \<le> 24" "0 \<le> e" "e \<le> 3"
  shows "days_before_year (400 * a + 100 * b + 4 * c + e + 1) = 146097 * a + 36524 * b + 1461 * c + 365 * e"
proof -
  have "(400 * a + 100 * b + 4 * c + e) div 4 = 100 * a + 25 * b + c"
    "(400 * a + 100 * b + 4 * c + e) div 100 = 4 * a + b" "(400 * a + 100 * b + 4 * c + e) div 400 = a"
    using assms by linarith+
  then show ?thesis by (simp add: days_before_year_def)
qed

lemma mod_zero_top: "0 < r \<Longrightarrow> r \<le> m \<Longrightarrow> r mod m = 0 \<longleftrightarrow> r = (m :: int)"
  by (cases "r = m") simp_all

lemma is_leap_step:
  assumes "0 \<le> b" "b \<le> 3" "0 \<le> c" "c \<le> 24" "0 \<le> e" "e \<le> 3"
  shows "is_leap (400 * a + 100 * b + 4 * c + e + 1) \<longleftrightarrow> e = 3 \<and> (c \<noteq> 24 \<or> b = 3)"
proof -
  let ?y = "400 * a + 100 * b + 4 * c + e + 1"
  have m: "?y mod 4 = (e + 1) mod 4" "?y mod 100 = (4 * c + e + 1) mod 100"
    "?y mod 400 = (100 * b + 4 * c + e + 1) mod 400"
    using mod_mult_self2 [of "e + 1" 4 "100 * a + 25 * b + c"]
      mod_mult_self2 [of "4 * c + e + 1" 100 "4 * a + b"] mod_mult_self2 [of "100 * b + 4 * c + e + 1" 400 a]
    by (simp_all add: algebra_simps)
  have "?y mod 4 = 0 \<longleftrightarrow> e + 1 = 4" "?y mod 100 = 0 \<longleftrightarrow> 4 * c + e + 1 = 100"
    "?y mod 400 = 0 \<longleftrightarrow> 100 * b + 4 * c + e + 1 = 400"
    unfolding m by (rule mod_zero_top; use assms in linarith)+
  then show ?thesis using assms unfolding is_leap_def by auto
qed

lemma year_and_day_ok:
  assumes "year_and_day n = (y, d)"
  shows "days_before_year y + d = n \<and> 0 \<le> d \<and> d < days_in_year y"
proof -
  define a r where ar: "a = n div 146097" "r = n mod 146097"
  define b where b: "b = min 3 (r div 36524)"
  define r1 where r1: "r1 = r - 36524 * b"
  define c r2 where c: "c = r1 div 1461" "r2 = r1 mod 1461"
  define e where e: "e = min 3 (r2 div 365)"
  have yd: "y = 400 * a + 100 * b + 4 * c + e + 1" "d = r2 - 365 * e"
    using assms by (simp_all add: year_and_day_def Let_def ar b r1 c e)
  have "n = 146097 * a + r" "0 \<le> r" "r < 146097" by (simp_all add: ar)
  moreover have "0 \<le> b" "b \<le> 3" "0 \<le> r1" "b < 3 \<Longrightarrow> r1 < 36524" "r1 < 36525"
    using \<open>0 \<le> r\<close> \<open>r < 146097\<close> unfolding r1 b by linarith+
  moreover have "r1 = 1461 * c + r2" "0 \<le> r2" "r2 < 1461" by (simp_all add: c)
  moreover have "0 \<le> c" "c \<le> 24" "b < 3 \<Longrightarrow> c = 24 \<Longrightarrow> r2 < 1460" using calculation unfolding c by linarith+
  moreover have "0 \<le> e" "e \<le> 3" "0 \<le> d" "e < 3 \<Longrightarrow> d < 365" "d < 366" "r2 < 1460 \<Longrightarrow> d < 365"
    using \<open>0 \<le> r2\<close> \<open>r2 < 1461\<close> unfolding yd(2) e by linarith+
  ultimately have "n = 146097 * a + 36524 * b + 1461 * c + 365 * e + d"
    "days_before_year y = 146097 * a + 36524 * b + 1461 * c + 365 * e"
    "is_leap y \<longleftrightarrow> e = 3 \<and> (c \<noteq> 24 \<or> b = 3)" "0 \<le> d" "d < 366" "e < 3 \<Longrightarrow> d < 365"
    "b < 3 \<Longrightarrow> c = 24 \<Longrightarrow> d < 365"
    using days_before_step [of b c e a] is_leap_step [of b c e a] by (simp_all add: yd r1)
  then show ?thesis using \<open>b \<le> 3\<close> \<open>e \<le> 3\<close> by (auto simp: days_in_year_def)
qed

lemma month_walk_ok:
  assumes "month_walk m ls d = (m', k)" "0 \<le> d" "d < sum_list ls"
  shows "m \<le> m' \<and> m' < m + length ls \<and> 1 \<le> k \<and> k \<le> ls ! (m' - m) \<and> sum_list (take (m' - m) ls) + (k - 1) = d"
  using assms
proof (induction ls arbitrary: m d)
  case (Cons l ls)
  show ?case
  proof (cases "d < l \<or> ls = []")
    case True
    with Cons.prems show ?thesis by auto
  next
    case False
    then have "month_walk (Suc m) ls (d - l) = (m', k)" "0 \<le> d - l" "d - l < sum_list ls"
      using Cons.prems by auto
    from Cons.IH [OF this] have "Suc m \<le> m'" "m' < Suc m + length ls" "1 \<le> k" "k \<le> ls ! (m' - Suc m)"
      "sum_list (take (m' - Suc m) ls) + (k - 1) = d - l" by simp_all
    moreover from this(1) have "m' - m = Suc (m' - Suc m)" by simp
    ultimately show ?thesis by simp
  qed
qed simp

lemma sum_month_lengths: "sum_list (month_lengths y) = days_in_year y"
  by (simp add: month_lengths_def days_in_year_def)

lemma civil_date_ok:
  assumes "civil_date n = (y, m, d)"
  shows "valid_date y m d \<and> day_number y m d = n"
proof -
  obtain k where k: "year_and_day n = (y, k)" "month_walk 1 (month_lengths y) k = (m, d)"
    using assms by (auto simp: civil_date_def split: prod.splits)
  note y = year_and_day_ok [OF k(1)]
  have "k < sum_list (month_lengths y)" using y by (simp add: sum_month_lengths)
  from month_walk_ok [OF k(2) _ this] y show ?thesis
    by (auto simp: valid_date_def day_number_def days_in_def month_lengths_def)
qed

lemma civil_date_year: "fst (civil_date n) = fst (year_and_day n)"
  by (simp add: civil_date_def split: prod.split)

section \<open>Digits\<close>

lemma digit_value_digit [simp]: "d < 10 \<Longrightarrow> digit_value (digit d) = Some d"
  by (simp add: digit_def digit_value_char)

lemma digit_char_digit [simp]: "d < 10 \<Longrightarrow> digit_char (digit d)"
  by (simp add: digit_char_def)

lemma fixed_digits_length [simp]: "length (fixed_digits w n) = w"
  by (induction w n rule: fixed_digits.induct) simp_all

lemma fixed_digits_chars: "c \<in> set (fixed_digits w n) \<Longrightarrow> digit_char c"
  by (induction w n rule: fixed_digits.induct) auto

lemma fixed_digits_value: "n < 10 ^ w \<Longrightarrow> digits_value (fixed_digits w n) 0 = Some n"
proof (induction w n rule: fixed_digits.induct)
  case (2 w n)
  then have "n div 10 < 10 ^ w" by (simp add: less_mult_imp_div_less mult.commute)
  with 2 show ?case by (simp add: digits_value_append)
qed simp

lemma fixed_digits_two: "fixed_digits 2 n = [digit (n div 10 mod 10), digit (n mod 10)]"
  by (simp add: numeral_2_eq_2)

lemma append_int_fixed: "0 \<le> x \<Longrightarrow> nat x < 10 ^ w \<Longrightarrow> append_int x w = fixed_digits w (nat x)"
  by (simp add: append_int_def Let_def)

lemma getnum_fixed: "n < 100 \<Longrightarrow> getnum fixed (fixed_digits 2 n @ s) = Some (n, s)"
  by (simp add: getnum_def fixed_digits_two) 

lemma field_fixed:
  "lo \<le> n \<Longrightarrow> n \<le> hi \<Longrightarrow> n < 100 \<Longrightarrow> field c fixed lo hi (c # fixed_digits 2 n @ s) = Some (n, s)"
  by (simp add: field_def skip_def ranged_def getnum_fixed)

lemma parse_year_fixed: "y < 10000 \<Longrightarrow> parse_year (fixed_digits 4 y @ s) = Some (y, s)"
  using fixed_digits_value [of y 4] by (simp add: parse_year_def)

lemma trim_zeros_split: "\<exists>k. s = trim_zeros s @ replicate k CHR ''0''"
proof -
  let ?z = "\<lambda>c. c = CHR ''0''"
  have "takeWhile ?z (rev s) = replicate (length (takeWhile ?z (rev s))) CHR ''0''"
    by (rule replicate_length_same [symmetric]) (auto dest: set_takeWhileD)
  moreover have "rev (rev s) = rev (dropWhile ?z (rev s)) @ rev (takeWhile ?z (rev s))"
    by (metis rev_append takeWhile_dropWhile_id)
  ultimately show ?thesis unfolding trim_zeros_def by (metis rev_replicate rev_rev_ident)
qed

lemma parse_fraction_format:
  assumes "0 \<le> n" "n < nanos" "s \<noteq> []" "\<not> digit_char (hd s)" "hd s \<noteq> CHR ''.''" "hd s \<noteq> CHR '',''"
  shows "parse_fraction (format_fraction n @ s) = (nat n, s)"
proof (cases "n = 0")
  case True
  then show ?thesis using assms by (cases s) (simp_all add: format_fraction_def parse_fraction_def Let_def)
next
  case False
  define f where "f = fixed_digits 9 (nat n)"
  define t where "t = trim_zeros f"
  obtain k where k: "f = t @ replicate k CHR ''0''" using trim_zeros_split t_def by blast
  have "digits_value f 0 = Some (nat n)"
    unfolding f_def using assms by (intro fixed_digits_value) (simp add: nanos_def nat_less_iff)
  then obtain v where v: "digits_value t 0 = Some v" "v * 10 ^ k = nat n"
    unfolding k by (auto simp: digits_value_append digits_value_zeros split: option.splits)
  have l: "length t + k = 9" using k fixed_digits_length [of 9 "nat n"] f_def by (metis length_append length_replicate)
  have "t \<noteq> []" using v False assms(1) by auto
  moreover have "\<forall>c \<in> set t. digit_char c" using k fixed_digits_chars f_def by (metis Un_iff set_append)
  then have "takeWhile digit_char (t @ s) = t" using assms(3,4) by (cases s) auto
  moreover have "10 ^ (9 - length t) = (10 ^ k :: nat)" using l by (simp add: diff_add_inverse [symmetric])
  ultimately show ?thesis using False v l
    by (simp add: format_fraction_def parse_fraction_def Let_def f_def [symmetric] t_def [symmetric])
qed

lemma parse_zone_format:
  assumes "offset mod 60 = 0" "\<bar>offset\<bar> < 86400"
  shows "parse_zone (format_zone offset) = Some offset"
proof (cases "offset = 0")
  case True
  then show ?thesis by (simp add: format_zone_def parse_zone_def)
next
  case False
  obtain z where z: "offset = 60 * z" using assms(1) by auto
  then have q: "quot offset 60 = z" by (simp add: quot_def abs_mult sgn_mult mult_sgn_abs)
  define h k where hk: "h = nat (\<bar>z\<bar> div 60)" "k = nat (\<bar>z\<bar> mod 60)"
  have "\<bar>z\<bar> < 1440" using assms(2) by (simp add: z abs_mult)
  then have "\<bar>z\<bar> div 60 < 24" by linarith
  then have b: "\<bar>z\<bar> div 60 = int h" "\<bar>z\<bar> mod 60 = int k" "h < 24" "k < 60"
    by (simp_all add: hk pos_imp_zdiv_nonneg_iff nat_less_iff)
  have v: "int (h * 60 + k) * 60 = \<bar>offset\<bar>"
    using div_mult_mod_eq [of "\<bar>z\<bar>" 60] by (simp add: b z abs_mult)
  have f: "format_zone offset = (if z < 0 then CHR ''-'' else CHR ''+'') #
      fixed_digits 2 h @ CHR '':'' # fixed_digits 2 k @ []"
    using False b(3,4) by (simp add: format_zone_def q Let_def b(1,2) append_int_fixed)
  have g: "ranged 0 24 (getnum True (fixed_digits 2 h @ s)) = Some (h, s)" for s
    using b(3) by (simp add: getnum_fixed ranged_def)
  have m: "field CHR '':'' True 0 60 (CHR '':'' # fixed_digits 2 k @ []) = Some (k, [])"
    using b(4) by (intro field_fixed) simp_all
  show ?thesis unfolding f parse_zone_def list.case g option.case prod.case m v
    by (simp add: z)
qed

section \<open>Round trip\<close>

text \<open>The times that have a text of their own: four digits of the year and whole minutes of a zone.\<close>

definition printable_time :: "zoned \<Rightarrow> bool" where
  "printable_time t \<longleftrightarrow> 0 \<le> zoned_Year t \<and> zoned_Year t \<le> 9999 \<and> znOffset t mod 60 = 0 \<and> \<bar>znOffset t\<bar> < 86400"

lemma clock_parts:
  assumes "0 \<le> secs" "secs < (86400 :: int)"
  shows "0 \<le> secs div 3600" "secs div 3600 \<le> 23" "0 \<le> secs div 60 mod 60" "secs div 60 mod 60 \<le> 59"
    "0 \<le> secs mod 60" "secs mod 60 \<le> 59"
    "(secs div 3600 * 60 + secs div 60 mod 60) * 60 + secs mod 60 = secs"
proof -
  have "secs div 3600 = secs div 60 div 60" by (simp add: zdiv_zmult2_eq [symmetric])
  moreover have "secs div 60 = secs div 60 div 60 * 60 + secs div 60 mod 60" by simp
  moreover have "secs = secs div 60 * 60 + secs mod 60" by simp
  ultimately show "(secs div 3600 * 60 + secs div 60 mod 60) * 60 + secs mod 60 = secs" by simp
  have "secs div 3600 < 24" using assms(2) by linarith
  then show "secs div 3600 \<le> 23" by simp
  have "secs mod 60 < 60" "secs div 60 mod 60 < 60" by simp_all
  then show "secs mod 60 \<le> 59" "secs div 60 mod 60 \<le> 59" by linarith+
qed (use assms(1) in \<open>simp_all add: pos_imp_zdiv_nonneg_iff\<close>)

lemma zone_mark:
  assumes "z = format_zone offset"
  shows "z \<noteq> []" "\<not> digit_char (hd z)" "hd z \<noteq> CHR ''.''" "hd z \<noteq> CHR '',''"
  unfolding assms by (auto simp: format_zone_def Let_def digit_char_def digit_value_def)

lemma wall_parts:
  "(wall t div day_nanos * 86400 + wall t div nanos mod 86400) * nanos + wall t mod nanos = wall t"
proof -
  have "wall t div day_nanos = wall t div nanos div 86400"
    by (simp add: day_nanos_def zdiv_zmult2_eq [symmetric] nanos_def)
  then have "wall t div day_nanos * 86400 + wall t div nanos mod 86400 = wall t div nanos" by simp
  then show ?thesis by simp
qed

lemma day_range: "valid_date y m d \<Longrightarrow> d \<le> 31"
  by (auto simp: valid_date_def days_in_def month_lengths_def nth_Cons' split: if_splits)

lemma RFC3339Nano_shown:
  fixes t
  defines "secs \<equiv> wall t div nanos mod 86400"
  defines "h \<equiv> secs div 3600" and "mi \<equiv> secs div 60 mod 60" and "s \<equiv> secs mod 60"
  assumes "0 \<le> zoned_Year t" "zoned_Year t \<le> 9999" "civil_date (wall t div day_nanos) = (y, m, d)"
  shows "RFC3339Nano t = fixed_digits 4 (nat y) @ CHR ''-'' # fixed_digits 2 m @ CHR ''-'' # fixed_digits 2 (nat d) @
      CHR ''T'' # fixed_digits 2 (nat h) @ CHR '':'' # fixed_digits 2 (nat mi) @
      CHR '':'' # fixed_digits 2 (nat s) @ format_fraction (wall t mod nanos) @ format_zone (znOffset t)"
    and "0 \<le> y" "y \<le> 9999"
proof -
  note v = civil_date_ok [OF assms(7)]
  show y: "0 \<le> y" "y \<le> 9999"
    using assms(5,6) civil_date_year [of "wall t div day_nanos"] by (auto simp: zoned_Year_def assms(7))
  have "0 \<le> secs" "secs < 86400" by (simp_all add: secs_def)
  note p = clock_parts [OF this, folded h_def mi_def s_def]
  have "m \<le> 12" "1 \<le> d" "d \<le> 31" using v day_range by (auto simp: valid_date_def)
  with y p show "RFC3339Nano t = fixed_digits 4 (nat y) @ CHR ''-'' # fixed_digits 2 m @ CHR ''-'' # fixed_digits 2 (nat d) @
      CHR ''T'' # fixed_digits 2 (nat h) @ CHR '':'' # fixed_digits 2 (nat mi) @
      CHR '':'' # fixed_digits 2 (nat s) @ format_fraction (wall t mod nanos) @ format_zone (znOffset t)"
    by (simp add: RFC3339Nano_def Let_def assms(7) secs_def [symmetric] h_def [symmetric] mi_def [symmetric] s_def [symmetric]
      append_int_fixed nat_less_iff)
qed

lemma time_round_trip:
  assumes "printable_time t"
  shows "Parse_RFC3339 (RFC3339Nano t) = Some t"
proof -
  obtain y m d where c: "civil_date (wall t div day_nanos) = (y, m, d)" by (metis prod_cases3)
  define secs where "secs = wall t div nanos mod 86400"
  define h mi s where hms: "h = secs div 3600" "mi = secs div 60 mod 60" "s = secs mod 60"
  note v = civil_date_ok [OF c]
  have yr: "0 \<le> zoned_Year t" "zoned_Year t \<le> 9999" using assms by (simp_all add: printable_time_def)
  note shown = RFC3339Nano_shown(1) [OF yr c, folded secs_def, folded hms] and y = RFC3339Nano_shown(2,3) [OF yr c]
  have "0 \<le> secs" "secs < 86400" by (simp_all add: secs_def)
  note p = clock_parts [OF this, folded hms]
  have md: "1 \<le> m" "m \<le> 12" "1 \<le> d" "d \<le> 31" using v day_range by (auto simp: valid_date_def)
  have ns: "0 \<le> wall t mod nanos" "wall t mod nanos < nanos" by (simp_all add: nanos_def)
  have z: "parse_zone (format_zone (znOffset t)) = Some (znOffset t)"
    using assms by (intro parse_zone_format) (simp_all add: printable_time_def)
  have f: "field CHR ''-'' True 1 12 (CHR ''-'' # fixed_digits 2 m @ r) = Some (m, r)"
    "field CHR ''-'' True 0 99 (CHR ''-'' # fixed_digits 2 (nat d) @ r) = Some (nat d, r)"
    "field CHR ''T'' False 0 23 (CHR ''T'' # fixed_digits 2 (nat h) @ r) = Some (nat h, r)"
    "field CHR '':'' True 0 59 (CHR '':'' # fixed_digits 2 (nat mi) @ r) = Some (nat mi, r)"
    "field CHR '':'' True 0 59 (CHR '':'' # fixed_digits 2 (nat s) @ r) = Some (nat s, r)" for r
    using md p by (simp_all add: field_fixed nat_le_iff nat_less_iff)
  have "Parse_RFC3339 (RFC3339Nano t) = Some (Date y m d h mi s (wall t mod nanos) (znOffset t))"
    using y md p ns v unfolding Parse_RFC3339_def shown
    by (simp add: parse_year_fixed nat_less_iff f parse_fraction_format [OF ns zone_mark [OF refl]] z del: One_nat_def)
  also have "Date y m d h mi s (wall t mod nanos) (znOffset t) = t"
  proof -
    have "((day_number y m d * 24 + h) * 60 + mi) * 60 + s = wall t div day_nanos * 86400 + secs"
      using v p(7) by simp
    then have "(((day_number y m d * 24 + h) * 60 + mi) * 60 + s - znOffset t) * nanos + wall t mod nanos
        = wall t - znOffset t * nanos"
      using wall_parts [of t] by (simp add: secs_def left_diff_distrib)
    then show ?thesis by (simp add: Date_def wall_def)
  qed
  finally show ?thesis .
qed

lemma format_fraction_length: "length (format_fraction n) \<le> 10"
  unfolding format_fraction_def trim_zeros_def
  using length_dropWhile_le [of "\<lambda>c. c = CHR ''0''" "rev (fixed_digits 9 (nat n))"] by simp

lemma format_zone_length:
  assumes "\<bar>offset\<bar> < 86400"
  shows "length (format_zone offset) \<le> 6"
proof -
  have "0 \<le> \<bar>quot offset 60\<bar> div 60" "\<bar>quot offset 60\<bar> div 60 < 24"
    using assms by (auto simp: quot_def abs_mult sgn_if)
  then show ?thesis
    by (simp add: format_zone_def Let_def append_int_fixed nat_less_iff)
qed

lemma RFC3339Nano_length:
  assumes "0 \<le> zoned_Year (utc t)" "zoned_Year (utc t) \<le> 9999"
  shows "length (RFC3339Nano (utc t)) \<le> 30"
proof -
  obtain y m d where c: "civil_date (wall (utc t) div day_nanos) = (y, m, d)" by (metis prod_cases3)
  show ?thesis
    unfolding RFC3339Nano_shown(1) [OF assms c]
    using format_fraction_length [of "wall (utc t) mod nanos"] by (simp add: utc_def format_zone_def)
qed

text \<open>The text has only ASCII characters, and few of them.\<close>

definition time_char :: "char \<Rightarrow> bool" where
  "time_char c \<longleftrightarrow> digit_char c \<or> c \<in> set ''-+:.TZ''"

lemma decimal_chars: "c \<in> set (decimal n) \<Longrightarrow> digit_char c"
  by (induction n rule: decimal.induct) (subst (asm) decimal.simps, auto simp: digit_char_def digit_value_char split: if_splits)

lemma append_int_chars: "c \<in> set (append_int x w) \<Longrightarrow> time_char c"
  by (auto simp: append_int_def Let_def time_char_def dest: decimal_chars fixed_digits_chars split: if_splits)

lemma trim_zeros_chars: "c \<in> set (trim_zeros s) \<Longrightarrow> c \<in> set s"
  unfolding trim_zeros_def by (auto dest: set_dropWhileD)

lemma RFC3339Nano_chars: "c \<in> set (RFC3339Nano t) \<Longrightarrow> time_char c"
  by (auto simp: RFC3339Nano_def Let_def format_fraction_def format_zone_def
      dest: append_int_chars trim_zeros_chars fixed_digits_chars split: prod.splits if_splits)
    (auto simp: time_char_def dest: trim_zeros_chars fixed_digits_chars)

lemma time_char_ascii: "time_char c \<Longrightarrow> (of_char c :: nat) < 128"
  by (auto simp: time_char_def digit_char_def digit_value_def split: if_splits)

end
