(* ===== verification/Admin_Query.thy ===== *)
theory Admin_Query
  imports Go_Time Go_Codecs History Configuration
begin

text \<open>
  Queries of the request history: identifiers of requests and the position of a page
  (\<open>internal/persistence/model.go\<close>, \<open>reader.go\<close>), page cursors and the parser of the query string
  (\<open>internal/adminapi/query.go\<close>), over a model of \<open>url.ParseQuery\<close>. A cursor is accepted exactly when it
  is the one text of a position, so that positions survive the way through a client.
\<close>

section \<open>Query strings\<close>

fun split_char :: "char \<Rightarrow> string \<Rightarrow> string list" where
  "split_char c [] = [[]]"
| "split_char c (x # s) =
     (if x = c then [] # split_char c s
      else (case split_char c s of [] \<Rightarrow> [[x]] | p # ps \<Rightarrow> (x # p) # ps))"

definition cut_char :: "char \<Rightarrow> string \<Rightarrow> string \<times> string" where
  "cut_char c s = (takeWhile (\<lambda>x. x \<noteq> c) s, tl (dropWhile (\<lambda>x. x \<noteq> c) s))"

text \<open>\<open>url.QueryUnescape\<close>: a plus is a space, and a percent sign needs two hexadecimal digits.\<close>

fun QueryUnescape :: "string \<Rightarrow> string option" where
  "QueryUnescape [] = Some []"
| "QueryUnescape (c # s) =
     (if c = CHR ''%'' then
        (case s of
           a # b # r \<Rightarrow>
             (case (hex_value (of_char a), hex_value (of_char b)) of
                (Some x, Some y) \<Rightarrow> map_option (Cons (char_of (16 * x + y))) (QueryUnescape r)
              | _ \<Rightarrow> None)
         | _ \<Rightarrow> None)
      else map_option (Cons (if c = CHR ''+'' then CHR '' '' else c)) (QueryUnescape s))"

type_synonym url_values = "(string \<times> string list) list"

fun add_value :: "string \<Rightarrow> string \<Rightarrow> url_values \<Rightarrow> url_values" where
  "add_value key value' [] = [(key, [value'])]"
| "add_value key value' ((k, vs) # rest) =
     (if k = key then (k, vs @ [value']) # rest else (k, vs) # add_value key value' rest)"

text \<open>One setting of a query string; an error is remembered, and nothing is added.\<close>

definition query_setting :: "string \<Rightarrow> url_values option \<Rightarrow> url_values option" where
  "query_setting piece values =
     (if CHR '';'' \<in> set piece then None
      else if piece = [] then values
      else (case cut_char CHR ''='' piece of (key, value') \<Rightarrow>
        (case (QueryUnescape key, QueryUnescape value') of
           (Some k, Some v) \<Rightarrow> map_option (add_value k v) values
         | _ \<Rightarrow> None)))"

definition url_ParseQuery :: "string \<Rightarrow> url_values option" where
  "url_ParseQuery query = fold query_setting (split_char CHR ''&'' query) (Some [])"

section \<open>Request identifiers\<close>

definition requestIDPrefix :: string where
  "requestIDPrefix = ''rfreq_''"

definition NewRequestID :: "nat list option \<Rightarrow> string option" where
  "NewRequestID random = map_option (\<lambda>bytes. requestIDPrefix @ RawURL_Encode bytes) random"

definition ValidRequestID :: "string \<Rightarrow> bool" where
  "ValidRequestID id' =
     (if length id' \<noteq> length requestIDPrefix + 22 \<or> \<not> HasPrefix id' requestIDPrefix then False
      else (let raw = drop (length requestIDPrefix) id' in
        (case RawURL_Decode raw of
           None \<Rightarrow> False
         | Some decoded \<Rightarrow> length decoded = 16 \<and> RawURL_Encode decoded = raw)))"

section \<open>Cursors\<close>

definition DefaultPageSize :: int where
  "DefaultPageSize = 50"

definition MaxPageSize :: int where
  "MaxPageSize = 100"

record Position =
  poStartedAt :: zoned
  poRequestID :: string

definition zero_position :: Position where
  "zero_position = \<lparr>poStartedAt = utc time_zero, poRequestID = []\<rparr>"

definition Position_json :: "Position \<Rightarrow> json option" where
  "Position_json p =
     map_option (\<lambda>stamp. JObj [(''started_at'', stamp), (''request_id'', JStr (poRequestID p))])
       (time_json (poStartedAt p))"

text \<open>The data is empty when a position cannot be written.\<close>

definition encodeCursor :: "Position \<Rightarrow> string" where
  "encodeCursor position =
     RawURL_Encode (case Position_json position of None \<Rightarrow> [] | Some v \<Rightarrow> print_json v)"

definition Position_field :: "string \<Rightarrow> json \<Rightarrow> Position \<Rightarrow> Position option" where
  "Position_field name v p =
     (if name = ''started_at'' then map_option (\<lambda>t. p\<lparr>poStartedAt := t\<rparr>) (decode_time v (poStartedAt p))
      else map_option (\<lambda>s. p\<lparr>poRequestID := s\<rparr>) (decode_string v (poRequestID p)))"

definition decode_Position :: "json \<Rightarrow> Position option" where
  "decode_Position v = decode_struct [''started_at'', ''request_id''] True Position_field v zero_position"

definition decodeCursor :: "string \<Rightarrow> Position option" where
  "decodeCursor raw =
     (if length raw > 256 then None
      else (case RawURL_Decode raw of
        None \<Rightarrow> None
      | Some data \<Rightarrow> (case Decode True data of
          DecodedValue v rest \<Rightarrow> (case decode_Position v of
            None \<Rightarrow> None
          | Some position \<Rightarrow>
              (let t = poStartedAt position in
               if \<not> ValidRequestID (poRequestID position) \<or> znInstant t = time_zero \<or> zoned_Year t < 1 \<or>
                  zoned_Year t > 9999 \<or> zoned_Nanosecond t mod 1000 \<noteq> 0 \<or> encodeCursor position \<noteq> raw
               then None else Some position))
        | _ \<Rightarrow> None)))"

section \<open>History queries\<close>

record ListQuery =
  lqLimit :: int
  lqBefore :: "Position option"
  lqProvider :: string
  lqRoutingPolicy :: string
  lqOutcome :: string
  lqStreaming :: "bool option"
  lqCacheHit :: "bool option"
  lqStartedAfter :: "instant option"
  lqStartedBefore :: "instant option"

definition default_query :: ListQuery where
  "default_query = \<lparr>lqLimit = DefaultPageSize, lqBefore = None, lqProvider = [], lqRoutingPolicy = [],
     lqOutcome = [], lqStreaming = None, lqCacheHit = None, lqStartedAfter = None, lqStartedBefore = None\<rparr>"

definition parse_limit :: "string \<Rightarrow> int option" where
  "parse_limit value' =
     (if \<not> list_all digit_char value' then None
      else (case Atoi value' of
        None \<Rightarrow> None
      | Some limit \<Rightarrow> if limit < 1 \<or> limit > MaxPageSize then None else Some limit))"

definition parse_stamp :: "string \<Rightarrow> instant option" where
  "parse_stamp value' =
     (case Parse_RFC3339 value' of
        None \<Rightarrow> None
      | Some stamp \<Rightarrow>
          if zoned_Year stamp < 1 \<or> zoned_Nanosecond stamp mod 1000 \<noteq> 0 then None
          else Some (znInstant stamp))"

definition known_providers :: "string list" where
  "known_providers = [''mock'', ''openai'', ''anthropic'']"

definition known_policies :: "string list" where
  "known_policies = [''deterministic'', ''latency'', ''cost'', ''cost_latency'']"

definition known_outcomes :: "string list" where
  "known_outcomes = [''success'', ''cancellation'', ''timeout'', ''unavailable'', ''rate_limited'',
     ''invalid_request'', ''internal'', ''other_failure'']"

definition query_param :: "string \<Rightarrow> string \<Rightarrow> ListQuery \<Rightarrow> ListQuery option" where
  "query_param key value' query =
     (if key = ''limit'' then map_option (\<lambda>l. query\<lparr>lqLimit := l\<rparr>) (parse_limit value')
      else if key = ''cursor'' then map_option (\<lambda>p. query\<lparr>lqBefore := Some p\<rparr>) (decodeCursor value')
      else if key = ''provider'' then
        (if value' \<in> set known_providers then Some (query\<lparr>lqProvider := value'\<rparr>) else None)
      else if key = ''routing_policy'' then
        (if value' \<in> set known_policies then Some (query\<lparr>lqRoutingPolicy := value'\<rparr>) else None)
      else if key = ''outcome'' then
        (if value' \<in> set known_outcomes then Some (query\<lparr>lqOutcome := value'\<rparr>) else None)
      else if key = ''streaming'' \<or> key = ''cache_hit'' then
        (if value' \<noteq> ''true'' \<and> value' \<noteq> ''false'' then None
         else (let parsed = (value' = ''true'') in
           Some (if key = ''streaming'' then query\<lparr>lqStreaming := Some parsed\<rparr>
                 else query\<lparr>lqCacheHit := Some parsed\<rparr>)))
      else if key = ''started_after'' \<or> key = ''started_before'' then
        map_option (\<lambda>stamp. if key = ''started_after'' then query\<lparr>lqStartedAfter := Some stamp\<rparr>
            else query\<lparr>lqStartedBefore := Some stamp\<rparr>) (parse_stamp value')
      else None)"

text \<open>The loop over the values. The code visits them in an order of its own; the result does not
  depend on it, since each name sets its own field.\<close>

fun query_params :: "url_values \<Rightarrow> ListQuery \<Rightarrow> ListQuery option" where
  "query_params [] query = Some query"
| "query_params ((key, items) # rest) query =
     (case items of
        [value'] \<Rightarrow>
          if value' = [] then None
          else (case query_param key value' query of None \<Rightarrow> None | Some q \<Rightarrow> query_params rest q)
      | _ \<Rightarrow> None)"

definition parseQuery :: "string \<Rightarrow> ListQuery option" where
  "parseQuery raw =
     (if length raw > 4096 then None
      else (case url_ParseQuery raw of
        None \<Rightarrow> None
      | Some values \<Rightarrow> (case query_params values default_query of
          None \<Rightarrow> None
        | Some query \<Rightarrow>
            (case (lqStartedAfter query, lqStartedBefore query) of
               (Some after, Some before) \<Rightarrow> if \<not> after < before then None else Some query
             | _ \<Rightarrow> Some query))))"

section \<open>Facts on identifiers and cursors\<close>

lemma RawURL_Encode_chars:
  assumes "\<forall>b \<in> set bs. b < 256" "c \<in> set (RawURL_Encode bs)"
  shows "of_char c \<in> {45, 95} \<union> {48..57} \<union> {65..90} \<union> {97..122 :: nat}"
proof -
  obtain v where v: "v < 64" "c = char_of (b64_char v)"
    using assms six_bits_range [OF assms(1)] by (auto simp: RawURL_Encode_def b64_encode_six_bits string_of_def)
  have "of_char c = b64_char v" using v(2) b64_char_range [OF v(1)] by simp
  then show ?thesis using v(1) by (auto simp: b64_char_def)
qed

lemma six_bits_length: "length (six_bits bs) \<le> (4 * length bs + 2) div 3"
  by (induction bs rule: six_bits.induct) simp_all

lemma RawURL_Encode_length: "length (RawURL_Encode bs) \<le> (4 * length bs + 2) div 3"
  using six_bits_length [of bs] by (simp add: RawURL_Encode_def b64_encode_six_bits string_of_def)

text \<open>Characters that JSON writes as they are.\<close>

definition plain_text :: "string \<Rightarrow> bool" where
  "plain_text s \<longleftrightarrow> (\<forall>c \<in> set s. html_safe (of_char c))"

lemma utf8_decoded_ascii: "\<forall>b \<in> set bs. b < 128 \<Longrightarrow> utf8_decoded bs = map (\<lambda>b. (b, 1)) bs"
  by (induction bs) auto

lemma print_plain:
  assumes "plain_text s"
  shows "print_string s = 34 # bytes_of s @ [34]"
proof -
  have h: "\<forall>b \<in> set (bytes_of s). html_safe b" using assms by (auto simp: plain_text_def bytes_of_def)
  then have "utf8_decoded (bytes_of s) = map (\<lambda>b. (b, 1)) (bytes_of s)"
    by (intro utf8_decoded_ascii) (auto simp: html_safe_def)
  moreover have "concat (map (escape_rune \<circ> (\<lambda>b. (b, 1))) bs) = bs" if "\<forall>b \<in> set bs. html_safe b" for bs
    using that by (induction bs) (auto simp: escape_rune_def html_safe_def)
  ultimately show ?thesis using h by (simp add: print_string_def)
qed

lemma plain_text_sanitize: "plain_text s \<Longrightarrow> sanitize_string s = s"
  by (rule sanitize_ascii) (auto simp: plain_text_def html_safe_def)

lemma time_char_safe: "time_char c \<Longrightarrow> html_safe (of_char c)"
  by (auto simp: time_char_def digit_char_byte is_digit_def html_safe_def)

lemma plain_time: "plain_text (RFC3339Nano t)"
  using RFC3339Nano_chars time_char_safe by (auto simp: plain_text_def)

lemma ValidRequestID_iff:
  "ValidRequestID i \<longleftrightarrow> (\<exists>bs. length bs = 16 \<and> (\<forall>b \<in> set bs. b < 256) \<and> i = requestIDPrefix @ RawURL_Encode bs)"
  (is "_ \<longleftrightarrow> (\<exists>bs. ?Q bs)")
proof
  assume v: "ValidRequestID i"
  then obtain bs where b: "length bs = 16" "RawURL_Decode (drop (length requestIDPrefix) i) = Some bs"
      "RawURL_Encode bs = drop (length requestIDPrefix) i"
    by (auto simp: ValidRequestID_def Let_def split: if_splits option.splits)
  moreover have "i = requestIDPrefix @ drop (length requestIDPrefix) i"
    using v append_take_drop_id [of "length requestIDPrefix" i] unfolding ValidRequestID_def HasPrefix_def
    by (metis (full_types))
  ultimately show "\<exists>bs. ?Q bs" using RawURL_Decode_canonical(2) by metis
next
  assume "\<exists>bs. ?Q bs"
  then obtain bs where b: "?Q bs" by blast
  then obtain x0 x1 x2 x3 x4 x5 x6 x7 x8 x9 y0 y1 y2 y3 y4 y5
    where "bs = [x0, x1, x2, x3, x4, x5, x6, x7, x8, x9, y0, y1, y2, y3, y4, y5]"
    by (auto simp: length_Suc_conv numeral_eq_Suc)
  then have "length (RawURL_Encode bs) = 22" by (simp add: RawURL_Encode_def string_of_def)
  with b show "ValidRequestID i"
    by (simp add: ValidRequestID_def requestIDPrefix_def Let_def HasPrefix_def RawURL_round_trip)
qed

lemma ValidRequestID_facts:
  assumes "ValidRequestID i"
  shows "plain_text i" "length i = 28"
proof -
  obtain bs where "\<forall>b \<in> set bs. b < 256" "i = requestIDPrefix @ RawURL_Encode bs"
    using assms ValidRequestID_iff by blast
  then show "plain_text i"
    using RawURL_Encode_chars [of bs] by (fastforce simp: plain_text_def html_safe_def requestIDPrefix_def)
  show "length i = 28" using assms by (simp add: ValidRequestID_def requestIDPrefix_def split: if_splits)
qed

lemma NewRequestID_valid: "length bs = 16 \<Longrightarrow> \<forall>b \<in> set bs. b < 256 \<Longrightarrow> \<exists>i. NewRequestID (Some bs) = Some i \<and> ValidRequestID i"
  unfolding ValidRequestID_iff by (auto simp: NewRequestID_def)


lemma decode_members_invariant:
  assumes "decode_members names strict set' kvs a = Some b" "P a"
    and "\<And>name v a a'. P a \<Longrightarrow> set' name v a = Some a' \<Longrightarrow> P a'"
  shows "P b"
  using assms(1,2)
proof (induction kvs arbitrary: a)
  case (Cons kv kvs)
  then show ?case using assms(3) by (cases kv) (auto split: option.splits if_splits)
qed simp

lemma Parse_RFC3339_offset: "Parse_RFC3339 s = Some t \<Longrightarrow> znOffset t mod 60 = 0"
  by (auto simp: Parse_RFC3339_def parse_zone_def Date_def split: option.splits prod.splits if_splits list.splits)

lemma decode_Position_offset:
  assumes "decode_Position v = Some p"
  shows "znOffset (poStartedAt p) mod 60 = 0"
proof -
  let ?P = "\<lambda>p. znOffset (poStartedAt p) mod 60 = 0"
  have t: "decode_time v t = Some t' \<Longrightarrow> znOffset t mod 60 = 0 \<Longrightarrow> znOffset t' mod 60 = 0" for v t t'
    by (cases "(v, t)" rule: decode_time.cases) (auto dest: Parse_RFC3339_offset)
  have z: "?P zero_position" by (simp add: zero_position_def utc_def)
  have f: "?P a \<Longrightarrow> Position_field name v a = Some a' \<Longrightarrow> ?P a'" for name v a a'
    using t by (auto simp: Position_field_def split: if_splits)
  show ?thesis
  proof (cases v)
    case (JObj kvs)
    with assms have "decode_members [''started_at'', ''request_id''] True Position_field kvs zero_position = Some p"
      by (simp add: decode_Position_def decode_struct_def)
    from decode_members_invariant [where P = ?P, OF this z f] show ?thesis .
  qed (use assms z in \<open>auto simp: decode_Position_def decode_struct_def\<close>)
qed

text \<open>The positions that cursors stand for.\<close>

definition cursor_position :: "Position \<Rightarrow> bool" where
  "cursor_position p \<longleftrightarrow>
     (let t = poStartedAt p in
      ValidRequestID (poRequestID p) \<and> znInstant t \<noteq> time_zero \<and> 1 \<le> zoned_Year t \<and> zoned_Year t \<le> 9999 \<and>
      zoned_Nanosecond t mod 1000 = 0 \<and> znOffset t mod 60 = 0 \<and> \<bar>znOffset t\<bar> < 86400)"

lemma time_json_printable:
  assumes "znOffset t mod 60 = 0"
  shows "time_json t = (if printable_time t then Some (JStr (RFC3339Nano t)) else None)"
proof -
  obtain z where z: "znOffset t = 60 * z" using assms by auto
  then have "quot (znOffset t) 60 = z" by (simp add: quot_def abs_mult sgn_mult mult_sgn_abs)
  moreover have "\<bar>z\<bar> div 60 < 24 \<longleftrightarrow> \<bar>z\<bar> < 1440" by linarith
  moreover have "\<bar>znOffset t\<bar> < 86400 \<longleftrightarrow> \<bar>z\<bar> < 1440" by (simp add: z abs_mult)
  ultimately show ?thesis using assms by (simp add: time_json_def printable_time_def)
qed

lemma encodeCursor_shown:
  assumes "cursor_position p"
  defines "v \<equiv> JObj [(''started_at'', JStr (RFC3339Nano (poStartedAt p))), (''request_id'', JStr (poRequestID p))]"
  shows "encodeCursor p = RawURL_Encode (print_json v)" "sanitize v = v"
    and "int_literals v" "json_depth v \<le> maxNestingDepth"
proof -
  have "printable_time (poStartedAt p)" using assms(1) by (auto simp: cursor_position_def Let_def printable_time_def)
  then show "encodeCursor p = RawURL_Encode (print_json v)"
    by (simp add: encodeCursor_def Position_json_def v_def time_json_printable printable_time_def)
  have "plain_text (poRequestID p)" using assms(1) ValidRequestID_facts by (auto simp: cursor_position_def Let_def)
  then show "sanitize v = v"
    using plain_time [of "poStartedAt p"] by (simp add: v_def plain_text_sanitize sanitize_ascii)
  show "int_literals v" "json_depth v \<le> maxNestingDepth" by (simp_all add: v_def maxNestingDepth_def)
qed


lemma cursor_length:
  assumes "cursor_position p"
  shows "length (encodeCursor p) \<le> 256"
proof -
  let ?t = "poStartedAt p" and ?i = "poRequestID p"
  have i: "plain_text ?i" "length ?i = 28"
    using assms ValidRequestID_facts by (auto simp: cursor_position_def Let_def)
  obtain y m d where c: "civil_date (wall ?t div day_nanos) = (y, m, d)" by (metis prod_cases3)
  have "0 \<le> zoned_Year ?t" "zoned_Year ?t \<le> 9999" using assms by (auto simp: cursor_position_def Let_def)
  note shown = RFC3339Nano_shown(1) [OF this c]
  have "length (RFC3339Nano ?t) \<le> 29 + length (format_zone (znOffset ?t))"
    unfolding shown using format_fraction_length [of "wall ?t mod nanos"] by simp
  moreover have "length (format_zone (znOffset ?t)) \<le> 6" using assms format_zone_length
    by (simp add: cursor_position_def Let_def)
  ultimately have "length (RFC3339Nano ?t) \<le> 35" by simp
  then have "length (print_json (JObj [(''started_at'', JStr (RFC3339Nano ?t)), (''request_id'', JStr ?i)])) \<le> 96"
    using i plain_time [of ?t] print_plain [of "''started_at''"] print_plain [of "''request_id''"]
    by (simp add: print_plain plain_text_def html_safe_def bytes_of_def)
  then show ?thesis
    using encodeCursor_shown(1) [OF assms]
      RawURL_Encode_length [of "print_json (JObj [(''started_at'', JStr (RFC3339Nano ?t)), (''request_id'', JStr ?i)])"]
    by simp
qed

lemma decode_encoded:
  assumes "cursor_position p"
  shows "decodeCursor (encodeCursor p) = Some p"
proof -
  define v where "v = JObj [(''started_at'', JStr (RFC3339Nano (poStartedAt p))), (''request_id'', JStr (poRequestID p))]"
  note e = encodeCursor_shown [OF assms, folded v_def]
  have "RawURL_Decode (encodeCursor p) = Some (print_json v)"
    unfolding e(1) by (rule RawURL_round_trip) (auto dest: print_json_byte)
  moreover have "Decode True (print_json v) = DecodedValue v []"
    using parse_printed [OF e(3,4), of "[]"] e(2) by (simp add: Decode_def number_end_def)
  moreover have "printable_time (poStartedAt p)" using assms by (auto simp: cursor_position_def Let_def printable_time_def)
  then have "decode_Position v = Some p"
    by (simp add: v_def decode_Position_def decode_struct_def struct_field_def Position_field_def time_round_trip
        zero_position_def)
  ultimately show ?thesis
    using cursor_length [OF assms] assms by (auto simp: decodeCursor_def cursor_position_def Let_def)
qed

lemma decodeCursor_sound:
  assumes "decodeCursor raw = Some p"
  shows "raw = encodeCursor p \<and> cursor_position p"
proof -
  obtain data v rest where d: "RawURL_Decode raw = Some data" "Decode True data = DecodedValue v rest"
    "decode_Position v = Some p"
    using assms by (auto simp: decodeCursor_def Let_def split: if_splits option.splits decoded.splits)
  have r: "raw = encodeCursor p" "ValidRequestID (poRequestID p)" "znInstant (poStartedAt p) \<noteq> 0"
    "1 \<le> zoned_Year (poStartedAt p)" "zoned_Year (poStartedAt p) \<le> 9999" "zoned_Nanosecond (poStartedAt p) mod 1000 = 0"
    using assms d by (auto simp: decodeCursor_def Let_def split: if_splits)
  note o' = decode_Position_offset [OF d(3)]
  have "printable_time (poStartedAt p)"
  proof (rule ccontr)
    assume "\<not> printable_time (poStartedAt p)"
    then have "encodeCursor p = RawURL_Encode []"
      by (simp add: encodeCursor_def Position_json_def time_json_printable o')
    with r(1) d(1) have "data = []" by (simp add: RawURL_round_trip)
    with d(2) Decode_spaces [of "[]"] show False by simp
  qed
  with r o' show ?thesis by (simp add: cursor_position_def Let_def printable_time_def)
qed

section \<open>Facts on query strings\<close>

lemma split_char_nonempty [simp]: "split_char c s \<noteq> []"
  by (cases s) (auto split: list.splits)

lemma split_char_append: "split_char c (xs @ c # ys) = split_char c xs @ split_char c ys"
proof (induction xs)
  case (Cons x xs)
  obtain p ps where "split_char c xs = p # ps" by (meson list.exhaust split_char_nonempty)
  with Cons show ?case by simp
qed simp

lemma split_char_absent: "c \<notin> set s \<Longrightarrow> split_char c s = [s]"
  by (induction s) auto

text \<open>A text that the query unescapes to itself.\<close>

definition query_plain :: "string \<Rightarrow> bool" where
  "query_plain s \<longleftrightarrow> set s \<inter> set ''%+&;='' = {}"

lemma QueryUnescape_plain: "query_plain s \<Longrightarrow> QueryUnescape s = Some s"
  by (induction s) (auto simp: query_plain_def)

lemma query_setting_plain:
  assumes "query_plain k" "query_plain v" "k \<noteq> []"
  shows "query_setting (k @ CHR ''='' # v) vals = map_option (add_value k v) vals"
proof -
  have e: "CHR ''='' \<notin> set k" "CHR '';'' \<notin> set k" "CHR '';'' \<notin> set v" using assms by (auto simp: query_plain_def)
  then have "cut_char CHR ''='' (k @ CHR ''='' # v) = (k, v)"
    by (simp add: cut_char_def takeWhile_append dropWhile_append)
  with e assms show ?thesis by (simp add: query_setting_def QueryUnescape_plain)
qed

lemma url_ParseQuery_more:
  assumes "url_ParseQuery raw = Some vals" "query_plain k" "query_plain v" "k \<noteq> []"
  shows "url_ParseQuery (raw @ CHR ''&'' # k @ CHR ''='' # v) = Some (add_value k v vals)"
proof -
  have "CHR ''&'' \<notin> set (k @ CHR ''='' # v)" using assms(2,3) by (auto simp: query_plain_def)
  then show ?thesis
    using assms by (simp add: url_ParseQuery_def split_char_append split_char_absent query_setting_plain)
qed

lemma add_value_new: "k \<notin> fst ` set vals \<Longrightarrow> add_value k v vals = vals @ [(k, [v])]"
  by (induction k v vals rule: add_value.induct) auto

lemma query_params_append:
  "query_params (xs @ ys) q = (case query_params xs q of None \<Rightarrow> None | Some q' \<Rightarrow> query_params ys q')"
  by (induction xs q rule: query_params.induct) (auto split: list.splits option.splits)

text \<open>Each parameter sets one field.\<close>

lemma if_SomeE:
  assumes "(if P then a else b) = Some x"
  obtains "a = Some x" | "b = Some x"
  using assms by (auto split: if_splits)

lemma query_param_cursor: "query_param ''cursor'' v q = Some q' \<Longrightarrow> lqBefore q' \<noteq> None \<and> lqLimit q' = lqLimit q"
  by (auto simp: query_param_def)

lemma query_param_other:
  assumes "query_param key v q = Some q'" "key \<noteq> ''cursor''"
  shows "lqBefore q' = lqBefore q"
  using assms(1) unfolding query_param_def Let_def if_not_P [OF assms(2)]
  by (elim if_SomeE) (auto simp: map_option_eq_Some)

lemma query_param_before:
  "query_param key v q = Some q' \<Longrightarrow> (lqBefore q \<noteq> None \<or> key = ''cursor'') \<Longrightarrow> lqBefore q' \<noteq> None"
  using query_param_cursor query_param_other by (cases "key = ''cursor''") auto

lemma query_params_before:
  "query_params vals q = Some q' \<Longrightarrow> lqBefore q' = None \<Longrightarrow> lqBefore q = None \<and> ''cursor'' \<notin> fst ` set vals"
proof (induction vals q rule: query_params.induct)
  case (2 key items rest q)
  then obtain v q1 where v: "items = [v]" "v \<noteq> []" "query_param key v q = Some q1" "query_params rest q1 = Some q'"
    by (auto split: list.splits if_splits option.splits)
  from 2(1) [OF v(1) refl v(2,3,4) 2(3)] query_param_before [OF v(3)] show ?case by auto
qed simp

lemma encodeCursor_plain:
  assumes "cursor_position p"
  shows "query_plain (encodeCursor p)" "encodeCursor p \<noteq> []"
proof -
  obtain bs where bs: "encodeCursor p = RawURL_Encode bs" "\<forall>b \<in> set bs. b < 256"
    using encodeCursor_shown(1) [OF assms] print_json_byte by blast
  show "query_plain (encodeCursor p)"
    using RawURL_Encode_chars [OF bs(2)] unfolding bs(1) query_plain_def by fastforce
  have "decodeCursor [] = None"
    using Decode_spaces [of "[]"] by (simp add: decodeCursor_def RawURL_Decode_def bytes_of_def)
  then show "encodeCursor p \<noteq> []" using decode_encoded [OF assms] by auto
qed

text \<open>A client asks for the next page by adding the cursor to its query.\<close>

definition next_raw :: "string \<Rightarrow> string \<Rightarrow> string" where
  "next_raw raw cursor = raw @ CHR ''&'' # ''cursor'' @ CHR ''='' # cursor"

lemma parseQuery_next:
  assumes "parseQuery raw = Some q" "lqBefore q = None" "cursor_position p" "length raw \<le> 3800"
  shows "parseQuery (next_raw raw (encodeCursor p)) = Some (q\<lparr>lqBefore := Some p\<rparr>)"
proof -
  obtain vals where v: "url_ParseQuery raw = Some vals" "query_params vals default_query = Some q"
    using assms(1) by (auto simp: parseQuery_def split: if_splits option.splits)
  note c = encodeCursor_plain [OF assms(3)]
  have "query_plain ''cursor''" by (simp add: query_plain_def)
  then have "url_ParseQuery (next_raw raw (encodeCursor p)) = Some (vals @ [(''cursor'', [encodeCursor p])])"
    unfolding next_raw_def using v c query_params_before [OF v(2) assms(2)]
    by (subst url_ParseQuery_more [OF v(1)]) (simp_all add: add_value_new)
  moreover have "query_params (vals @ [(''cursor'', [encodeCursor p])]) default_query = Some (q\<lparr>lqBefore := Some p\<rparr>)"
    using v c by (simp add: query_params_append query_param_def decode_encoded [OF assms(3)])
  moreover have "length (next_raw raw (encodeCursor p)) \<le> 4096"
    using assms(4) cursor_length [OF assms(3)] by (simp add: next_raw_def)
  ultimately show ?thesis using assms(1) v by (auto simp: parseQuery_def split: if_splits option.splits)
qed

lemma parse_limit_range: "parse_limit s = Some l \<Longrightarrow> 1 \<le> l \<and> l \<le> MaxPageSize"
  by (auto simp: parse_limit_def split: if_splits option.splits)

lemma query_param_limit:
  assumes "query_param key v q = Some q'"
  shows "lqLimit q' = lqLimit q \<or> 1 \<le> lqLimit q' \<and> lqLimit q' \<le> MaxPageSize"
  using assms unfolding query_param_def Let_def
  by (elim if_SomeE) (auto simp: map_option_eq_Some dest: parse_limit_range split: if_splits)

lemma query_params_limit: "query_params vals q = Some q' \<Longrightarrow> 1 \<le> lqLimit q \<and> lqLimit q \<le> MaxPageSize \<Longrightarrow>
    1 \<le> lqLimit q' \<and> lqLimit q' \<le> MaxPageSize"
proof (induction vals q rule: query_params.induct)
  case (2 key items rest q)
  then obtain v q1 where v: "items = [v]" "v \<noteq> []" "query_param key v q = Some q1" "query_params rest q1 = Some q'"
    by (auto split: list.splits if_splits option.splits)
  from 2(1) [OF v(1) refl v(2,3,4)] query_param_limit [OF v(3)] 2(3) show ?case by auto
qed simp

lemma parseQuery_limit: "parseQuery raw = Some q \<Longrightarrow> 1 \<le> lqLimit q \<and> lqLimit q \<le> MaxPageSize"
  by (auto simp: parseQuery_def split: if_splits option.splits dest!: query_params_limit)
    (auto simp: default_query_def DefaultPageSize_def MaxPageSize_def)

section \<open>Properties\<close>

text \<open>Page cursors are canonical. A text is accepted as a cursor exactly when it is the encoding of a
  position with a valid request id and a time of whole microseconds in the years 1 to 9999, and it is
  then read as that position; so every position survives the way through a client, and no two
  cursors name the same one.\<close>

lemma cursor_canonical:
  "decodeCursor raw = Some p \<longleftrightarrow> raw = encodeCursor p \<and> cursor_position p"
  using decodeCursor_sound decode_encoded by blast

end
