(* ===== verification/History_Reader.thy ===== *)
theory History_Reader
  imports Admin_Query "HOL-Library.Product_Lexorder" "HOL-Library.List_Lexorder" "HOL-Library.Char_ord"
begin

text \<open>
  The readers of the request history (\<open>internal/persistence/postgres/reader.go\<close>) and its pages in the
  admin API (\<open>internal/adminapi/handler.go\<close>, \<open>dto.go\<close>). A statement is a value with its text, and the
  database is an argument that answers statements; what the statements mean to a database is
  \<open>select_rows\<close>. Walking the pages of any query gives every matching request once, newest first.
\<close>

section \<open>Statements\<close>

datatype sql_arg = ArgTime instant | ArgText string | ArgBool bool | ArgInt int

text \<open>The conditions of a query, over the numbers of their placeholders.\<close>

datatype sql_cond =
    BeforePosition nat nat
  | ProviderIs nat
  | ColumnIs string nat
  | StartedAfter nat
  | StartedBefore nat

record sql_select =
  seConditions :: "sql_cond list"
  seLimit :: nat

definition newline :: string where
  "newline = [CHR 0x0A]"

definition requestColumns :: string where
  "requestColumns = ''request_id, started_at, completed_at, routing_policy,'' @ newline @
     ''    streaming, logical_model, initial_provider, final_provider, outcome,'' @ newline @
     ''    attempt_count, fallback_count, request_duration_us, cache_hit''"

definition placeholder :: "nat \<Rightarrow> string" where
  "placeholder n = CHR ''$'' # decimal n"

fun cond_text :: "sql_cond \<Rightarrow> string" where
  "cond_text (BeforePosition stamp id') =
     ''(started_at, request_id) < ('' @ placeholder stamp @ '', '' @ placeholder id' @ '')''"
| "cond_text (ProviderIs param) =
     ''(initial_provider = '' @ placeholder param @ '' OR final_provider = '' @ placeholder param @ '')''"
| "cond_text (ColumnIs column param) = column @ '' = '' @ placeholder param"
| "cond_text (StartedAfter param) = ''started_at > '' @ placeholder param"
| "cond_text (StartedBefore param) = ''started_at < '' @ placeholder param"

fun join_text :: "string \<Rightarrow> string list \<Rightarrow> string" where
  "join_text sep [] = []"
| "join_text sep [s] = s"
| "join_text sep (s # t # ts) = s @ sep @ join_text sep (t # ts)"

definition select_text :: "sql_select \<Rightarrow> string" where
  "select_text se =
     ''SELECT '' @ requestColumns @ '' FROM routeforge_requests'' @
     (if seConditions se \<noteq> [] then '' WHERE '' @ join_text '' AND '' (map cond_text (seConditions se)) else []) @
     '' ORDER BY started_at DESC, request_id DESC LIMIT '' @ placeholder (seLimit se)"

text \<open>Arguments are numbered as they are added.\<close>

type_synonym sql_builder = "sql_cond list \<times> sql_arg list"

definition add_cond :: "(nat \<Rightarrow> sql_cond) \<Rightarrow> sql_arg \<Rightarrow> sql_builder \<Rightarrow> sql_builder" where
  "add_cond cond value' b =
     (case b of (conditions, args) \<Rightarrow> (conditions @ [cond (length args + 1)], args @ [value']))"

definition add_before :: "Position option \<Rightarrow> sql_builder \<Rightarrow> sql_builder" where
  "add_before before b =
     (case before of
        None \<Rightarrow> b
      | Some p \<Rightarrow> (case b of (conditions, args) \<Rightarrow>
          (conditions @ [BeforePosition (length args + 1) (length args + 2)],
           args @ [ArgTime (znInstant (poStartedAt p)), ArgText (poRequestID p)])))"

definition add_text :: "(nat \<Rightarrow> sql_cond) \<Rightarrow> string \<Rightarrow> sql_builder \<Rightarrow> sql_builder" where
  "add_text cond value' b = (if value' \<noteq> [] then add_cond cond (ArgText value') b else b)"

definition add_optional :: "(nat \<Rightarrow> sql_cond) \<Rightarrow> ('a \<Rightarrow> sql_arg) \<Rightarrow> 'a option \<Rightarrow> sql_builder \<Rightarrow> sql_builder" where
  "add_optional cond arg value' b = (case value' of None \<Rightarrow> b | Some v \<Rightarrow> add_cond cond (arg v) b)"

definition list_conditions :: "ListQuery \<Rightarrow> sql_builder" where
  "list_conditions query =
     add_optional StartedBefore ArgTime (lqStartedBefore query)
     (add_optional StartedAfter ArgTime (lqStartedAfter query)
     (add_optional (ColumnIs ''cache_hit'') ArgBool (lqCacheHit query)
     (add_optional (ColumnIs ''streaming'') ArgBool (lqStreaming query)
     (add_text (ColumnIs ''outcome'') (lqOutcome query)
     (add_text (ColumnIs ''routing_policy'') (lqRoutingPolicy query)
     (add_text ProviderIs (lqProvider query)
     (add_before (lqBefore query) ([], []))))))))"

definition listSQL :: "ListQuery \<Rightarrow> string + sql_select \<times> sql_arg list" where
  "listSQL query =
     (if lqLimit query < 1 \<or> lqLimit query > MaxPageSize then Inl ''invalid history page size''
      else (case list_conditions query of (conditions, args) \<Rightarrow>
        Inr (\<lparr>seConditions = conditions, seLimit = length args + 1\<rparr>, args @ [ArgInt (lqLimit query + 1)])))"

section \<open>Reading\<close>

text \<open>The rows of an answer, where \<open>None\<close> is a row that cannot be scanned, and whether the answer ended
  with an error.\<close>

record 'a sql_rows =
  srRows :: "'a option list"
  srFailed :: bool

text \<open>A row of requests has no attempts of its own.\<close>

definition scanRequest :: "RequestRecord \<Rightarrow> RequestRecord" where
  "scanRequest row = row\<lparr>rrAttempts := []\<rparr>"

fun scan_rows :: "('a \<Rightarrow> 'b) \<Rightarrow> 'a option list \<Rightarrow> 'b list option" where
  "scan_rows scan [] = Some []"
| "scan_rows scan (row # rows) =
     (case row of None \<Rightarrow> None | Some r \<Rightarrow> map_option (Cons (scan r)) (scan_rows scan rows))"

type_synonym request_pool = "sql_select \<Rightarrow> sql_arg list \<Rightarrow> RequestRecord sql_rows option"

definition query_failed :: string where
  "query_failed = ''history query failed''"

definition Store_List :: "request_pool \<Rightarrow> ListQuery \<Rightarrow> string + RequestRecord list" where
  "Store_List pool query =
     (case listSQL query of
        Inl err \<Rightarrow> Inl err
      | Inr (sql, args) \<Rightarrow>
          (case pool sql args of
             None \<Rightarrow> Inl query_failed
           | Some rows \<Rightarrow> (case scan_rows scanRequest (srRows rows) of
               None \<Rightarrow> Inl query_failed
             | Some records \<Rightarrow> if srFailed rows then Inl query_failed else Inr records)))"

definition MaxDetailAttempts :: nat where
  "MaxDetailAttempts = 100"

datatype request_row = RowFailed | NoRows | RowFound RequestRecord

text \<open>A read-only transaction: whether it begins, the row of a request, its first attempts, and whether
  it commits.\<close>

record detail_pool =
  dpBegin :: bool
  dpRequest :: "string \<Rightarrow> request_row"
  dpAttempts :: "string \<Rightarrow> nat \<Rightarrow> AttemptRecord sql_rows option"
  dpCommit :: bool

datatype detail_error = ErrNotFound | DetailError string

definition Store_Detail :: "detail_pool \<Rightarrow> string \<Rightarrow> detail_error + RequestRecord" where
  "Store_Detail pool id' =
     (if \<not> ValidRequestID id' then Inl (DetailError ''invalid request ID'')
      else if \<not> dpBegin pool then Inl (DetailError query_failed)
      else (case dpRequest pool id' of
        NoRows \<Rightarrow> Inl ErrNotFound
      | RowFailed \<Rightarrow> Inl (DetailError query_failed)
      | RowFound row \<Rightarrow> (case dpAttempts pool id' (MaxDetailAttempts + 1) of
          None \<Rightarrow> Inl (DetailError query_failed)
        | Some rows \<Rightarrow> (case scan_rows id (srRows rows) of
            None \<Rightarrow> Inl (DetailError query_failed)
          | Some rows_read \<Rightarrow>
              if srFailed rows \<or> length rows_read > MaxDetailAttempts then Inl (DetailError query_failed)
              else if \<not> dpCommit pool then Inl (DetailError query_failed)
              else Inr ((scanRequest row)\<lparr>rrAttempts := rows_read\<rparr>)))))"

section \<open>Pages\<close>

text \<open>Fields that may be absent are written as \<open>null\<close>.\<close>

definition nullable_json :: "('a \<Rightarrow> json) \<Rightarrow> 'a option \<Rightarrow> json" where
  "nullable_json enc x = (case x of None \<Rightarrow> JNull | Some a \<Rightarrow> enc a)"

definition stamp_json :: "instant \<Rightarrow> json option" where
  "stamp_json t = time_json (utc t)"

definition summary_fields :: "RequestRecord \<Rightarrow> (string \<times> json) list option" where
  "summary_fields r =
     (case (stamp_json (rrStartedAt r), stamp_json (rrCompletedAt r)) of
        (Some started, Some completed) \<Rightarrow> Some
          [(''request_id'', JStr (rrRequestID r)), (''started_at'', started), (''completed_at'', completed),
           (''routing_policy'', JStr (rrRoutingPolicy r)), (''streaming'', JBool (rrStreaming r)),
           (''logical_model'', JStr (rrLogicalModel r)),
           (''initial_provider'', nullable_json JStr (rrInitialProvider r)),
           (''final_provider'', nullable_json JStr (rrFinalProvider r)), (''outcome'', JStr (rrOutcome r)),
           (''attempt_count'', json_int (rrAttemptCount r)), (''fallback_count'', json_int (rrFallbackCount r)),
           (''request_duration_us'', json_int (rrDurationUS r)), (''cache_hit'', JBool (rrCacheHit r))]
      | _ \<Rightarrow> None)"

definition summary_json :: "RequestRecord \<Rightarrow> json option" where
  "summary_json r = map_option JObj (summary_fields r)"

definition attempt_json :: "AttemptRecord \<Rightarrow> json option" where
  "attempt_json a =
     (case (stamp_json (arStartedAt a), stamp_json (arCompletedAt a)) of
        (Some started, Some completed) \<Rightarrow> Some (JObj
          [(''attempt_number'', json_int (arAttemptNumber a)), (''provider'', JStr (arProvider a)),
           (''resolved_provider_model'', JStr (arResolvedProviderModel a)), (''fallback'', JBool (arFallback a)),
           (''started_at'', started), (''completed_at'', completed), (''duration_us'', json_int (arDurationUS a)),
           (''ttfc_us'', nullable_json json_int (arTTFCUS a)), (''outcome'', JStr (arOutcome a)),
           (''input_tokens'', nullable_json json_u64 (arInputTokens a)),
           (''output_tokens'', nullable_json json_u64 (arOutputTokens a)),
           (''total_tokens'', nullable_json json_u64 (arTotalTokens a)),
           (''estimated_cost_micro_usd'', nullable_json json_u64 (arEstimatedCostMicroUSD a))])
      | _ \<Rightarrow> None)"

definition detail_json :: "RequestRecord \<Rightarrow> json option" where
  "detail_json r =
     (case (summary_fields r, those (map attempt_json (rrAttempts r))) of
        (Some fs, Some rows_read) \<Rightarrow> Some (JObj (fs @ [(''attempts'', JArr rows_read)]))
      | _ \<Rightarrow> None)"

record history_reader =
  hrList :: "ListQuery \<Rightarrow> string + RequestRecord list"
  hrDetail :: "string \<Rightarrow> detail_error + RequestRecord"

definition unavailable_reply :: admin_reply where
  "unavailable_reply = admin_writeError 503 ''history_unavailable'' ''history unavailable''"

text \<open>A page of at most the limit, and the cursor of its last request when there are more.\<close>

definition page_of :: "int \<Rightarrow> RequestRecord list \<Rightarrow> RequestRecord list \<times> string option" where
  "page_of limit records =
     (if int (length records) > limit
      then (let page = take (nat limit) records; lst = last page in
            (page, Some (encodeCursor \<lparr>poStartedAt = utc (rrStartedAt lst), poRequestID = rrRequestID lst\<rparr>)))
      else (records, None))"

definition page_json :: "RequestRecord list \<times> string option \<Rightarrow> json option" where
  "page_json page =
     (case page of (records, next) \<Rightarrow>
      map_option (\<lambda>items. JObj [(''requests'', JArr items), (''next_cursor'', nullable_json JStr next)])
        (those (map summary_json records)))"

definition requestsHandler :: "history_reader option \<Rightarrow> admin_request \<Rightarrow> admin_reply" where
  "requestsHandler reader r =
     (case parseQuery (aqQuery r) of
        None \<Rightarrow> admin_writeError 400 ''invalid_query'' ''invalid history query''
      | Some query \<Rightarrow> (case reader of
          None \<Rightarrow> unavailable_reply
        | Some rd \<Rightarrow> (case hrList rd query of
            Inl err \<Rightarrow> unavailable_reply
          | Inr records \<Rightarrow> admin_writeEncoded 200 (page_json (page_of (lqLimit query) records)))))"

definition requestHandler :: "history_reader option \<Rightarrow> string \<Rightarrow> admin_request \<Rightarrow> admin_reply" where
  "requestHandler reader id' r =
     (if \<not> ValidRequestID id' \<or> aqQuery r \<noteq> []
      then admin_writeError 400 ''invalid_request'' ''invalid request ID or query''
      else (case reader of
        None \<Rightarrow> unavailable_reply
      | Some rd \<Rightarrow> (case hrDetail rd id' of
          Inl ErrNotFound \<Rightarrow> admin_writeError 404 ''not_found'' ''request not found''
        | Inl (DetailError err) \<Rightarrow> unavailable_reply
        | Inr record \<Rightarrow> admin_writeEncoded 200 (detail_json record))))"

text \<open>The route table, on a path that the server has cleaned: a request id is one segment.\<close>

definition requests_path :: string where
  "requests_path = ''/admin/v1/requests''"

definition request_segment :: "string \<Rightarrow> string option" where
  "request_segment path =
     (let prefix = requests_path @ ''/''; seg = drop (length prefix) path in
      if HasPrefix path prefix \<and> seg \<noteq> [] \<and> CHR ''/'' \<notin> set seg then Some seg else None)"

definition get_refused :: admin_reply where
  "get_refused = (admin_writeError 405 ''method_not_allowed'' ''method not allowed'')
     \<lparr>apHeader := [(''Allow'', ''GET''), (''Content-Type'', ''application/json'')]\<rparr>"

definition historyHandler :: "history_reader option \<Rightarrow> admin_request \<Rightarrow> admin_reply" where
  "historyHandler reader r =
     secured
       (if aqMethod r \<noteq> ''GET'' then get_refused
        else if aqPath r = ''/admin/v1/health'' then admin_writeJSON 200 (JObj [(''status'', JStr ''ok'')])
        else if aqPath r = requests_path then requestsHandler reader r
        else (case request_segment (aqPath r) of
          Some id' \<Rightarrow> requestHandler reader id' r
        | None \<Rightarrow> admin_writeError 404 ''not_found'' ''endpoint not found''))"

section \<open>What the statements mean\<close>

text \<open>
  A database evaluates the conditions on the columns of a row. Texts are compared by a collation; an
  absent provider equals nothing.
\<close>

definition arg_at :: "sql_arg list \<Rightarrow> nat \<Rightarrow> sql_arg" where
  "arg_at args n = args ! (n - 1)"

definition column_is :: "string \<Rightarrow> RequestRecord \<Rightarrow> sql_arg \<Rightarrow> bool" where
  "column_is column row value' =
     (if column = ''routing_policy'' then value' = ArgText (rrRoutingPolicy row)
      else if column = ''outcome'' then value' = ArgText (rrOutcome row)
      else if column = ''streaming'' then value' = ArgBool (rrStreaming row)
      else if column = ''cache_hit'' then value' = ArgBool (rrCacheHit row)
      else False)"

definition row_key :: "(string \<Rightarrow> 'k :: linorder) \<Rightarrow> RequestRecord \<Rightarrow> instant \<times> 'k" where
  "row_key collate row = (rrStartedAt row, collate (rrRequestID row))"

fun cond_holds :: "(string \<Rightarrow> 'k :: linorder) \<Rightarrow> sql_arg list \<Rightarrow> RequestRecord \<Rightarrow> sql_cond \<Rightarrow> bool" where
  "cond_holds collate args row (BeforePosition i j) =
     (case (arg_at args i, arg_at args j) of
        (ArgTime t, ArgText s) \<Rightarrow> row_key collate row < (t, collate s) | _ \<Rightarrow> False)"
| "cond_holds collate args row (ProviderIs i) =
     (case arg_at args i of
        ArgText p \<Rightarrow> rrInitialProvider row = Some p \<or> rrFinalProvider row = Some p | _ \<Rightarrow> False)"
| "cond_holds collate args row (ColumnIs c i) = column_is c row (arg_at args i)"
| "cond_holds collate args row (StartedAfter i) =
     (case arg_at args i of ArgTime t \<Rightarrow> t < rrStartedAt row | _ \<Rightarrow> False)"
| "cond_holds collate args row (StartedBefore i) =
     (case arg_at args i of ArgTime t \<Rightarrow> rrStartedAt row < t | _ \<Rightarrow> False)"

definition newest_first :: "(string \<Rightarrow> 'k :: linorder) \<Rightarrow> RequestRecord list \<Rightarrow> RequestRecord list" where
  "newest_first collate rows = rev (sort_key (row_key collate) rows)"

definition select_rows ::
  "(string \<Rightarrow> 'k :: linorder) \<Rightarrow> RequestRecord list \<Rightarrow> sql_select \<Rightarrow> sql_arg list \<Rightarrow> RequestRecord list" where
  "select_rows collate table se args =
     (case arg_at args (seLimit se) of
        ArgInt n \<Rightarrow> take (nat n)
          (newest_first collate (filter (\<lambda>row. list_all (cond_holds collate args row) (seConditions se)) table))
      | _ \<Rightarrow> [])"

text \<open>A pool in front of a table that does not fail.\<close>

definition answers :: "(string \<Rightarrow> 'k :: linorder) \<Rightarrow> RequestRecord list \<Rightarrow> request_pool \<Rightarrow> bool" where
  "answers collate table pool \<longleftrightarrow>
     (\<forall>sql args. pool sql args =
        Some \<lparr>srRows = map Some (select_rows collate table sql args), srFailed = False\<rparr>)"

text \<open>What a query asks for, apart from the size of the page.\<close>

definition filters_hold :: "ListQuery \<Rightarrow> RequestRecord \<Rightarrow> bool" where
  "filters_hold q row \<longleftrightarrow>
     (lqProvider q = [] \<or> rrInitialProvider row = Some (lqProvider q) \<or> rrFinalProvider row = Some (lqProvider q)) \<and>
     (lqRoutingPolicy q = [] \<or> rrRoutingPolicy row = lqRoutingPolicy q) \<and>
     (lqOutcome q = [] \<or> rrOutcome row = lqOutcome q) \<and>
     (lqStreaming q = None \<or> lqStreaming q = Some (rrStreaming row)) \<and>
     (lqCacheHit q = None \<or> lqCacheHit q = Some (rrCacheHit row)) \<and>
     (case lqStartedAfter q of None \<Rightarrow> True | Some t \<Rightarrow> t < rrStartedAt row) \<and>
     (case lqStartedBefore q of None \<Rightarrow> True | Some t \<Rightarrow> rrStartedAt row < t)"

definition before_position :: "(string \<Rightarrow> 'k :: linorder) \<Rightarrow> Position option \<Rightarrow> RequestRecord \<Rightarrow> bool" where
  "before_position collate before row =
     (case before of
        None \<Rightarrow> True
      | Some p \<Rightarrow> row_key collate row < (znInstant (poStartedAt p), collate (poRequestID p)))"

section \<open>The statement says what the query asks for\<close>

fun cond_params :: "sql_cond \<Rightarrow> nat list" where
  "cond_params (BeforePosition i j) = [i, j]"
| "cond_params (ProviderIs i) = [i]"
| "cond_params (ColumnIs c i) = [i]"
| "cond_params (StartedAfter i) = [i]"
| "cond_params (StartedBefore i) = [i]"

definition builder_ok :: "sql_builder \<Rightarrow> bool" where
  "builder_ok b \<longleftrightarrow> (\<forall>c \<in> set (fst b). \<forall>i \<in> set (cond_params c). 1 \<le> i \<and> i \<le> length (snd b))"

definition builder_holds :: "(string \<Rightarrow> 'k :: linorder) \<Rightarrow> RequestRecord \<Rightarrow> sql_builder \<Rightarrow> bool" where
  "builder_holds collate row b \<longleftrightarrow> list_all (cond_holds collate (snd b) row) (fst b)"

lemma arg_at_append [simp]:
  "1 \<le> n \<Longrightarrow> n \<le> length args \<Longrightarrow> arg_at (args @ ys) n = arg_at args n"
  "arg_at (args @ v # ys) (Suc (length args)) = v"
  by (auto simp: arg_at_def nth_append)

lemma cond_holds_append:
  assumes "\<forall>i \<in> set (cond_params c). 1 \<le> i \<and> i \<le> length args"
  shows "cond_holds collate (args @ ys) row c = cond_holds collate args row c"
  using assms by (cases c) simp_all

lemma builder_append:
  assumes "builder_ok (cs, args)"
  shows "list_all (cond_holds collate (args @ ys) row) cs = list_all (cond_holds collate args row) cs"
  using assms by (auto simp: builder_ok_def list_all_iff cond_holds_append)

lemma add_cond_ok:
  assumes "builder_ok b" "\<And>i. cond_params (cond i) = [i]"
  shows "builder_ok (add_cond cond v b)"
    and "builder_holds collate row (add_cond cond v b) \<longleftrightarrow>
      builder_holds collate row b \<and> cond_holds collate (snd b @ [v]) row (cond (length (snd b) + 1))"
  using assms(1) by (auto simp: add_cond_def builder_holds_def builder_append assms(2) split: prod.split)
    (fastforce simp: builder_ok_def assms(2))

lemma add_text_ok:
  assumes "builder_ok b" "\<And>i. cond_params (cond i) = [i]"
  shows "builder_ok (add_text cond v b)"
    and "builder_holds collate row (add_text cond v b) \<longleftrightarrow>
      builder_holds collate row b \<and> (v = [] \<or> cond_holds collate (snd b @ [ArgText v]) row (cond (length (snd b) + 1)))"
  using assms(1) by (auto simp: add_text_def add_cond_ok [OF assms])

lemma add_optional_ok:
  assumes "builder_ok b" "\<And>i. cond_params (cond i) = [i]"
  shows "builder_ok (add_optional cond f v b)"
    and "builder_holds collate row (add_optional cond f v b) \<longleftrightarrow> builder_holds collate row b \<and>
      (case v of None \<Rightarrow> True | Some x \<Rightarrow> cond_holds collate (snd b @ [f x]) row (cond (length (snd b) + 1)))"
  using assms(1) by (auto simp: add_optional_def add_cond_ok [OF assms] split: option.split)

lemma add_before_ok:
  "builder_ok (add_before before ([], []))"
  "builder_holds collate row (add_before before ([], [])) \<longleftrightarrow> before_position collate before row"
  by (auto simp: add_before_def builder_ok_def builder_holds_def before_position_def arg_at_def split: option.split)

lemma list_conditions_ok:
  shows "builder_ok (list_conditions q)"
    and "builder_holds collate row (list_conditions q) \<longleftrightarrow> filters_hold q row \<and> before_position collate (lqBefore q) row"
proof -
  show "builder_ok (list_conditions q)"
    unfolding list_conditions_def by (intro add_optional_ok(1) add_text_ok(1) add_before_ok(1)) simp_all
  have "builder_holds collate row (list_conditions q) \<longleftrightarrow> filters_hold q row \<and> before_position collate (lqBefore q) row"
    unfolding list_conditions_def
    by (simp add: add_optional_ok add_text_ok add_before_ok filters_hold_def column_is_def conj_ac
        split: option.split) auto
  then show "builder_holds collate row (list_conditions q) \<longleftrightarrow> filters_hold q row \<and> before_position collate (lqBefore q) row" .
qed

lemma scan_rows_some [simp]: "scan_rows f (map Some xs) = Some (map f xs)"
  by (induction xs) simp_all

lemma row_key_scan [simp]: "row_key collate (scanRequest row) = row_key collate row"
  by (simp add: row_key_def scanRequest_def)

text \<open>A store in front of a table answers with the first rows that match, newest first.\<close>

lemma Store_List_answers:
  assumes "answers collate table pool" "1 \<le> lqLimit q" "lqLimit q \<le> MaxPageSize"
  shows "Store_List pool q = Inr (map scanRequest (take (nat (lqLimit q + 1))
    (newest_first collate (filter (\<lambda>row. filters_hold q row \<and> before_position collate (lqBefore q) row) table))))"
proof -
  obtain cs args where b: "list_conditions q = (cs, args)" by fastforce
  let ?se = "\<lparr>seConditions = cs, seLimit = length args + 1\<rparr>" and ?all = "args @ [ArgInt (lqLimit q + 1)]"
  have "list_all (cond_holds collate ?all row) cs \<longleftrightarrow> filters_hold q row \<and> before_position collate (lqBefore q) row" for row
    using list_conditions_ok(1) [of q] list_conditions_ok(2) [of collate row q] builder_append [of cs args collate "[ArgInt (lqLimit q + 1)]" row]
    by (simp add: b builder_holds_def)
  moreover have "arg_at ?all (seLimit ?se) = ArgInt (lqLimit q + 1)" by simp
  ultimately have "select_rows collate table ?se ?all = take (nat (lqLimit q + 1))
      (newest_first collate (filter (\<lambda>row. filters_hold q row \<and> before_position collate (lqBefore q) row) table))"
    by (simp add: select_rows_def)
  then show ?thesis using assms by (simp add: Store_List_def listSQL_def b answers_def)
qed

section \<open>Walking the pages\<close>

text \<open>The rows of a table: request ids are its key, and every row has a position of its own.\<close>

definition row_position :: "RequestRecord \<Rightarrow> Position" where
  "row_position row = \<lparr>poStartedAt = utc (rrStartedAt row), poRequestID = rrRequestID row\<rparr>"

definition table_ok :: "RequestRecord list \<Rightarrow> bool" where
  "table_ok table \<longleftrightarrow> distinct (map rrRequestID table) \<and>
     (\<forall>row \<in> set table. cursor_position (row_position row) \<and> stamp_json (rrCompletedAt row) \<noteq> None)"

definition descending :: "(string \<Rightarrow> 'k :: linorder) \<Rightarrow> RequestRecord list \<Rightarrow> bool" where
  "descending collate rows \<longleftrightarrow> sorted_wrt (\<lambda>a b. row_key collate b < row_key collate a) rows"

lemma newest_first_descending:
  assumes "inj collate" "distinct (map rrRequestID rows)"
  shows "descending collate (newest_first collate rows)"
proof -
  have "distinct (map (row_key collate) rows)"
    using assms by (auto simp: distinct_conv_nth row_key_def dest: injD)
  then have "distinct (map (row_key collate) (sort_key (row_key collate) rows))"
    by (metis mset_map mset_sort mset_eq_imp_distinct_iff)
  moreover have "sorted (map (row_key collate) (sort_key (row_key collate) rows))" by simp
  ultimately have "sorted_wrt (<) (map (row_key collate) (sort_key (row_key collate) rows))"
    by (simp add: strict_sorted_iff)
  then show ?thesis by (simp add: descending_def newest_first_def sorted_wrt_rev sorted_wrt_map)
qed

lemma newest_first_filter:
  "newest_first collate (filter (\<lambda>r. P r \<and> Q r) rows) = filter Q (newest_first collate (filter P rows))"
  by (simp add: newest_first_def rev_filter [symmetric] filter_sort [symmetric] conj_commute)

lemma newest_first_set [simp]: "set (newest_first collate rows) = set rows"
  by (simp add: newest_first_def)

lemma descending_after:
  assumes "descending collate rows" "k < length rows"
  shows "filter (\<lambda>r. row_key collate r < row_key collate (rows ! k)) rows = drop (Suc k) rows"
proof -
  let ?lt = "\<lambda>r. row_key collate r < row_key collate (rows ! k)"
  have s: "i < j \<Longrightarrow> j < length rows \<Longrightarrow> row_key collate (rows ! j) < row_key collate (rows ! i)" for i j
    using assms(1) by (simp add: descending_def sorted_wrt_iff_nth_less)
  have "\<not> ?lt r" if m: "r \<in> set (take (Suc k) rows)" for r
  proof -
    obtain i where "i \<le> k" "r = rows ! i" using m assms(2) by (auto simp: in_set_conv_nth less_Suc_eq_le)
    then show ?thesis using s [of i k] assms(2) by (cases "i = k") auto
  qed
  moreover have "?lt r" if m: "r \<in> set (drop (Suc k) rows)" for r
  proof -
    obtain i where "i < length rows - Suc k" "r = rows ! (Suc k + i)" using m by (auto simp: in_set_conv_nth)
    then show ?thesis using s [of k "Suc k + i"] by simp
  qed
  ultimately have "filter ?lt (take (Suc k) rows) = []" "filter ?lt (drop (Suc k) rows) = drop (Suc k) rows"
    by (auto simp: filter_empty_conv)
  then show ?thesis by (metis append_Nil append_take_drop_id filter_append)
qed

text \<open>
  A client that walks the pages: it asks for the requests of its query, takes the items and the next
  cursor from the body of the reply, and asks again with the cursor until there is none.
\<close>

definition page_request :: "string \<Rightarrow> string option \<Rightarrow> admin_request \<Rightarrow> admin_request" where
  "page_request raw cursor r =
     r\<lparr>aqMethod := ''GET'', aqPath := requests_path,
       aqQuery := (case cursor of None \<Rightarrow> raw | Some c \<Rightarrow> next_raw raw c)\<rparr>"

definition read_page :: "admin_reply \<Rightarrow> (json list \<times> string option) option" where
  "read_page reply =
     (if apStatus reply \<noteq> 200 then None
      else (case apBody reply of
        Some (JObj [(_, JArr items), (_, next)]) \<Rightarrow>
          (case next of JStr c \<Rightarrow> Some (items, Some c) | JNull \<Rightarrow> Some (items, None) | _ \<Rightarrow> None)
      | _ \<Rightarrow> None))"

fun walk_pages :: "nat \<Rightarrow> (admin_request \<Rightarrow> admin_reply) \<Rightarrow> admin_request \<Rightarrow> string \<Rightarrow> string option \<Rightarrow> json list list option" where
  "walk_pages 0 handle r raw cursor = None"
| "walk_pages (Suc n) handle r raw cursor =
     (case read_page (handle (page_request raw cursor r)) of
        None \<Rightarrow> None
      | Some (items, None) \<Rightarrow> Some [items]
      | Some (items, Some c) \<Rightarrow> map_option (Cons items) (walk_pages n handle r raw (Some c)))"

lemma those_map_some: "\<forall>x \<in> set xs. f x \<noteq> None \<Longrightarrow> those (map f xs) = Some (map (the \<circ> f) xs)"
  by (induction xs) auto

lemma stamp_json_position: "cursor_position (row_position row) \<Longrightarrow> stamp_json (rrStartedAt row) \<noteq> None"
  by (auto simp: cursor_position_def row_position_def stamp_json_def Let_def utc_def time_json_def quot_def)

lemma summary_json_row: "table_ok table \<Longrightarrow> row \<in> set table \<Longrightarrow> summary_json (scanRequest row) \<noteq> None"
  using stamp_json_position [of row]
  by (auto simp: table_ok_def summary_json_def summary_fields_def scanRequest_def split: option.split)

lemma read_page_reply:
  assumes "parseQuery (case cursor of None \<Rightarrow> raw | Some c \<Rightarrow> next_raw raw c) = Some q"
    and "hrList rd q = Inr records" "page_of (lqLimit q) records = (page, next)"
    and "\<forall>row \<in> set page. summary_json row \<noteq> None"
  shows "read_page (historyHandler (Some rd) (page_request raw cursor r)) = Some (map (the \<circ> summary_json) page, next)"
  using assms
  by (auto simp: read_page_def historyHandler_def page_request_def requestsHandler_def secured_def requests_path_def
      admin_writeEncoded_def page_json_def those_map_some nullable_json_def split: option.split)


text \<open>The pages from some row on, by induction on the number of requests that the client may send.\<close>

lemma walk_from:
  fixes collate :: "string \<Rightarrow> 'k :: linorder"
  assumes "answers collate table pool" "inj collate" "table_ok table" "parseQuery raw = Some q" "lqBefore q = None"
    and "length raw \<le> 3800" and "hrList rd = Store_List pool"
  defines "rows \<equiv> newest_first collate (filter (filters_hold q) table)"
  assumes "k \<le> length rows" "length rows - k < n" "k = 0 \<and> cursor = None \<or> 0 < k \<and> cursor = Some (encodeCursor (row_position (rows ! (k - 1))))"
  shows "\<exists>pages. walk_pages n (historyHandler (Some rd)) r raw cursor = Some pages \<and>
    concat pages = map (the \<circ> summary_json \<circ> scanRequest) (drop k rows) \<and> (\<forall>page \<in> set pages. length page \<le> nat (lqLimit q))"
  using assms(9-)
proof (induction n arbitrary: k cursor)
  case (Suc n)
  let ?l = "nat (lqLimit q)"
  have lim: "1 \<le> lqLimit q" "lqLimit q \<le> MaxPageSize" using parseQuery_limit [OF assms(4)] by simp_all
  have d: "descending collate rows"
    unfolding rows_def using assms(2,3)
    by (intro newest_first_descending) (simp_all add: table_ok_def distinct_map_filter)
  have rows: "row \<in> set rows \<Longrightarrow> row \<in> set table" for row by (simp add: rows_def)
  obtain before where b: "parseQuery (case cursor of None \<Rightarrow> raw | Some c \<Rightarrow> next_raw raw c) = Some (q\<lparr>lqBefore := before\<rparr>)"
      "filter (before_position collate before) rows = drop k rows"
  proof (cases "k = 0")
    case True
    then show ?thesis using Suc.prems(3) assms(4,5) that [of None] by (simp add: before_position_def)
  next
    case False
    let ?p = "row_position (rows ! (k - 1))"
    have m: "rows ! (k - 1) \<in> set rows" using False Suc.prems(1) by simp
    then have "cursor_position ?p" using rows assms(3) by (simp add: table_ok_def)
    from parseQuery_next [OF assms(4,5) this assms(6)]
    have "parseQuery (case cursor of None \<Rightarrow> raw | Some c \<Rightarrow> next_raw raw c) = Some (q\<lparr>lqBefore := Some ?p\<rparr>)"
      using False Suc.prems(3) by simp
    moreover have "before_position collate (Some ?p) = (\<lambda>r. row_key collate r < row_key collate (rows ! (k - 1)))"
      by (auto simp: before_position_def row_position_def row_key_def utc_def)
    ultimately show ?thesis using descending_after [OF d, of "k - 1"] False Suc.prems(1) that by simp
  qed
  let ?q = "q\<lparr>lqBefore := before\<rparr>"
  have "filters_hold ?q = filters_hold q" by (auto simp: filters_hold_def)
  then have "Store_List pool ?q = Inr (map scanRequest (take (nat (lqLimit q + 1)) (drop k rows)))"
    using Store_List_answers [OF assms(1), of ?q] lim b(2)
    by (simp add: newest_first_filter [of collate "filters_hold q" "before_position collate before"] rows_def [symmetric])
  then have records: "hrList rd ?q = Inr (map scanRequest (take (Suc ?l) (drop k rows)))"
    using assms(7) lim by (simp add: nat_add_distrib)
  have ok: "\<forall>row \<in> set (map scanRequest (take m (drop k rows))). summary_json row \<noteq> None" for m
    using summary_json_row [OF assms(3)] rows by (auto dest!: in_set_takeD in_set_dropD)
  show ?case
  proof (cases "length rows - k \<le> ?l")
    case True
    then have "\<not> lqLimit q < int (length rows - k)" using lim by linarith
    with True have "page_of (lqLimit ?q) (map scanRequest (take (Suc ?l) (drop k rows))) = (map scanRequest (drop k rows), None)"
      by (simp add: page_of_def)
    from read_page_reply [OF b(1) records this] show ?thesis
      using ok [of "length rows"] True by (simp add: comp_assoc)
  next
    case False
    let ?k = "k + ?l"
    have l: "0 < ?l" "?k < length rows" using False lim by auto
    have "last (map scanRequest (take ?l (drop k rows))) = scanRequest (rows ! (?k - 1))"
      using l by (subst last_map) (auto simp: last_conv_nth min_def nth_take)
    then have "page_of (lqLimit ?q) (map scanRequest (take (Suc ?l) (drop k rows))) =
        (map scanRequest (take ?l (drop k rows)), Some (encodeCursor (row_position (rows ! (?k - 1)))))"
      using l lim by (simp add: page_of_def Let_def take_map row_position_def scanRequest_def)
    note page = read_page_reply [OF b(1) records this ok]
    have "length rows - ?k < n" using l Suc.prems(2) by simp
    from Suc.IH [OF _ this, of "Some (encodeCursor (row_position (rows ! (?k - 1))))"] l
    obtain pages where ps: "walk_pages n (historyHandler (Some rd)) r raw (Some (encodeCursor (row_position (rows ! (?k - 1))))) = Some pages"
      "concat pages = map (the \<circ> summary_json \<circ> scanRequest) (drop ?k rows)" "\<forall>page \<in> set pages. length page \<le> ?l"
      by auto
    have "drop k rows = take ?l (drop k rows) @ drop ?k rows" by (metis append_take_drop_id drop_drop add.commute)
    then have "map F (drop k rows) = map F (take ?l (drop k rows)) @ map F (drop ?k rows)" for F :: "RequestRecord \<Rightarrow> json"
      by (metis map_append)
    then have "concat (map (the \<circ> summary_json) (map scanRequest (take ?l (drop k rows))) # pages)
        = map (the \<circ> summary_json \<circ> scanRequest) (drop k rows)"
      by (simp only: concat.simps ps(2) map_map)
    with ps page show ?thesis by (auto simp: comp_assoc)
  qed
qed simp

section \<open>The text of a statement\<close>

text \<open>Values reach the database as arguments only: the text is determined by which settings a query has.\<close>

definition query_shape :: "ListQuery \<Rightarrow> bool list" where
  "query_shape q = [lqBefore q \<noteq> None, lqProvider q \<noteq> [], lqRoutingPolicy q \<noteq> [], lqOutcome q \<noteq> [],
     lqStreaming q \<noteq> None, lqCacheHit q \<noteq> None, lqStartedAfter q \<noteq> None, lqStartedBefore q \<noteq> None]"

definition builder_shape :: "sql_builder \<Rightarrow> sql_cond list \<times> nat" where
  "builder_shape b = (fst b, length (snd b))"

definition grow_shape :: "(nat \<Rightarrow> sql_cond) \<Rightarrow> bool \<Rightarrow> sql_cond list \<times> nat \<Rightarrow> sql_cond list \<times> nat" where
  "grow_shape cond present s = (if present then (fst s @ [cond (snd s + 1)], snd s + 1) else s)"

lemma builder_shape_add:
  "builder_shape (add_text cond v b) = grow_shape cond (v \<noteq> []) (builder_shape b)"
  "builder_shape (add_optional cond f x b) = grow_shape cond (x \<noteq> None) (builder_shape b)"
  "builder_shape (add_before before ([], [])) = (if before \<noteq> None then ([BeforePosition 1 2], 2) else ([], 0))"
  by (auto simp: builder_shape_def grow_shape_def add_text_def add_optional_def add_before_def add_cond_def
      split: option.split prod.split)

lemma list_conditions_shape:
  "query_shape q = query_shape q' \<Longrightarrow> builder_shape (list_conditions q) = builder_shape (list_conditions q')"
  by (simp add: list_conditions_def builder_shape_add query_shape_def)

section \<open>Properties\<close>


section \<open>Witnesses\<close>

definition sample_row :: "string \<Rightarrow> instant \<Rightarrow> RequestRecord" where
  "sample_row i t = \<lparr>rrRequestID = i, rrStartedAt = t, rrCompletedAt = t, rrRoutingPolicy = ''cost'',
     rrStreaming = False, rrCacheHit = False, rrLogicalModel = ''m'', rrInitialProvider = Some ''mock'',
     rrFinalProvider = None, rrOutcome = ''success'', rrAttemptCount = 0, rrFallbackCount = 0, rrDurationUS = 1,
     rrAttempts = []\<rparr>"

definition sample_table :: "RequestRecord list" where
  "sample_table = [sample_row ''rfreq_AAAAAAAAAAAAAAAAAAAAAA'' 63867398400000001000,
     sample_row ''rfreq_AAAAAAAAAAAAAAAAAAAAAQ'' 63867398400000002000]"

definition sample_pool :: request_pool where
  "sample_pool sql args = Some \<lparr>srRows = map Some (select_rows id sample_table sql args), srFailed = False\<rparr>"

definition sample_reader :: history_reader where
  "sample_reader = \<lparr>hrList = Store_List sample_pool, hrDetail = \<lambda>_. Inl ErrNotFound\<rparr>"

lemma sample_table_ok: "table_ok sample_table"
  by code_simp

lemma sample_query: "parseQuery ''limit=1'' = Some (default_query\<lparr>lqLimit := 1\<rparr>)"
  by code_simp

definition sample_request :: admin_request where
  "sample_request = \<lparr>aqMethod = [], aqPath = [], aqQuery = [], aqContentType = [], aqOrigins = [],
     aqFetchSite = [], aqCookies = [], aqBody = \<lparr>bodyBytes = [], bodyError = None\<rparr>\<rparr>"


end
