(* ===== verification/Operations.thy ===== *)
theory Operations
  imports Service
begin

text \<open>
  The operators' view of the gateway (\<open>internal/gateway/operations.go\<close>): the published routing settings
  and, for each provider, its circuit, latencies and prices. The view only reads. It agrees with what
  admission and the routing policies would do with the same state at the same time.
\<close>

section \<open>State\<close>

record LatencyState =
  laStoredSamples :: int
  laFreshSamples :: int
  laSufficient :: bool
  laMedianUS :: "int option"

record ProviderState =
  prProvider :: string
  prCircuitState :: string
  prOpenUntil :: "instant option"
  prEligible :: bool
  prProbeInFlight :: bool
  prLastSuccess :: "instant option"
  prLastFailure :: "instant option"
  prCompletion :: LatencyState
  prTTFC :: LatencyState
  prPricedModels :: int
  prCompletePriceModels :: int

record RoutingState =
  roPolicy :: string
  roAuto :: bool
  roProviderOrder :: "string list"
  roLatencyAware :: bool
  roMinSamples :: int
  roSampleMaxAgeUS :: int
  roExplorationInterval :: int
  roExplorationCounts :: "(int \<times> int) option"
  roMaxLatencyOverFastestPercent :: "u64 option"

record OperationsSnapshot =
  opObservedAt :: instant
  opRouting :: RoutingState
  opProviders :: "ProviderState list"

section \<open>Operations\<close>

definition latencyState :: "LatencySample list \<Rightarrow> instant \<Rightarrow> int \<Rightarrow> duration \<Rightarrow> LatencyState" where
  "latencyState samples now minSamples maxAge =
     (let fresh = recentLatencySamples samples now maxAge;
          sufficient = (minSamples > 0 \<and> int (length fresh) \<ge> minSamples)
      in \<lparr>laStoredSamples = int (length samples), laFreshSamples = int (length fresh), laSufficient = sufficient,
          laMedianUS = (if sufficient then Some (microseconds (medianDuration (map smDuration fresh))) else None)\<rparr>)"

definition optionalTime :: "instant \<Rightarrow> instant option" where
  "optionalTime value' = (if value' = time_zero then None else Some value')"

fun circuit_text :: "circuitState \<Rightarrow> string" where
  "circuit_text circuitClosed = ''closed''"
| "circuit_text circuitOpen = ''open''"
| "circuit_text circuitHalfOpen = ''half_open''"

text \<open>The loop over the prices, whose keys come in any order.\<close>

fun price_counts :: "string \<Rightarrow> PriceBook \<Rightarrow> Key list \<Rightarrow> int \<times> int \<Rightarrow> int \<times> int" where
  "price_counts name prices [] counts = counts"
| "price_counts name prices (key # keys) counts =
     (if keyProvider key \<noteq> name then price_counts name prices keys counts
      else (let rates = rates_for prices key;
                input = (InputMicroUSDPerMillion rates \<noteq> None);
                output = (OutputMicroUSDPerMillion rates \<noteq> None)
            in price_counts name prices keys
                 (if input \<or> output then fst counts + 1 else fst counts,
                  if input \<and> output then snd counts + 1 else snd counts)))"

text \<open>\<open>eligible\<close> of a circuit snapshot, which is the zero value for an unknown provider.\<close>

definition snapshot_eligible :: "healthSnapshot option \<Rightarrow> instant \<Rightarrow> bool" where
  "snapshot_eligible health now =
     (case health of
        None \<Rightarrow> False
      | Some h \<Rightarrow> snState h = circuitClosed \<or> snState h = circuitOpen \<and> \<not> now < snOpenUntil h \<or>
          snState h = circuitHalfOpen \<and> \<not> snHalfOpenInFlight h)"

definition provider_state ::
  "Service \<Rightarrow> Key list \<Rightarrow> instant \<Rightarrow> int \<Rightarrow> duration \<Rightarrow> string \<Rightarrow> ProviderState" where
  "provider_state s keys now minSamples maxAge name =
     (let health = tracker_snapshot (svHealth s) name;
          telemetry = telemetry_snapshot (svTelemetry s) name;
          counts = price_counts name (svPricing s) keys (0, 0)
      in \<lparr>prProvider = name,
          prCircuitState = (case health of None \<Rightarrow> [] | Some h \<Rightarrow> circuit_text (snState h)),
          prOpenUntil = (case health of None \<Rightarrow> None
             | Some h \<Rightarrow> if snState h = circuitOpen then optionalTime (snOpenUntil h) else None),
          prEligible = snapshot_eligible health now,
          prProbeInFlight = (case health of None \<Rightarrow> False | Some h \<Rightarrow> snHalfOpenInFlight h),
          prLastSuccess = (case telemetry of None \<Rightarrow> None | Some t \<Rightarrow> optionalTime (tmLastSuccess (tsCounters t))),
          prLastFailure = (case telemetry of None \<Rightarrow> None | Some t \<Rightarrow> optionalTime (tmLastFailure (tsCounters t))),
          prCompletion = latencyState (case telemetry of None \<Rightarrow> [] | Some t \<Rightarrow> NonStreamingLatencySamples t)
            now minSamples maxAge,
          prTTFC = latencyState (case telemetry of None \<Rightarrow> [] | Some t \<Rightarrow> StreamingFirstContentSamples t)
            now minSamples maxAge,
          prPricedModels = fst counts, prCompletePriceModels = snd counts\<rparr>)"

text \<open>The latency part of the published policy, with its tolerance.\<close>

fun latency_part :: "routingPolicy \<Rightarrow> (latencyRoutingPolicy \<times> u64 option) option" where
  "latency_part (LatencyRoutingPolicy p) = Some (p, None)"
| "latency_part (CostLatencyRoutingPolicy p percent) = Some (p, Some percent)"
| "latency_part _ = None"

definition routing_state :: "Service \<Rightarrow> RoutingConfig \<Rightarrow> RoutingState \<times> duration" where
  "routing_state s config0 =
     (let version = rtCurrent (svRouting s);
          vc = rvConfig version;
          config1 = (if rcMinSamples config0 = 0 then config0\<lparr>rcMinSamples := rcMinSamples vc\<rparr> else config0);
          config2 = (if rcSampleMaxAge config1 = 0 then config1\<lparr>rcSampleMaxAge := rcSampleMaxAge vc\<rparr> else config1);
          config = config2\<lparr>rcExplorationInterval := rcExplorationInterval vc\<rparr>;
          routing = \<lparr>roPolicy = rcPolicy vc, roAuto = svFallback s, roProviderOrder = providerNames (svProviders s),
            roLatencyAware = False, roMinSamples = rcMinSamples config,
            roSampleMaxAgeUS = microseconds (rcSampleMaxAge config),
            roExplorationInterval = rcExplorationInterval config, roExplorationCounts = None,
            roMaxLatencyOverFastestPercent = None\<rparr>
      in case latency_part (rvPolicy version) of
           None \<Rightarrow> (routing, rcSampleMaxAge config)
         | Some (p, percent) \<Rightarrow>
             (routing\<lparr>roMaxLatencyOverFastestPercent := percent, roLatencyAware := True,
                roMinSamples := lpMinSamples p, roSampleMaxAgeUS := microseconds (lpSampleMaxAge p),
                roExplorationInterval := lpExplorationInterval p,
                roExplorationCounts := Some (rtExploration (svRouting s) nonStreamingMode,
                  rtExploration (svRouting s) streamingMode)\<rparr>,
              lpSampleMaxAge p))"

definition OperationsSnapshot_of :: "instant \<Rightarrow> Key list \<Rightarrow> RoutingConfig \<Rightarrow> Service \<Rightarrow> OperationsSnapshot" where
  "OperationsSnapshot_of now keys config s =
     (case routing_state s config of (routing, maxAge) \<Rightarrow>
      \<lparr>opObservedAt = now, opRouting = routing,
       opProviders = map (provider_state s keys now (roMinSamples routing) maxAge) (providerNames (svProviders s))\<rparr>)"

section \<open>Agreement with the gateway\<close>

lemma snapshot_eligible_iff: "snapshot_eligible (tracker_snapshot t name) now \<longleftrightarrow> tracker_eligible t name now"
  by (auto simp: snapshot_eligible_def tracker_snapshot_def tracker_eligible_def health_snapshot_def
      health_eligible_def split: option.split circuitState.split)

text \<open>The counts do not depend on the order of the keys.\<close>

definition priced :: "PriceBook \<Rightarrow> string \<Rightarrow> (bool \<Rightarrow> bool \<Rightarrow> bool) \<Rightarrow> Key \<Rightarrow> bool" where
  "priced prices name f key \<longleftrightarrow> keyProvider key = name \<and>
     f (InputMicroUSDPerMillion (rates_for prices key) \<noteq> None) (OutputMicroUSDPerMillion (rates_for prices key) \<noteq> None)"

lemma price_counts_filter:
  "price_counts name prices keys (a, b) =
     (a + int (length (filter (priced prices name (\<or>)) keys)), b + int (length (filter (priced prices name (\<and>)) keys)))"
  by (induction keys arbitrary: a b) (auto simp: priced_def Let_def)

lemma price_counts_card:
  assumes "distinct keys" "set keys = dom prices"
  shows "price_counts name prices keys (0, 0) =
     (int (card {k \<in> dom prices. priced prices name (\<or>) k}), int (card {k \<in> dom prices. priced prices name (\<and>) k}))"
proof -
  have "length (filter P keys) = card {k \<in> dom prices. P k}" for P
    using assms distinct_card [of "filter P keys"] by (simp add: set_filter)
  then show ?thesis by (simp add: price_counts_filter)
qed

text \<open>The telemetry snapshots that the routing policies see.\<close>

definition service_snapshots :: "Service \<Rightarrow> snapshots" where
  "service_snapshots s = telemetry_snapshot (svTelemetry s)"

text \<open>A latency state that shows what the latency policy would find.\<close>

definition latency_agrees ::
  "latencyRoutingPolicy \<Rightarrow> requestMode \<Rightarrow> Service \<Rightarrow> instant \<Rightarrow> string \<Rightarrow> LatencyState \<Rightarrow> bool" where
  "latency_agrees p mode s now name st \<longleftrightarrow>
     laFreshSamples st = int (length (candidate_samples p mode (service_snapshots s) now name)) \<and>
     laFreshSamples st \<le> laStoredSamples st \<and>
     (laSufficient st \<longleftrightarrow> enough p mode (service_snapshots s) now name) \<and>
     laMedianUS st = (if laSufficient st
       then Some (microseconds (candidate_median p mode (service_snapshots s) now name)) else None)"

lemma latency_state_agrees:
  assumes "0 < lpMinSamples p"
  shows "latency_agrees p nonStreamingMode s now name
      (prCompletion (provider_state s keys now (lpMinSamples p) (lpSampleMaxAge p) name))"
    and "latency_agrees p streamingMode s now name
      (prTTFC (provider_state s keys now (lpMinSamples p) (lpSampleMaxAge p) name))"
  using assms by (auto simp: latency_agrees_def provider_state_def Let_def latencyState_def enough_def
      candidate_median_def candidate_samples_def relevantLatency_def service_snapshots_def
      recentLatencySamples_def split: option.split)

lemma coherent_samples:
  "version_coherent v \<Longrightarrow> latency_part (rvPolicy v) = Some (p, percent) \<Longrightarrow> 0 < lpMinSamples p"
  by (cases "rvPolicy v") (auto simp: version_coherent_def newRoutingPolicy_def newLatencyRoutingPolicy_def Let_def
      split: if_splits option.splits)

text \<open>A provider's state that shows what admission, pricing and routing would find.\<close>

definition provider_agrees :: "Service \<Rightarrow> instant \<Rightarrow> string \<Rightarrow> ProviderState \<Rightarrow> bool" where
  "provider_agrees s now name st \<longleftrightarrow>
     prProvider st = name \<and>
     (prEligible st \<longleftrightarrow> fst (tracker_begin (svHealth s) name now) \<noteq> None) \<and>
     prPricedModels st = int (card {k \<in> dom (svPricing s). priced (svPricing s) name (\<or>) k}) \<and>
     prCompletePriceModels st = int (card {k \<in> dom (svPricing s). priced (svPricing s) name (\<and>) k}) \<and>
     (\<forall>p percent. latency_part (rvPolicy (rtCurrent (svRouting s))) = Some (p, percent) \<longrightarrow>
       latency_agrees p nonStreamingMode s now name (prCompletion st) \<and>
       latency_agrees p streamingMode s now name (prTTFC st))"

lemma provider_state_agrees:
  assumes "version_coherent (rtCurrent (svRouting s))" "distinct keys" "set keys = dom (svPricing s)"
    and "\<And>p percent. latency_part (rvPolicy (rtCurrent (svRouting s))) = Some (p, percent) \<Longrightarrow>
      minSamples = lpMinSamples p \<and> maxAge = lpSampleMaxAge p"
  shows "provider_agrees s now name (provider_state s keys now minSamples maxAge name)"
proof -
  have "prEligible (provider_state s keys now minSamples maxAge name) \<longleftrightarrow> fst (tracker_begin (svHealth s) name now) \<noteq> None"
    unfolding cb.admit_iff by (simp add: provider_state_def Let_def snapshot_eligible_iff)
  moreover have "prProvider (provider_state s keys now minSamples maxAge name) = name"
    "prPricedModels (provider_state s keys now minSamples maxAge name) =
       int (card {k \<in> dom (svPricing s). priced (svPricing s) name (\<or>) k})"
    "prCompletePriceModels (provider_state s keys now minSamples maxAge name) =
       int (card {k \<in> dom (svPricing s). priced (svPricing s) name (\<and>) k})"
    using price_counts_card [OF assms(2,3), of name] by (simp_all add: provider_state_def Let_def)
  moreover have "latency_agrees p nonStreamingMode s now name (prCompletion (provider_state s keys now minSamples maxAge name)) \<and>
      latency_agrees p streamingMode s now name (prTTFC (provider_state s keys now minSamples maxAge name))"
    if "latency_part (rvPolicy (rtCurrent (svRouting s))) = Some (p, percent)" for p percent
    using latency_state_agrees [OF coherent_samples [OF assms(1) that]] assms(4) [OF that] by simp
  ultimately show ?thesis by (simp add: provider_agrees_def)
qed

section \<open>Properties\<close>

text \<open>The operators' view agrees with the gateway. It names the published policy and every provider in
  order; a provider is shown as eligible exactly when it would be admitted at that time; its price
  counts are the numbers of its models with some and with both prices, whatever the order in which
  they are visited; and under a latency policy its sample counts, its sufficiency and its median are
  those on which the policy decides.\<close>

lemma operations_agree:
  fixes now config
  assumes "version_coherent (rtCurrent (svRouting s))"
    and "distinct keys" "set keys = dom (svPricing s)"
  defines "snap \<equiv> OperationsSnapshot_of now keys config s"
  shows "roPolicy (opRouting snap) = rsPolicy (RoutingSettings_get (svRouting s)) \<and>
    roProviderOrder (opRouting snap) = providerNames (svProviders s) \<and>
    list_all2 (provider_agrees s now) (providerNames (svProviders s)) (opProviders snap)"
proof -
  obtain routing maxAge where r: "routing_state s config = (routing, maxAge)" by fastforce
  have "roPolicy routing = rcPolicy (rvConfig (rtCurrent (svRouting s)))" "roProviderOrder routing = providerNames (svProviders s)"
    using r by (auto simp: routing_state_def Let_def split: option.splits prod.splits)
  moreover have "roMinSamples routing = lpMinSamples p \<and> maxAge = lpSampleMaxAge p"
    if "latency_part (rvPolicy (rtCurrent (svRouting s))) = Some (p, percent)" for p percent
    using r that by (auto simp: routing_state_def Let_def)
  note provider_state_agrees [OF assms(1-3) this]
  ultimately show ?thesis
    by (simp add: snap_def OperationsSnapshot_of_def r RoutingSettings_get_def settings_of_def list_all2_map2
        list.rel_refl_strong)
qed

definition watched_service :: Service where
  "watched_service =
     (case newAutoService None default_circuit
        \<lparr>rcPolicy = RoutingPolicyLatency, rcMinSamples = 1, rcSampleMaxAge = 1000, rcExplorationInterval = 10,
         rcMaxLatencyOverFastestPercent = None\<rparr>
        [\<lparr>pvName = ''openai'', pvStreaming = True\<rparr>, \<lparr>pvName = ''mock'', pvStreaming = True\<rparr>] of
        Inl _ \<Rightarrow> New_Service \<lparr>pvName = ''mock'', pvStreaming = True\<rparr> None
      | Inr s \<Rightarrow> SetPricing s [\<lparr>keyProvider = ''mock'', keyModel = ''m''\<rparr> \<mapsto>
          \<lparr>InputMicroUSDPerMillion = Some 1, OutputMicroUSDPerMillion = None\<rparr>])"

lemma operations_agree_witness:
  "list_all2 (provider_agrees watched_service 5) [''openai'', ''mock'']
     (opProviders (OperationsSnapshot_of 5 [\<lparr>keyProvider = ''mock'', keyModel = ''m''\<rparr>] zero_routing_config watched_service))"
proof -
  have "version_coherent (rtCurrent (svRouting watched_service))" "providerNames (svProviders watched_service) = [''openai'', ''mock'']"
    by (simp_all add: watched_service_def newAutoService_def newRoutingPolicy_def policy_names newLatencyRoutingPolicy_def
        build_service_def SetPricing_def newRuntimeRouting_def version_coherent_def normalizedRoutingPolicyName_def
        Let_def providerNames_def)
  moreover have "set [\<lparr>keyProvider = ''mock'', keyModel = ''m''\<rparr>] = dom (svPricing watched_service)"
    by (auto simp: watched_service_def newAutoService_def newRoutingPolicy_def policy_names newLatencyRoutingPolicy_def
        SetPricing_def ClonePriceBook_def dom_def split: if_splits)
  ultimately show ?thesis
    using operations_agree [of watched_service "[\<lparr>keyProvider = ''mock'', keyModel = ''m''\<rparr>]" 5 zero_routing_config]
    by simp
qed

end
