(* ===== verification/Admin_Api.thy ===== *)
theory Admin_Api
  imports Operations History_Reader
begin

text \<open>
  The rest of the operator surface: the overview (\<open>internal/adminapi/operations.go\<close>), the routing
  settings (\<open>routing.go\<close>) and the server that puts the handlers behind authentication (\<open>handler.go\<close>).
  The routing state changes only on an authorized replacement document, and what is read back is what
  was written.
\<close>

section \<open>The overview\<close>

record Features =
  feCache :: bool
  fePersistence :: bool
  feMetrics :: bool
  feTracing :: bool

record Overview =
  ovSnapshot :: OperationsSnapshot
  ovFeatures :: Features

definition LatencyState_json :: "LatencyState \<Rightarrow> json" where
  "LatencyState_json l = JObj
     [(''stored_samples'', json_int (laStoredSamples l)), (''fresh_samples'', json_int (laFreshSamples l)),
      (''sufficient'', JBool (laSufficient l)), (''median_us'', nullable_json json_int (laMedianUS l))]"

text \<open>A time that may be absent; a time that cannot be written fails.\<close>

definition optional_stamp :: "instant option \<Rightarrow> json option" where
  "optional_stamp t = (case t of None \<Rightarrow> Some JNull | Some i \<Rightarrow> stamp_json i)"

definition ProviderState_json :: "ProviderState \<Rightarrow> json option" where
  "ProviderState_json p =
     (case (optional_stamp (prOpenUntil p), optional_stamp (prLastSuccess p), optional_stamp (prLastFailure p)) of
        (Some until, Some success, Some failure) \<Rightarrow> Some (JObj
          [(''provider'', JStr (prProvider p)), (''circuit_state'', JStr (prCircuitState p)),
           (''open_until'', until), (''eligible'', JBool (prEligible p)),
           (''probe_in_flight'', JBool (prProbeInFlight p)), (''last_success'', success), (''last_failure'', failure),
           (''completion'', LatencyState_json (prCompletion p)), (''ttfc'', LatencyState_json (prTTFC p)),
           (''priced_models'', json_int (prPricedModels p)),
           (''complete_price_models'', json_int (prCompletePriceModels p))])
      | _ \<Rightarrow> None)"

definition RoutingState_json :: "RoutingState \<Rightarrow> json" where
  "RoutingState_json r = JObj
     [(''policy'', JStr (roPolicy r)), (''auto'', JBool (roAuto r)),
      (''provider_order'', JArr (map JStr (roProviderOrder r))), (''latency_aware'', JBool (roLatencyAware r)),
      (''min_samples'', json_int (roMinSamples r)), (''sample_max_age_us'', json_int (roSampleMaxAgeUS r)),
      (''exploration_interval'', json_int (roExplorationInterval r)),
      (''exploration_counts'', nullable_json (\<lambda>(a, b). JArr [json_int a, json_int b]) (roExplorationCounts r)),
      (''max_latency_over_fastest_percent'', nullable_json json_u64 (roMaxLatencyOverFastestPercent r))]"

definition Features_json :: "Features \<Rightarrow> json" where
  "Features_json f = JObj
     [(''cache'', JBool (feCache f)), (''persistence'', JBool (fePersistence f)),
      (''metrics'', JBool (feMetrics f)), (''tracing'', JBool (feTracing f))]"

definition Overview_json :: "Overview \<Rightarrow> json option" where
  "Overview_json v =
     (let snap = ovSnapshot v in
      case (stamp_json (opObservedAt snap), those (map ProviderState_json (opProviders snap))) of
        (Some observed, Some providers) \<Rightarrow> Some (JObj
          [(''observed_at'', observed), (''routing'', RoutingState_json (opRouting snap)),
           (''providers'', JArr providers), (''features'', Features_json (ovFeatures v))])
      | _ \<Rightarrow> None)"

definition operationsHandler :: "Overview option \<Rightarrow> admin_request \<Rightarrow> admin_reply" where
  "operationsHandler snapshot r =
     secured
       (if aqMethod r \<noteq> ''GET'' then get_refused
        else if aqQuery r \<noteq> [] then admin_writeError 400 ''invalid_query'' ''query parameters are not supported''
        else (case snapshot of
          None \<Rightarrow> admin_writeError 503 ''state_unavailable'' ''operational state unavailable''
        | Some overview \<Rightarrow> admin_writeEncoded 200 (Overview_json overview)))"

text \<open>The overview that the command serves, with the thresholds of its configuration.\<close>

definition command_overview :: "instant \<Rightarrow> Key list \<Rightarrow> Config \<Rightarrow> Service \<Rightarrow> Overview" where
  "command_overview now keys cfg s =
     \<lparr>ovSnapshot = OperationsSnapshot_of now keys
        \<lparr>rcPolicy = [], rcMinSamples = cfRoutingMinSamples cfg, rcSampleMaxAge = cfRoutingSampleMaxAge cfg,
         rcExplorationInterval = cfRoutingExplorationInterval cfg, rcMaxLatencyOverFastestPercent = None\<rparr> s,
      ovFeatures = \<lparr>feCache = cfCacheEnabled cfg, fePersistence = cfPostgresEnabled cfg,
        feMetrics = cfMetricsEnabled cfg, feTracing = cfOTelEnabled cfg\<rparr>\<rparr>"

section \<open>Routing settings\<close>

definition RoutingSettings_json :: "RoutingSettings \<Rightarrow> json" where
  "RoutingSettings_json s = JObj
     [(''policy'', JStr (rsPolicy s)), (''exploration_interval'', json_int (rsExplorationInterval s)),
      (''max_latency_over_fastest_percent'', nullable_json json_u64 (rsMaxLatencyOverFastestPercent s))]"

definition settings_fields :: "string list" where
  "settings_fields = [''policy'', ''exploration_interval'', ''max_latency_over_fastest_percent'']"

text \<open>
  \<open>routingDocument\<close>: reading the tokens of an object one by one accepts the same texts as reading it as
  one value; the keys must be the three settings, each once, and nothing may follow.
\<close>

definition routingDocument :: "bool \<Rightarrow> nat list \<Rightarrow> (string \<times> json) list option" where
  "routingDocument eof data =
     (case Decode_single eof data of
        Some (JObj fs) \<Rightarrow>
          if distinct (map fst fs) \<and> list_all (\<lambda>k. k \<in> set settings_fields) (map fst fs) \<and> length fs = 3
          then Some fs else None
      | _ \<Rightarrow> None)"

definition RoutingSettings_field :: "string \<Rightarrow> json \<Rightarrow> RoutingSettings \<Rightarrow> RoutingSettings option" where
  "RoutingSettings_field name v s =
     (if name = ''policy'' then map_option (\<lambda>p. s\<lparr>rsPolicy := p\<rparr>) (decode_string v (rsPolicy s))
      else if name = ''exploration_interval''
      then map_option (\<lambda>i. s\<lparr>rsExplorationInterval := i\<rparr>) (decode_int v (rsExplorationInterval s))
      else map_option (\<lambda>m. s\<lparr>rsMaxLatencyOverFastestPercent := m\<rparr>)
        (decode_pointer 0 decode_u64 v (rsMaxLatencyOverFastestPercent s)))"

definition zero_settings :: RoutingSettings where
  "zero_settings = \<lparr>rsPolicy = [], rsExplorationInterval = 0, rsMaxLatencyOverFastestPercent = None\<rparr>"

text \<open>The fields are marshalled with sorted keys and read into the settings.\<close>

definition decode_settings :: "(string \<times> json) list \<Rightarrow> RoutingSettings option" where
  "decode_settings fs =
     decode_members settings_fields False RoutingSettings_field
       (map (\<lambda>k. (k, the (map_of fs k))) [''exploration_interval'', ''max_latency_over_fastest_percent'', ''policy''])
       zero_settings"

definition invalid_settings :: admin_reply where
  "invalid_settings = admin_writeError 400 ''invalid_settings'' ''invalid routing settings''"

definition put_settings :: "http_body \<Rightarrow> runtimeRouting \<Rightarrow> admin_reply \<times> runtimeRouting" where
  "put_settings body st =
     (case routingDocument (length (bodyBytes body) \<le> 1024 \<and> bodyError body = None)
             (bytes_of (take 1024 (bodyBytes body))) of
        None \<Rightarrow> (invalid_settings, st)
      | Some fs \<Rightarrow> (case decode_settings fs of
          None \<Rightarrow> (invalid_settings, st)
        | Some settings \<Rightarrow> (case UpdateRoutingSettings st settings of
            (Inl err, st') \<Rightarrow> (invalid_settings, st')
          | (Inr result, st') \<Rightarrow> (admin_writeJSON 200 (RoutingSettings_json result), st'))))"

definition no_store :: "admin_reply \<Rightarrow> admin_reply" where
  "no_store reply = reply\<lparr>apHeader := (''Cache-Control'', ''no-store'') # apHeader reply\<rparr>"

definition routingHandler :: "bool \<Rightarrow> admin_request \<Rightarrow> runtimeRouting \<Rightarrow> admin_reply \<times> runtimeRouting" where
  "routingHandler authorized r st =
     (case
        (if aqQuery r \<noteq> [] then (admin_writeError 400 ''invalid_request'' ''query parameters are not supported'', st)
         else if aqMethod r = ''GET'' then (admin_writeJSON 200 (RoutingSettings_json (RoutingSettings_get st)), st)
         else if aqMethod r = ''PUT'' then
           (if \<not> authorized then (admin_writeError 403 ''forbidden'' ''request not permitted'', st)
            else put_settings (aqBody r) st)
         else ((admin_writeError 405 ''method_not_allowed'' ''method not allowed'')
                 \<lparr>apHeader := [(''Allow'', ''GET, PUT''), (''Content-Type'', ''application/json'')]\<rparr>, st)) of
        (reply, st') \<Rightarrow> (no_store reply, st'))"

section \<open>The server\<close>

text \<open>
  The handlers behind authentication, on a path that the server has cleaned. The headers that
  authentication has set are set again by the handlers.
\<close>

definition routing_path :: string where
  "routing_path = ''/admin/v1/routing/config''"

definition reset_headers :: "admin_reply \<Rightarrow> admin_reply" where
  "reset_headers reply = secured (reply\<lparr>apHeader :=
     filter (\<lambda>(k, v). k \<noteq> ''Cache-Control'' \<and> k \<noteq> ''X-Content-Type-Options'') (apHeader reply)\<rparr>)"

definition is_benchmark_path :: "string \<Rightarrow> bool" where
  "is_benchmark_path path \<longleftrightarrow>
     (let prefix = ''/admin/v1/benchmarks''; rest = drop (length prefix) path in
      HasPrefix path prefix \<and> (rest = [] \<or> hd rest = CHR ''/'' \<and> tl rest \<noteq> [] \<and> CHR ''/'' \<notin> set (tl rest)))"

definition adminMux ::
  "(admin_request \<Rightarrow> admin_reply) \<Rightarrow> Overview option \<Rightarrow> history_reader option \<Rightarrow> bool \<Rightarrow> admin_request \<Rightarrow> runtimeRouting
   \<Rightarrow> admin_reply \<times> runtimeRouting" where
  "adminMux benchmarks overview reader authorized r st =
     (if is_benchmark_path (aqPath r) then (benchmarks r, st)
      else if aqPath r = ''/admin/v1/overview'' then (operationsHandler overview r, st)
      else if aqPath r = routing_path then routingHandler authorized r st
      else (historyHandler reader r, st))"

definition adminServer ::
  "(admin_request \<Rightarrow> admin_reply) \<Rightarrow> Overview option \<Rightarrow> history_reader option \<Rightarrow> instant \<Rightarrow> instant \<Rightarrow> nat list option
   \<Rightarrow> admin_request \<Rightarrow> sessions option \<times> runtimeRouting \<Rightarrow> admin_reply \<times> sessions option \<times> runtimeRouting" where
  "adminServer benchmarks overview reader now1 now2 random r state =
     (case state of (store, st) \<Rightarrow>
      (case authHandler now1 now2 random r store of
         (Replied reply, store') \<Rightarrow> (reply, store', st)
       | (Forwarded authorized, store') \<Rightarrow>
           (case adminMux benchmarks overview reader authorized r st of
              (reply, st') \<Rightarrow> (reset_headers reply, store', st'))))"

section \<open>Facts on settings\<close>

lemma UpdateRoutingSettings_result:
  "UpdateRoutingSettings st s = (Inl err, st') \<Longrightarrow> st' = st"
  "UpdateRoutingSettings st s = (Inr r, st') \<Longrightarrow> r = RoutingSettings_get st'"
  by (auto simp: UpdateRoutingSettings_def Let_def publish_def RoutingSettings_get_def simp del: insert_iff
      split: if_splits sum.splits)

lemma put_settings_cases:
  assumes "put_settings body st = (reply, st')"
  obtains (refused) "st' = st" "reply = invalid_settings"
  | (accepted) settings where "UpdateRoutingSettings st settings = (Inr (RoutingSettings_get st'), st')"
      "reply = admin_writeJSON 200 (RoutingSettings_json (RoutingSettings_get st'))"
proof (cases "st' = st \<and> reply = invalid_settings")
  case True
  then show ?thesis using refused by blast
next
  case False
  then obtain fs settings where "decode_settings fs = Some settings"
    "(case UpdateRoutingSettings st settings of
        (Inl err, st') \<Rightarrow> (invalid_settings, st')
      | (Inr result, st') \<Rightarrow> (admin_writeJSON 200 (RoutingSettings_json result), st')) = (reply, st')"
    using assms by (auto simp: put_settings_def split: option.splits)
  then obtain result where u: "UpdateRoutingSettings st settings = (Inr result, st')"
    "reply = admin_writeJSON 200 (RoutingSettings_json result)"
    using False UpdateRoutingSettings_result(1) [of st settings] by (auto split: prod.splits sum.splits)
  with UpdateRoutingSettings_result(2) [OF u(1)] show ?thesis using accepted by simp
qed

lemma routingHandler_changes:
  assumes "routingHandler authorized r st = (reply, st')" "st' \<noteq> st"
  obtains settings where "authorized" "aqMethod r = ''PUT''" "aqQuery r = []"
    "UpdateRoutingSettings st settings = (Inr (RoutingSettings_get st'), st')"
    "apStatus reply = 200" "apBody reply = Some (RoutingSettings_json (RoutingSettings_get st'))"
proof -
  obtain reply0 where p: "authorized" "aqMethod r = ''PUT''" "aqQuery r = []" "put_settings (aqBody r) st = (reply0, st')"
    "reply = no_store reply0"
    using assms by (auto simp: routingHandler_def split: if_splits prod.splits)
  from p(4) show ?thesis
  proof (cases rule: put_settings_cases)
    case (accepted settings)
    with p that show ?thesis by (simp add: no_store_def admin_writeJSON_def)
  qed (use assms(2) in simp)
qed

lemma decode_settings_document:
  assumes "in_i64 (rsExplorationInterval s)"
  shows "decode_settings [(''policy'', JStr (rsPolicy s)), (''exploration_interval'', json_int (rsExplorationInterval s)),
      (''max_latency_over_fastest_percent'', nullable_json json_u64 (rsMaxLatencyOverFastestPercent s))] = Some s"
proof -
  have "decode_pointer 0 decode_u64 (nullable_json json_u64 m) None = Some m" for m
    using decode_json_u64 by (cases m) (simp_all add: nullable_json_def decode_pointer_def json_u64_def)
  then show ?thesis
    using assms by (simp add: decode_settings_def settings_fields_def struct_field_def RoutingSettings_field_def zero_settings_def)
qed

lemma settings_json_ok:
  "int_literals (RoutingSettings_json s)" "json_depth (RoutingSettings_json s) \<le> maxNestingDepth"
  "valid_utf8 (rsPolicy s) \<Longrightarrow> sanitize (RoutingSettings_json s) = RoutingSettings_json s"
  by (auto simp: RoutingSettings_json_def nullable_json_def maxNestingDepth_def valid_utf8_def sanitize_ascii split: option.split)

text \<open>A document that was written from settings is read as those settings.\<close>

lemma put_settings_document:
  assumes "valid_utf8 (rsPolicy s)" "in_i64 (rsExplorationInterval s)"
    and "body = \<lparr>bodyBytes = Encoder_Encode (RoutingSettings_json s), bodyError = None\<rparr>" "length (bodyBytes body) \<le> 1024"
  shows "put_settings body st =
    (case UpdateRoutingSettings st s of
       (Inl err, st') \<Rightarrow> (invalid_settings, st')
     | (Inr result, st') \<Rightarrow> (admin_writeJSON 200 (RoutingSettings_json result), st'))"
proof -
  have "Decode_single True (bytes_of (bodyBytes body)) = Some (RoutingSettings_json s)"
    using Decode_Encode [OF settings_json_ok(1,2)] settings_json_ok(3) [OF assms(1)] by (simp add: assms(3))
  then have "routingDocument True (bytes_of (bodyBytes body)) = Some [(''policy'', JStr (rsPolicy s)),
      (''exploration_interval'', json_int (rsExplorationInterval s)),
      (''max_latency_over_fastest_percent'', nullable_json json_u64 (rsMaxLatencyOverFastestPercent s))]"
    by (simp add: routingDocument_def RoutingSettings_json_def settings_fields_def)
  then show ?thesis
    using assms(3,4) decode_settings_document [OF assms(2)] by (simp add: put_settings_def)
qed

section \<open>Properties\<close>

text \<open>C9: Routing settings change only on authority. In every run of the operator surface a request changes
  the routing state only when it carries the token of a session that is open, comes from the
  configured origin and replaces the settings with PUT; the change is then an accepted update, and the
  reply shows the settings now in force. Without authentication configured no request changes them.\<close>

theorem routing_changes_authorized:
  assumes "store = None \<or> store = Some s \<and> auth_run config s log t"
    and "adminServer benchmarks overview reader now1 now2 random r (store, st) = (reply, store', st')" "st' \<noteq> st"
  shows "store = Some s \<and>
    (\<exists>key expiry. cookieKey r = Some key \<and> session_open config log key expiry \<and> now1 < expiry) \<and>
    trustedJSON r (acOrigin config) \<and> aqPath r = routing_path \<and> aqMethod r = ''PUT'' \<and>
    (\<exists>settings. UpdateRoutingSettings st settings = (Inr (RoutingSettings_get st'), st')) \<and>
    apStatus reply = 200 \<and> apBody reply = Some (RoutingSettings_json (RoutingSettings_get st'))"
proof -
  obtain authorized reply0 where f: "authHandler now1 now2 random r store = (Forwarded authorized, store')"
    "adminMux benchmarks overview reader authorized r st = (reply0, st')" "reply = reset_headers reply0"
    using assms(2,3) by (auto simp: adminServer_def split: prod.splits auth_result.splits)
  have path: "aqPath r = routing_path" "routingHandler authorized r st = (reply0, st')"
    using f(2) assms(3) by (auto simp: adminMux_def split: if_splits)
  from path(2) assms(3) obtain settings where c: "authorized" "aqMethod r = ''PUT''"
    "UpdateRoutingSettings st settings = (Inr (RoutingSettings_get st'), st')"
    "apStatus reply0 = 200" "apBody reply0 = Some (RoutingSettings_json (RoutingSettings_get st'))"
    by (rule routingHandler_changes)
  show ?thesis
  proof (cases store)
    case None
    with f(1) c(1,2) path(1) show ?thesis
      by (auto simp: authHandler_def auth_dispatch_def forward_def routing_path_def session_path_def login_path_def logout_path_def
          split: if_splits)
  next
    case (Some s0)
    with assms(1) have run: "s0 = s" "auth_run config s log t" by auto
    obtain s' where "store' = Some s'"
      using f(1) Some by (auto simp: authHandler_def auth_dispatch_def split: if_splits prod.splits auth_result.splits)
    with forwarded_authenticated [OF run(2)] f(1) Some run(1) c(1) have
      "(\<exists>key expiry. cookieKey r = Some key \<and> session_open config log key expiry \<and> now1 < expiry) \<and> trustedJSON r (acOrigin config)"
      by blast
    with Some run(1) c path(1) show ?thesis by (auto simp: f(3) reset_headers_def secured_def)
  qed
qed

section \<open>Witnesses\<close>

text \<open>An operator with the session of the demonstration run who replaces the settings.\<close>

definition demo_settings :: RoutingSettings where
  "demo_settings = \<lparr>rsPolicy = ''cost'', rsExplorationInterval = 5, rsMaxLatencyOverFastestPercent = None\<rparr>"

definition demo_put :: admin_request where
  "demo_put = \<lparr>aqMethod = ''PUT'', aqPath = routing_path, aqQuery = [], aqContentType = ''application/json'',
     aqOrigins = [''o''], aqFetchSite = [], aqCookies = [RawURL_Encode demo_token],
     aqBody = \<lparr>bodyBytes = Encoder_Encode (RoutingSettings_json demo_settings), bodyError = None\<rparr>\<rparr>"

definition demo_routing :: runtimeRouting where
  "demo_routing = newRuntimeRouting zero_routing_config deterministicRoutingPolicy False"

lemma demo_update:
  obtains st' where "UpdateRoutingSettings demo_routing demo_settings = (Inr (RoutingSettings_get st'), st')"
    "RoutingSettings_get st' = demo_settings" "st' \<noteq> demo_routing"
proof -
  obtain result st' where u: "UpdateRoutingSettings demo_routing demo_settings = (Inr result, st')"
      "result = demo_settings"
    by (simp add: UpdateRoutingSettings_def settings_in_bounds_def demo_settings_def policy_names newRoutingPolicy_def
        settings_of_def)
  moreover have "RoutingSettings_get demo_routing \<noteq> demo_settings"
    by (simp add: demo_routing_def newRuntimeRouting_def RoutingSettings_get_def settings_of_def demo_settings_def
        zero_routing_config_def normalizedRoutingPolicyName_def policy_names Let_def)
  ultimately show ?thesis using that UpdateRoutingSettings_result(2) [OF u(1)] by metis
qed

lemma demo_put_accepted:
  obtains reply st' where
    "adminServer (\<lambda>_. unavailable_reply) None None 3 3 None demo_put (Some demo_sessions, demo_routing) =
       (reply, Some demo_sessions, st')"
    "RoutingSettings_get st' = demo_settings" "st' \<noteq> demo_routing"
proof -
  obtain st' where u: "UpdateRoutingSettings demo_routing demo_settings = (Inr (RoutingSettings_get st'), st')"
    "RoutingSettings_get st' = demo_settings" "st' \<noteq> demo_routing" by (rule demo_update)
  have "length (Encoder_Encode (RoutingSettings_json demo_settings)) \<le> 1024"
    by (simp add: demo_settings_def RoutingSettings_json_def nullable_json_def json_int_def) code_simp
  then have put: "put_settings (aqBody demo_put) demo_routing =
      (admin_writeJSON 200 (RoutingSettings_json demo_settings), st')"
    using put_settings_document [of demo_settings "aqBody demo_put" demo_routing] u
    by (simp add: demo_put_def demo_settings_def valid_utf8_def sanitize_ascii in_i64_def MinInt64_def MaxInt64_def)
  have "authHandler 3 3 None demo_put (Some demo_sessions) = (Forwarded True, Some demo_sessions)"
    by (simp add: authHandler_def auth_dispatch_def demo_valid demo_put_def session_path_def login_path_def
        logout_path_def forward_def routing_path_def demo_session trustedJSON_def ParseMediaType_json)
  moreover have "\<not> is_benchmark_path routing_path" by (simp add: is_benchmark_path_def routing_path_def HasPrefix_def Let_def)
  moreover have "routing_path \<noteq> ''/admin/v1/overview''" by (simp add: routing_path_def)
  moreover have "aqPath demo_put = routing_path" "aqMethod demo_put = ''PUT''" "aqQuery demo_put = []"
    by (simp_all add: demo_put_def)
  ultimately show ?thesis
    using that u put by (simp add: adminServer_def adminMux_def routingHandler_def)
qed

theorem routing_changes_authorized_witness:
  "\<exists>log st' reply. auth_run demo_auth demo_sessions log 2 \<and> RoutingSettings_get st' = demo_settings \<and>
     adminServer (\<lambda>_. unavailable_reply) None None 3 3 None demo_put (Some demo_sessions, demo_routing) =
       (reply, Some demo_sessions, st') \<and>
     apBody reply = Some (RoutingSettings_json demo_settings) \<and>
     (\<exists>key expiry. cookieKey demo_put = Some key \<and> session_open demo_auth log key expiry \<and> 3 < expiry)"
proof -
  obtain log where log: "auth_run demo_auth demo_sessions log 2" using demo_run by blast
  obtain reply st' where r: "adminServer (\<lambda>_. unavailable_reply) None None 3 3 None demo_put (Some demo_sessions, demo_routing) =
      (reply, Some demo_sessions, st')" "RoutingSettings_get st' = demo_settings" "st' \<noteq> demo_routing"
    by (rule demo_put_accepted)
  from routing_changes_authorized [OF disjI2 [OF conjI [OF refl log]] r(1,3)] log r show ?thesis by auto
qed

end
