(* ===== verification/Bench_Scenario.thy ===== *)
theory Bench_Scenario
  imports Configuration
begin

text \<open>
  Benchmark scenarios: their data and validation (\<open>internal/benchmark/scenario.go\<close>) and the fixtures
  they are read from (\<open>fixture.go\<close>). A Go map is an association list with distinct keys; where the code
  ranges over a map, the order of the list stands for the order of the iteration, which decides only
  which of several errors is reported. The labels in front of the error messages are left out, and
  \<open>time.ParseDuration\<close> is the function of \<open>parsers\<close>, as for the configuration.
\<close>

section \<open>Scenarios\<close>

definition ModeNonStreaming :: string where
  "ModeNonStreaming = ''non_streaming''"

definition ModeStreaming :: string where
  "ModeStreaming = ''streaming''"

definition StateCold :: string where
  "StateCold = ''cold''"

definition StateWarm :: string where
  "StateWarm = ''warm''"

definition FailureBeforeCommit :: string where
  "FailureBeforeCommit = ''before_commit''"

definition FailureAfterCommit :: string where
  "FailureAfterCommit = ''after_commit''"

record ProviderSpec =
  spName :: string
  spModel :: string
  spRates :: Rates

record ProviderCondition =
  pcCompletionLatency :: duration
  pcTTFC :: duration
  pcStreamDuration :: duration
  pcErrorKind :: string
  pcCanceled :: bool
  pcStreamFailure :: string
  pcUsage :: "Usage option"

record bench_request =
  brID :: string
  brConditions :: "(string \<times> ProviderCondition) list"

record Scenario =
  scVersion :: int
  scName :: string
  scMode :: string
  scProviders :: "ProviderSpec list"
  scWarmup :: "bench_request list"
  scRequests :: "bench_request list"
  scInterRequestGap :: duration
  scCircuit :: CircuitConfig
  scRouting :: RoutingConfig

datatype condition_error =
    NegativeDuration
  | CanceledWithError
  | UnsupportedErrorKind string
  | UnexpectedFailurePoint
  | DurationBelowTTFC
  | FailurePointRequired
  | FailurePointOnSuccess
  | UnsupportedFailurePoint string
  | UnknownOutcome string
  | StreamingFields
  | CompletionLatencyField
  | DurationRequired string
  | DurationInvalid string bool
  | TTFCBeforeCommit
  | TokensOutOfRange

datatype scenario_error =
    VersionNotOne
  | NameRequired
  | InvalidMode
  | ProvidersRequired
  | RequestsRequired
  | NegativeGap
  | ProviderIncomplete
  | ProviderDuplicate
  | RequestIDRequired
  | RequestIDDuplicate
  | LacksProvider string string
  | ConditionRefused string string condition_error
  | UnknownProvider string string

section \<open>Validation\<close>

text \<open>A loop that returns the first error.\<close>

fun find_error :: "('a \<Rightarrow> 'e option) \<Rightarrow> 'a list \<Rightarrow> 'e option" where
  "find_error f [] = None"
| "find_error f (x # xs) = (case f x of Some e \<Rightarrow> Some e | None \<Rightarrow> find_error f xs)"

definition declared_kinds :: "string list" where
  "declared_kinds = [''timeout'', ''unavailable'', ''rate_limited'', ''invalid_request'', ''internal'']"

definition validErrorKind :: "string \<Rightarrow> bool" where
  "validErrorKind kind \<longleftrightarrow> kind \<in> set declared_kinds"

definition validateCondition :: "string \<Rightarrow> ProviderCondition \<Rightarrow> condition_error option" where
  "validateCondition mode condition =
     (let failed = pcCanceled condition \<or> pcErrorKind condition \<noteq> [] in
      if pcCompletionLatency condition < 0 \<or> pcTTFC condition < 0 \<or> pcStreamDuration condition < 0
      then Some NegativeDuration
      else if pcCanceled condition \<and> pcErrorKind condition \<noteq> [] then Some CanceledWithError
      else if pcErrorKind condition \<noteq> [] \<and> \<not> validErrorKind (pcErrorKind condition)
      then Some (UnsupportedErrorKind (pcErrorKind condition))
      else if mode = ModeNonStreaming
      then (if pcStreamFailure condition \<noteq> [] then Some UnexpectedFailurePoint else None)
      else if pcStreamDuration condition < pcTTFC condition then Some DurationBelowTTFC
      else if failed \<and> pcStreamFailure condition = [] then Some FailurePointRequired
      else if \<not> failed \<and> pcStreamFailure condition \<noteq> [] then Some FailurePointOnSuccess
      else if pcStreamFailure condition \<noteq> [] \<and> pcStreamFailure condition \<noteq> FailureBeforeCommit \<and>
        pcStreamFailure condition \<noteq> FailureAfterCommit
      then Some (UnsupportedFailurePoint (pcStreamFailure condition))
      else None)"

fun specs_error :: "string list \<Rightarrow> ProviderSpec list \<Rightarrow> scenario_error option" where
  "specs_error seen [] = None"
| "specs_error seen (spec # specs) =
     (if spName spec = [] \<or> spModel spec = [] then Some ProviderIncomplete
      else if spName spec \<in> set seen then Some ProviderDuplicate
      else specs_error (spName spec # seen) specs)"

definition conditions_error :: "string \<Rightarrow> string list \<Rightarrow> bench_request \<Rightarrow> scenario_error option" where
  "conditions_error mode providers request =
     (case find_error (\<lambda>providerName. case map_of (brConditions request) providerName of
             None \<Rightarrow> Some (LacksProvider (brID request) providerName)
           | Some condition \<Rightarrow>
               map_option (ConditionRefused (brID request) providerName) (validateCondition mode condition))
           providers of
        Some e \<Rightarrow> Some e
      | None \<Rightarrow> find_error (\<lambda>providerName.
          if providerName \<in> set providers then None else Some (UnknownProvider (brID request) providerName))
          (map fst (brConditions request)))"

fun requests_error :: "string \<Rightarrow> string list \<Rightarrow> string list \<Rightarrow> bench_request list \<Rightarrow> scenario_error option" where
  "requests_error mode providers ids [] = None"
| "requests_error mode providers ids (request # requests) =
     (if brID request = [] then Some RequestIDRequired
      else if brID request \<in> set ids then Some RequestIDDuplicate
      else (case conditions_error mode providers request of
              Some e \<Rightarrow> Some e
            | None \<Rightarrow> requests_error mode providers (brID request # ids) requests))"

definition Scenario_Validate :: "Scenario \<Rightarrow> scenario_error option" where
  "Scenario_Validate s =
     (if scVersion s \<noteq> 1 then Some VersionNotOne
      else if scName s = [] then Some NameRequired
      else if scMode s \<noteq> ModeNonStreaming \<and> scMode s \<noteq> ModeStreaming then Some InvalidMode
      else if scProviders s = [] then Some ProvidersRequired
      else if scRequests s = [] then Some RequestsRequired
      else if scInterRequestGap s < 0 then Some NegativeGap
      else (case specs_error [] (scProviders s) of
              Some e \<Rightarrow> Some e
            | None \<Rightarrow> requests_error (scMode s) (map spName (scProviders s)) [] (scWarmup s @ scRequests s)))"

section \<open>Fixtures\<close>

definition MaxFixtureSize :: nat where
  "MaxFixtureSize = 2 ^ 20"

definition BuiltInScenarioNames :: "string list" where
  "BuiltInScenarioNames = [''stable'', ''degradation'', ''rate_limit'', ''streaming'', ''cold_start'']"

record providerFixture =
  pfName :: string
  pfModel :: string
  pfInputPriceUSDPerMillion :: "string option"
  pfOutputPriceUSDPerMillion :: "string option"

record conditionFixture =
  cnOutcome :: string
  cnCompletionLatency :: "string option"
  cnTTFC :: "string option"
  cnStreamDuration :: "string option"
  cnStreamFailure :: string
  cnInputTokens :: "u64 option"
  cnOutputTokens :: "u64 option"

record requestFixture =
  rfID :: string
  rfProviders :: "(string \<times> conditionFixture) list"

record circuitFixture =
  cxFailureThreshold :: int
  cxOpenDuration :: "string option"

record routingFixture =
  rxMinSamples :: int
  rxSampleMaxAge :: "string option"
  rxExplorationInterval :: int
  rxMaxLatencyOverFastestPercent :: "u64 option"

record fixtureV1 =
  fxVersion :: int
  fxName :: string
  fxMode :: string
  fxProviders :: "providerFixture list"
  fxWarmup :: "requestFixture list"
  fxRequests :: "requestFixture list"
  fxInterRequestGap :: "string option"
  fxCircuit :: circuitFixture
  fxRouting :: routingFixture

subsection \<open>Decoding\<close>

text \<open>A map: \<open>null\<close> is nil; every member is decoded into a new zero value, and a later one with the
  same key replaces it.\<close>

fun decode_entries ::
  "'a \<Rightarrow> (json \<Rightarrow> 'a \<Rightarrow> 'a option) \<Rightarrow> (string \<times> json) list \<Rightarrow> (string \<times> 'a) list \<Rightarrow> (string \<times> 'a) list option" where
  "decode_entries zero dec [] m = Some m"
| "decode_entries zero dec ((key, v) # kvs) m =
     (case dec v zero of None \<Rightarrow> None | Some a \<Rightarrow> decode_entries zero dec kvs (AList.update key a m))"

definition decode_map ::
  "'a \<Rightarrow> (json \<Rightarrow> 'a \<Rightarrow> 'a option) \<Rightarrow> json \<Rightarrow> (string \<times> 'a) list \<Rightarrow> (string \<times> 'a) list option" where
  "decode_map zero dec v old =
     (case v of JNull \<Rightarrow> Some [] | JObj kvs \<Rightarrow> decode_entries zero dec kvs old | _ \<Rightarrow> None)"

definition decode_text :: "json \<Rightarrow> string option \<Rightarrow> string option option" where
  "decode_text = decode_pointer [] decode_string"

definition decode_count :: "json \<Rightarrow> u64 option \<Rightarrow> u64 option option" where
  "decode_count = decode_pointer 0 decode_u64"

definition provider_field :: "string \<Rightarrow> json \<Rightarrow> providerFixture \<Rightarrow> providerFixture option" where
  "provider_field name v f =
     (if name = ''name'' then map_option (\<lambda>x. f\<lparr>pfName := x\<rparr>) (decode_string v (pfName f))
      else if name = ''model'' then map_option (\<lambda>x. f\<lparr>pfModel := x\<rparr>) (decode_string v (pfModel f))
      else if name = ''input_price_usd_per_million''
      then map_option (\<lambda>x. f\<lparr>pfInputPriceUSDPerMillion := x\<rparr>) (decode_text v (pfInputPriceUSDPerMillion f))
      else map_option (\<lambda>x. f\<lparr>pfOutputPriceUSDPerMillion := x\<rparr>) (decode_text v (pfOutputPriceUSDPerMillion f)))"

definition decode_provider :: "json \<Rightarrow> providerFixture \<Rightarrow> providerFixture option" where
  "decode_provider = decode_struct
     [''name'', ''model'', ''input_price_usd_per_million'', ''output_price_usd_per_million''] True provider_field"

definition zero_provider :: providerFixture where
  "zero_provider = \<lparr>pfName = [], pfModel = [], pfInputPriceUSDPerMillion = None, pfOutputPriceUSDPerMillion = None\<rparr>"

definition condition_field :: "string \<Rightarrow> json \<Rightarrow> conditionFixture \<Rightarrow> conditionFixture option" where
  "condition_field name v f =
     (if name = ''outcome'' then map_option (\<lambda>x. f\<lparr>cnOutcome := x\<rparr>) (decode_string v (cnOutcome f))
      else if name = ''completion_latency''
      then map_option (\<lambda>x. f\<lparr>cnCompletionLatency := x\<rparr>) (decode_text v (cnCompletionLatency f))
      else if name = ''ttfc'' then map_option (\<lambda>x. f\<lparr>cnTTFC := x\<rparr>) (decode_text v (cnTTFC f))
      else if name = ''stream_duration''
      then map_option (\<lambda>x. f\<lparr>cnStreamDuration := x\<rparr>) (decode_text v (cnStreamDuration f))
      else if name = ''stream_failure_point''
      then map_option (\<lambda>x. f\<lparr>cnStreamFailure := x\<rparr>) (decode_string v (cnStreamFailure f))
      else if name = ''input_tokens''
      then map_option (\<lambda>x. f\<lparr>cnInputTokens := x\<rparr>) (decode_count v (cnInputTokens f))
      else map_option (\<lambda>x. f\<lparr>cnOutputTokens := x\<rparr>) (decode_count v (cnOutputTokens f)))"

definition decode_condition :: "json \<Rightarrow> conditionFixture \<Rightarrow> conditionFixture option" where
  "decode_condition = decode_struct
     [''outcome'', ''completion_latency'', ''ttfc'', ''stream_duration'', ''stream_failure_point'',
      ''input_tokens'', ''output_tokens''] True condition_field"

definition zero_condition :: conditionFixture where
  "zero_condition = \<lparr>cnOutcome = [], cnCompletionLatency = None, cnTTFC = None, cnStreamDuration = None,
     cnStreamFailure = [], cnInputTokens = None, cnOutputTokens = None\<rparr>"

definition request_field :: "string \<Rightarrow> json \<Rightarrow> requestFixture \<Rightarrow> requestFixture option" where
  "request_field name v f =
     (if name = ''id'' then map_option (\<lambda>x. f\<lparr>rfID := x\<rparr>) (decode_string v (rfID f))
      else map_option (\<lambda>x. f\<lparr>rfProviders := x\<rparr>) (decode_map zero_condition decode_condition v (rfProviders f)))"

definition decode_request :: "json \<Rightarrow> requestFixture \<Rightarrow> requestFixture option" where
  "decode_request = decode_struct [''id'', ''providers''] True request_field"

definition zero_request_fixture :: requestFixture where
  "zero_request_fixture = \<lparr>rfID = [], rfProviders = []\<rparr>"

definition circuit_field :: "string \<Rightarrow> json \<Rightarrow> circuitFixture \<Rightarrow> circuitFixture option" where
  "circuit_field name v f =
     (if name = ''failure_threshold''
      then map_option (\<lambda>x. f\<lparr>cxFailureThreshold := x\<rparr>) (decode_int v (cxFailureThreshold f))
      else map_option (\<lambda>x. f\<lparr>cxOpenDuration := x\<rparr>) (decode_text v (cxOpenDuration f)))"

definition decode_circuit :: "json \<Rightarrow> circuitFixture \<Rightarrow> circuitFixture option" where
  "decode_circuit = decode_struct [''failure_threshold'', ''open_duration''] True circuit_field"

definition routing_field :: "string \<Rightarrow> json \<Rightarrow> routingFixture \<Rightarrow> routingFixture option" where
  "routing_field name v f =
     (if name = ''min_samples'' then map_option (\<lambda>x. f\<lparr>rxMinSamples := x\<rparr>) (decode_int v (rxMinSamples f))
      else if name = ''sample_max_age''
      then map_option (\<lambda>x. f\<lparr>rxSampleMaxAge := x\<rparr>) (decode_text v (rxSampleMaxAge f))
      else if name = ''exploration_interval''
      then map_option (\<lambda>x. f\<lparr>rxExplorationInterval := x\<rparr>) (decode_int v (rxExplorationInterval f))
      else map_option (\<lambda>x. f\<lparr>rxMaxLatencyOverFastestPercent := x\<rparr>)
        (decode_count v (rxMaxLatencyOverFastestPercent f)))"

definition decode_routing :: "json \<Rightarrow> routingFixture \<Rightarrow> routingFixture option" where
  "decode_routing = decode_struct
     [''min_samples'', ''sample_max_age'', ''exploration_interval'', ''max_latency_over_fastest_percent'']
     True routing_field"

definition fixture_field :: "string \<Rightarrow> json \<Rightarrow> fixtureV1 \<Rightarrow> fixtureV1 option" where
  "fixture_field name v f =
     (if name = ''version'' then map_option (\<lambda>x. f\<lparr>fxVersion := x\<rparr>) (decode_int v (fxVersion f))
      else if name = ''name'' then map_option (\<lambda>x. f\<lparr>fxName := x\<rparr>) (decode_string v (fxName f))
      else if name = ''mode'' then map_option (\<lambda>x. f\<lparr>fxMode := x\<rparr>) (decode_string v (fxMode f))
      else if name = ''providers''
      then map_option (\<lambda>x. f\<lparr>fxProviders := x\<rparr>) (decode_slice zero_provider decode_provider v (fxProviders f))
      else if name = ''warmup''
      then map_option (\<lambda>x. f\<lparr>fxWarmup := x\<rparr>) (decode_slice zero_request_fixture decode_request v (fxWarmup f))
      else if name = ''requests''
      then map_option (\<lambda>x. f\<lparr>fxRequests := x\<rparr>) (decode_slice zero_request_fixture decode_request v (fxRequests f))
      else if name = ''inter_request_gap''
      then map_option (\<lambda>x. f\<lparr>fxInterRequestGap := x\<rparr>) (decode_text v (fxInterRequestGap f))
      else if name = ''circuit'' then map_option (\<lambda>x. f\<lparr>fxCircuit := x\<rparr>) (decode_circuit v (fxCircuit f))
      else map_option (\<lambda>x. f\<lparr>fxRouting := x\<rparr>) (decode_routing v (fxRouting f)))"

definition decode_fixture :: "json \<Rightarrow> fixtureV1 \<Rightarrow> fixtureV1 option" where
  "decode_fixture = decode_struct
     [''version'', ''name'', ''mode'', ''providers'', ''warmup'', ''requests'', ''inter_request_gap'',
      ''circuit'', ''routing''] True fixture_field"

definition zero_fixture :: fixtureV1 where
  "zero_fixture = \<lparr>fxVersion = 0, fxName = [], fxMode = [], fxProviders = [], fxWarmup = [], fxRequests = [],
     fxInterRequestGap = None, fxCircuit = \<lparr>cxFailureThreshold = 0, cxOpenDuration = None\<rparr>,
     fxRouting = \<lparr>rxMinSamples = 0, rxSampleMaxAge = None, rxExplorationInterval = 0,
       rxMaxLatencyOverFastestPercent = None\<rparr>\<rparr>"

subsection \<open>Conversion\<close>

definition requiredDuration :: "parsers \<Rightarrow> string \<Rightarrow> string option \<Rightarrow> bool \<Rightarrow> condition_error + duration" where
  "requiredDuration ps field value' allowZero =
     (case value' of
        None \<Rightarrow> Inl (DurationRequired field)
      | Some text' \<Rightarrow>
          if TrimSpace text' = [] then Inl (DurationRequired field)
          else (case psDuration ps text' of
                  None \<Rightarrow> Inl (DurationInvalid field allowZero)
                | Some d \<Rightarrow> if d < 0 \<or> \<not> allowZero \<and> d = 0 then Inl (DurationInvalid field allowZero) else Inr d))"

definition outcome_condition :: "conditionFixture \<Rightarrow> condition_error + ProviderCondition" where
  "outcome_condition f =
     (let condition = \<lparr>pcCompletionLatency = 0, pcTTFC = 0, pcStreamDuration = 0, pcErrorKind = [],
            pcCanceled = False, pcStreamFailure = cnStreamFailure f, pcUsage = None\<rparr>
      in if cnOutcome f = ''success'' then Inr condition
         else if cnOutcome f = ''cancellation'' then Inr (condition\<lparr>pcCanceled := True\<rparr>)
         else if cnOutcome f \<in> set declared_kinds then Inr (condition\<lparr>pcErrorKind := cnOutcome f\<rparr>)
         else Inl (UnknownOutcome (cnOutcome f)))"

definition condition_times ::
  "parsers \<Rightarrow> string \<Rightarrow> conditionFixture \<Rightarrow> ProviderCondition \<Rightarrow> condition_error + ProviderCondition" where
  "condition_times ps mode f condition =
     (if mode = ModeNonStreaming
      then if cnTTFC f \<noteq> None \<or> cnStreamDuration f \<noteq> None \<or> cnStreamFailure f \<noteq> [] then Inl StreamingFields
        else (case requiredDuration ps ''completion_latency'' (cnCompletionLatency f) True of
                Inl e \<Rightarrow> Inl e | Inr latency \<Rightarrow> Inr (condition\<lparr>pcCompletionLatency := latency\<rparr>))
      else if cnCompletionLatency f \<noteq> None then Inl CompletionLatencyField
      else (case requiredDuration ps ''stream_duration'' (cnStreamDuration f) True of
              Inl e \<Rightarrow> Inl e
            | Inr d \<Rightarrow>
                if cnStreamFailure f = FailureBeforeCommit
                then if cnTTFC f \<noteq> None then Inl TTFCBeforeCommit else Inr (condition\<lparr>pcStreamDuration := d\<rparr>)
                else (case requiredDuration ps ''ttfc'' (cnTTFC f) True of
                        Inl e \<Rightarrow> Inl e
                      | Inr ttfc \<Rightarrow> Inr (condition\<lparr>pcStreamDuration := d, pcTTFC := ttfc\<rparr>))))"

definition condition_usage :: "conditionFixture \<Rightarrow> condition_error + Usage option" where
  "condition_usage f =
     (case (cnInputTokens f, cnOutputTokens f) of
        (None, None) \<Rightarrow> Inr None
      | (Some input, Some output) \<Rightarrow>
          if input > MaxUint64 - output then Inl TokensOutOfRange
          else Inr (Some \<lparr>InputTokens = Some input, OutputTokens = Some output, TotalTokens = Some (input + output)\<rparr>)
      | (input, output) \<Rightarrow> Inr (Some \<lparr>InputTokens = input, OutputTokens = output, TotalTokens = None\<rparr>))"

definition toCondition :: "parsers \<Rightarrow> string \<Rightarrow> conditionFixture \<Rightarrow> condition_error + ProviderCondition" where
  "toCondition ps mode f =
     (case outcome_condition f of Inl e \<Rightarrow> Inl e | Inr c0 \<Rightarrow>
      case condition_times ps mode f c0 of Inl e \<Rightarrow> Inl e | Inr c1 \<Rightarrow>
      case condition_usage f of Inl e \<Rightarrow> Inl e | Inr usage \<Rightarrow>
      let condition = c1\<lparr>pcUsage := usage\<rparr> in
      case validateCondition mode condition of Some e \<Rightarrow> Inl e | None \<Rightarrow> Inr condition)"

datatype fixture_error =
    CannotRead
  | FixtureTooLarge
  | DecodeFailed
  | NotOneObject
  | UnsupportedVersion int
  | FieldError condition_error
  | NotPositive string
  | PercentRequired
  | ProviderFields nat
  | DuplicatesProvider nat string
  | PriceInvalid nat string string
  | RequestLacksProvider string nat string string
  | RequestRefused string nat string string condition_error
  | RequestUnknownProvider string nat string string
  | ScenarioRefused scenario_error
  | UnknownScenario string
  | FixtureUnavailable
  | ScenarioNameMismatch string
  | FixtureNotFound
  | CannotOpen

text \<open>One price of \<open>fixtureRates\<close>; the error names its field.\<close>

definition fixture_price :: "string \<Rightarrow> string option \<Rightarrow> string + u64 option" where
  "fixture_price name value' =
     (case value' of
        None \<Rightarrow> Inr None
      | Some v \<Rightarrow> (case ParseUSDPerMillion v of Inl _ \<Rightarrow> Inl name | Inr parsed \<Rightarrow> Inr (Some parsed)))"

definition fixtureRates :: "providerFixture \<Rightarrow> string + Rates" where
  "fixtureRates f =
     (case fixture_price ''input_price_usd_per_million'' (pfInputPriceUSDPerMillion f) of
        Inl e \<Rightarrow> Inl e
      | Inr input \<Rightarrow>
          (case fixture_price ''output_price_usd_per_million'' (pfOutputPriceUSDPerMillion f) of
             Inl e \<Rightarrow> Inl e
           | Inr output \<Rightarrow> Inr \<lparr>InputMicroUSDPerMillion = input, OutputMicroUSDPerMillion = output\<rparr>))"

fun convert_providers :: "nat \<Rightarrow> string list \<Rightarrow> providerFixture list \<Rightarrow> fixture_error + ProviderSpec list" where
  "convert_providers i seen [] = Inr []"
| "convert_providers i seen (item # items) =
     (if pfName item = [] \<or> pfModel item = [] then Inl (ProviderFields i)
      else if pfName item \<in> set seen then Inl (DuplicatesProvider i (pfName item))
      else (case fixtureRates item of
              Inl field \<Rightarrow> Inl (PriceInvalid i (pfName item) field)
            | Inr rates \<Rightarrow>
                map_sum id (Cons \<lparr>spName = pfName item, spModel = pfModel item, spRates = rates\<rparr>)
                  (convert_providers (Suc i) (pfName item # seen) items)))"

text \<open>The conditions of one request, in the order of the providers.\<close>

fun convert_conditions ::
  "parsers \<Rightarrow> string \<Rightarrow> string \<Rightarrow> nat \<Rightarrow> requestFixture \<Rightarrow> string list \<Rightarrow> (string \<times> ProviderCondition) list
   \<Rightarrow> fixture_error + (string \<times> ProviderCondition) list" where
  "convert_conditions ps mode section' i f [] conditions = Inr conditions"
| "convert_conditions ps mode section' i f (name # names) conditions =
     (case map_of (rfProviders f) name of
        None \<Rightarrow> Inl (RequestLacksProvider section' i (rfID f) name)
      | Some condition \<Rightarrow>
          (case toCondition ps mode condition of
             Inl e \<Rightarrow> Inl (RequestRefused section' i (rfID f) name e)
           | Inr converted \<Rightarrow>
               convert_conditions ps mode section' i f names (AList.update name converted conditions)))"

fun convertRequests ::
  "parsers \<Rightarrow> string \<Rightarrow> string list \<Rightarrow> string \<Rightarrow> nat \<Rightarrow> requestFixture list \<Rightarrow> fixture_error + bench_request list" where
  "convertRequests ps mode names section' i [] = Inr []"
| "convertRequests ps mode names section' i (f # fs) =
     (case convert_conditions ps mode section' i f names [] of
        Inl e \<Rightarrow> Inl e
      | Inr conditions \<Rightarrow>
          (case find_error (\<lambda>name. if name \<in> set names then None
                  else Some (RequestUnknownProvider section' i (rfID f) name)) (map fst (rfProviders f)) of
             Some e \<Rightarrow> Inl e
           | None \<Rightarrow> map_sum id (Cons \<lparr>brID = rfID f, brConditions = conditions\<rparr>)
                       (convertRequests ps mode names section' (Suc i) fs)))"

definition toScenario :: "parsers \<Rightarrow> fixtureV1 \<Rightarrow> fixture_error + Scenario" where
  "toScenario ps f =
     (if TrimSpace (fxName f) = [] then Inl (ScenarioRefused NameRequired)
      else if fxMode f \<noteq> ModeNonStreaming \<and> fxMode f \<noteq> ModeStreaming then Inl (ScenarioRefused InvalidMode)
      else if fxProviders f = [] then Inl (ScenarioRefused ProvidersRequired)
      else case requiredDuration ps ''inter_request_gap'' (fxInterRequestGap f) True of
        Inl e \<Rightarrow> Inl (FieldError e) | Inr gap \<Rightarrow>
      case requiredDuration ps ''circuit.open_duration'' (cxOpenDuration (fxCircuit f)) False of
        Inl e \<Rightarrow> Inl (FieldError e) | Inr openDur \<Rightarrow>
      case requiredDuration ps ''routing.sample_max_age'' (rxSampleMaxAge (fxRouting f)) False of
        Inl e \<Rightarrow> Inl (FieldError e) | Inr sampleMaxAge \<Rightarrow>
      if cxFailureThreshold (fxCircuit f) \<le> 0 then Inl (NotPositive ''circuit.failure_threshold'')
      else if rxMinSamples (fxRouting f) \<le> 0 then Inl (NotPositive ''routing.min_samples'')
      else if rxExplorationInterval (fxRouting f) \<le> 0 then Inl (NotPositive ''routing.exploration_interval'')
      else if rxMaxLatencyOverFastestPercent (fxRouting f) = None then Inl PercentRequired
      else case convert_providers 0 [] (fxProviders f) of Inl e \<Rightarrow> Inl e | Inr specs \<Rightarrow>
      case convertRequests ps (fxMode f) (map spName specs) ''warmup'' 0 (fxWarmup f) of Inl e \<Rightarrow> Inl e | Inr warm \<Rightarrow>
      case convertRequests ps (fxMode f) (map spName specs) ''requests'' 0 (fxRequests f) of Inl e \<Rightarrow> Inl e | Inr reqs \<Rightarrow>
      Inr \<lparr>scVersion = fxVersion f, scName = fxName f, scMode = fxMode f, scProviders = specs,
        scWarmup = warm, scRequests = reqs, scInterRequestGap = gap,
        scCircuit = \<lparr>FailureThreshold = cxFailureThreshold (fxCircuit f), OpenDuration = openDur\<rparr>,
        scRouting = \<lparr>rcPolicy = [], rcMinSamples = rxMinSamples (fxRouting f), rcSampleMaxAge = sampleMaxAge,
          rcExplorationInterval = rxExplorationInterval (fxRouting f),
          rcMaxLatencyOverFastestPercent = rxMaxLatencyOverFastestPercent (fxRouting f)\<rparr>\<rparr>)"

text \<open>A file being read: its bytes, and whether reading fails behind them.\<close>

record reader =
  rdBytes :: string
  rdFails :: bool

definition DecodeScenario :: "parsers \<Rightarrow> reader \<Rightarrow> fixture_error + Scenario" where
  "DecodeScenario ps r =
     (if rdFails r \<and> length (rdBytes r) \<le> MaxFixtureSize then Inl CannotRead
      else if length (rdBytes r) > MaxFixtureSize then Inl FixtureTooLarge
      else case Decode True (bytes_of (rdBytes r)) of
        DecodedValue v rest \<Rightarrow>
          (case decode_fixture v zero_fixture of
             None \<Rightarrow> Inl DecodeFailed
           | Some fixture \<Rightarrow>
               (case Decode True rest of
                  DecodedEOF \<Rightarrow>
                    if fxVersion fixture \<noteq> 1 then Inl (UnsupportedVersion (fxVersion fixture))
                    else (case toScenario ps fixture of
                            Inl e \<Rightarrow> Inl e
                          | Inr scenario \<Rightarrow>
                              (case Scenario_Validate scenario of
                                 Some e \<Rightarrow> Inl (ScenarioRefused e) | None \<Rightarrow> Inr scenario))
                | DecodedValue _ _ \<Rightarrow> Inl NotOneObject
                | _ \<Rightarrow> Inl DecodeFailed))
      | _ \<Rightarrow> Inl DecodeFailed)"

text \<open>What opening a file gives: whether the error is \<open>os.ErrNotExist\<close>, or a reader.\<close>

definition LoadScenarioFile :: "parsers \<Rightarrow> bool + reader \<Rightarrow> fixture_error + Scenario" where
  "LoadScenarioFile ps file =
     (case file of
        Inl notExist \<Rightarrow> Inl (if notExist then FixtureNotFound else CannotOpen)
      | Inr r \<Rightarrow> DecodeScenario ps r)"

definition isBuiltInScenario :: "string \<Rightarrow> bool" where
  "isBuiltInScenario name \<longleftrightarrow> name \<in> set BuiltInScenarioNames"

text \<open>The embedded files are the argument \<open>fs\<close>.\<close>

definition BuiltInScenario :: "parsers \<Rightarrow> (string \<Rightarrow> reader option) \<Rightarrow> string \<Rightarrow> fixture_error + Scenario" where
  "BuiltInScenario ps fs name =
     (if \<not> isBuiltInScenario name then Inl (UnknownScenario name)
      else (case fs (''v1/'' @ name @ ''.json'') of
              None \<Rightarrow> Inl FixtureUnavailable
            | Some r \<Rightarrow>
                (case DecodeScenario ps r of
                   Inl e \<Rightarrow> Inl e
                 | Inr scenario \<Rightarrow>
                     if scName scenario \<noteq> name then Inl (ScenarioNameMismatch name) else Inr scenario)))"

section \<open>Well-formed scenarios\<close>

definition condition_failed :: "ProviderCondition \<Rightarrow> bool" where
  "condition_failed c \<longleftrightarrow> pcCanceled c \<or> pcErrorKind c \<noteq> []"

text \<open>A condition that a simulated provider can play: times that do not go back, at most one way to
  fail, and for a stream a failure point exactly when it fails.\<close>

definition condition_wf :: "string \<Rightarrow> ProviderCondition \<Rightarrow> bool" where
  "condition_wf mode c \<longleftrightarrow>
     0 \<le> pcCompletionLatency c \<and> 0 \<le> pcTTFC c \<and> 0 \<le> pcStreamDuration c \<and>
     \<not> (pcCanceled c \<and> pcErrorKind c \<noteq> []) \<and> pcErrorKind c \<in> set ([] # declared_kinds) \<and>
     (if mode = ModeNonStreaming then pcStreamFailure c = []
      else pcTTFC c \<le> pcStreamDuration c \<and> (pcStreamFailure c = [] \<longleftrightarrow> \<not> condition_failed c) \<and>
        pcStreamFailure c \<in> {[], FailureBeforeCommit, FailureAfterCommit})"

lemma validateCondition_iff: "validateCondition mode c = None \<longleftrightarrow> condition_wf mode c"
  by (auto simp: validateCondition_def condition_wf_def condition_failed_def validErrorKind_def Let_def)

text \<open>A request that says, for exactly the providers of the scenario, how each behaves.\<close>

definition conditions_wf :: "string \<Rightarrow> string list \<Rightarrow> bench_request \<Rightarrow> bool" where
  "conditions_wf mode names r \<longleftrightarrow> set (map fst (brConditions r)) = set names \<and>
     list_all (\<lambda>n. \<exists>c. map_of (brConditions r) n = Some c \<and> condition_wf mode c) names"

definition request_wf :: "string \<Rightarrow> string list \<Rightarrow> bench_request \<Rightarrow> bool" where
  "request_wf mode names r \<longleftrightarrow> brID r \<noteq> [] \<and> conditions_wf mode names r"

lemma find_error_None: "find_error f xs = None \<longleftrightarrow> (\<forall>x \<in> set xs. f x = None)"
  by (induction xs) (auto split: option.split)

lemma specs_error_None:
  "specs_error seen specs = None \<longleftrightarrow> list_all (\<lambda>s. spName s \<noteq> [] \<and> spModel s \<noteq> []) specs \<and>
     distinct (map spName specs) \<and> set (map spName specs) \<inter> set seen = {}"
  by (induction specs arbitrary: seen) auto

lemma conditions_error_None: "conditions_error mode names r = None \<longleftrightarrow> conditions_wf mode names r"
proof -
  let ?m = "map_of (brConditions r)"
  have check: "(case ?m n of None \<Rightarrow> Some (LacksProvider (brID r) n)
      | Some c \<Rightarrow> map_option (ConditionRefused (brID r) n) (validateCondition mode c)) = None \<longleftrightarrow>
      (\<exists>c. ?m n = Some c \<and> condition_wf mode c)" for n
    by (simp add: validateCondition_iff split: option.split)
  have "conditions_error mode names r = None \<longleftrightarrow>
      (\<forall>n \<in> set names. \<exists>c. ?m n = Some c \<and> condition_wf mode c) \<and> set (map fst (brConditions r)) \<subseteq> set names"
    unfolding conditions_error_def option.case_eq_if [of _ "\<lambda>e. Some e"]
    by (auto simp: find_error_None check split: if_splits)
  moreover have "n \<in> set (map fst (brConditions r))" if "?m n = Some c" for n c
    using map_of_SomeD [OF that] by force
  ultimately show ?thesis unfolding conditions_wf_def list_all_iff by blast
qed

lemma requests_error_None:
  "requests_error mode names ids rs = None \<longleftrightarrow> list_all (request_wf mode names) rs \<and>
     distinct (map brID rs) \<and> set (map brID rs) \<inter> set ids = {}"
proof (induction rs arbitrary: ids)
  case (Cons r rs)
  have "requests_error mode names ids (r # rs) = None \<longleftrightarrow> brID r \<noteq> [] \<and> brID r \<notin> set ids \<and>
      conditions_error mode names r = None \<and> requests_error mode names (brID r # ids) rs = None"
    by (simp split: option.split)
  then show ?case unfolding Cons.IH conditions_error_None by (auto simp: request_wf_def [of mode names r])
qed simp

text \<open>What \<open>Validate\<close> accepts.\<close>

definition scenario_valid :: "Scenario \<Rightarrow> bool" where
  "scenario_valid s \<longleftrightarrow>
     scVersion s = 1 \<and> scName s \<noteq> [] \<and> scMode s \<in> {ModeNonStreaming, ModeStreaming} \<and>
     scProviders s \<noteq> [] \<and> scRequests s \<noteq> [] \<and> 0 \<le> scInterRequestGap s \<and>
     list_all (\<lambda>sp. spName sp \<noteq> [] \<and> spModel sp \<noteq> []) (scProviders s) \<and>
     distinct (map spName (scProviders s)) \<and> distinct (map brID (scWarmup s @ scRequests s)) \<and>
     list_all (request_wf (scMode s) (map spName (scProviders s))) (scWarmup s @ scRequests s)"

lemma Validate_iff: "Scenario_Validate s = None \<longleftrightarrow> scenario_valid s"
proof -
  have "Scenario_Validate s = None \<longleftrightarrow> scVersion s = 1 \<and> scName s \<noteq> [] \<and>
      \<not> (scMode s \<noteq> ModeNonStreaming \<and> scMode s \<noteq> ModeStreaming) \<and> scProviders s \<noteq> [] \<and>
      scRequests s \<noteq> [] \<and> \<not> scInterRequestGap s < 0 \<and> specs_error [] (scProviders s) = None \<and>
      requests_error (scMode s) (map spName (scProviders s)) [] (scWarmup s @ scRequests s) = None"
    by (simp add: Scenario_Validate_def split: option.split)
  then show ?thesis by (auto simp: scenario_valid_def specs_error_None requests_error_None)
qed

text \<open>What the fixtures give beyond that: every gateway can be built from the scenario, and the token
  counts of a condition are the exact sum of their parts.\<close>

definition SupportedPolicies :: "string list" where
  "SupportedPolicies = [RoutingPolicyDeterministic, RoutingPolicyLatency, RoutingPolicyCost, RoutingPolicyCostLatency]"

definition usage_sums :: "Usage option \<Rightarrow> bool" where
  "usage_sums u \<longleftrightarrow> (case u of None \<Rightarrow> True
     | Some v \<Rightarrow> (case (InputTokens v, OutputTokens v) of
         (Some i, Some o') \<Rightarrow> (\<exists>t. TotalTokens v = Some t \<and> unat t = unat i + unat o')
       | _ \<Rightarrow> TotalTokens v = None))"

definition scenario_runnable :: "Scenario \<Rightarrow> bool" where
  "scenario_runnable s \<longleftrightarrow> scenario_valid s \<and> TrimSpace (scName s) \<noteq> [] \<and>
     0 < FailureThreshold (scCircuit s) \<and> 0 < OpenDuration (scCircuit s) \<and>
     list_all (\<lambda>p. \<exists>r. newRoutingPolicy ((scRouting s)\<lparr>rcPolicy := p\<rparr>) = Inr r) SupportedPolicies \<and>
     list_all (\<lambda>r. distinct (map fst (brConditions r)) \<and> list_all (usage_sums \<circ> pcUsage \<circ> snd) (brConditions r))
       (scWarmup s @ scRequests s)"

lemma condition_usage_sums: "condition_usage f = Inr u \<Longrightarrow> usage_sums u"
  by (auto simp: condition_usage_def usage_sums_def u64_overflow_iff unat_add_exact not_less
      split: option.splits if_splits)

lemma toCondition_sums: "toCondition ps mode f = Inr c \<Longrightarrow> usage_sums (pcUsage c)"
  by (auto simp: toCondition_def Let_def condition_usage_sums split: sum.splits option.splits)

lemma convert_conditions_sums:
  "convert_conditions ps mode sec i f names cs = Inr cs' \<Longrightarrow> distinct (map fst cs) \<Longrightarrow>
   list_all (usage_sums \<circ> pcUsage \<circ> snd) cs \<Longrightarrow>
   distinct (map fst cs') \<and> list_all (usage_sums \<circ> pcUsage \<circ> snd) cs'"
proof (induction names arbitrary: cs)
  case (Cons n names)
  obtain c where c: "convert_conditions ps mode sec i f names (AList.update n c cs) = Inr cs'" "usage_sums (pcUsage c)"
    using Cons.prems(1) by (auto simp: toCondition_sums split: option.splits sum.splits)
  have "list_all (usage_sums \<circ> pcUsage \<circ> snd) (AList.update n c cs)"
    using Cons.prems(3) c(2) by (induction cs) auto
  then show ?case using Cons.prems(2) by (intro Cons.IH [OF c(1)] AList.distinct_update)
qed simp

lemma map_sum_Cons: "map_sum id (Cons x) r = Inr ys \<longleftrightarrow> (\<exists>zs. r = Inr zs \<and> ys = x # zs)"
  by (cases r) auto

lemma convertRequests_sums:
  "convertRequests ps mode names sec i fs = Inr rs \<Longrightarrow>
   list_all (\<lambda>r. distinct (map fst (brConditions r)) \<and> list_all (usage_sums \<circ> pcUsage \<circ> snd) (brConditions r)) rs"
  by (induction fs arbitrary: i rs)
    (fastforce simp: map_sum_Cons dest: convert_conditions_sums split: sum.splits option.splits)+

lemma requiredDuration_positive: "requiredDuration ps name v False = Inr d \<Longrightarrow> 0 < d"
  by (auto simp: requiredDuration_def split: option.splits if_splits)

lemma policy_runs:
  assumes "0 < rcMinSamples c" "0 < rcSampleMaxAge c" "0 < rcExplorationInterval c"
    "rcMaxLatencyOverFastestPercent c = Some percent"
  shows "list_all (\<lambda>p. \<exists>r. newRoutingPolicy (c\<lparr>rcPolicy := p\<rparr>) = Inr r) SupportedPolicies"
  using assms by (auto simp: SupportedPolicies_def newRoutingPolicy_def newLatencyRoutingPolicy_def policy_names)

lemma toScenario_facts:
  assumes "toScenario ps f = Inr s"
  shows "TrimSpace (scName s) \<noteq> []" "0 < FailureThreshold (scCircuit s)" "0 < OpenDuration (scCircuit s)"
    "list_all (\<lambda>p. \<exists>r. newRoutingPolicy ((scRouting s)\<lparr>rcPolicy := p\<rparr>) = Inr r) SupportedPolicies"
    "list_all (\<lambda>r. distinct (map fst (brConditions r)) \<and> list_all (usage_sums \<circ> pcUsage \<circ> snd) (brConditions r))
       (scWarmup s @ scRequests s)"
proof -
  obtain gap openDur age percent specs warm reqs where
    t: "TrimSpace (fxName f) \<noteq> []" "requiredDuration ps ''circuit.open_duration'' (cxOpenDuration (fxCircuit f)) False = Inr openDur"
    "requiredDuration ps ''routing.sample_max_age'' (rxSampleMaxAge (fxRouting f)) False = Inr age"
    "0 < cxFailureThreshold (fxCircuit f)" "0 < rxMinSamples (fxRouting f)" "0 < rxExplorationInterval (fxRouting f)"
    "rxMaxLatencyOverFastestPercent (fxRouting f) = Some percent"
    "convertRequests ps (fxMode f) (map spName specs) ''warmup'' 0 (fxWarmup f) = Inr warm"
    "convertRequests ps (fxMode f) (map spName specs) ''requests'' 0 (fxRequests f) = Inr reqs"
    and s: "s = \<lparr>scVersion = fxVersion f, scName = fxName f, scMode = fxMode f, scProviders = specs,
        scWarmup = warm, scRequests = reqs, scInterRequestGap = gap,
        scCircuit = \<lparr>FailureThreshold = cxFailureThreshold (fxCircuit f), OpenDuration = openDur\<rparr>,
        scRouting = \<lparr>rcPolicy = [], rcMinSamples = rxMinSamples (fxRouting f), rcSampleMaxAge = age,
          rcExplorationInterval = rxExplorationInterval (fxRouting f),
          rcMaxLatencyOverFastestPercent = rxMaxLatencyOverFastestPercent (fxRouting f)\<rparr>\<rparr>"
    using assms unfolding toScenario_def
    by (simp split: if_split_asm sum.split_asm) (auto simp: not_le)
  show "TrimSpace (scName s) \<noteq> []" "0 < FailureThreshold (scCircuit s)" "0 < OpenDuration (scCircuit s)"
    using t requiredDuration_positive [OF t(2)] by (simp_all add: s)
  show "list_all (\<lambda>p. \<exists>r. newRoutingPolicy ((scRouting s)\<lparr>rcPolicy := p\<rparr>) = Inr r) SupportedPolicies"
    using t requiredDuration_positive [OF t(3)] by (intro policy_runs [of _ percent]) (simp_all add: s)
  show "list_all (\<lambda>r. distinct (map fst (brConditions r)) \<and> list_all (usage_sums \<circ> pcUsage \<circ> snd) (brConditions r))
       (scWarmup s @ scRequests s)"
    using convertRequests_sums [OF t(8)] convertRequests_sums [OF t(9)] by (simp add: s)
qed

lemma DecodeScenario_runnable:
  assumes "DecodeScenario ps r = Inr s"
  shows "scenario_runnable s"
proof -
  obtain f where "toScenario ps f = Inr s" "Scenario_Validate s = None"
    using assms unfolding DecodeScenario_def
    by (auto split: if_split_asm decoded.split_asm option.split_asm sum.split_asm)
  then show ?thesis
    using toScenario_facts [of ps f s] by (simp add: scenario_runnable_def Validate_iff)
qed

section \<open>Printed fixtures\<close>

text \<open>A bound for the length of a printed value.\<close>

fun json_bound :: "json \<Rightarrow> nat" where
  "json_bound JNull = 4"
| "json_bound (JBool b) = 5"
| "json_bound (JNum n) = length n"
| "json_bound (JStr s) = 6 * length s + 2"
| "json_bound (JArr vs) = 2 + sum_list (map (\<lambda>v. json_bound v + 1) vs)"
| "json_bound (JObj kvs) = 2 + sum_list (map (\<lambda>(k, v). 6 * length k + 4 + json_bound v) kvs)"

lemma join_bytes_length: "length (join_bytes xs) \<le> sum_list (map (\<lambda>x. length x + 1) xs)"
  by (induction xs rule: join_bytes.induct) auto

lemma print_json_length: "length (print_json v) \<le> json_bound v"
proof (induction v rule: print_json.induct)
  case (5 vs)
  have "sum_list (map (\<lambda>x. length x + 1) (map print_json vs)) \<le> sum_list (map (\<lambda>v. json_bound v + 1) vs)"
    unfolding map_map by (rule sum_list_mono) (simp add: 5)
  then show ?case using join_bytes_length [of "map print_json vs"] by simp
next
  case (6 kvs)
  have "length (print_string k @ 58 # print_json v) + 1 \<le> 6 * length k + 4 + json_bound v" if "(k, v) \<in> set kvs" for k v
    using 6 [OF that, of k v] print_string_length [of k] by simp
  then have "sum_list (map (\<lambda>x. length x + 1) (map (\<lambda>(k, v). print_string k @ 58 # print_json v) kvs))
      \<le> sum_list (map (\<lambda>(k, v). 6 * length k + 4 + json_bound v) kvs)"
    unfolding map_map by (intro sum_list_mono) auto
  then show ?case
    using join_bytes_length [of "map (\<lambda>(k, v). print_string k @ 58 # print_json v) kvs"] by simp
qed (use print_string_length in \<open>simp_all add: bytes_of_def\<close>)

lemma Decode_Marshal:
  assumes "int_literals v" "json_depth v \<le> maxNestingDepth" "compound v"
  shows "Decode True (bytes_of (Marshal v)) = DecodedValue (sanitize v) []"
proof -
  have "bytes_of (Marshal v) = print_json v"
    unfolding Marshal_def by (rule bytes_of_string) (auto dest: print_json_byte)
  then show ?thesis
    using parse_printed [OF assms(1,2), of "[]"] assms(3) by (simp add: Decode_def number_end_def)
qed

section \<open>Property\<close>

text \<open>C38: What a decoded scenario is. A fixture is accepted only when it describes a scenario that can be
  played: it has version 1, a name and one of the two modes; at least one provider and one request, with
  distinct names and identifiers; every request says for exactly the providers of the scenario how each
  behaves, with times that do not go back, at most one way to fail and, in a stream, a failure point exactly
  when it fails; token totals are the exact sums of their parts; and the circuit and routing settings are
  accepted by the gateway under each of the four policies.\<close>

theorem decoded_scenarios_wf:
  assumes "DecodeScenario ps r = Inr s"
  shows "scenario_runnable s"
  using assms by (rule DecodeScenario_runnable)

text \<open>A fixture with one provider and one request.\<close>

definition demo_fixture :: "string \<Rightarrow> json" where
  "demo_fixture name = JObj
     [(''version'', JNum ''1''), (''name'', JStr name), (''mode'', JStr ''non_streaming''),
      (''providers'', JArr [JObj [(''name'', JStr ''a''), (''model'', JStr ''m'')]]),
      (''requests'', JArr [JObj [(''id'', JStr ''r''),
         (''providers'', JObj [(''a'', JObj [(''outcome'', JStr ''success''), (''completion_latency'', JStr ''1s'')])])]]),
      (''inter_request_gap'', JStr ''1s''),
      (''circuit'', JObj [(''failure_threshold'', JNum ''1''), (''open_duration'', JStr ''1s'')]),
      (''routing'', JObj [(''min_samples'', JNum ''1''), (''sample_max_age'', JStr ''1s''),
         (''exploration_interval'', JNum ''1''), (''max_latency_over_fastest_percent'', JNum ''0'')])]"

definition demo_parsers :: parsers where
  "demo_parsers = \<lparr>psURL = (\<lambda>_. None), psLoopbackIP = (\<lambda>_. False),
     psDuration = (\<lambda>s. if s = ''1s'' then Some 1000000000 else None)\<rparr>"

definition demo_condition :: ProviderCondition where
  "demo_condition = \<lparr>pcCompletionLatency = 1000000000, pcTTFC = 0, pcStreamDuration = 0, pcErrorKind = [],
     pcCanceled = False, pcStreamFailure = [], pcUsage = None\<rparr>"

definition demo_scenario :: "string \<Rightarrow> Scenario" where
  "demo_scenario name =
     \<lparr>scVersion = 1, scName = name, scMode = ModeNonStreaming,
      scProviders = [\<lparr>spName = ''a'', spModel = ''m'', spRates = zero_rates\<rparr>], scWarmup = [],
      scRequests = [\<lparr>brID = ''r'', brConditions = [(''a'', demo_condition)]\<rparr>],
      scInterRequestGap = 1000000000, scCircuit = \<lparr>FailureThreshold = 1, OpenDuration = 1000000000\<rparr>,
      scRouting = \<lparr>rcPolicy = [], rcMinSamples = 1, rcSampleMaxAge = 1000000000, rcExplorationInterval = 1,
        rcMaxLatencyOverFastestPercent = Some 0\<rparr>\<rparr>"

definition demo_reader :: "string \<Rightarrow> reader" where
  "demo_reader name = \<lparr>rdBytes = Marshal (demo_fixture name), rdFails = False\<rparr>"

lemma demo_length:
  assumes "length name \<le> 16"
  shows "length (Marshal (demo_fixture name)) \<le> MaxFixtureSize"
proof -
  have "length (print_json (demo_fixture name)) \<le> 6 * length name + 8000"
    by (rule order_trans [OF print_json_length]) (simp add: demo_fixture_def json_int_def json_u64_def)
  then show ?thesis using assms by (simp add: Marshal_def string_of_def MaxFixtureSize_def)
qed

lemma demo_literals: "literal_int ''1'' = Some 1" "ParseUint ''0'' = Some 0" "TrimSpace ''1s'' = ''1s''"
  "int_literal ''1''" "int_literal ''0''"
  by (simp_all add: literal_int_def digit_value_def in_i64_def MinInt64_def MaxInt64_def ParseUint_def
      int_literal_def plain_decimal_def digit_char_def TrimSpace_plain plain_char_def)

lemmas demo_decoding = demo_literals decode_fixture_def decode_struct_def struct_field_def fixture_field_def
  decode_slice_def decode_provider_def provider_field_def decode_request_def request_field_def decode_map_def
  decode_condition_def condition_field_def decode_text_def decode_pointer_def decode_circuit_def circuit_field_def
  decode_routing_def routing_field_def decode_count_def zero_fixture_def zero_provider_def
  zero_request_fixture_def zero_condition_def

lemmas demo_conversion = demo_literals toScenario_def ModeNonStreaming_def ModeStreaming_def requiredDuration_def
  demo_parsers_def fixtureRates_def fixture_price_def toCondition_def outcome_condition_def condition_times_def
  condition_usage_def validateCondition_def demo_scenario_def demo_condition_def zero_rates_def

lemma demo_decoded:
  assumes name: "TrimSpace name \<noteq> []" "sanitize_string name = name" "length name \<le> 16"
  shows "DecodeScenario demo_parsers (demo_reader name) = Inr (demo_scenario name)"
proof -
  have v: "sanitize (demo_fixture name) = demo_fixture name"
    by (simp add: demo_fixture_def name sanitize_ascii)
  have d: "Decode True (bytes_of (Marshal (demo_fixture name))) = DecodedValue (demo_fixture name) []"
    by (subst Decode_Marshal) (simp_all add: v, simp_all add: demo_fixture_def demo_literals maxNestingDepth_def)
  obtain f where f: "decode_fixture (demo_fixture name) zero_fixture = Some f" "fxVersion f = 1"
    "toScenario demo_parsers f = Inr (demo_scenario name)"
    using name(1) by (simp add: demo_fixture_def demo_decoding) (simp add: demo_conversion)
  have "name \<noteq> []" using name(1) by auto
  then have "Scenario_Validate (demo_scenario name) = None"
    by (simp add: Scenario_Validate_def demo_scenario_def demo_condition_def conditions_error_def validateCondition_def
        ModeNonStreaming_def)
  then show ?thesis
    using demo_length [OF name(3)] f d by (simp add: DecodeScenario_def demo_reader_def Decode_spaces)
qed

theorem decoded_scenarios_wf_witness: "scenario_runnable (demo_scenario ''stable'')"
proof -
  have "DecodeScenario demo_parsers (demo_reader ''stable'') = Inr (demo_scenario ''stable'')"
    by (rule demo_decoded) (simp_all add: TrimSpace_plain plain_char_def sanitize_ascii)
  then show ?thesis by (rule decoded_scenarios_wf)
qed

end
