(* ===== verification/Bench_Metrics.thy ===== *)
theory Bench_Metrics
  imports Bench_Scenario Streaming
begin

text \<open>
  The simulated providers on a virtual clock (\<open>internal/benchmark/provider.go\<close>) and the metrics
  (\<open>metrics.go\<close>). A quotient of two counters, a \<open>float64\<close> in the code, is kept as the pair of counters.
  The lemmas give the exact times at which a simulated stream returns its chunks and its end, and the
  meaning of the reported percentiles.
\<close>

section \<open>Simulated providers\<close>

definition newVirtualClock :: instant where
  "newVirtualClock = 739616 * 86400 * 1000000000"

definition virtualClock_Advance :: "duration \<Rightarrow> instant \<Rightarrow> instant" where
  "virtualClock_Advance duration now = time_add now duration"

record attemptRecord =
  atProvider :: string
  atModel :: string
  atCondition :: ProviderCondition

definition kind_of :: "string \<Rightarrow> ErrorKind" where
  "kind_of s =
     (if s = ''timeout'' then ErrorTimeout
      else if s = ''unavailable'' then ErrorUnavailable
      else if s = ''rate_limited'' then ErrorRateLimited
      else if s = ''invalid_request'' then ErrorInvalidRequest
      else if s = ''internal'' then ErrorInternal
      else OtherErrorKind s)"

definition conditionError :: "go_error option \<Rightarrow> string \<Rightarrow> ProviderCondition \<Rightarrow> go_error option" where
  "conditionError ctxErr providerName condition =
     (if pcCanceled condition then Some ContextCanceled
      else if pcErrorKind condition = [] then None
      else (case ctxErr of
              Some err \<Rightarrow> Some err
            | None \<Rightarrow> Some (NewError (kind_of (pcErrorKind condition)) providerName
                        (PlainError ''simulated provider failure''))))"

definition sim_Complete ::
  "go_error option \<Rightarrow> string \<Rightarrow> ProviderCondition \<Rightarrow> ChatCompletionRequest \<Rightarrow> ChatCompletionResponse \<times> go_error option" where
  "sim_Complete ctxErr name condition request =
     (\<lparr>rspID = ''benchmark-'' @ name, rspObject = ''chat.completion'', rspCreated = 0, rspModel = reqModel request,
       rspChoices = [], rspUsage = pcUsage condition\<rparr>, conditionError ctxErr name condition)"

record streamStep =
  stDelay :: duration
  stChunk :: StreamChunk
  stErr :: "go_error option"

record simulatedStream =
  ssSteps :: "streamStep list"
  ssIndex :: nat

definition content_step :: "string \<Rightarrow> string \<Rightarrow> duration \<Rightarrow> streamStep" where
  "content_step providerName modelName delay = \<lparr>stDelay = delay,
     stChunk = zero_chunk\<lparr>ckID := ''benchmark-'' @ providerName, ckModel := modelName, ckRole := ''assistant'',
       ckContent := ''x''\<rparr>, stErr = None\<rparr>"

definition usage_step :: "string \<Rightarrow> string \<Rightarrow> Usage option \<Rightarrow> string \<Rightarrow> duration \<Rightarrow> streamStep" where
  "usage_step providerName modelName usage reason delay = \<lparr>stDelay = delay,
     stChunk = zero_chunk\<lparr>ckID := ''benchmark-'' @ providerName, ckModel := modelName, ckUsage := usage,
       ckFinishReason := reason\<rparr>, stErr = None\<rparr>"

definition error_step :: "go_error option \<Rightarrow> duration \<Rightarrow> streamStep" where
  "error_step err delay = \<lparr>stDelay = delay, stChunk = zero_chunk, stErr = err\<rparr>"

text \<open>The end of a failing stream: the usage first, where there is one, and then the error.\<close>

definition failure_steps :: "string \<Rightarrow> string \<Rightarrow> Usage option \<Rightarrow> go_error option \<Rightarrow> duration \<Rightarrow> streamStep list" where
  "failure_steps providerName modelName usage err delay =
     (if usage \<noteq> None then [usage_step providerName modelName usage [] delay, error_step err 0]
      else [error_step err delay])"

definition newSimulatedStream :: "go_error option \<Rightarrow> string \<Rightarrow> string \<Rightarrow> ProviderCondition \<Rightarrow> simulatedStream" where
  "newSimulatedStream ctxErr providerName modelName condition =
     (let err = conditionError ctxErr providerName condition;
          usage = pcUsage condition;
          content = content_step providerName modelName (pcTTFC condition);
          remaining = i64_wrap (pcStreamDuration condition - pcTTFC condition)
      in \<lparr>ssSteps =
            (if pcStreamFailure condition = FailureBeforeCommit
             then failure_steps providerName modelName usage err (pcStreamDuration condition)
             else if pcStreamFailure condition = FailureAfterCommit
             then content # failure_steps providerName modelName usage err remaining
             else [content, usage_step providerName modelName usage ''stop'' remaining, error_step (Some EOF) 0]),
          ssIndex = 0\<rparr>)"

definition sim_Next ::
  "go_error option \<Rightarrow> simulatedStream \<Rightarrow> instant \<Rightarrow> (StreamChunk \<times> go_error option) \<times> simulatedStream \<times> instant" where
  "sim_Next ctxErr s now =
     (if ctxErr \<noteq> None then ((zero_chunk, ctxErr), s, now)
      else if ssIndex s \<ge> length (ssSteps s) then ((zero_chunk, Some EOF), s, now)
      else let step = ssSteps s ! ssIndex s
           in ((stChunk step, stErr step), s\<lparr>ssIndex := ssIndex s + 1\<rparr>, virtualClock_Advance (stDelay step) now))"

text \<open>A stream read to its first error: the chunks with the time each was returned at, the error, and the
  time it was returned at.\<close>

fun play :: "streamStep list \<Rightarrow> instant \<Rightarrow> (StreamChunk \<times> instant) list \<times> go_error \<times> instant" where
  "play [] now = ([], EOF, now)"
| "play (step # steps) now =
     (let now' = virtualClock_Advance (stDelay step) now in
      case stErr step of
        Some e \<Rightarrow> ([], e, now')
      | None \<Rightarrow> (case play steps now' of (cs, e, t) \<Rightarrow> ((stChunk step, now') # cs, e, t)))"

definition played :: "string \<Rightarrow> string \<Rightarrow> ProviderCondition \<Rightarrow> instant \<Rightarrow> (StreamChunk \<times> instant) list \<times> go_error \<times> instant" where
  "played name model condition now = play (ssSteps (newSimulatedStream None name model condition)) now"

section \<open>Metrics\<close>

record Result =
  rePolicy :: string
  reMode :: string
  reRequests :: u64
  reSuccessfulRequests :: u64
  reFailedRequests :: u64
  reSuccessRate :: "(u64 \<times> u64) option"
  reFallbackRequests :: u64
  reFallbackRate :: "(u64 \<times> u64) option"
  reAverageAttempts :: "(u64 \<times> u64) option"
  reCircuitSkips :: u64
  rePostCommitStreamFailures :: u64
  reP50LatencyMS :: "int option"
  reP95LatencyMS :: "int option"
  reP50TTFCMS :: "int option"
  reP95TTFCMS :: "int option"
  reP50StreamDurationMS :: "int option"
  reP95StreamDurationMS :: "int option"
  reTotalInputTokens :: u64
  reTotalOutputTokens :: u64
  reEstimatedCost :: u64
  reCostPerSuccess :: "u64 option"
  reFallbackInputTokens :: u64
  reFallbackOutputTokens :: u64
  reFallbackEstimatedCost :: u64
  reFallbackWithoutCost :: u64
  reInitialSelections :: "(string \<times> u64) list"
  reProviderAttempts :: "(string \<times> u64) list"
  reFallbackAttempts :: "(string \<times> u64) list"
  reExplorationSelections :: u64
  reExplorationRate :: "(u64 \<times> u64) option"
  reSelectionSwitches :: u64

record metricAccumulator =
  maResult :: Result
  maLatencies :: "duration list"
  maTTFCs :: "duration list"
  maStreamDurations :: "duration list"
  maAttempts :: u64
  maLastSelection :: string

definition newMetricAccumulator :: "string \<Rightarrow> string \<Rightarrow> metricAccumulator" where
  "newMetricAccumulator policy mode =
     \<lparr>maResult = \<lparr>rePolicy = policy, reMode = mode, reRequests = 0, reSuccessfulRequests = 0, reFailedRequests = 0,
        reSuccessRate = None, reFallbackRequests = 0, reFallbackRate = None, reAverageAttempts = None,
        reCircuitSkips = 0, rePostCommitStreamFailures = 0, reP50LatencyMS = None, reP95LatencyMS = None,
        reP50TTFCMS = None, reP95TTFCMS = None, reP50StreamDurationMS = None, reP95StreamDurationMS = None,
        reTotalInputTokens = 0, reTotalOutputTokens = 0, reEstimatedCost = 0, reCostPerSuccess = None,
        reFallbackInputTokens = 0, reFallbackOutputTokens = 0, reFallbackEstimatedCost = 0,
        reFallbackWithoutCost = 0, reInitialSelections = [], reProviderAttempts = [], reFallbackAttempts = [],
        reExplorationSelections = 0, reExplorationRate = None, reSelectionSwitches = 0\<rparr>,
      maLatencies = [], maTTFCs = [], maStreamDurations = [], maAttempts = 0, maLastSelection = []\<rparr>"

text \<open>Nearest rank; the samples are not empty.\<close>

definition percentileMilliseconds :: "duration list \<Rightarrow> nat \<Rightarrow> int option" where
  "percentileMilliseconds values' percentile =
     (if values' = [] then None
      else let ordered = sort values'; rank = (percentile * length ordered + 99) div 100
           in Some (milliseconds (ordered ! (rank - 1))))"

definition totalAccounting :: "AccountingSnapshot \<Rightarrow> u64 \<times> u64 \<times> u64" where
  "totalAccounting snapshot =
     foldl (\<lambda>(inputTokens, outputTokens, cost) m.
        (inputTokens + agInputTokens m, outputTokens + agOutputTokens m, cost + agEstimatedCostMicroUSD m))
       (0, 0, 0) (snapModels snapshot)"

definition roundedQuotient :: "u64 \<Rightarrow> u64 \<Rightarrow> u64" where
  "roundedQuotient numerator denominator =
     (if numerator mod denominator \<ge> (denominator + 1) div 2 then numerator div denominator + 1
      else numerator div denominator)"

definition metrics_finish :: "metricAccumulator \<Rightarrow> AccountingSnapshot \<Rightarrow> AccountingSnapshot \<Rightarrow> Result" where
  "metrics_finish m accountingBefore accountingAfter =
     (let result = maResult m;
          rate = (\<lambda>n. if reRequests result \<noteq> 0 then Some (n, reRequests result) else None)
      in case (totalAccounting accountingBefore, totalAccounting accountingAfter) of
           ((in0, out0, cost0), (in1, out1, cost1)) \<Rightarrow>
             result\<lparr>reSuccessRate := rate (reSuccessfulRequests result),
               reFallbackRate := rate (reFallbackRequests result),
               reAverageAttempts := rate (maAttempts m),
               reExplorationRate := rate (reExplorationSelections result),
               reP50LatencyMS := percentileMilliseconds (maLatencies m) 50,
               reP95LatencyMS := percentileMilliseconds (maLatencies m) 95,
               reP50TTFCMS := percentileMilliseconds (maTTFCs m) 50,
               reP95TTFCMS := percentileMilliseconds (maTTFCs m) 95,
               reP50StreamDurationMS := percentileMilliseconds (maStreamDurations m) 50,
               reP95StreamDurationMS := percentileMilliseconds (maStreamDurations m) 95,
               reTotalInputTokens := in1 - in0, reTotalOutputTokens := out1 - out0,
               reEstimatedCost := cost1 - cost0,
               reCostPerSuccess := (if reSuccessfulRequests result \<noteq> 0
                 then Some (roundedQuotient (cost1 - cost0) (reSuccessfulRequests result)) else None)\<rparr>)"

section \<open>Timing of the simulated providers\<close>

lemma sim_Next_play:
  assumes "ssIndex s < length (ssSteps s)"
  shows "play (drop (ssIndex s) (ssSteps s)) now =
    (case sim_Next None s now of ((chunk, err), s', now') \<Rightarrow>
       case err of Some e \<Rightarrow> ([], e, now')
       | None \<Rightarrow> (case play (drop (ssIndex s') (ssSteps s')) now' of (cs, e, t) \<Rightarrow> ((chunk, now') # cs, e, t)))"
  using assms by (simp add: sim_Next_def Let_def Cons_nth_drop_Suc [symmetric] split: option.split)

definition in_range :: "duration \<Rightarrow> bool" where
  "in_range d \<longleftrightarrow> d \<le> MaxInt64"

lemma remaining_exact:
  "0 \<le> t \<Longrightarrow> t \<le> d \<Longrightarrow> in_range d \<Longrightarrow> i64_wrap (d - t) = d - t"
  by (rule i64_wrap_id) (simp add: in_i64_def in_range_def MinInt64_def)

lemma mergeUsage_None: "mergeUsage None u = u"
  by (cases u) (simp_all add: mergeUsage_def Let_def)

lemma failure_play:
  assumes "err \<noteq> None"
  shows "play (failure_steps name model usage err d) now =
    ((if usage = None then [] else [(stChunk (usage_step name model usage [] d), now + d)]), the err, now + d)"
  using assms
  by (auto simp: failure_steps_def error_step_def usage_step_def virtualClock_Advance_def time_add_def Let_def)

lemma conditionError_failed: "condition_failed c \<Longrightarrow> \<exists>e. conditionError None name c = Some e \<and> e \<noteq> EOF"
  by (auto simp: condition_failed_def conditionError_def NewError_def)

lemma played_exact:
  assumes c: "condition_wf ModeStreaming c" and range: "in_range (pcStreamDuration c)"
    and p: "played name model c now = (cs, e, t)"
  shows "t = now + pcStreamDuration c" "e = EOF \<longleftrightarrow> \<not> condition_failed c"
    "find (\<lambda>(k, _). ckContent k \<noteq> []) cs =
      (if pcStreamFailure c = FailureBeforeCommit then None
       else Some (stChunk (content_step name model (pcTTFC c)), now + pcTTFC c))"
    "merged_usage None (map fst cs) = pcUsage c"
proof -
  have m: "ModeStreaming \<noteq> ModeNonStreaming" "FailureBeforeCommit \<noteq> []" "FailureAfterCommit \<noteq> []"
    "FailureAfterCommit \<noteq> FailureBeforeCommit"
    by (simp_all add: ModeStreaming_def ModeNonStreaming_def FailureBeforeCommit_def FailureAfterCommit_def)
  have r: "i64_wrap (pcStreamDuration c - pcTTFC c) = pcStreamDuration c - pcTTFC c"
    using c m range by (intro remaining_exact) (simp_all add: condition_wf_def)
  consider "pcStreamFailure c = []" "\<not> condition_failed c"
    | "pcStreamFailure c = FailureBeforeCommit" "condition_failed c"
    | "pcStreamFailure c = FailureAfterCommit" "condition_failed c"
    using c m by (auto simp: condition_wf_def)
  then have "t = now + pcStreamDuration c \<and> (e = EOF \<longleftrightarrow> \<not> condition_failed c) \<and>
    find (\<lambda>(k, _). ckContent k \<noteq> []) cs =
      (if pcStreamFailure c = FailureBeforeCommit then None
       else Some (stChunk (content_step name model (pcTTFC c)), now + pcTTFC c)) \<and>
    merged_usage None (map fst cs) = pcUsage c"
  proof cases
    case 1
    then show ?thesis using p m
      by (auto simp: played_def newSimulatedStream_def Let_def r content_step_def usage_step_def error_step_def
          virtualClock_Advance_def time_add_def merged_usage_def mergeUsage_None zero_chunk_def)
  next
    case 2
    obtain err where e: "conditionError None name c = Some err" "err \<noteq> EOF"
      using conditionError_failed [OF 2(2)] by blast
    show ?thesis using p m 2 e
      by (auto simp: played_def newSimulatedStream_def Let_def failure_play usage_step_def zero_chunk_def
          merged_usage_def mergeUsage_None split: if_splits)
  next
    case 3
    obtain err where e: "conditionError None name c = Some err" "err \<noteq> EOF"
      using conditionError_failed [OF 3(2)] by blast
    show ?thesis using p m 3 e
      by (auto simp: played_def newSimulatedStream_def Let_def failure_play r content_step_def usage_step_def zero_chunk_def
          virtualClock_Advance_def time_add_def merged_usage_def mergeUsage_None split: if_splits)
  qed
  then show "t = now + pcStreamDuration c" "e = EOF \<longleftrightarrow> \<not> condition_failed c"
    "find (\<lambda>(k, _). ckContent k \<noteq> []) cs =
      (if pcStreamFailure c = FailureBeforeCommit then None
       else Some (stChunk (content_step name model (pcTTFC c)), now + pcTTFC c))"
    "merged_usage None (map fst cs) = pcUsage c" by blast+
qed

section \<open>Property\<close>

text \<open>Percentiles are exact nearest ranks. The reported percentile \<open>p\<close> of any samples is one of
  them, in whole milliseconds: at least \<open>p\<close> percent of the samples are no greater, and fewer than \<open>p\<close>
  percent are less.\<close>

lemma percentile_nearest_rank:
  assumes "samples \<noteq> []" "0 < p" "p \<le> 100"
  shows "\<exists>v \<in> set samples. percentileMilliseconds samples p = Some (milliseconds v) \<and>
    p * length samples \<le> 100 * length (filter (\<lambda>x. x \<le> v) samples) \<and>
    100 * length (filter (\<lambda>x. x < v) samples) < p * length samples"
  using nearest_rank_sound [OF assms] assms(1) by (auto simp: percentileMilliseconds_def Let_def)

lemma percentile_nearest_rank_witness:
  "\<exists>v \<in> {30000000, 10000000, 20000000 :: int}.
     percentileMilliseconds [30000000, 10000000, 20000000] 50 = Some (milliseconds v) \<and> v = 20000000"
proof -
  let ?xs = "[30000000, 10000000, 20000000 :: int]"
  have "\<exists>v \<in> set ?xs. percentileMilliseconds ?xs 50 = Some (milliseconds v) \<and>
    50 * length ?xs \<le> 100 * length (filter (\<lambda>x. x \<le> v) ?xs) \<and> 100 * length (filter (\<lambda>x. x < v) ?xs) < 50 * length ?xs"
    by (rule percentile_nearest_rank) simp_all
  then obtain v where v: "v \<in> set ?xs" "percentileMilliseconds ?xs 50 = Some (milliseconds v)"
    "50 * length ?xs \<le> 100 * length (filter (\<lambda>x. x \<le> v) ?xs)" "100 * length (filter (\<lambda>x. x < v) ?xs) < 50 * length ?xs"
    by blast
  then have "v = 20000000" by auto
  then show ?thesis using v(2) by auto
qed

end
