(* ===== verification/Bench_Run.thy ===== *)
theory Bench_Run
  imports Bench_Metrics
begin

text \<open>
  The benchmark runner (\<open>internal/benchmark/runner.go\<close>): it drives the gateway of \<open>Service\<close> and
  \<open>Streaming\<close> through the requests of a scenario, under every policy, and accumulates the metrics.

  The clock as the runner sees it is exact: it moves by the latencies of the conditions that were played
  and by the gap between requests. The readings that the gateway itself makes of it during a request are
  the argument \<open>clocks\<close>, one function for every request; nothing is assumed of them.
\<close>

section \<open>The runner\<close>

subsection \<open>One request\<close>

type_synonym conditions = "string \<Rightarrow> ProviderCondition"

text \<open>\<open>prepareProviders\<close>: every simulated provider plays its condition of the request, the zero one where
  there is none.\<close>

definition prepareProviders :: "bench_request \<Rightarrow> conditions" where
  "prepareProviders request name =
     (case map_of (brConditions request) name of
        Some condition \<Rightarrow> condition
      | None \<Rightarrow> \<lparr>pcCompletionLatency = 0, pcTTFC = 0, pcStreamDuration = 0, pcErrorKind = [], pcCanceled = False,
          pcStreamFailure = [], pcUsage = None\<rparr>)"

text \<open>What the gateway meets during a request: the simulated providers, a context that is never done, a
  callback that never fails, and neither a history nor a cache.\<close>

definition bench_world :: "(nat \<Rightarrow> instant) \<Rightarrow> conditions \<Rightarrow> world" where
  "bench_world clock conditions =
     \<lparr>wNow = clock, wCtxErr = (\<lambda>_. None),
      wComplete = (\<lambda>_ name request. sim_Complete None name (conditions name) request),
      wStream = (\<lambda>_ name request. case played name (reqModel request) (conditions name) 0 of
         (cs, e, _) \<Rightarrow> Inr \<lparr>strChunks = map fst cs, strEnd = e\<rparr>),
      wEmit = (\<lambda>_ _. None), wRequestID = (\<lambda>_. None), wCacheGet = (\<lambda>_ _. Inl []), wCacheSet = (\<lambda>_ _ _ _. None)\<rparr>"

text \<open>The calls that the simulated providers note in the recorder.\<close>

fun noted_attempt :: "conditions \<Rightarrow> effect \<Rightarrow> attemptRecord list" where
  "noted_attempt conditions (CallComplete name request _ _) =
     [\<lparr>atProvider = name, atModel = reqModel request, atCondition = conditions name\<rparr>]"
| "noted_attempt conditions (CallStream name request _) =
     [\<lparr>atProvider = name, atModel = reqModel request, atCondition = conditions name\<rparr>]"
| "noted_attempt _ _ = []"

definition recorder_snapshot :: "conditions \<Rightarrow> Service \<Rightarrow> Service \<Rightarrow> attemptRecord list" where
  "recorder_snapshot conditions s s' =
     concat (map (noted_attempt conditions) (drop (length (core s)) (core s')))"

text \<open>The virtual clock over the attempts of a completion, and over those of a stream with the time at
  which the callback first saw content. Every stream is read to its end, since neither the context nor the
  callback fails.\<close>

definition complete_clock :: "attemptRecord list \<Rightarrow> instant \<Rightarrow> instant" where
  "complete_clock records now =
     foldl (\<lambda>t r. virtualClock_Advance (pcCompletionLatency (atCondition r)) t) now records"

fun stream_clock :: "attemptRecord list \<Rightarrow> instant \<Rightarrow> instant \<Rightarrow> instant \<times> instant" where
  "stream_clock [] now firstContentAt = (now, firstContentAt)"
| "stream_clock (r # records) now firstContentAt =
     (case played (atProvider r) (atModel r) (atCondition r) now of (cs, _, t) \<Rightarrow>
        stream_clock records t
          (if firstContentAt \<noteq> time_zero then firstContentAt
           else (case find (\<lambda>(c, _). ckContent c \<noteq> []) cs of None \<Rightarrow> firstContentAt | Some (_, t1) \<Rightarrow> t1)))"

record execution =
  exSuccess :: bool
  exFirstContentAt :: instant
  exErr :: "go_error option"
  exRecords :: "attemptRecord list"
  exFinished :: instant

definition bench_chat :: "string \<Rightarrow> ChatCompletionRequest" where
  "bench_chat mode = \<lparr>reqModel = General, reqMessages = [\<lparr>msgRole = ''user'', msgContent = []\<rparr>],
     reqStream = (mode = ModeStreaming)\<rparr>"

definition executeRequest ::
  "(nat \<Rightarrow> instant) \<Rightarrow> conditions \<Rightarrow> string \<Rightarrow> instant \<Rightarrow> Service \<Rightarrow> execution \<times> Service" where
  "executeRequest clock conditions mode now s =
     (if mode = ModeNonStreaming
      then (case Complete (bench_world clock conditions) None (bench_chat mode) s of ((_, err), s') \<Rightarrow>
              let records = recorder_snapshot conditions s s'
              in (\<lparr>exSuccess = (err = None), exFirstContentAt = time_zero, exErr = err, exRecords = records,
                   exFinished = complete_clock records now\<rparr>, s'))
      else (case Stream (bench_world clock conditions) None (bench_chat mode) s of (err, s') \<Rightarrow>
              let records = recorder_snapshot conditions s s'
              in case stream_clock records now time_zero of (finished, firstContentAt) \<Rightarrow>
                (\<lparr>exSuccess = (err = None), exFirstContentAt = firstContentAt, exErr = err, exRecords = records,
                  exFinished = finished\<rparr>, s')))"

definition freshSampleCount :: "ProviderTelemetrySnapshot option \<Rightarrow> string \<Rightarrow> instant \<Rightarrow> duration \<Rightarrow> int" where
  "freshSampleCount snapshot mode now maxAge =
     int (length (filter (\<lambda>x. \<not> smObservedAt x > now \<and> time_sub now (smObservedAt x) \<le> maxAge)
       (case snapshot of None \<Rightarrow> []
        | Some t \<Rightarrow> if mode = ModeStreaming then StreamingFirstContentSamples t else NonStreamingLatencySamples t)))"

fun exploration_target ::
  "Service \<Rightarrow> Scenario \<Rightarrow> instant \<Rightarrow> ProviderSpec list \<Rightarrow> string \<Rightarrow> int \<Rightarrow> string" where
  "exploration_target s sc now [] target largestDeficit = target"
| "exploration_target s sc now (spec # specs) target largestDeficit =
     (let fresh = freshSampleCount (telemetry_snapshot (svTelemetry s) (spName spec)) (scMode sc) now
            (rcSampleMaxAge (scRouting sc));
          missing = rcMinSamples (scRouting sc) - fresh
      in if fresh \<ge> rcMinSamples (scRouting sc) then exploration_target s sc now specs target largestDeficit
         else if missing > largestDeficit then exploration_target s sc now specs (spName spec) missing
         else exploration_target s sc now specs target largestDeficit)"

definition preRequestState :: "Service \<Rightarrow> Scenario \<Rightarrow> string \<Rightarrow> instant \<Rightarrow> u64 \<times> string" where
  "preRequestState s sc policy now =
     (let eligible = filter (\<lambda>spec. tracker_eligible (svHealth s) (spName spec) now) (scProviders sc);
          skips = of_nat (length (filter (\<lambda>spec. \<not> tracker_eligible (svHealth s) (spName spec) now) (scProviders sc)));
          target = exploration_target s sc now eligible [] 0
      in if policy \<noteq> RoutingPolicyLatency \<and> policy \<noteq> RoutingPolicyCostLatency then (skips, [])
         else if target = [] \<or> eligible = [] \<or> target = spName (hd eligible) then (skips, [])
         else (skips, target))"

definition addFallbackEconomics :: "PriceBook \<Rightarrow> attemptRecord \<Rightarrow> Result \<Rightarrow> Result" where
  "addFallbackEconomics prices record result =
     (let usage = pcUsage (atCondition record);
          tokens = (\<lambda>field. case usage of None \<Rightarrow> 0 | Some u \<Rightarrow> (case field u of None \<Rightarrow> 0 | Some n \<Rightarrow> n));
          r1 = result\<lparr>reFallbackInputTokens := reFallbackInputTokens result + tokens InputTokens,
                 reFallbackOutputTokens := reFallbackOutputTokens result + tokens OutputTokens\<rparr>
      in case EstimateMicroUSD usage (rates_for prices \<lparr>keyProvider = atProvider record, keyModel = atModel record\<rparr>) of
           None \<Rightarrow> r1\<lparr>reFallbackWithoutCost := reFallbackWithoutCost r1 + 1\<rparr>
         | Some cost \<Rightarrow> r1\<lparr>reFallbackEstimatedCost := reFallbackEstimatedCost r1 + cost\<rparr>)"

text \<open>\<open>m[key]++\<close> on a map of counters.\<close>

definition count_key :: "string \<Rightarrow> (string \<times> u64) list \<Rightarrow> (string \<times> u64) list" where
  "count_key key m = AList.update key ((case map_of m key of None \<Rightarrow> 0 | Some n \<Rightarrow> n) + 1) m"

definition measure_first :: "string \<Rightarrow> attemptRecord \<Rightarrow> metricAccumulator \<Rightarrow> metricAccumulator" where
  "measure_first explorationTarget record m =
     (let name = atProvider record; r = maResult m in
      m\<lparr>maResult := r\<lparr>reProviderAttempts := count_key name (reProviderAttempts r),
          reInitialSelections := count_key name (reInitialSelections r),
          reSelectionSwitches := reSelectionSwitches r +
            (if maLastSelection m \<noteq> [] \<and> maLastSelection m \<noteq> name then 1 else 0),
          reExplorationSelections := reExplorationSelections r +
            (if explorationTarget \<noteq> [] \<and> name = explorationTarget then 1 else 0)\<rparr>,
        maLastSelection := name\<rparr>)"

definition measure_fallback :: "PriceBook \<Rightarrow> attemptRecord \<Rightarrow> metricAccumulator \<Rightarrow> metricAccumulator" where
  "measure_fallback prices record m =
     (let name = atProvider record; r = maResult m in
      m\<lparr>maResult := addFallbackEconomics prices record
          (r\<lparr>reProviderAttempts := count_key name (reProviderAttempts r),
             reFallbackAttempts := count_key name (reFallbackAttempts r)\<rparr>)\<rparr>)"

fun measure_attempts ::
  "PriceBook \<Rightarrow> string \<Rightarrow> attemptRecord list \<Rightarrow> metricAccumulator \<Rightarrow> metricAccumulator" where
  "measure_attempts prices target [] m = m"
| "measure_attempts prices target (r # rs) m =
     foldl (\<lambda>a x. measure_fallback prices x a) (measure_first target r m) rs"

definition measure_outcome ::
  "string \<Rightarrow> u64 \<Rightarrow> instant \<Rightarrow> execution \<Rightarrow> metricAccumulator \<Rightarrow> metricAccumulator" where
  "measure_outcome mode circuitSkips started x m =
     (let r = maResult m;
          elapsed = time_sub (exFinished x) started;
          content = exFirstContentAt x \<noteq> time_zero;
          r1 = r\<lparr>reRequests := reRequests r + 1, reCircuitSkips := reCircuitSkips r + circuitSkips,
                 reSuccessfulRequests := reSuccessfulRequests r + (if exSuccess x then 1 else 0),
                 reFailedRequests := reFailedRequests r + (if exSuccess x then 0 else 1)\<rparr>;
          m1 = m\<lparr>maResult := r1, maAttempts := maAttempts m + of_nat (length (exRecords x))\<rparr>
      in if mode = ModeNonStreaming then m1\<lparr>maLatencies := maLatencies m1 @ [elapsed]\<rparr>
         else m1\<lparr>maStreamDurations := maStreamDurations m1 @ [elapsed],
                 maTTFCs := maTTFCs m1 @ (if content then [time_sub (exFirstContentAt x) started] else []),
                 maResult := r1\<lparr>rePostCommitStreamFailures := rePostCommitStreamFailures r1 +
                   (if content \<and> exErr x \<noteq> None then 1 else 0)\<rparr>\<rparr>)"

definition measure_request ::
  "PriceBook \<Rightarrow> string \<Rightarrow> u64 \<Rightarrow> string \<Rightarrow> instant \<Rightarrow> execution \<Rightarrow> metricAccumulator \<Rightarrow> metricAccumulator" where
  "measure_request prices mode circuitSkips target started x m =
     (let m1 = measure_attempts prices target (exRecords x) (measure_outcome mode circuitSkips started x m) in
      if length (exRecords x) > 1
      then m1\<lparr>maResult := (maResult m1)\<lparr>reFallbackRequests := reFallbackRequests (maResult m1) + 1\<rparr>\<rparr>
      else m1)"

subsection \<open>A policy\<close>

definition supportedPolicy :: "string \<Rightarrow> bool" where
  "supportedPolicy policy \<longleftrightarrow> policy \<in> set SupportedPolicies"

record requestTrace =
  qtID :: string
  qtAttempts :: "attemptRecord list"
  qtSuccess :: bool

definition scenario_prices :: "Scenario \<Rightarrow> PriceBook" where
  "scenario_prices sc = foldl (\<lambda>m spec. m(\<lparr>keyProvider = spName spec, keyModel = spModel spec\<rparr> \<mapsto> spRates spec))
     Map.empty (scProviders sc)"

definition scenario_service :: "Scenario \<Rightarrow> string \<Rightarrow> string + Service" where
  "scenario_service sc policy =
     (case newAutoService
        (Some (New_Resolver [General \<mapsto> foldl (\<lambda>m spec. m(spName spec \<mapsto> spModel spec)) Map.empty (scProviders sc)]))
        (scCircuit sc) ((scRouting sc)\<lparr>rcPolicy := policy\<rparr>)
        (map (\<lambda>spec. \<lparr>pvName = spName spec, pvStreaming = True\<rparr>) (scProviders sc)) of
       Inl err \<Rightarrow> Inl err
     | Inr s \<Rightarrow> Inr (SetPricing s (scenario_prices sc)))"

fun warm_up :: "(nat \<Rightarrow> nat \<Rightarrow> instant) \<Rightarrow> Scenario \<Rightarrow> nat \<Rightarrow> bench_request list \<Rightarrow> instant \<Rightarrow> Service \<Rightarrow> instant \<times> Service" where
  "warm_up clocks sc k [] now s = (now, s)"
| "warm_up clocks sc k (request # requests) now s =
     (case executeRequest (clocks k) (prepareProviders request) (scMode sc) now s of (x, s') \<Rightarrow>
        warm_up clocks sc (Suc k) requests (virtualClock_Advance (scInterRequestGap sc) (exFinished x)) s')"

fun measure_requests ::
  "(nat \<Rightarrow> nat \<Rightarrow> instant) \<Rightarrow> Scenario \<Rightarrow> string \<Rightarrow> nat \<Rightarrow> bench_request list \<Rightarrow> instant \<Rightarrow> Service
   \<Rightarrow> metricAccumulator \<Rightarrow> metricAccumulator \<times> requestTrace list \<times> Service" where
  "measure_requests clocks sc policy k [] now s m = (m, [], s)"
| "measure_requests clocks sc policy k (request # requests) now s m =
     (case preRequestState s sc policy now of (circuitSkips, target) \<Rightarrow>
      case executeRequest (clocks k) (prepareProviders request) (scMode sc) now s of (x, s') \<Rightarrow>
      case measure_requests clocks sc policy (Suc k) requests
             (virtualClock_Advance (scInterRequestGap sc) (exFinished x)) s'
             (measure_request (scenario_prices sc) (scMode sc) circuitSkips target now x m) of
        (m', trace, s'') \<Rightarrow>
          (m', \<lparr>qtID = brID request, qtAttempts = exRecords x, qtSuccess = exSuccess x\<rparr> # trace, s''))"

record policyRun =
  prResult :: Result
  prTrace :: "requestTrace list"

definition runPolicy ::
  "(nat \<Rightarrow> nat \<Rightarrow> instant) \<Rightarrow> Scenario \<Rightarrow> string \<Rightarrow> string \<Rightarrow> string + policyRun" where
  "runPolicy clocks sc state policy =
     (case scenario_service sc policy of
        Inl err \<Rightarrow> Inl err
      | Inr s0 \<Rightarrow>
          (case (if state = StateWarm then warm_up clocks sc 0 (scWarmup sc) newVirtualClock s0
                 else (newVirtualClock, s0)) of (now, s1) \<Rightarrow>
           case measure_requests clocks sc policy (length (scWarmup sc)) (scRequests sc) now s1
                  (newMetricAccumulator policy (scMode sc)) of (m, trace, s2) \<Rightarrow>
           Inr \<lparr>prResult = metrics_finish m (Accounting_Snapshot (svAccounting s1)) (Accounting_Snapshot (svAccounting s2)),
             prTrace = trace\<rparr>))"

subsection \<open>A comparison\<close>

record Comparison =
  cmScenario :: string
  cmScenarioVersion :: int
  cmState :: string
  cmResults :: "Result list"

datatype run_error =
    InvalidScenario scenario_error
  | InvalidState
  | UnsupportedPolicy string
  | PolicyFailed string string

fun run_policies ::
  "(string \<Rightarrow> nat \<Rightarrow> nat \<Rightarrow> instant) \<Rightarrow> Scenario \<Rightarrow> string \<Rightarrow> string list \<Rightarrow> run_error + Result list" where
  "run_policies clocks sc state [] = Inr []"
| "run_policies clocks sc state (policy # policies) =
     (if \<not> supportedPolicy policy then Inl (UnsupportedPolicy policy)
      else (case runPolicy (clocks policy) sc state policy of
              Inl err \<Rightarrow> Inl (PolicyFailed policy err)
            | Inr run \<Rightarrow> map_sum id (Cons (prResult run)) (run_policies clocks sc state policies)))"

definition RunComparison ::
  "(string \<Rightarrow> nat \<Rightarrow> nat \<Rightarrow> instant) \<Rightarrow> Scenario \<Rightarrow> string \<Rightarrow> string list \<Rightarrow> run_error + Comparison" where
  "RunComparison clocks sc state policies =
     (case Scenario_Validate sc of
        Some e \<Rightarrow> Inl (InvalidScenario e)
      | None \<Rightarrow>
          if state \<noteq> StateCold \<and> state \<noteq> StateWarm then Inl InvalidState
          else (case run_policies clocks sc state (if policies = [] then SupportedPolicies else policies) of
                  Inl e \<Rightarrow> Inl e
                | Inr results \<Rightarrow> Inr \<lparr>cmScenario = scName sc, cmScenarioVersion = scVersion sc, cmState = state,
                    cmResults = results\<rparr>))"

section \<open>Counting\<close>

definition count_of :: "(string \<times> u64) list \<Rightarrow> string \<Rightarrow> u64" where
  "count_of m key = (case map_of m key of None \<Rightarrow> 0 | Some n \<Rightarrow> n)"

lemma count_of_Nil [simp]: "count_of [] key = 0"
  by (simp add: count_of_def)

lemma count_of_count_key [simp]: "count_of (count_key k m) key = count_of m key + (if key = k then 1 else 0)"
  by (simp add: count_of_def count_key_def AList.update_conv')

definition attempt_names :: "requestTrace \<Rightarrow> string list" where
  "attempt_names t = map atProvider (qtAttempts t)"

text \<open>A result that says what a trace shows: how many requests there were, how many succeeded, failed and
  fell back, and how often each provider was tried, chosen first, and tried after another.\<close>

definition result_reflects :: "requestTrace list \<Rightarrow> Result \<Rightarrow> bool" where
  "result_reflects tr r \<longleftrightarrow>
     reRequests r = of_nat (length tr) \<and>
     reSuccessfulRequests r = of_nat (length (filter qtSuccess tr)) \<and>
     reFailedRequests r = of_nat (length (filter (Not \<circ> qtSuccess) tr)) \<and>
     reFallbackRequests r = of_nat (length (filter (\<lambda>t. 1 < length (qtAttempts t)) tr)) \<and>
     (\<forall>p. count_of (reProviderAttempts r) p = of_nat (count_list (concat (map attempt_names tr)) p) \<and>
       count_of (reInitialSelections r) p = of_nat (count_list (concat (map (take 1 \<circ> attempt_names) tr)) p) \<and>
       count_of (reFallbackAttempts r) p = of_nat (count_list (concat (map (tl \<circ> attempt_names) tr)) p))"

text \<open>What the loop over the attempts changes of the counters.\<close>

lemma addFallbackEconomics_counts [simp]:
  "rePolicy (addFallbackEconomics prices x r) = rePolicy r" "reMode (addFallbackEconomics prices x r) = reMode r"
  "reRequests (addFallbackEconomics prices x r) = reRequests r"
  "reSuccessfulRequests (addFallbackEconomics prices x r) = reSuccessfulRequests r"
  "reFailedRequests (addFallbackEconomics prices x r) = reFailedRequests r"
  "reFallbackRequests (addFallbackEconomics prices x r) = reFallbackRequests r"
  "reProviderAttempts (addFallbackEconomics prices x r) = reProviderAttempts r"
  "reInitialSelections (addFallbackEconomics prices x r) = reInitialSelections r"
  "reFallbackAttempts (addFallbackEconomics prices x r) = reFallbackAttempts r"
  by (simp_all add: addFallbackEconomics_def Let_def split: option.split)

definition same_counts :: "Result \<Rightarrow> Result \<Rightarrow> bool" where
  "same_counts r r' \<longleftrightarrow> rePolicy r' = rePolicy r \<and> reMode r' = reMode r \<and> reRequests r' = reRequests r \<and>
     reSuccessfulRequests r' = reSuccessfulRequests r \<and> reFailedRequests r' = reFailedRequests r \<and>
     reFallbackRequests r' = reFallbackRequests r"

lemma measure_fallbacks_counts:
  fixes m prices rs
  defines "m' \<equiv> foldl (\<lambda>a x. measure_fallback prices x a) m rs"
  shows "same_counts (maResult m) (maResult m') \<and> maAttempts m' = maAttempts m \<and>
    reInitialSelections (maResult m') = reInitialSelections (maResult m) \<and>
    count_of (reProviderAttempts (maResult m')) p =
      count_of (reProviderAttempts (maResult m)) p + of_nat (count_list (map atProvider rs) p) \<and>
    count_of (reFallbackAttempts (maResult m')) p =
      count_of (reFallbackAttempts (maResult m)) p + of_nat (count_list (map atProvider rs) p)"
  unfolding m'_def
  by (induction rs arbitrary: m) (simp_all add: measure_fallback_def Let_def same_counts_def)

lemma measure_attempts_counts:
  fixes m prices target rs
  defines "m' \<equiv> measure_attempts prices target rs m"
  shows "same_counts (maResult m) (maResult m')" "maAttempts m' = maAttempts m"
    "count_of (reProviderAttempts (maResult m')) p =
      count_of (reProviderAttempts (maResult m)) p + of_nat (count_list (map atProvider rs) p)"
    "count_of (reInitialSelections (maResult m')) p =
      count_of (reInitialSelections (maResult m)) p + of_nat (count_list (map atProvider (take 1 rs)) p)"
    "count_of (reFallbackAttempts (maResult m')) p =
      count_of (reFallbackAttempts (maResult m)) p + of_nat (count_list (map atProvider (tl rs)) p)"
  unfolding m'_def
  using measure_fallbacks_counts [of "measure_first target (hd rs) m" prices "tl rs" p]
  by (cases rs; simp add: same_counts_def measure_first_def Let_def)+

lemma measure_outcome_counts:
  fixes mode skips started x m
  defines "m' \<equiv> maResult (measure_outcome mode skips started x m)"
  shows "rePolicy m' = rePolicy (maResult m)" "reMode m' = reMode (maResult m)" "reRequests m' = reRequests (maResult m) + 1"
    "reSuccessfulRequests m' = reSuccessfulRequests (maResult m) + (if exSuccess x then 1 else 0)"
    "reFailedRequests m' = reFailedRequests (maResult m) + (if exSuccess x then 0 else 1)"
    "reFallbackRequests m' = reFallbackRequests (maResult m)"
    "reProviderAttempts m' = reProviderAttempts (maResult m)"
    "reInitialSelections m' = reInitialSelections (maResult m)"
    "reFallbackAttempts m' = reFallbackAttempts (maResult m)"
  unfolding m'_def by (simp_all add: measure_outcome_def Let_def)

lemma result_reflects_snoc:
  assumes "result_reflects tr (maResult m)"
  shows "result_reflects (tr @ [\<lparr>qtID = i, qtAttempts = exRecords x, qtSuccess = exSuccess x\<rparr>])
    (maResult (measure_request prices mode skips target started x m))"
proof -
  let ?m0 = "measure_outcome mode skips started x m"
  let ?m1 = "measure_attempts prices target (exRecords x) ?m0"
  let ?r = "maResult (measure_request prices mode skips target started x m)"
  note a = measure_attempts_counts [where m = ?m0 and prices = prices and target = target and rs = "exRecords x"]
  note o' = measure_outcome_counts [of mode skips started x m]
  have r: "reRequests ?r = reRequests (maResult ?m1)" "reSuccessfulRequests ?r = reSuccessfulRequests (maResult ?m1)"
    "reFailedRequests ?r = reFailedRequests (maResult ?m1)"
    "reFallbackRequests ?r = reFallbackRequests (maResult ?m1) + (if 1 < length (exRecords x) then 1 else 0)"
    "reProviderAttempts ?r = reProviderAttempts (maResult ?m1)"
    "reInitialSelections ?r = reInitialSelections (maResult ?m1)"
    "reFallbackAttempts ?r = reFallbackAttempts (maResult ?m1)"
    by (simp_all add: measure_request_def Let_def)
  show ?thesis
    using assms a(1) unfolding result_reflects_def r a(3-5) o' same_counts_def
    by (simp add: attempt_names_def o' take_map map_tl)
qed

section \<open>The gateway under test\<close>

text \<open>The gateway of a scenario, before and after any request.\<close>

definition serves :: "Scenario \<Rightarrow> Service \<Rightarrow> bool" where
  "serves sc s \<longleftrightarrow>
     svProviders s = map (\<lambda>spec. \<lparr>pvName = spName spec, pvStreaming = True\<rparr>) (scProviders sc) \<and>
     svResolver s = New_Resolver [General \<mapsto> foldl (\<lambda>m spec. m(spName spec \<mapsto> spModel spec)) Map.empty (scProviders sc)]"

lemma serves_static: "static s' = static s \<Longrightarrow> serves sc s \<Longrightarrow> serves sc s'"
  by (simp add: serves_def static_def)

lemma scenario_service_serves: "scenario_service sc policy = Inr s \<Longrightarrow> serves sc s"
  by (auto simp: scenario_service_def newAutoService_def build_service_def SetPricing_def serves_def
      split: sum.splits)

lemma spec_models_lookup:
  "distinct (map spName specs) \<Longrightarrow>
   foldl (\<lambda>m spec. m(spName spec \<mapsto> spModel spec)) m specs n =
     (case find (\<lambda>spec. spName spec = n) specs of None \<Rightarrow> m n | Some spec \<Rightarrow> Some (spModel spec))"
proof (induction specs arbitrary: m)
  case (Cons spec specs)
  have "find (\<lambda>sp. spName sp = spName spec) specs = None"
    unfolding find_None_iff using Cons.prems by (auto simp: image_iff)
  then show ?case using Cons by (auto split: option.split)
qed simp

text \<open>The attempts of a request: distinct providers of the scenario, each asked for its model and playing
  its condition of this request.\<close>

definition sound_attempts :: "Scenario \<Rightarrow> bench_request \<Rightarrow> attemptRecord list \<Rightarrow> bool" where
  "sound_attempts sc request records \<longleftrightarrow> distinct (map atProvider records) \<and>
     list_all (\<lambda>r. \<exists>spec \<in> set (scProviders sc). atProvider r = spName spec \<and> atModel r = spModel spec \<and>
       atCondition r = prepareProviders request (spName spec)) records"

lemma resolved_spec:
  assumes "serves sc s" "distinct (map spName (scProviders sc))" "resolve_for s (bench_chat mode) n = Inr m"
  shows "\<exists>spec \<in> set (scProviders sc). n = spName spec \<and> m = spModel spec"
proof -
  have "IsLogical General" by (simp add: IsLogical_def General_def LogicalPrefix_def HasPrefix_def)
  then obtain spec where "find (\<lambda>spec. spName spec = n) (scProviders sc) = Some spec" "m = spModel spec"
    using assms by (auto simp: resolve_for_def bench_chat_def Resolve_def serves_def spec_models_lookup Let_def
        split: option.splits if_splits)
  then show ?thesis by (auto simp: find_Some_iff)
qed

lemma sound_attempts_intro:
  assumes "serves sc s" "distinct (map spName (scProviders sc))" "mset order = mset (svProviders s)"
    "subseq (map name cs) (map pvName order)"
    "\<forall>c \<in> set cs. resolve_for s (bench_chat mode) (name c) = Inr (model c)"
  shows "sound_attempts sc request
    (map (\<lambda>c. \<lparr>atProvider = name c, atModel = model c, atCondition = prepareProviders request (name c)\<rparr>) cs)"
proof -
  have "mset (map pvName order) = mset (map spName (scProviders sc))"
    using assms(1,3) by (simp add: serves_def multiset.map_comp comp_def)
  then have "distinct (map pvName order)" using assms(2) by (metis mset_eq_imp_distinct_iff)
  then have "distinct (map name cs)" using assms(4) by (metis subseq_conv_nths distinct_nthsI)
  then show ?thesis
    using resolved_spec [OF assms(1,2)] assms(5) by (fastforce simp: sound_attempts_def list_all_iff comp_def)
qed

lemma executeRequest_sound:
  assumes x: "executeRequest clock (prepareProviders request) mode now s = (x, s')"
    and sc: "serves sc s" "distinct (map spName (scProviders sc))"
  shows "sound_attempts sc request (exRecords x)" "static s' = static s"
proof -
  let ?w = "bench_world clock (prepareProviders request)" and ?q = "bench_chat mode"
  have "sound_attempts sc request (exRecords x) \<and> static s' = static s"
  proof (cases "mode = ModeNonStreaming")
    case True
    let ?s = "snd (Complete ?w None ?q s)"
    have s': "s' = ?s" and r: "exRecords x = recorder_snapshot (prepareProviders request) s ?s"
      using x True by (auto simp: executeRequest_def Let_def split: prod.splits)
    obtain h order where c: "core ?s = core s @ concat (map call_effects (new_calls s ?s)) @
        (case h of None \<Rightarrow> [] | Some r \<Rightarrow> [SubmitHistory r])" "static ?s = static s"
      "mset order = mset (svProviders s)" "subseq (map call_name (new_calls s ?s)) (map pvName order)"
      "\<forall>c \<in> set (new_calls s ?s). \<exists>m. resolve_for s ?q (call_name c) = Inr m \<and> fst (snd c) = ?q\<lparr>reqModel := m\<rparr>"
      by (rule Complete_served [of ?w None ?q s])
    have "concat (map (noted_attempt cond) (concat (map call_effects cs))) =
        map (\<lambda>c. \<lparr>atProvider = call_name c, atModel = reqModel (fst (snd c)), atCondition = cond (call_name c)\<rparr>) cs" for cond cs
      by (induction cs) (auto simp: call_effects_def call_name_def)
    then have "exRecords x = map (\<lambda>c. \<lparr>atProvider = call_name c, atModel = reqModel (fst (snd c)),
        atCondition = prepareProviders request (call_name c)\<rparr>) (new_calls s ?s)"
      unfolding r recorder_snapshot_def by (subst c(1)) (cases h; simp)
    moreover have "\<forall>c \<in> set (new_calls s ?s). resolve_for s ?q (call_name c) = Inr (reqModel (fst (snd c)))"
      using c(5) by fastforce
    ultimately show ?thesis using sound_attempts_intro [OF sc c(3,4)] c(2) s' by simp
  next
    case False
    let ?s = "snd (Stream ?w None ?q s)"
    have s': "s' = ?s" and r: "exRecords x = recorder_snapshot (prepareProviders request) s ?s"
      using x False by (auto simp: executeRequest_def Let_def split: prod.splits)
    obtain sas rs order where c: "stream_trace s ?s sas rs" "static ?s = static s"
      "mset order = mset (svProviders s)" "subseq (map saName sas) (map pvName order)"
      "\<forall>sa \<in> set sas. attempt_sound ?q sa \<and>
        (\<exists>m. resolve_for s ?q (saName sa) = Inr m \<and> saRequest sa = ?q\<lparr>reqModel := m\<rparr>)"
      by (rule Stream_streamed [where w = ?w and ctx = None and req = ?q and s = s])
    have e: "concat (map (noted_attempt cond) (map (Emit n) es)) = []"
      "concat (map (noted_attempt cond) (map SubmitHistory hs)) = []" for cond n es hs
      by (induction es) (simp, simp, induction hs, simp_all)
    have "concat (map (noted_attempt cond) (concat (map attempt_effects cs))) =
        map (\<lambda>c. \<lparr>atProvider = saName c, atModel = reqModel (saRequest c), atCondition = cond (saName c)\<rparr>) cs" for cond cs
      by (induction cs) (auto simp: attempt_effects_def e simp del: map_map)
    then have "exRecords x = map (\<lambda>c. \<lparr>atProvider = saName c, atModel = reqModel (saRequest c),
        atCondition = prepareProviders request (saName c)\<rparr>) sas"
      using c(1) unfolding r recorder_snapshot_def stream_trace_def by (simp add: e del: map_map)
    moreover have "\<forall>c \<in> set sas. resolve_for s ?q (saName c) = Inr (reqModel (saRequest c))"
      using c(5) by fastforce
    ultimately show ?thesis using sound_attempts_intro [OF sc c(3,4)] c(2) s' by simp
  qed
  then show "sound_attempts sc request (exRecords x)" "static s' = static s" by simp_all
qed

section \<open>A run\<close>

lemma warm_up_static:
  assumes "warm_up clocks sc k rs now s = (now', s')" "serves sc s" "distinct (map spName (scProviders sc))"
  shows "serves sc s'"
  using assms
proof (induction rs arbitrary: k now s)
  case (Cons r rs)
  then show ?case
    using executeRequest_sound(2) [OF _ Cons.prems(2,3)] serves_static by (auto split: prod.splits)
qed simp

definition trace_sound :: "Scenario \<Rightarrow> bench_request \<Rightarrow> requestTrace \<Rightarrow> bool" where
  "trace_sound sc request t \<longleftrightarrow> qtID t = brID request \<and> sound_attempts sc request (qtAttempts t)"

lemma measure_requests_reflects:
  assumes "measure_requests clocks sc policy k rs now s m = (m', tr', s')" "result_reflects tr (maResult m)"
  shows "result_reflects (tr @ tr') (maResult m') \<and> map qtID tr' = map brID rs"
  using assms
proof (induction rs arbitrary: k now s m tr tr')
  case (Cons r rs)
  obtain skips target x s1 m2 tr2 where
    x: "preRequestState s sc policy now = (skips, target)"
    "executeRequest (clocks k) (prepareProviders r) (scMode sc) now s = (x, s1)"
    "measure_requests clocks sc policy (Suc k) rs (virtualClock_Advance (scInterRequestGap sc) (exFinished x)) s1
       (measure_request (scenario_prices sc) (scMode sc) skips target now x m) = (m', tr2, s')"
    "tr' = \<lparr>qtID = brID r, qtAttempts = exRecords x, qtSuccess = exSuccess x\<rparr> # tr2"
    using Cons.prems(1) by (auto split: prod.splits)
  from Cons.IH [OF x(3) result_reflects_snoc [OF Cons.prems(2), where i = "brID r"]] x(4) show ?case by simp
qed simp

lemma measure_requests_sound:
  assumes "measure_requests clocks sc policy k rs now s m = (m', tr, s')" "serves sc s"
    "distinct (map spName (scProviders sc))"
  shows "list_all2 (trace_sound sc) rs tr"
  using assms
proof (induction rs arbitrary: k now s m tr)
  case (Cons r rs)
  obtain skips target x s1 m2 tr2 where
    x: "executeRequest (clocks k) (prepareProviders r) (scMode sc) now s = (x, s1)"
    "measure_requests clocks sc policy (Suc k) rs (virtualClock_Advance (scInterRequestGap sc) (exFinished x)) s1
       (measure_request (scenario_prices sc) (scMode sc) skips target now x m) = (m', tr2, s')"
    "tr = \<lparr>qtID = brID r, qtAttempts = exRecords x, qtSuccess = exSuccess x\<rparr> # tr2"
    using Cons.prems(1) by (auto split: prod.splits)
  note e = executeRequest_sound [OF x(1) Cons.prems(2,3)]
  from Cons.IH [OF x(2) serves_static [OF e(2) Cons.prems(2)] Cons.prems(3)] e(1) x(3)
  show ?case by (simp add: trace_sound_def)
qed simp

lemma result_reflects_finish:
  "result_reflects tr (maResult m) \<Longrightarrow> result_reflects tr (metrics_finish m a b)"
  by (simp add: result_reflects_def metrics_finish_def Let_def split: prod.split)

section \<open>Measured times\<close>

text \<open>What a request took, by the conditions that its attempts played: their latencies added up, and for
  a stream the time up to the first content, where there is any.\<close>

definition attempts_time :: "string \<Rightarrow> attemptRecord list \<Rightarrow> duration" where
  "attempts_time mode records =
     sum_list (map (if mode = ModeNonStreaming then pcCompletionLatency else pcStreamDuration) (map atCondition records))"

fun content_time :: "attemptRecord list \<Rightarrow> duration option" where
  "content_time [] = None"
| "content_time (r # records) =
     (if pcStreamFailure (atCondition r) = FailureBeforeCommit
      then map_option (\<lambda>d. pcStreamDuration (atCondition r) + d) (content_time records)
      else Some (pcTTFC (atCondition r)))"

definition playable :: "string \<Rightarrow> ProviderCondition \<Rightarrow> bool" where
  "playable mode c \<longleftrightarrow> condition_wf mode c \<and> in_range (pcStreamDuration c)"

lemma playable_times: "playable mode c \<Longrightarrow> 0 \<le> pcCompletionLatency c \<and> 0 \<le> pcStreamDuration c \<and> 0 \<le> pcTTFC c"
  by (simp add: playable_def condition_wf_def)

lemma attempts_time_nonneg: "list_all (playable m \<circ> atCondition) records \<Longrightarrow> 0 \<le> attempts_time mode records"
  by (induction records) (auto simp: attempts_time_def dest!: playable_times)

lemma complete_clock_exact: "complete_clock records now = now + attempts_time ModeNonStreaming records"
  by (induction records arbitrary: now)
    (simp_all add: complete_clock_def attempts_time_def virtualClock_Advance_def time_add_def)

lemma modes_differ [simp]: "ModeStreaming \<noteq> ModeNonStreaming"
  by (simp add: ModeStreaming_def ModeNonStreaming_def)

lemma stream_clock_exact:
  assumes "list_all (playable ModeStreaming \<circ> atCondition) records" "0 < now" "0 \<le> first"
  shows "stream_clock records now first = (now + attempts_time ModeStreaming records,
    if first \<noteq> 0 then first else (case content_time records of None \<Rightarrow> 0 | Some d \<Rightarrow> now + d))"
  using assms
proof (induction records arbitrary: now first)
  case (Cons r records)
  let ?c = "atCondition r"
  have c: "condition_wf ModeStreaming ?c" "in_range (pcStreamDuration ?c)"
    using Cons.prems(1) by (simp_all add: playable_def)
  obtain cs e t where p: "played (atProvider r) (atModel r) ?c now = (cs, e, t)" by (metis prod_cases3)
  note f = played_exact [OF c p]
  have n: "0 \<le> pcStreamDuration ?c" "0 \<le> pcTTFC ?c" using c(1) by (simp_all add: condition_wf_def)
  have later: "0 < now + pcStreamDuration ?c" "0 < now + pcTTFC ?c" using n Cons.prems(2) by simp_all
  have rest: "list_all (playable ModeStreaming \<circ> atCondition) records" using Cons.prems(1) by (simp add: comp_def)
  show ?case
    using Cons.IH [OF rest later(1)] f(1,3) p later Cons.prems(2,3)
    by (auto simp: attempts_time_def split: option.split)
qed (simp add: attempts_time_def)

lemma executeRequest_times:
  assumes "executeRequest clock conditions mode now s = (x, s')" "mode = ModeNonStreaming \<or> mode = ModeStreaming"
    "list_all (playable mode \<circ> atCondition) (exRecords x)" "0 < now"
  shows "exFinished x = now + attempts_time mode (exRecords x)"
    "exFirstContentAt x = (if mode = ModeNonStreaming then 0
       else (case content_time (exRecords x) of None \<Rightarrow> 0 | Some d \<Rightarrow> now + d))"
  using assms stream_clock_exact [of "exRecords x" now 0]
  by (auto simp: executeRequest_def Let_def complete_clock_exact split: prod.splits)

lemma content_time_nonneg:
  "list_all (playable ModeStreaming \<circ> atCondition) records \<Longrightarrow> content_time records = Some d \<Longrightarrow> 0 \<le> d"
  by (induction records arbitrary: d) (auto dest!: playable_times split: if_splits)

text \<open>The samples that the metrics keep.\<close>

definition samples_reflect :: "string \<Rightarrow> requestTrace list \<Rightarrow> metricAccumulator \<Rightarrow> bool" where
  "samples_reflect mode tr m \<longleftrightarrow>
     (let times = map (\<lambda>t. time_sub (attempts_time mode (qtAttempts t)) 0) tr;
          ttfcs = map (\<lambda>d. time_sub d 0) (List.map_filter (content_time \<circ> qtAttempts) tr)
      in if mode = ModeNonStreaming then maLatencies m = times \<and> maTTFCs m = [] \<and> maStreamDurations m = []
         else maLatencies m = [] \<and> maTTFCs m = ttfcs \<and> maStreamDurations m = times)"

lemma measure_fallbacks_samples:
  "maLatencies (foldl (\<lambda>a x. measure_fallback prices x a) m rs) = maLatencies m \<and>
   maTTFCs (foldl (\<lambda>a x. measure_fallback prices x a) m rs) = maTTFCs m \<and>
   maStreamDurations (foldl (\<lambda>a x. measure_fallback prices x a) m rs) = maStreamDurations m"
  by (induction rs arbitrary: m) (simp_all add: measure_fallback_def Let_def)

lemma measure_request_samples:
  fixes prices mode skips target started x m
  defines "m' \<equiv> measure_request prices mode skips target started x m"
    and "m0 \<equiv> measure_outcome mode skips started x m"
  shows "maLatencies m' = maLatencies m0" "maTTFCs m' = maTTFCs m0" "maStreamDurations m' = maStreamDurations m0"
proof -
  have "maLatencies (measure_attempts prices target rs m0) = maLatencies m0 \<and>
    maTTFCs (measure_attempts prices target rs m0) = maTTFCs m0 \<and>
    maStreamDurations (measure_attempts prices target rs m0) = maStreamDurations m0" for rs
    by (cases rs) (simp_all add: measure_fallbacks_samples measure_first_def Let_def)
  then show "maLatencies m' = maLatencies m0" "maTTFCs m' = maTTFCs m0" "maStreamDurations m' = maStreamDurations m0"
    by (simp_all add: m'_def measure_request_def Let_def m0_def)
qed

lemma time_sub_shift: "time_sub (t + d) t = time_sub d 0"
  by (simp add: time_sub_def)

lemma map_filter_append: "List.map_filter f (xs @ ys) = List.map_filter f xs @ List.map_filter f ys"
  by (simp add: List.map_filter_def)

lemma samples_reflect_snoc:
  assumes x: "executeRequest clock conditions mode now s = (x, s')" "mode = ModeNonStreaming \<or> mode = ModeStreaming"
    "list_all (playable mode \<circ> atCondition) (exRecords x)" "0 < now" and m: "samples_reflect mode tr m"
  shows "samples_reflect mode (tr @ [\<lparr>qtID = i, qtAttempts = exRecords x, qtSuccess = exSuccess x\<rparr>])
    (measure_request prices mode skips target now x m)"
proof -
  note t = executeRequest_times [OF x]
  have "now + d \<noteq> 0" if "content_time (exRecords x) = Some d" "mode = ModeStreaming" for d
    using content_time_nonneg [OF _ that(1)] x(3,4) that(2) by fastforce
  then show ?thesis
    using m x(2) unfolding samples_reflect_def measure_request_samples Let_def
    by (auto simp: measure_outcome_def Let_def t time_sub_shift map_filter_append List.map_filter_simps split: option.split)
qed

text \<open>The times of a scenario are 64-bit durations.\<close>

definition scenario_in_range :: "Scenario \<Rightarrow> bool" where
  "scenario_in_range sc \<longleftrightarrow>
     list_all (\<lambda>r. list_all (in_range \<circ> pcStreamDuration \<circ> snd) (brConditions r)) (scWarmup sc @ scRequests sc)"

definition request_playable :: "Scenario \<Rightarrow> bench_request \<Rightarrow> bool" where
  "request_playable sc r \<longleftrightarrow> request_wf (scMode sc) (map spName (scProviders sc)) r \<and>
     list_all (in_range \<circ> pcStreamDuration \<circ> snd) (brConditions r)"

lemma scenario_playable:
  "scenario_valid sc \<Longrightarrow> scenario_in_range sc \<Longrightarrow> list_all (request_playable sc) (scWarmup sc @ scRequests sc)"
  by (auto simp: scenario_valid_def scenario_in_range_def request_playable_def list_all_iff)

lemma sound_playable:
  assumes "sound_attempts sc r records" "request_playable sc r"
  shows "list_all (playable (scMode sc) \<circ> atCondition) records"
proof -
  have "playable (scMode sc) (atCondition a)" if a: "a \<in> set records" for a
  proof -
    obtain spec where spec: "spec \<in> set (scProviders sc)" "atCondition a = prepareProviders r (spName spec)"
      using assms(1) a by (auto simp: sound_attempts_def list_all_iff)
    then obtain c where c: "map_of (brConditions r) (spName spec) = Some c" "condition_wf (scMode sc) c"
      using assms(2) by (fastforce simp: request_playable_def request_wf_def conditions_wf_def list_all_iff)
    moreover have "in_range (pcStreamDuration c)"
      using assms(2) map_of_SomeD [OF c(1)] by (auto simp: request_playable_def list_all_iff)
    ultimately show ?thesis using spec(2) by (simp add: prepareProviders_def playable_def)
  qed
  then show ?thesis by (simp add: list_all_iff)
qed

text \<open>A gateway on its scenario, at a time the clock can show.\<close>

definition running :: "Scenario \<Rightarrow> instant \<Rightarrow> Service \<Rightarrow> bool" where
  "running sc now s \<longleftrightarrow> serves sc s \<and> 0 < now \<and> distinct (map spName (scProviders sc)) \<and>
     0 \<le> scInterRequestGap sc \<and> (scMode sc = ModeNonStreaming \<or> scMode sc = ModeStreaming)"

lemma running_step:
  assumes x: "executeRequest clock (prepareProviders r) (scMode sc) now s = (x, s')"
    and run: "running sc now s" and r: "request_playable sc r"
  shows "list_all (playable (scMode sc) \<circ> atCondition) (exRecords x)"
    "running sc (virtualClock_Advance (scInterRequestGap sc) (exFinished x)) s'"
proof -
  have d: "serves sc s" "distinct (map spName (scProviders sc))" using run by (simp_all add: running_def)
  note e = executeRequest_sound [OF x d]
  show p: "list_all (playable (scMode sc) \<circ> atCondition) (exRecords x)" using e(1) r by (rule sound_playable)
  have "exFinished x = now + attempts_time (scMode sc) (exRecords x)"
    using executeRequest_times(1) [OF x _ p] run by (simp add: running_def)
  moreover have "0 \<le> attempts_time (scMode sc) (exRecords x)" using p by (rule attempts_time_nonneg)
  ultimately show "running sc (virtualClock_Advance (scInterRequestGap sc) (exFinished x)) s'"
    using run serves_static [OF e(2) d(1)] by (simp add: running_def virtualClock_Advance_def time_add_def)
qed

lemma warm_up_running:
  assumes "warm_up clocks sc k rs now s = (now', s')" "running sc now s" "list_all (request_playable sc) rs"
  shows "running sc now' s'"
  using assms
proof (induction rs arbitrary: k now s)
  case (Cons r rs)
  then show ?case using running_step(2) [OF _ Cons.prems(2)] by (auto split: prod.splits)
qed simp

lemma measure_requests_samples:
  assumes "measure_requests clocks sc policy k rs now s m = (m', tr', s')" "running sc now s"
    "list_all (request_playable sc) rs" "samples_reflect (scMode sc) tr m"
  shows "samples_reflect (scMode sc) (tr @ tr') m'"
  using assms
proof (induction rs arbitrary: k now s m tr tr')
  case (Cons r rs)
  obtain skips target x s1 tr2 where
    x: "executeRequest (clocks k) (prepareProviders r) (scMode sc) now s = (x, s1)"
    "measure_requests clocks sc policy (Suc k) rs (virtualClock_Advance (scInterRequestGap sc) (exFinished x)) s1
       (measure_request (scenario_prices sc) (scMode sc) skips target now x m) = (m', tr2, s')"
    "tr' = \<lparr>qtID = brID r, qtAttempts = exRecords x, qtSuccess = exSuccess x\<rparr> # tr2"
    using Cons.prems(1) by (auto split: prod.splits)
  have p: "request_playable sc r" "list_all (request_playable sc) rs" using Cons.prems(3) by simp_all
  note e = running_step [OF x(1) Cons.prems(2) p(1)]
  have "samples_reflect (scMode sc) (tr @ [\<lparr>qtID = brID r, qtAttempts = exRecords x, qtSuccess = exSuccess x\<rparr>])
      (measure_request (scenario_prices sc) (scMode sc) skips target now x m)"
    using Cons.prems(2) by (intro samples_reflect_snoc [OF x(1) _ e(1) _ Cons.prems(4)]) (simp_all add: running_def)
  from Cons.IH [OF x(2) e(2) p(2) this] x(3) show ?case by simp
qed simp

section \<open>Properties\<close>

lemma runPolicy_total:
  assumes "scenario_runnable sc" "supportedPolicy policy"
  shows "\<exists>run. runPolicy clocks sc state policy = Inr run"
proof -
  obtain r where "newRoutingPolicy ((scRouting sc)\<lparr>rcPolicy := policy\<rparr>) = Inr r"
    using assms by (auto simp: scenario_runnable_def supportedPolicy_def list_all_iff)
  then show ?thesis
    by (auto simp: runPolicy_def scenario_service_def newAutoService_def split: prod.split)
qed

lemma runPolicy_reflects:
  assumes "runPolicy clocks sc state policy = Inr run"
  shows "result_reflects (prTrace run) (prResult run)" "map qtID (prTrace run) = map brID (scRequests sc)"
proof -
  obtain now s1 m trace s2 k where
    m: "measure_requests clocks sc policy k (scRequests sc) now s1 (newMetricAccumulator policy (scMode sc)) = (m, trace, s2)"
    and run: "run = \<lparr>prResult = metrics_finish m (Accounting_Snapshot (svAccounting s1))
      (Accounting_Snapshot (svAccounting s2)), prTrace = trace\<rparr>"
    using assms by (auto simp: runPolicy_def split: sum.splits prod.splits)
  have "result_reflects [] (maResult (newMetricAccumulator policy (scMode sc)))"
    by (simp add: result_reflects_def newMetricAccumulator_def)
  from measure_requests_reflects [OF m this]
  show "result_reflects (prTrace run) (prResult run)" "map qtID (prTrace run) = map brID (scRequests sc)"
    by (simp_all add: run result_reflects_finish)
qed

lemma runPolicy_sound:
  assumes "runPolicy clocks sc state policy = Inr run" "distinct (map spName (scProviders sc))"
  shows "list_all2 (trace_sound sc) (scRequests sc) (prTrace run)"
proof -
  obtain s0 now s1 m s2 k where s: "scenario_service sc policy = Inr s0"
    "(if state = StateWarm then warm_up clocks sc 0 (scWarmup sc) newVirtualClock s0 else (newVirtualClock, s0)) = (now, s1)"
    "measure_requests clocks sc policy k (scRequests sc) now s1 (newMetricAccumulator policy (scMode sc)) = (m, prTrace run, s2)"
    using assms(1) by (auto simp: runPolicy_def split: sum.splits prod.splits)
  have "serves sc s1"
    using scenario_service_serves [OF s(1)] s(2) warm_up_static [OF _ _ assms(2)] by (auto split: if_splits)
  from measure_requests_sound [OF s(3) this assms(2)] show ?thesis .
qed

lemma run_policies_total:
  assumes "scenario_runnable sc" "list_all supportedPolicy policies"
  shows "\<exists>results. run_policies clocks sc state policies = Inr results \<and>
    list_all2 (\<lambda>policy result. \<exists>run. runPolicy (clocks policy) sc state policy = Inr run \<and> result = prResult run)
      policies results"
  using assms(2)
proof (induction policies)
  case (Cons policy policies)
  obtain run where "runPolicy (clocks policy) sc state policy = Inr run"
    using runPolicy_total [OF assms(1)] Cons.prems by fastforce
  then show ?case using Cons by auto
qed simp

lemma reflects_total: "result_reflects tr r \<Longrightarrow> reSuccessfulRequests r + reFailedRequests r = reRequests r"
  by (simp add: result_reflects_def of_nat_add [symmetric] sum_length_filter_compl comp_def del: of_nat_add)

lemma RunComparison_total:
  assumes w: "scenario_runnable sc" and state: "state = StateCold \<or> state = StateWarm"
    and policies: "list_all supportedPolicy policies"
  obtains c where "RunComparison clocks sc state policies = Inr c" "cmScenario c = scName sc" "cmState c = state"
    "list_all2 (\<lambda>policy result. \<exists>run. runPolicy (clocks policy) sc state policy = Inr run \<and> result = prResult run)
      (if policies = [] then SupportedPolicies else policies) (cmResults c)"
proof -
  have v: "Scenario_Validate sc = None" using w by (simp add: Validate_iff scenario_runnable_def)
  let ?ps = "if policies = [] then SupportedPolicies else policies"
  have "list_all supportedPolicy ?ps" using policies by (simp add: supportedPolicy_def list_all_iff)
  then obtain results where "run_policies clocks sc state ?ps = Inr results"
    "list_all2 (\<lambda>policy result. \<exists>run. runPolicy (clocks policy) sc state policy = Inr run \<and> result = prResult run) ?ps results"
    using run_policies_total [OF w] by blast
  then show ?thesis
    using that [of "\<lparr>cmScenario = scName sc, cmScenarioVersion = scVersion sc, cmState = state, cmResults = results\<rparr>"]
      state v by (auto simp: RunComparison_def)
qed

text \<open>C26: Scenarios that can be read can be run. A scenario decoded from a fixture runs under any of the
  supported policies, and under all of them when none is named, cold or warm and whatever the gateway reads
  from the clock: the comparison has one result for every policy, in order, and every result accounts for
  each measured request as a success or a failure.\<close>

theorem decoded_scenarios_run:
  assumes "DecodeScenario ps r = Inr sc" "state = StateCold \<or> state = StateWarm"
    "list_all supportedPolicy policies"
  shows "\<exists>c. RunComparison clocks sc state policies = Inr c \<and>
    list_all2 (\<lambda>policy result. \<exists>run. runPolicy (clocks policy) sc state policy = Inr run \<and> result = prResult run)
      (if policies = [] then SupportedPolicies else policies) (cmResults c) \<and>
    list_all (\<lambda>result. reRequests result = of_nat (length (scRequests sc)) \<and>
      reSuccessfulRequests result + reFailedRequests result = reRequests result) (cmResults c)"
proof -
  let ?ps = "if policies = [] then SupportedPolicies else policies"
  obtain c where "RunComparison clocks sc state policies = Inr c" "cmScenario c = scName sc" "cmState c = state"
    "list_all2 (\<lambda>policy result. \<exists>run. runPolicy (clocks policy) sc state policy = Inr run \<and> result = prResult run)
      ?ps (cmResults c)"
    by (rule RunComparison_total [OF DecodeScenario_runnable [OF assms(1)] assms(2,3), where clocks = clocks])
  note c = this(1,4)
  have "reRequests result = of_nat (length (scRequests sc)) \<and>
      reSuccessfulRequests result + reFailedRequests result = reRequests result" if res: "result \<in> set (cmResults c)" for result
  proof -
    obtain policy run where run: "runPolicy (clocks policy) sc state policy = Inr run" "result = prResult run"
      using c(2) res by (auto simp: list_all2_conv_all_nth in_set_conv_nth)
    note f = runPolicy_reflects [OF run(1)]
    have "length (prTrace run) = length (scRequests sc)" using f(2) by (metis length_map)
    then show ?thesis using f(1) reflects_total [OF f(1)] run(2) by (simp add: result_reflects_def)
  qed
  then show ?thesis using c by (auto simp: list_all_iff)
qed

theorem decoded_scenarios_run_witness:
  "\<exists>c. RunComparison (\<lambda>_ _ _. 1) (demo_scenario ''stable'') StateCold [] = Inr c \<and>
     length (cmResults c) = 4 \<and> list_all (\<lambda>result. reRequests result = 1) (cmResults c)"
proof -
  have "DecodeScenario demo_parsers (demo_reader ''stable'') = Inr (demo_scenario ''stable'')"
    by (rule demo_decoded) (simp_all add: TrimSpace_plain plain_char_def sanitize_ascii)
  from decoded_scenarios_run [OF this, of StateCold "[]" "\<lambda>_ _ _. 1"] show ?thesis
    by (auto simp: SupportedPolicies_def demo_scenario_def list_all_iff dest!: list_all2_lengthD)
qed


lemma demo_bench_run:
  obtains run where "runPolicy (\<lambda>_ _. 1) (demo_scenario ''stable'') StateCold RoutingPolicyLatency = Inr run"
    "scenario_valid (demo_scenario ''stable'')"
proof -
  have "DecodeScenario demo_parsers (demo_reader ''stable'') = Inr (demo_scenario ''stable'')"
    by (rule demo_decoded) (simp_all add: TrimSpace_plain plain_char_def sanitize_ascii)
  then have w: "scenario_runnable (demo_scenario ''stable'')" by (rule DecodeScenario_runnable)
  have "supportedPolicy RoutingPolicyLatency" by (simp add: supportedPolicy_def SupportedPolicies_def)
  from runPolicy_total [OF w this] w that show ?thesis by (auto simp: scenario_runnable_def)
qed


text \<open>The reported times. In a completion scenario the latency percentiles are those of the requests'
  latencies, each the sum of the latencies that its attempts played; in a streaming scenario the same holds
  of the stream durations, and the percentiles to first content are those of the requests that had content,
  where the failed attempts before it are counted in.\<close>

lemma benchmark_times_exact:
  fixes elapsed contents :: "duration list"
  assumes run: "runPolicy clocks sc state policy = Inr run" and sc: "scenario_valid sc" "scenario_in_range sc"
  defines "elapsed \<equiv> map (\<lambda>t. time_sub (attempts_time (scMode sc) (qtAttempts t)) 0) (prTrace run)"
    and "contents \<equiv> map (\<lambda>d. time_sub d 0) (List.map_filter (content_time \<circ> qtAttempts) (prTrace run))"
  shows "if scMode sc = ModeNonStreaming
    then reP50LatencyMS (prResult run) = percentileMilliseconds elapsed 50 \<and>
      reP95LatencyMS (prResult run) = percentileMilliseconds elapsed 95
    else reP50StreamDurationMS (prResult run) = percentileMilliseconds elapsed 50 \<and>
      reP95StreamDurationMS (prResult run) = percentileMilliseconds elapsed 95 \<and>
      reP50TTFCMS (prResult run) = percentileMilliseconds contents 50 \<and>
      reP95TTFCMS (prResult run) = percentileMilliseconds contents 95"
proof -
  obtain s0 now s1 m s2 k where s: "scenario_service sc policy = Inr s0"
    "(if state = StateWarm then warm_up clocks sc 0 (scWarmup sc) newVirtualClock s0 else (newVirtualClock, s0)) = (now, s1)"
    "measure_requests clocks sc policy k (scRequests sc) now s1 (newMetricAccumulator policy (scMode sc)) = (m, prTrace run, s2)"
    "prResult run = metrics_finish m (Accounting_Snapshot (svAccounting s1)) (Accounting_Snapshot (svAccounting s2))"
    using run by (auto simp: runPolicy_def split: sum.splits prod.splits)
  have p: "list_all (request_playable sc) (scWarmup sc)" "list_all (request_playable sc) (scRequests sc)"
    using scenario_playable [OF sc] by simp_all
  have "running sc newVirtualClock s0"
    using scenario_service_serves [OF s(1)] sc(1)
    by (auto simp: running_def scenario_valid_def newVirtualClock_def)
  then have "running sc now s1" using s(2) warm_up_running [OF _ _ p(1)] by (auto split: if_splits)
  moreover have "samples_reflect (scMode sc) [] (newMetricAccumulator policy (scMode sc))"
    by (simp add: samples_reflect_def newMetricAccumulator_def map_filter_simps)
  ultimately have "samples_reflect (scMode sc) (prTrace run) m"
    using measure_requests_samples [OF s(3) _ p(2)] by fastforce
  then show ?thesis
    by (auto simp: samples_reflect_def s(4) metrics_finish_def Let_def elapsed_def contents_def split: prod.split)
qed

lemma benchmark_times_exact_witness:
  "\<exists>run. runPolicy (\<lambda>_ _. 1) (demo_scenario ''stable'') StateCold RoutingPolicyLatency = Inr run \<and>
     reP50LatencyMS (prResult run) = percentileMilliseconds
       (map (\<lambda>t. time_sub (attempts_time ModeNonStreaming (qtAttempts t)) 0) (prTrace run)) 50"
proof -
  obtain run where run: "runPolicy (\<lambda>_ _. 1) (demo_scenario ''stable'') StateCold RoutingPolicyLatency = Inr run"
    "scenario_valid (demo_scenario ''stable'')" by (rule demo_bench_run)
  have "scenario_in_range (demo_scenario ''stable'')"
    by (simp add: scenario_in_range_def demo_scenario_def demo_condition_def in_range_def MaxInt64_def)
  moreover have "scMode (demo_scenario ''stable'') = ModeNonStreaming" by (simp add: demo_scenario_def)
  ultimately show ?thesis using benchmark_times_exact [OF run] run(1) by auto
qed

end
