(* ===== verification/Bench_Report.thy ===== *)
theory Bench_Report
  imports Bench_Run Admin_Api
begin

text \<open>
  The benchmark reports of the operator surface (\<open>internal/adminapi/benchmarks.go\<close>): the catalog of the
  built-in scenarios, and a report for each of them and each state, computed once and kept. The text of a
  \<open>float64\<close> quotient of two counters is the argument \<open>ratio\<close>.
\<close>

section \<open>Encoding\<close>

definition counts_json :: "(string \<times> u64) list \<Rightarrow> json" where
  "counts_json m = JObj (map (\<lambda>(k, n). (k, json_u64 n)) (sort_key fst m))"

definition rate_json :: "(u64 \<Rightarrow> u64 \<Rightarrow> string) \<Rightarrow> (u64 \<times> u64) option \<Rightarrow> json" where
  "rate_json ratio rate = (case rate of None \<Rightarrow> JNum ''0'' | Some (a, b) \<Rightarrow> JNum (ratio a b))"

definition Result_json :: "(u64 \<Rightarrow> u64 \<Rightarrow> string) \<Rightarrow> Result \<Rightarrow> json" where
  "Result_json ratio r = JObj
     ([(''policy'', JStr (rePolicy r)), (''mode'', JStr (reMode r)), (''requests'', json_u64 (reRequests r)),
       (''successful_requests'', json_u64 (reSuccessfulRequests r)),
       (''failed_requests'', json_u64 (reFailedRequests r)),
       (''success_rate'', rate_json ratio (reSuccessRate r)),
       (''fallback_requests'', json_u64 (reFallbackRequests r)),
       (''fallback_rate'', rate_json ratio (reFallbackRate r)),
       (''average_attempts_per_request'', rate_json ratio (reAverageAttempts r)),
       (''circuit_skips'', json_u64 (reCircuitSkips r)),
       (''post_commit_stream_failures'', json_u64 (rePostCommitStreamFailures r))] @
      optional_field ''p50_latency_ms'' json_int (reP50LatencyMS r) @
      optional_field ''p95_latency_ms'' json_int (reP95LatencyMS r) @
      optional_field ''p50_ttfc_ms'' json_int (reP50TTFCMS r) @
      optional_field ''p95_ttfc_ms'' json_int (reP95TTFCMS r) @
      optional_field ''p50_stream_duration_ms'' json_int (reP50StreamDurationMS r) @
      optional_field ''p95_stream_duration_ms'' json_int (reP95StreamDurationMS r) @
      [(''total_input_tokens'', json_u64 (reTotalInputTokens r)),
       (''total_output_tokens'', json_u64 (reTotalOutputTokens r)),
       (''estimated_cost_micro_usd'', json_u64 (reEstimatedCost r))] @
      optional_field ''estimated_cost_per_successful_request_micro_usd'' json_u64 (reCostPerSuccess r) @
      [(''fallback_input_tokens'', json_u64 (reFallbackInputTokens r)),
       (''fallback_output_tokens'', json_u64 (reFallbackOutputTokens r)),
       (''fallback_estimated_cost_micro_usd'', json_u64 (reFallbackEstimatedCost r)),
       (''fallback_attempts_without_estimated_cost'', json_u64 (reFallbackWithoutCost r)),
       (''initial_provider_selections'', counts_json (reInitialSelections r)),
       (''provider_attempts'', counts_json (reProviderAttempts r)),
       (''fallback_provider_attempts'', counts_json (reFallbackAttempts r)),
       (''exploration_selections'', json_u64 (reExplorationSelections r)),
       (''exploration_rate'', rate_json ratio (reExplorationRate r)),
       (''provider_selection_switches'', json_u64 (reSelectionSwitches r))])"

definition Comparison_json :: "(u64 \<Rightarrow> u64 \<Rightarrow> string) \<Rightarrow> Comparison \<Rightarrow> json" where
  "Comparison_json ratio c = JObj
     [(''scenario'', JStr (cmScenario c)), (''scenario_version'', json_int (cmScenarioVersion c)),
      (''state'', JStr (cmState c)), (''results'', JArr (map (Result_json ratio) (cmResults c)))]"

definition benchmarkScenario_json :: "string \<times> Scenario \<Rightarrow> json" where
  "benchmarkScenario_json entry = (case entry of (name, sc) \<Rightarrow> JObj
     [(''id'', JStr name), (''version'', json_int (scVersion sc)), (''mode'', JStr (scMode sc)),
      (''requests'', json_int (int (length (scRequests sc)))),
      (''warmup_requests'', json_int (int (length (scWarmup sc))))])"

section \<open>The handler\<close>

text \<open>Loading stops at the first scenario that cannot be loaded.\<close>

fun load_catalog :: "(string \<Rightarrow> 'e + Scenario) \<Rightarrow> string list \<Rightarrow> (string \<times> Scenario) list \<times> bool" where
  "load_catalog load [] = ([], False)"
| "load_catalog load (name # names) =
     (case load name of
        Inl _ \<Rightarrow> ([], True)
      | Inr sc \<Rightarrow> (case load_catalog load names of (entries, failed) \<Rightarrow> ((name, sc) # entries, failed)))"

record benchmark_handler =
  bhEntries :: "(string \<times> Scenario) list"
  bhCatalogError :: bool
  bhReports :: "string \<times> string \<Rightarrow> (run_error + json) option"

definition newBenchmarkHandler :: "(string \<Rightarrow> 'e + Scenario) \<Rightarrow> benchmark_handler" where
  "newBenchmarkHandler load =
     (case load_catalog load BuiltInScenarioNames of (entries, failed) \<Rightarrow>
        \<lparr>bhEntries = entries, bhCatalogError = failed, bhReports = (\<lambda>_. None)\<rparr>)"

text \<open>\<open>r.PathValue("scenario")\<close>.\<close>

definition benchmark_name :: "string \<Rightarrow> string" where
  "benchmark_name path = drop (Suc (length ''/admin/v1/benchmarks'')) path"

definition invalid_benchmark_query :: admin_reply where
  "invalid_benchmark_query = admin_writeError 400 ''invalid_query'' ''invalid benchmark query''"

definition benchmark_unavailable :: admin_reply where
  "benchmark_unavailable = admin_writeError 503 ''benchmark_unavailable'' ''benchmark unavailable''"

text \<open>The state that a query asks for; a query may name nothing else.\<close>

definition benchmark_state :: "string \<Rightarrow> string option" where
  "benchmark_state query =
     (case url_ParseQuery query of
        None \<Rightarrow> None
      | Some vs \<Rightarrow>
          (case (case map_of vs ''state'' of
                   None \<Rightarrow> Some StateWarm
                 | Some [v] \<Rightarrow> if v = ''warm'' \<or> v = ''cold'' then Some v else None
                 | Some _ \<Rightarrow> None) of
             None \<Rightarrow> None
           | Some state \<Rightarrow> if list_all (\<lambda>key. key = ''state'') (map fst vs) then Some state else None))"

text \<open>\<open>report.once.Do\<close>: what was computed first is kept.\<close>

definition report_once ::
  "(u64 \<Rightarrow> u64 \<Rightarrow> string) \<Rightarrow> (string \<Rightarrow> nat \<Rightarrow> nat \<Rightarrow> instant) \<Rightarrow> Scenario \<Rightarrow> string \<times> string \<Rightarrow> benchmark_handler
   \<Rightarrow> (run_error + json) \<times> benchmark_handler" where
  "report_once ratio clocks sc key h =
     (case bhReports h key of
        Some report \<Rightarrow> (report, h)
      | None \<Rightarrow>
          let report = map_sum id (Comparison_json ratio) (RunComparison clocks sc (snd key) [])
          in (report, h\<lparr>bhReports := (bhReports h)(key \<mapsto> report)\<rparr>))"

definition benchmarkHandler ::
  "(u64 \<Rightarrow> u64 \<Rightarrow> string) \<Rightarrow> (string \<Rightarrow> nat \<Rightarrow> nat \<Rightarrow> instant) \<Rightarrow> admin_request \<Rightarrow> benchmark_handler
   \<Rightarrow> admin_reply \<times> benchmark_handler" where
  "benchmarkHandler ratio clocks r h =
     map_prod secured id
       (let name = benchmark_name (aqPath r) in
        if aqMethod r \<noteq> ''GET'' then (get_refused, h)
        else case benchmark_state (aqQuery r) of None \<Rightarrow> (invalid_benchmark_query, h) | Some state \<Rightarrow>
        if name = [] \<and> aqQuery r \<noteq> [] then (invalid_benchmark_query, h)
        else if bhCatalogError h then (benchmark_unavailable, h)
        else if name = []
        then (admin_writeJSON 200 (JObj [(''scenarios'', JArr (map benchmarkScenario_json (bhEntries h)))]), h)
        else (case map_of (bhEntries h) name of
                None \<Rightarrow> (admin_writeError 400 ''invalid_scenario'' ''unknown built-in scenario'', h)
              | Some sc \<Rightarrow>
                  (case report_once ratio clocks sc (name, state) h of
                     (Inl _, h') \<Rightarrow> (benchmark_unavailable, h')
                   | (Inr report, h') \<Rightarrow> (admin_writeJSON 200 report, h'))))"

section \<open>Properties\<close>

text \<open>The catalog is what was loaded.\<close>

lemma load_catalog_facts:
  assumes "load_catalog load names = (entries, failed)"
  shows "\<forall>(name, sc) \<in> set entries. load name = Inr sc" "\<not> failed \<Longrightarrow> map fst entries = names"
  using assms by (induction names arbitrary: entries failed) (auto split: sum.splits prod.splits)

text \<open>The handler of the built-in scenarios, after any requests.\<close>

definition serving :: "(string \<Rightarrow> 'e + Scenario) \<Rightarrow> benchmark_handler \<Rightarrow> bool" where
  "serving load h \<longleftrightarrow> bhEntries h = bhEntries (newBenchmarkHandler load) \<and>
     bhCatalogError h = bhCatalogError (newBenchmarkHandler load) \<and>
     (\<forall>name state report. bhReports h (name, state) = Some report \<longrightarrow>
        (\<exists>sc ratio clocks. (name, sc) \<in> set (bhEntries h) \<and> (state = StateWarm \<or> state = StateCold) \<and>
           report = map_sum id (Comparison_json ratio) (RunComparison clocks sc state [])))"

lemma serving_new: "serving load (newBenchmarkHandler load)"
  by (simp add: serving_def newBenchmarkHandler_def split: prod.split)

lemma benchmark_state_known: "benchmark_state query = Some state \<Longrightarrow> state = StateWarm \<or> state = StateCold"
  by (auto simp: benchmark_state_def StateWarm_def StateCold_def split: option.splits list.splits if_splits)

text \<open>The handler after some requests.\<close>

inductive bench_later :: "benchmark_handler \<Rightarrow> benchmark_handler \<Rightarrow> bool" where
  later_refl: "bench_later h h"
| later_step: "bench_later h h' \<Longrightarrow> bench_later h (snd (benchmarkHandler ratio clocks r h'))"

inductive_cases bench_laterE: "bench_later h h'"

text \<open>What a request leaves of the handler: the catalog, and every report there was.\<close>

lemma benchmarkHandler_frame:
  fixes h r ratio clocks
  defines "h' \<equiv> snd (benchmarkHandler ratio clocks r h)"
  shows "bhEntries h' = bhEntries h" "bhCatalogError h' = bhCatalogError h"
    "bhReports h key = Some report \<Longrightarrow> bhReports h' key = Some report"
  unfolding h'_def benchmarkHandler_def report_once_def
  by (auto simp: Let_def split: option.splits sum.splits)

lemma bench_later_frame:
  assumes "bench_later h h'"
  shows "bhEntries h' = bhEntries h" "bhCatalogError h' = bhCatalogError h"
    "bhReports h key = Some report \<Longrightarrow> bhReports h' key = Some report"
  using assms by (induction) (simp_all add: benchmarkHandler_frame)

lemma benchmarkHandler_reports:
  assumes "bhReports (snd (benchmarkHandler ratio clocks r h)) (name, state) = Some report"
  shows "bhReports h (name, state) = Some report \<or>
    (\<exists>sc. map_of (bhEntries h) name = Some sc \<and> (state = StateWarm \<or> state = StateCold) \<and>
       report = map_sum id (Comparison_json ratio) (RunComparison clocks sc state []))"
  using assms unfolding benchmarkHandler_def report_once_def
  by (auto simp: Let_def benchmark_state_known split: option.splits sum.splits if_splits)

lemma bench_later_serving:
  assumes "bench_later (newBenchmarkHandler load) h"
  shows "serving load h"
  using assms
proof (induction "newBenchmarkHandler load" h)
  case (later_step h' ratio clocks r)
  let ?h = "snd (benchmarkHandler ratio clocks r h')"
  have "\<exists>sc ratio clocks. (name, sc) \<in> set (bhEntries ?h) \<and> (state = StateWarm \<or> state = StateCold) \<and>
      report = map_sum id (Comparison_json ratio) (RunComparison clocks sc state [])"
    if "bhReports ?h (name, state) = Some report" for name state report
    using benchmarkHandler_reports [OF that] later_step(2) unfolding serving_def benchmarkHandler_frame
    by (metis map_of_SomeD)
  then show ?case using later_step(2) by (simp add: serving_def benchmarkHandler_frame)
qed (rule serving_new)

lemma BuiltInScenario_runs:
  assumes "BuiltInScenario ps fs name = Inr sc" "state = StateWarm \<or> state = StateCold"
  shows "\<exists>c. RunComparison clocks sc state [] = Inr c"
proof -
  obtain rd where "DecodeScenario ps rd = Inr sc"
    using assms(1) by (auto simp: BuiltInScenario_def split: if_splits option.splits sum.splits)
  then have "scenario_runnable sc" by (rule DecodeScenario_runnable)
  moreover have "state = StateCold \<or> state = StateWarm" using assms(2) by blast
  ultimately show ?thesis by (rule RunComparison_total [where policies = "[]" and clocks = clocks]) auto
qed

lemma report_once_serving:
  assumes "serving load h" "report_once ratio clocks sc (name, state) h = (report, h')"
    "map_of (bhEntries h) name = Some sc" "distinct (map fst (bhEntries h))"
  shows "\<exists>ratio0 clocks0. report = map_sum id (Comparison_json ratio0) (RunComparison clocks0 sc state [])"
proof (cases "bhReports h (name, state)")
  case None
  then show ?thesis using assms(2) by (auto simp: report_once_def Let_def)
next
  case (Some rep)
  then obtain sc' ratio0 clocks0 where "(name, sc') \<in> set (bhEntries h)"
    "rep = map_sum id (Comparison_json ratio0) (RunComparison clocks0 sc' state [])"
    using assms(1) unfolding serving_def by blast
  moreover from this have "sc' = sc" using assms(3,4) by (metis map_of_eq_Some_iff option.inject)
  ultimately show ?thesis using assms(2) Some by (auto simp: report_once_def)
qed

text \<open>What a request for a report answers, once there is a report.\<close>

lemma benchmarkHandler_report:
  assumes "aqMethod r = ''GET''" "benchmark_state (aqQuery r) = Some state" "benchmark_name (aqPath r) = name"
    "name \<noteq> []" "\<not> bhCatalogError h" "map_of (bhEntries h) name = Some sc"
    "report_once ratio clocks sc (name, state) h = (Inr report, h')"
  shows "benchmarkHandler ratio clocks r h = (secured (admin_writeJSON 200 report), h')"
  using assms by (simp add: benchmarkHandler_def)

text \<open>Benchmark reports. While the built-in scenarios can be loaded, every request for the report of
  one of them is answered with status 200 and with the comparison of all policies on that scenario in the
  requested state; and the report is computed once: any later request for it gets the same answer.\<close>

lemma reports_computed_once:
  assumes h: "bench_later (newBenchmarkHandler (BuiltInScenario ps fs)) h" "\<not> bhCatalogError h"
    and r: "aqMethod r = ''GET''" "benchmark_state (aqQuery r) = Some state"
      "benchmark_name (aqPath r) \<in> set BuiltInScenarioNames"
    and reply: "benchmarkHandler ratio clocks r h = (reply, h')"
  shows "\<exists>sc c ratio0 clocks0. BuiltInScenario ps fs (benchmark_name (aqPath r)) = Inr sc \<and>
      RunComparison clocks0 sc state [] = Inr c \<and> apStatus reply = 200 \<and>
      apBody reply = Some (Comparison_json ratio0 c) \<and>
      (\<forall>h'' ratio' clocks'. bench_later h' h'' \<longrightarrow> fst (benchmarkHandler ratio' clocks' r h'') = reply)"
proof -
  let ?load = "BuiltInScenario ps fs" and ?name = "benchmark_name (aqPath r)"
  have serving: "serving ?load h" using h(1) by (rule bench_later_serving)
  obtain entries where e: "load_catalog ?load BuiltInScenarioNames = (entries, False)" "bhEntries h = entries"
    using serving h(2) by (auto simp: serving_def newBenchmarkHandler_def split: prod.splits)
  note catalog = load_catalog_facts [OF e(1)]
  have "?name \<in> fst ` set entries" using catalog(2) r(3) by (metis list.set_map)
  then obtain sc where sc: "map_of entries ?name = Some sc"
    by (metis map_of_eq_None_iff not_None_eq)
  have load: "?load ?name = Inr sc" using catalog(1) map_of_SomeD [OF sc] by blast
  have state: "state = StateWarm \<or> state = StateCold" using r(2) by (rule benchmark_state_known)
  have name: "?name \<noteq> []" using r(3) by (auto simp: BuiltInScenarioNames_def)
  have distinct: "distinct (map fst entries)"
    using catalog(2) by (simp add: BuiltInScenarioNames_def)
  obtain report h1 where o': "report_once ratio clocks sc (?name, state) h = (report, h1)" by fastforce
  have kept: "bhReports h1 (?name, state) = Some report"
    using o' by (auto simp: report_once_def Let_def split: option.splits)
  obtain ratio0 clocks0 where c0: "report = map_sum id (Comparison_json ratio0) (RunComparison clocks0 sc state [])"
    using report_once_serving [OF serving] o' sc distinct e(2) by metis
  obtain c where c: "RunComparison clocks0 sc state [] = Inr c"
    using BuiltInScenario_runs [OF load state] by blast
  then have c: "RunComparison clocks0 sc state [] = Inr c" "report = Inr (Comparison_json ratio0 c)"
    using c0 by simp_all
  have first: "benchmarkHandler ratio clocks r h = (secured (admin_writeJSON 200 (Comparison_json ratio0 c)), h1)"
    using benchmarkHandler_report [OF r(1,2) refl name h(2)] sc o' c(2) e(2) by simp
  have "fst (benchmarkHandler ratio' clocks' r h'') = reply" if later: "bench_later h' h''" for h'' ratio' clocks'
  proof -
    have h1: "h1 = h'" using first reply by simp
    have "bhEntries h' = bhEntries h" "bhCatalogError h' = bhCatalogError h"
      using benchmarkHandler_frame [where ratio = ratio and clocks = clocks and r = r and h = h] reply by simp_all
    then have "bhEntries h'' = entries" "\<not> bhCatalogError h''"
      "bhReports h'' (?name, state) = Some (Inr (Comparison_json ratio0 c))"
      using bench_later_frame [OF later] kept c(2) e(2) h(2) h1 by simp_all
    then have "benchmarkHandler ratio' clocks' r h'' = (secured (admin_writeJSON 200 (Comparison_json ratio0 c)), h'')"
      using sc by (intro benchmarkHandler_report [OF r(1,2) refl name]) (simp_all add: report_once_def)
    then show ?thesis using first reply by simp
  qed
  then show ?thesis using load c(1) first reply by (auto simp: secured_def admin_writeJSON_def)
qed

text \<open>Files that hold the demonstration fixture under every built-in name.\<close>

definition demo_fs :: "string \<Rightarrow> reader option" where
  "demo_fs path = map_option demo_reader (find (\<lambda>name. path = ''v1/'' @ name @ ''.json'') BuiltInScenarioNames)"

lemma demo_builtin:
  "name \<in> set BuiltInScenarioNames \<Longrightarrow> BuiltInScenario demo_parsers demo_fs name = Inr (demo_scenario name)"
proof -
  assume name: "name \<in> set BuiltInScenarioNames"
  then have "TrimSpace name \<noteq> []" "sanitize_string name = name" "length name \<le> 16"
    by (auto simp: BuiltInScenarioNames_def TrimSpace_plain plain_char_def sanitize_ascii)
  then have "DecodeScenario demo_parsers (demo_reader name) = Inr (demo_scenario name)" by (rule demo_decoded)
  moreover have "demo_fs (''v1/'' @ name @ ''.json'') = Some (demo_reader name)"
    using name by (auto simp: demo_fs_def BuiltInScenarioNames_def)
  ultimately show ?thesis using name by (simp add: BuiltInScenario_def isBuiltInScenario_def demo_scenario_def)
qed

definition demo_get :: admin_request where
  "demo_get = \<lparr>aqMethod = ''GET'', aqPath = ''/admin/v1/benchmarks/stable'', aqQuery = [], aqContentType = [],
     aqOrigins = [], aqFetchSite = [], aqCookies = [], aqBody = \<lparr>bodyBytes = [], bodyError = None\<rparr>\<rparr>"

lemma reports_computed_once_witness:
  "\<exists>reply h' c clocks0 ratio0.
     benchmarkHandler (\<lambda>_ _. ''0'') (\<lambda>_ _ _. 1) demo_get (newBenchmarkHandler (BuiltInScenario demo_parsers demo_fs)) = (reply, h') \<and>
     apStatus reply = 200 \<and> RunComparison clocks0 (demo_scenario ''stable'') StateWarm [] = Inr c \<and>
     apBody reply = Some (Comparison_json ratio0 c) \<and>
     fst (benchmarkHandler (\<lambda>_ _. ''1'') (\<lambda>_ _ _. 2) demo_get h') = reply"
proof -
  let ?h = "newBenchmarkHandler (BuiltInScenario demo_parsers demo_fs)"
  obtain reply h' where reply: "benchmarkHandler (\<lambda>_ _. ''0'') (\<lambda>_ _ _. 1) demo_get ?h = (reply, h')" by fastforce
  have "load_catalog (BuiltInScenario demo_parsers demo_fs) names = (map (\<lambda>n. (n, demo_scenario n)) names, False)"
    if "set names \<subseteq> set BuiltInScenarioNames" for names
    using that by (induction names) (simp_all add: demo_builtin)
  then have "\<not> bhCatalogError ?h" by (simp add: newBenchmarkHandler_def)
  moreover have "aqMethod demo_get = ''GET''" "benchmark_name (aqPath demo_get) = ''stable''" by (simp_all add: demo_get_def benchmark_name_def)
  moreover have "benchmark_state (aqQuery demo_get) = Some StateWarm"
    by (simp add: demo_get_def benchmark_state_def url_ParseQuery_def split_char.simps query_setting_def StateWarm_def)
  moreover have "''stable'' \<in> set BuiltInScenarioNames" by (simp add: BuiltInScenarioNames_def)
  ultimately show ?thesis
    using reports_computed_once [OF later_refl _ _ _ _ reply, of StateWarm] reply later_refl [of h']
    by (auto simp: demo_builtin)
qed

end
