(* ===== verification/Observability.thy ===== *)
theory Observability
  imports Streaming Operations Http_Api
begin

text \<open>
  The operational metrics (\<open>internal/observability/metrics.go\<close>). The OpenTelemetry meter is
  a parameter: it makes an instrument or refuses it. What a recording function does is the list of
  measurements it hands to the instruments; histograms take seconds, kept here as the duration itself.
  The service reports through the trace of \<open>Service\<close>, and \<open>metric_measurements\<close> is the
  recording function that each of its reports calls. Descriptions of instruments are left out.
\<close>

section \<open>Instruments\<close>

datatype instrumentKind =
    Int64Counter
  | Float64Histogram
  | Int64ObservableGauge
  | Int64ObservableCounter
  | Float64ObservableCounter

text \<open>Bucket boundaries are in milliseconds.\<close>

record instrument =
  inKind :: instrumentKind
  inName :: string
  inUnit :: string
  inBuckets :: "int list"

definition durationBuckets :: "int list" where
  "durationBuckets = [10, 25, 50, 100, 250, 500, 1000, 2000, 5000, 10000, 30000, 60000, 120000, 300000]"

definition ttfcBuckets :: "int list" where
  "ttfcBuckets = [10, 25, 50, 100, 250, 500, 1000, 2000, 5000, 10000, 30000, 60000]"

definition plain_instrument :: "instrumentKind \<Rightarrow> string \<Rightarrow> instrument" where
  "plain_instrument kind name = \<lparr>inKind = kind, inName = name, inUnit = [], inBuckets = []\<rparr>"

definition seconds_histogram :: "string \<Rightarrow> int list \<Rightarrow> instrument" where
  "seconds_histogram name buckets =
     \<lparr>inKind = Float64Histogram, inName = name, inUnit = ''s'', inBuckets = buckets\<rparr>"

text \<open>A meter answers a request for an instrument with an error, or makes it.\<close>

type_synonym meter = "instrument \<Rightarrow> string option"

definition make_instrument :: "meter \<Rightarrow> instrument \<Rightarrow> (instrument \<Rightarrow> string + 'a) \<Rightarrow> string + 'a" where
  "make_instrument meter i next = (case meter i of Some err \<Rightarrow> Inl err | None \<Rightarrow> next i)"

record Metrics =
  mtMeter :: "meter option"
  mtRequests :: "instrument option"
  mtRequestDuration :: "instrument option"
  mtRoutingSelections :: "instrument option"
  mtProviderAttempts :: "instrument option"
  mtProviderDuration :: "instrument option"
  mtProviderTTFC :: "instrument option"
  mtFallbacks :: "instrument option"
  mtCircuitTransitions :: "instrument option"
  mtTokens :: "instrument option"
  mtEstimatedCost :: "instrument option"
  mtPersistenceRecords :: "instrument option"
  mtCacheLookups :: "instrument option"
  mtCacheWrites :: "instrument option"

definition NoopMetrics :: Metrics where
  "NoopMetrics = \<lparr>mtMeter = None, mtRequests = None, mtRequestDuration = None,
     mtRoutingSelections = None, mtProviderAttempts = None, mtProviderDuration = None,
     mtProviderTTFC = None, mtFallbacks = None, mtCircuitTransitions = None, mtTokens = None,
     mtEstimatedCost = None, mtPersistenceRecords = None, mtCacheLookups = None, mtCacheWrites = None\<rparr>"

definition NewMetrics :: "meter \<Rightarrow> string + Metrics" where
  "NewMetrics meter =
     make_instrument meter (plain_instrument Int64Counter ''routeforge_requests'') (\<lambda>requests.
     make_instrument meter (seconds_histogram ''routeforge_request_duration'' durationBuckets) (\<lambda>requestDuration.
     make_instrument meter (plain_instrument Int64Counter ''routeforge_routing_selections'') (\<lambda>routingSelections.
     make_instrument meter (plain_instrument Int64Counter ''routeforge_provider_attempts'') (\<lambda>providerAttempts.
     make_instrument meter (seconds_histogram ''routeforge_provider_duration'' durationBuckets) (\<lambda>providerDuration.
     make_instrument meter (seconds_histogram ''routeforge_provider_ttfc'' ttfcBuckets) (\<lambda>providerTTFC.
     make_instrument meter (plain_instrument Int64Counter ''routeforge_fallbacks'') (\<lambda>fallbacks.
     make_instrument meter (plain_instrument Int64Counter ''routeforge_circuit_transitions'') (\<lambda>circuitTransitions.
     make_instrument meter (plain_instrument Int64Counter ''routeforge_tokens'') (\<lambda>tokens.
     make_instrument meter (plain_instrument Int64Counter ''routeforge_estimated_cost_micro_usd'') (\<lambda>estimatedCost.
     make_instrument meter (plain_instrument Int64Counter ''routeforge_persistence_records'') (\<lambda>persistenceRecords.
     make_instrument meter (plain_instrument Int64Counter ''routeforge_cache_lookups'') (\<lambda>cacheLookups.
     make_instrument meter (plain_instrument Int64Counter ''routeforge_cache_writes'') (\<lambda>cacheWrites.
       Inr \<lparr>mtMeter = Some meter, mtRequests = Some requests, mtRequestDuration = Some requestDuration,
         mtRoutingSelections = Some routingSelections, mtProviderAttempts = Some providerAttempts,
         mtProviderDuration = Some providerDuration, mtProviderTTFC = Some providerTTFC,
         mtFallbacks = Some fallbacks, mtCircuitTransitions = Some circuitTransitions,
         mtTokens = Some tokens, mtEstimatedCost = Some estimatedCost,
         mtPersistenceRecords = Some persistenceRecords, mtCacheLookups = Some cacheLookups,
         mtCacheWrites = Some cacheWrites\<rparr>)))))))))))))"

section \<open>Measurements\<close>

datatype label = StringLabel string | BoolLabel bool

type_synonym labels = "(string \<times> label) list"

text \<open>A call of an instrument; a call of a nil one panics.\<close>

datatype measurement =
    Add instrument int labels
  | Observe instrument duration labels
  | NilInstrument

definition counter_Add :: "instrument option \<Rightarrow> int \<Rightarrow> labels \<Rightarrow> measurement list" where
  "counter_Add c v ls = (case c of None \<Rightarrow> [NilInstrument] | Some i \<Rightarrow> [Add i v ls])"

definition histogram_Record :: "instrument option \<Rightarrow> duration \<Rightarrow> labels \<Rightarrow> measurement list" where
  "histogram_Record h d ls = (case h of None \<Rightarrow> [NilInstrument] | Some i \<Rightarrow> [Observe i d ls])"

text \<open>The guard that every recording function starts with: a nil receiver or a nil instrument.\<close>

definition when_present ::
  "Metrics option \<Rightarrow> (Metrics \<Rightarrow> instrument option) \<Rightarrow> (Metrics \<Rightarrow> measurement list) \<Rightarrow> measurement list" where
  "when_present m field body =
     (case m of None \<Rightarrow> [] | Some mt \<Rightarrow> if field mt = None then [] else body mt)"

definition do_RecordCacheLookup :: "Metrics option \<Rightarrow> string \<Rightarrow> measurement list" where
  "do_RecordCacheLookup m result = when_present m mtCacheLookups (\<lambda>mt.
     if result \<noteq> ''hit'' \<and> result \<noteq> ''miss'' \<and> result \<noteq> ''error'' then []
     else counter_Add (mtCacheLookups mt) 1 [(''result'', StringLabel result)])"

definition do_RecordCacheWrite :: "Metrics option \<Rightarrow> string \<Rightarrow> measurement list" where
  "do_RecordCacheWrite m result = when_present m mtCacheWrites (\<lambda>mt.
     if result \<noteq> ''success'' \<and> result \<noteq> ''error'' then []
     else counter_Add (mtCacheWrites mt) 1 [(''result'', StringLabel result)])"

definition do_RecordRequest :: "Metrics option \<Rightarrow> string \<Rightarrow> bool \<Rightarrow> string \<Rightarrow> duration \<Rightarrow> measurement list" where
  "do_RecordRequest m routingPolicy streaming outcome duration = when_present m mtRequests (\<lambda>mt.
     let ls = [(''routing_policy'', StringLabel routingPolicy), (''streaming'', BoolLabel streaming),
               (''outcome'', StringLabel outcome)]
     in counter_Add (mtRequests mt) 1 ls @ histogram_Record (mtRequestDuration mt) duration ls)"

definition do_RecordRoutingSelection :: "Metrics option \<Rightarrow> string \<Rightarrow> string \<Rightarrow> bool \<Rightarrow> measurement list" where
  "do_RecordRoutingSelection m providerName routingPolicy streaming = when_present m mtRoutingSelections (\<lambda>mt.
     counter_Add (mtRoutingSelections mt) 1 [(''provider'', StringLabel providerName),
       (''routing_policy'', StringLabel routingPolicy), (''streaming'', BoolLabel streaming)])"

definition do_RecordProviderAttempt ::
  "Metrics option \<Rightarrow> string \<Rightarrow> string \<Rightarrow> bool \<Rightarrow> bool \<Rightarrow> duration \<Rightarrow> measurement list" where
  "do_RecordProviderAttempt m providerName outcome streaming fallback duration =
     when_present m mtProviderAttempts (\<lambda>mt.
     counter_Add (mtProviderAttempts mt) 1 [(''provider'', StringLabel providerName),
       (''outcome'', StringLabel outcome), (''streaming'', BoolLabel streaming),
       (''fallback'', BoolLabel fallback)] @
     histogram_Record (mtProviderDuration mt) duration [(''provider'', StringLabel providerName),
       (''streaming'', BoolLabel streaming)])"

definition do_RecordTTFC :: "Metrics option \<Rightarrow> string \<Rightarrow> duration \<Rightarrow> measurement list" where
  "do_RecordTTFC m providerName duration = when_present m mtProviderTTFC (\<lambda>mt.
     histogram_Record (mtProviderTTFC mt) duration [(''provider'', StringLabel providerName)])"

definition do_RecordFallback :: "Metrics option \<Rightarrow> string \<Rightarrow> string \<Rightarrow> string \<Rightarrow> measurement list" where
  "do_RecordFallback m fromProvider toProvider reason = when_present m mtFallbacks (\<lambda>mt.
     counter_Add (mtFallbacks mt) 1 [(''from_provider'', StringLabel fromProvider),
       (''to_provider'', StringLabel toProvider), (''reason'', StringLabel reason)])"

definition do_RecordCircuitTransition :: "Metrics option \<Rightarrow> string \<Rightarrow> string \<Rightarrow> string \<Rightarrow> measurement list" where
  "do_RecordCircuitTransition m providerName fromState toState = when_present m mtCircuitTransitions (\<lambda>mt.
     counter_Add (mtCircuitTransitions mt) 1 [(''provider'', StringLabel providerName),
       (''from_state'', StringLabel fromState), (''to_state'', StringLabel toState)])"

text \<open>A value above \<open>math.MaxInt64\<close> is dropped, not wrapped.\<close>

definition addUint64 :: "instrument option \<Rightarrow> u64 \<Rightarrow> labels \<Rightarrow> measurement list" where
  "addUint64 counter v ls = (if int (unat v) > MaxInt64 then [] else counter_Add counter (int (unat v)) ls)"

definition do_RecordUsage :: "Metrics option \<Rightarrow> string \<Rightarrow> Usage option \<Rightarrow> measurement list" where
  "do_RecordUsage m providerName usage = when_present m mtTokens (\<lambda>mt.
     case usage of None \<Rightarrow> [] | Some u \<Rightarrow>
       (case InputTokens u of None \<Rightarrow> [] | Some v \<Rightarrow>
          addUint64 (mtTokens mt) v [(''provider'', StringLabel providerName), (''direction'', StringLabel ''input'')]) @
       (case OutputTokens u of None \<Rightarrow> [] | Some v \<Rightarrow>
          addUint64 (mtTokens mt) v [(''provider'', StringLabel providerName), (''direction'', StringLabel ''output'')]))"

definition do_RecordEstimatedCost :: "Metrics option \<Rightarrow> string \<Rightarrow> u64 \<Rightarrow> measurement list" where
  "do_RecordEstimatedCost m providerName microUSD = when_present m mtEstimatedCost (\<lambda>mt.
     addUint64 (mtEstimatedCost mt) microUSD [(''provider'', StringLabel providerName)])"

definition do_RecordPersistence :: "Metrics option \<Rightarrow> string \<Rightarrow> measurement list" where
  "do_RecordPersistence m outcome = when_present m mtPersistenceRecords (\<lambda>mt.
     counter_Add (mtPersistenceRecords mt) 1 [(''outcome'', StringLabel outcome)])"

section \<open>Persistence gauges\<close>

datatype scrape_value = ObserveInt64 instrument int | ObserveFloat64 instrument duration

text \<open>\<open>ObservePersistence\<close>: nothing without a meter; otherwise four instruments and a callback,
  which may fail to register. A scrape calls it with the recorder's counters.\<close>

definition ObservePersistence ::
  "Metrics option \<Rightarrow> string option \<Rightarrow> string + (RecorderStats \<Rightarrow> scrape_value list) option" where
  "ObservePersistence m register =
     (case Option.bind m mtMeter of
        None \<Rightarrow> Inr None
      | Some meter \<Rightarrow>
          make_instrument meter (plain_instrument Int64ObservableGauge ''routeforge_persistence_queue_depth'') (\<lambda>queue.
          make_instrument meter (plain_instrument Int64ObservableCounter ''routeforge_persistence_submitted'') (\<lambda>submitted.
          make_instrument meter (plain_instrument Int64ObservableCounter ''routeforge_persistence_writes'') (\<lambda>writes.
          make_instrument meter \<lparr>inKind = Float64ObservableCounter, inName = ''routeforge_persistence_write_duration'',
              inUnit = ''s'', inBuckets = []\<rparr> (\<lambda>duration.
          case register of
            Some err \<Rightarrow> Inl err
          | None \<Rightarrow> Inr (Some (\<lambda>stats.
              [ObserveInt64 queue (stQueueDepth stats), ObserveInt64 submitted (stSubmitted stats),
               ObserveInt64 writes (stWriteCount stats), ObserveFloat64 duration (stWriteDuration stats)])))))))"

section \<open>Reports of the service\<close>

fun write_outcome_text :: "WriteOutcome \<Rightarrow> string" where
  "write_outcome_text OutcomeWritten = ''written''"
| "write_outcome_text OutcomeWriteError = ''write_error''"
| "write_outcome_text OutcomeQueueFull = ''queue_full''"

fun metric_measurements :: "Metrics option \<Rightarrow> metric \<Rightarrow> measurement list" where
  "metric_measurements m (RecordRoutingSelection n p st) = do_RecordRoutingSelection m n p st"
| "metric_measurements m (RecordFallback f t r) = do_RecordFallback m f t r"
| "metric_measurements m (RecordProviderAttempt n out st fb d) = do_RecordProviderAttempt m n out st fb d"
| "metric_measurements m (RecordUsage n u) = do_RecordUsage m n u"
| "metric_measurements m (RecordEstimatedCost n v) = do_RecordEstimatedCost m n v"
| "metric_measurements m (RecordTTFC n d) = do_RecordTTFC m n d"
| "metric_measurements m (RecordCacheLookup r) = do_RecordCacheLookup m r"
| "metric_measurements m (RecordCacheWrite r) = do_RecordCacheWrite m r"
| "metric_measurements m (RecordPersistence r) = do_RecordPersistence m (write_outcome_text r)"
| "metric_measurements m (RecordCircuitTransition n f t) =
     do_RecordCircuitTransition m n (circuit_text f) (circuit_text t)"

text \<open>\<open>SetMetrics\<close>: nil metrics are replaced by the zero ones, for the reports and for the circuit
  observer alike.\<close>

definition SetMetrics :: "Metrics option \<Rightarrow> Metrics" where
  "SetMetrics m = (case m of None \<Rightarrow> NoopMetrics | Some mt \<Rightarrow> mt)"

fun effect_measurements :: "Metrics \<Rightarrow> effect \<Rightarrow> measurement list" where
  "effect_measurements m (Metric r) = metric_measurements (Some m) r"
| "effect_measurements m _ = []"

definition measurements :: "Metrics \<Rightarrow> effect list \<Rightarrow> measurement list" where
  "measurements m es = concat (map (effect_measurements m) es)"

lemmas record_defs = do_RecordCacheLookup_def do_RecordCacheWrite_def do_RecordRequest_def
  do_RecordRoutingSelection_def do_RecordProviderAttempt_def do_RecordTTFC_def do_RecordFallback_def
  do_RecordCircuitTransition_def do_RecordUsage_def do_RecordEstimatedCost_def do_RecordPersistence_def
  addUint64_def when_present_def counter_Add_def histogram_Record_def Let_def

section \<open>What a request reports\<close>

text \<open>Of an effect: the provider called, the attempt reported, the usage accounted and the usage
  reported.\<close>

fun called :: "effect \<Rightarrow> string list" where
  "called (CallComplete n _ _ _) = [n]"
| "called (CallStream n _ _) = [n]"
| "called _ = []"

fun attempt_reported :: "effect \<Rightarrow> string list" where
  "attempt_reported (Metric (RecordProviderAttempt n _ _ _ _)) = [n]"
| "attempt_reported _ = []"

fun usage_accounted :: "effect \<Rightarrow> (string \<times> Usage option) list" where
  "usage_accounted (Account n _ u) = [(n, u)]"
| "usage_accounted _ = []"

fun usage_reported :: "effect \<Rightarrow> (string \<times> Usage option) list" where
  "usage_reported (Metric (RecordUsage n u)) = [(n, u)]"
| "usage_reported _ = []"

definition gather :: "('a \<Rightarrow> 'b list) \<Rightarrow> 'a list \<Rightarrow> 'b list" where
  "gather f xs = concat (map f xs)"

lemma gather_simps [simp]:
  "gather f [] = []" "gather f (x # xs) = f x @ gather f xs" "gather f (xs @ ys) = gather f xs @ gather f ys"
  by (simp_all add: gather_def)

definition outcome_words :: "string set" where
  "outcome_words = range outcome_String"

text \<open>A report names only these providers, this policy and the words of the outcomes.\<close>

fun metric_about :: "string set \<Rightarrow> string \<Rightarrow> metric \<Rightarrow> bool" where
  "metric_about N p (RecordRoutingSelection n q st) \<longleftrightarrow> n \<in> N \<and> q = p"
| "metric_about N p (RecordFallback f t r) \<longleftrightarrow> f \<in> N \<and> t \<in> N \<and> r \<in> outcome_words"
| "metric_about N p (RecordProviderAttempt n out st fb d) \<longleftrightarrow> n \<in> N \<and> out \<in> outcome_words"
| "metric_about N p (RecordUsage n u) \<longleftrightarrow> n \<in> N"
| "metric_about N p (RecordEstimatedCost n v) \<longleftrightarrow> n \<in> N"
| "metric_about N p (RecordTTFC n d) \<longleftrightarrow> n \<in> N"
| "metric_about N p (RecordCircuitTransition n f t) \<longleftrightarrow> n \<in> N"
| "metric_about N p _ \<longleftrightarrow> True"

fun effect_about :: "string set \<Rightarrow> string \<Rightarrow> effect \<Rightarrow> bool" where
  "effect_about N p (Metric m) = metric_about N p m"
| "effect_about N p _ = True"

text \<open>Between two states the trace grew by effects that call and report these attempts, whose
  reported and accounted usages agree, and whose reports are about the given names.\<close>

definition reported :: "string set \<Rightarrow> string \<Rightarrow> string list \<Rightarrow> string list \<Rightarrow> Service \<Rightarrow> Service \<Rightarrow> bool" where
  "reported N p calls reports s s' \<longleftrightarrow> (\<exists>es. svTrace s' = svTrace s @ es \<and>
     gather called es = calls \<and> gather attempt_reported es = reports \<and>
     gather usage_reported es = gather usage_accounted es \<and>
     list_all (effect_about N p) es)"

abbreviation unreported :: "string set \<Rightarrow> string \<Rightarrow> Service \<Rightarrow> Service \<Rightarrow> bool" where
  "unreported N p \<equiv> reported N p [] []"

lemma reported_refl [simp]: "unreported N p s s"
  by (simp add: reported_def)

lemma reported_trans:
  assumes "reported N p cs rs s s'" "reported N p cs' rs' s' s''"
  shows "reported N p (cs @ cs') (rs @ rs') s s''"
proof -
  obtain es es' where "svTrace s' = svTrace s @ es" "gather called es = cs"
    "gather attempt_reported es = rs" "gather usage_reported es = gather usage_accounted es"
    "list_all (effect_about N p) es"
    "svTrace s'' = svTrace s' @ es'" "gather called es' = cs'"
    "gather attempt_reported es' = rs'" "gather usage_reported es' = gather usage_accounted es'"
    "list_all (effect_about N p) es'"
    using assms unfolding reported_def by blast
  then show ?thesis unfolding reported_def by (intro exI [of _ "es @ es'"]) simp
qed

lemmas unreported_then = reported_trans [where cs = "[]" and rs = "[]", simplified]
lemmas then_unreported = reported_trans [where cs' = "[]" and rs' = "[]", simplified]

lemma reported_traceI:
  assumes "svTrace s' = svTrace s @ es" "gather called es = calls" "gather attempt_reported es = reports"
    "gather usage_reported es = gather usage_accounted es" "list_all (effect_about N p) es"
  shows "reported N p calls reports s s'"
  using assms unfolding reported_def by blast

lemma transitions_silent [simp]:
  "gather called (transition_effects trs) = []"
  "gather attempt_reported (transition_effects trs) = []"
  "gather usage_reported (transition_effects trs) = []"
  "gather usage_accounted (transition_effects trs) = []"
  "list_all (effect_about N p) (transition_effects trs) = list_all (\<lambda>(n, _, _). n \<in> N) trs"
  by (induction trs) (auto simp: transition_effects_def)

lemma tracker_begin_transitions:
  assumes "tracker_begin t name now = (a, t', trs)" "name \<in> N"
  shows "list_all (\<lambda>(n, _, _). n \<in> N) trs" "\<And>att. a = Some att \<Longrightarrow> attName att = name"
  using assms
  by (auto simp: tracker_begin_def health_begin_def Let_def
      split: option.splits circuitState.splits if_splits prod.splits)

lemma health_outcome_transitions:
  assumes "recordHealthOutcome t a outcome now = (t', trs)" "attName a \<in> N"
  shows "list_all (\<lambda>(n, _, _). n \<in> N) trs"
  using assms
  by (auto simp: recordHealthOutcome_def health_record_def health_success_def health_failure_def Let_def
      split: option.splits if_splits prod.splits)

lemma outcome_String_word [simp]: "outcome_String x \<in> outcome_words"
  by (simp add: outcome_words_def)

lemma outcome_words_literal [simp]: "''success'' \<in> outcome_words" "''cancellation'' \<in> outcome_words"
  using outcome_String_word [of outcomeSuccess] outcome_String_word [of outcomeCanceled] by simp_all

section \<open>Reports of each call\<close>

lemma svc_begin_reported:
  assumes "svc_begin w name s = (a, s')" "name \<in> N"
  shows "unreported N p s s'" "\<And>att. a = Some att \<Longrightarrow> attName att = name"
proof -
  obtain t trs where t: "tracker_begin (svHealth s) name (wNow w (svTick s)) = (a, t, trs)"
    using assms(1) by (auto simp: svc_begin_def split: prod.splits)
  with assms(1) show "unreported N p s s'"
    using tracker_begin_transitions [OF t assms(2)]
    by (intro reported_traceI [where es = "transition_effects trs"])
      (auto simp: svc_begin_def log_effects_def tick_def)
  show "\<And>att. a = Some att \<Longrightarrow> attName att = name"
    using tracker_begin_transitions(2) [OF t assms(2)] .
qed

lemma svc_health_outcome_reported:
  assumes "attName a \<in> N"
  shows "unreported N p s (svc_health_outcome w a outcome s)"
proof -
  obtain t trs where t: "recordHealthOutcome (svHealth s) a outcome (wNow w (svTick s)) = (t, trs)"
    by fastforce
  show ?thesis
    using health_outcome_transitions [OF t assms]
    by (intro reported_traceI [where es = "transition_effects trs"])
      (auto simp: svc_health_outcome_def log_effects_def tick_def t)
qed

lemma log_reported:
  assumes "list_all (effect_about N p) es"
    "gather usage_reported es = gather usage_accounted es"
  shows "reported N p (gather called es) (gather attempt_reported es) s (log_effects es s)"
  using assms by (intro reported_traceI [where es = es]) (simp_all add: log_effects_def)

lemma cache_phase_reported: "cache_phase w req name model s = (key, hit, s') \<Longrightarrow> unreported N p s s'"
  by (auto simp: cache_phase_def Let_def svc_eligible_def ctx_err_def reported_def tick_def log_effects_def
      split: if_splits option.splits prod.splits)

lemma svc_store_reported: "unreported N p s (svc_store w k r s)"
  by (auto simp: svc_store_def reported_def tick_def log_effects_def split: option.splits)

text \<open>The variables of the loop name a provider to fall back from whenever one was tried.\<close>

definition from_known :: "string set \<Rightarrow> fallback_vars \<Rightarrow> bool" where
  "from_known N v \<longleftrightarrow> fvAttemptNumber v = 0 \<or> fvFallbackFrom v \<in> N"

lemma try_complete_reported:
  assumes "try_complete w (Some ver) name preq v a h s = ((r, err, outcome), h', s')"
    and n: "name \<in> N" "attName a \<in> N" "fvAttemptNumber v = 1 \<or> fvFallbackFrom v \<in> N"
  shows "reported N (rcPolicy (rvConfig ver)) [name] [name] s s'"
  using assms(1) n health_outcome_transitions [OF surjective_pairing n(2)]
  by (auto simp: try_complete_def reported_def svc_call_defs requestRouting_def cong: if_cong)

text \<open>A pass that goes on leaves variables that name a known provider.\<close>

definition pass_known :: "string set \<Rightarrow> 'r pass \<Rightarrow> bool" where
  "pass_known N p = (case p of Return _ \<Rightarrow> True | Continue v \<Rightarrow> from_known N v)"

lemma complete_admitted_reported:
  assumes "complete_admitted w (Some ver) req name model key v a h s = (p, h', s')"
    and n: "name \<in> N" "attName a = name" "from_known N v"
  shows "reported N (rcPolicy (rvConfig ver)) [name] [name] s s'" "pass_known N p"
proof -
  let ?v = "v\<lparr>fvAttemptNumber := Suc (fvAttemptNumber v)\<rparr>"
  obtain r e outcome h1 s1 where
    t: "try_complete w (Some ver) name (req\<lparr>reqModel := model\<rparr>) ?v a h s = ((r, e, outcome), h1, s1)"
    by (metis prod_cases3)
  have "reported N (rcPolicy (rvConfig ver)) [name] [name] s s1"
    using try_complete_reported [OF t, of N] n by (auto simp: from_known_def)
  moreover have "unreported N q s1 s'" for q
    using assms(1) svc_store_reported [of N q "tick s1"]
    by (auto simp: complete_admitted_def t Let_def ctx_err_def reported_def tick_def
        split: option.splits if_splits)
  ultimately show "reported N (rcPolicy (rvConfig ver)) [name] [name] s s'" by (rule then_unreported)
  show "pass_known N p"
    using assms(1) n by (auto simp: complete_admitted_def t Let_def ctx_err_def pass_known_def from_known_def
        split: option.splits if_splits)
qed

lemma complete_item_reported:
  assumes "complete_item w (Some ver) req name v h s = (p, h', s')" "name \<in> N" "from_known N v"
  shows "\<exists>cs. reported N (rcPolicy (rvConfig ver)) cs cs s s'" "pass_known N p"
proof -
  let ?p = "rcPolicy (rvConfig ver)"
  have "(\<exists>cs. reported N ?p cs cs s s') \<and> pass_known N p"
  proof (cases "resolve_for s req name")
    case (Inl e)
    with assms have "s' = s" "pass_known N p" by (auto simp: complete_item_def pass_known_def split: if_splits)
    then show ?thesis using reported_refl [of N ?p s] by blast
  next
    case (Inr model)
    obtain key hit s1 where ph: "cache_phase w req name model s = (key, hit, s1)" by (metis prod_cases3)
    have r1: "unreported N ?p s s1" using ph by (rule cache_phase_reported)
    obtain a s2 where b: "svc_begin w name s1 = (a, s2)" by fastforce
    have r2: "unreported N ?p s1 s2" and an: "\<And>att. a = Some att \<Longrightarrow> attName att = name"
      using svc_begin_reported [OF b assms(2)] by blast+
    let ?v = "v\<lparr>fvUsableMapping := True\<rparr>"
    have fv: "from_known N ?v" using assms(3) by (simp add: from_known_def)
    consider (hit) "hit \<noteq> None" | (refused) "hit = None" "a = None" | (admitted) att where "hit = None" "a = Some att"
      by blast
    then show ?thesis
    proof cases
      case hit
      with assms Inr ph have "unreported N ?p s1 s'" "pass_known N p"
        by (auto simp: complete_item_def Let_def reported_def log_effects_def requestRouting_def pass_known_def
            split: if_splits)
      then show ?thesis using unreported_then [OF r1] by blast
    next
      case refused
      with assms Inr ph b fv have "s' = s2" "pass_known N p"
        by (auto simp: complete_item_def Let_def pass_known_def from_known_def split: if_splits)
      then show ?thesis using unreported_then [OF r1 r2] by blast
    next
      case admitted
      with assms Inr ph b have "complete_admitted w (Some ver) req name model key ?v att h s2 = (p, h', s')"
        by (simp add: complete_item_def Let_def)
      from complete_admitted_reported [OF this assms(2) an [OF admitted(2)] fv] show ?thesis
        using unreported_then [OF unreported_then [OF r1 r2]] by blast
    qed
  qed
  then show "\<exists>cs. reported N ?p cs cs s s'" "pass_known N p" by blast+
qed

lemma complete_loop_reported:
  assumes "complete_loop w (Some ver) req items v h s = (res, h', s')" "pvName ` set items \<subseteq> N" "from_known N v"
  shows "\<exists>cs. reported N (rcPolicy (rvConfig ver)) cs cs s s'"
  using assms
proof (induction items arbitrary: v h s)
  case Nil
  then have "s' = s" by simp
  then show ?case using reported_refl by blast
next
  case (Cons item items)
  obtain p h1 s1 where it: "complete_item w (Some ver) req (pvName item) v h s = (p, h1, s1)"
    by (metis prod_cases3)
  have "pvName item \<in> N" using Cons.prems(2) by simp
  then obtain cs where cs: "reported N (rcPolicy (rvConfig ver)) cs cs s s1" and k: "pass_known N p"
    using complete_item_reported [OF it _ Cons.prems(3)] by blast
  show ?case
  proof (cases p)
    case (Return r)
    with Cons.prems(1) it cs show ?thesis by auto
  next
    case (Continue v1)
    with Cons.prems(1) it have "complete_loop w (Some ver) req items v1 h1 s1 = (res, h', s')" by simp
    then obtain ds where "reported N (rcPolicy (rvConfig ver)) ds ds s1 s'"
      using Cons.IH [of v1] Cons.prems(2) k Continue unfolding pass_known_def by fastforce
    then show ?thesis using reported_trans [OF cs] by blast
  qed
qed

lemma eligible_split_reported: "unreported N p s (snd (eligible_split w items s))"
proof (induction items arbitrary: s)
  case (Cons item items)
  have "unreported N p s (tick s)" for s by (simp add: reported_def tick_def)
  from unreported_then [OF this Cons.IH] show ?case by (simp add: case_prod_unfold svc_eligible_def)
qed simp

lemma orderedProviders_reported: "unreported N p s (snd (orderedProviders w ctx mode model s))"
proof (cases "svFallback s \<and> rvRankEligible (requestRouting (svRouting s) ctx)")
  case True
  then obtain es ins s1 x where e: "eligible_split w (svProviders s) s = ((es, ins), s1)"
    "snd (orderedProviders w ctx mode model s) = tick (s1\<lparr>svRouting := (svRouting s1)\<lparr>rtExploration := x\<rparr>\<rparr>)"
    by (metis orderedProviders_ranked)
  then show ?thesis
    using eligible_split_reported [of N p s w "svProviders s"] by (simp add: reported_def tick_def)
qed (auto simp: orderedProviders_def Let_def)

lemma ordered_names:
  "pvName ` set (fst (orderedProviders w ctx mode model s)) = pvName ` set (svProviders s)"
  using mset_eq_setD [OF orderedProviders_mset [of w ctx mode model s]] by simp

lemma svc_history_reported: "unreported N p s (snd (svc_history w ctx req s))"
  by (simp add: svc_history_def Let_def reported_def tick_def log_effects_def)

lemma svc_finish_reported: "unreported N p s (svc_finish w h e s)"
  by (auto simp: svc_finish_def reported_def tick_def log_effects_def split: option.splits prod.splits)

lemma start_vars_known: "from_known N start_vars"
  by (simp add: from_known_def start_vars_def)

lemma complete_body_reported:
  assumes "complete_body w (Some ver) req h s = (res, h', s')"
  shows "\<exists>cs. reported (pvName ` set (svProviders s)) (rcPolicy (rvConfig ver)) cs cs s s'"
proof -
  let ?N = "pvName ` set (svProviders s)" and ?p = "rcPolicy (rvConfig ver)"
  obtain order s1 where o': "orderedProviders w (Some ver) nonStreamingMode (reqModel req) s = (order, s1)" by fastforce
  have r: "unreported ?N ?p s s1" and n: "pvName ` set order \<subseteq> ?N"
    using orderedProviders_reported [of ?N ?p s w "Some ver" nonStreamingMode "reqModel req"]
      ordered_names [of w "Some ver" nonStreamingMode "reqModel req" s] o' by simp_all
  consider "s' = s" | "complete_loop w (Some ver) req order start_vars h s1 = (res, h', s')"
    using assms by (auto simp: complete_body_def o' split: option.splits if_splits)
  then show ?thesis
  proof cases
    case 1
    then show ?thesis using reported_refl by blast
  next
    case 2
    from complete_loop_reported [OF this n start_vars_known] show ?thesis
      using unreported_then [OF r] by blast
  qed
qed

lemma BindRouting_bound:
  obtains ver where "BindRouting st ctx = (Some ver, rcPolicy (rvConfig ver))"
  by (cases ctx) (auto simp: BindRouting_def)

lemma svc_history_providers: "svProviders (snd (svc_history w ctx req s)) = svProviders s"
  by (simp add: svc_history_def Let_def tick_def log_effects_def)

lemma Complete_reported:
  "\<exists>cs. reported (pvName ` set (svProviders s)) (snd (BindRouting (svRouting s) ctx0)) cs cs s
     (snd (Complete w ctx0 req s))"
proof -
  let ?N = "pvName ` set (svProviders s)"
  obtain ver where b: "BindRouting (svRouting s) ctx0 = (Some ver, rcPolicy (rvConfig ver))"
    by (rule BindRouting_bound)
  obtain h s1 where hs: "svc_history w (Some ver) req s = (h, s1)" by fastforce
  obtain res h' s2 where bd: "complete_body w (Some ver) req h s1 = (res, h', s2)" by (metis prod_cases3)
  have e: "snd (Complete w ctx0 req s) = svc_finish w h' (snd res) s2"
    by (simp add: Complete_def b hs bd case_prod_unfold)
  have pr: "svProviders s1 = svProviders s" using svc_history_providers [of w "Some ver" req s] hs by simp
  obtain cs where cs: "reported ?N (rcPolicy (rvConfig ver)) cs cs s1 s2"
    using complete_body_reported [OF bd] pr by auto
  have "unreported ?N (rcPolicy (rvConfig ver)) s s1"
    using svc_history_reported [of ?N "rcPolicy (rvConfig ver)" s w "Some ver" req] hs by simp
  from then_unreported [OF unreported_then [OF this cs] svc_finish_reported] show ?thesis
    unfolding e b by auto
qed

section \<open>Reports of a stream\<close>

lemma stream_end_reported:
  assumes n: "name \<in> N" "attName a \<in> N"
  shows "stream_ended w name model v a index sv err h s = (p, h', s') \<Longrightarrow> reported N q [] [name] s s'"
    "emit_failed w name model v a index sv err h s = (p, h', s') \<Longrightarrow> reported N q [] [name] s s'"
    "open_failed w name model v a index ta err h s = (p, h', s') \<Longrightarrow> reported N q [] [name] s s'"
  using n health_outcome_transitions [OF surjective_pairing n(2)]
  by (auto simp: stream_ended_def emit_failed_def open_failed_def reported_def stream_call_defs
      split: if_splits)

lemma stream_end_known:
  assumes "name \<in> N"
  shows "stream_ended w name model v a index sv err h s = (p, h', s') \<Longrightarrow> pass_known N p"
    "emit_failed w name model v a index sv err h s = (p, h', s') \<Longrightarrow> pass_known N p"
    "open_failed w name model v a index ta err h s = (p, h', s') \<Longrightarrow> pass_known N p"
  using assms
  by (auto simp: stream_ended_def emit_failed_def open_failed_def pass_known_def from_known_def Let_def
      split: if_splits prod.splits)

lemma note_content_reported:
  assumes "note_content w name chunk sv s = (sv', s')" "name \<in> N"
  shows "unreported N p s s'"
  using assms by (auto simp: note_content_def svc_firstContent_def reported_def tick_def log_effects_def
      split: if_splits prod.splits option.splits)

lemma stream_chunks_reported:
  assumes "stream_chunks w req name model v a index chunks err sv h s = (p, h', s')"
    and n: "name \<in> N" "attName a \<in> N"
  shows "reported N q [] [name] s s' \<and> pass_known N p"
  using assms(1)
proof (induction chunks arbitrary: sv s)
  case Nil
  then show ?case using stream_end_reported(1) [OF n] stream_end_known(1) [OF n(1)] by fastforce
next
  case (Cons chunk chunks)
  let ?sv = "sv\<lparr>sgUsage := mergeUsage (sgUsage sv) (ckUsage chunk)\<rparr>" and ?c = "client_chunk req chunk"
  obtain sv2 s1 where nc: "note_content w name ?c ?sv s = (sv2, s1)" by fastforce
  let ?s2 = "tick (log_effects [Emit name ?c] s1)"
  have "unreported N q s1 ?s2" by (simp add: reported_def tick_def log_effects_def)
  from unreported_then [OF note_content_reported [OF nc n(1)] this]
  have r: "unreported N q s ?s2" .
  consider "\<not> clientVisibleChunk chunk" | e where "clientVisibleChunk chunk" "wEmit w (svTick s1) ?c = Some e"
    | "clientVisibleChunk chunk" "wEmit w (svTick s1) ?c = None" by blast
  then show ?case
  proof cases
    case 1
    with Cons show ?thesis by (simp add: Let_def)
  next
    case 2
    with Cons.prems nc have "emit_failed w name model v a index sv2 e h ?s2 = (p, h', s')" by (simp add: Let_def)
    from stream_end_reported(2) [OF n this, of q] stream_end_known(2) [OF n(1) this]
    show ?thesis using unreported_then [OF r] by blast
  next
    case 3
    with Cons.prems nc have "stream_chunks w req name model v a index chunks err (sv2\<lparr>sgCommitted := True\<rparr>) h ?s2 = (p, h', s')"
      by (simp add: Let_def)
    from Cons.IH [OF this] show ?thesis using unreported_then [OF r] by blast
  qed
qed

lemma try_stream_reported:
  assumes "try_stream w (Some ver) req name model v a h s = (p, h', s')"
    and n: "name \<in> N" "attName a = name" "from_known N v"
  shows "reported N (rcPolicy (rvConfig ver)) [name] [name] s s' \<and> pass_known N p"
proof -
  let ?v = "v\<lparr>fvAttemptNumber := fvAttemptNumber v + 1\<rparr>" and ?p = "rcPolicy (rvConfig ver)"
  let ?preq = "req\<lparr>reqModel := model\<rparr>"
  obtain index h1 where st: "startAttempt h name model (wNow w (svTick s)) = (index, h1)" by fastforce
  obtain ta s2 where tb: "svc_telemetry_begin w name (recordAttemptStart (Some ver) name True (fvAttemptNumber ?v)
    (fvFallbackFrom ?v) (fvFallbackReason ?v) (tick s)) = (ta, s2)" by fastforce
  define answer where "answer = wStream w (svTick s2) name ?preq"
  let ?s3 = "tick (log_effects [CallStream name ?preq answer] s2)"
  have r: "reported N ?p [name] [] s ?s3"
    using tb n by (auto simp: svc_telemetry_begin_def recordAttemptStart_eq reported_def log_effects_def tick_def
        requestRouting_def from_known_def split: prod.splits)
  have n': "attName a \<in> N" using n by simp
  show ?thesis
  proof (cases answer)
    case (Inl e)
    with assms(1) st tb have "open_failed w name model ?v a index ta e h1 ?s3 = (p, h', s')"
      by (simp add: try_stream_def Let_def answer_def)
    with r show ?thesis
      using stream_end_reported(3) [OF n(1) n'] stream_end_known(3) [OF n(1)] reported_trans [OF r] by fastforce
  next
    case (Inr str)
    with assms(1) st tb have "stream_chunks w req name model ?v a index (strChunks str) (strEnd str)
        \<lparr>sgCommitted = False, sgUsage = None, sgTTFC = None, sgTelemetry = ta\<rparr> h1 ?s3 = (p, h', s')"
      by (simp add: try_stream_def Let_def answer_def)
    from stream_chunks_reported [OF this n(1) n', of ?p] show ?thesis
      using reported_trans [OF r, of "[]" "[name]" s'] by simp
  qed
qed

lemma stream_item_reported:
  assumes "stream_item w (Some ver) req item v h s = (p, h', s')" "pvName item \<in> N" "from_known N v"
  shows "(\<exists>cs. reported N (rcPolicy (rvConfig ver)) cs cs s s') \<and> pass_known N p"
proof -
  let ?p = "rcPolicy (rvConfig ver)" and ?v = "v\<lparr>fvUsableMapping := True\<rparr>"
  obtain a s1 where b: "svc_begin w (pvName item) s = (a, s1)" by fastforce
  have r: "unreported N ?p s s1" and an: "\<And>att. a = Some att \<Longrightarrow> attName att = pvName item"
    using svc_begin_reported [OF b assms(2)] by blast+
  have fv: "from_known N ?v" using assms(3) by (simp add: from_known_def)
  consider "s' = s" "pass_known N p" | "s' = s1" "pass_known N p"
    | model att where "a = Some att" "try_stream w (Some ver) req (pvName item) model ?v att h s1 = (p, h', s')"
    using assms b fv by (cases a)
      (auto simp: stream_item_def Let_def pass_known_def from_known_def split: sum.splits if_splits)
  then show ?thesis
  proof cases
    case 1
    then show ?thesis using reported_refl by blast
  next
    case 2
    then show ?thesis using r by blast
  next
    case 3
    from try_stream_reported [OF this(2) assms(2) an [OF this(1)] fv] show ?thesis
      using unreported_then [OF r] by blast
  qed
qed

lemma stream_loop_reported:
  assumes "stream_loop w (Some ver) req items v h s = (res, h', s')" "pvName ` set items \<subseteq> N" "from_known N v"
  shows "\<exists>cs. reported N (rcPolicy (rvConfig ver)) cs cs s s'"
  using assms
proof (induction items arbitrary: v h s)
  case Nil
  then have "s' = s" by simp
  then show ?case using reported_refl by blast
next
  case (Cons item items)
  obtain p h1 s1 where it: "stream_item w (Some ver) req item v h s = (p, h1, s1)"
    by (metis prod_cases3)
  have "pvName item \<in> N" using Cons.prems(2) by simp
  then obtain cs where cs: "reported N (rcPolicy (rvConfig ver)) cs cs s s1" and k: "pass_known N p"
    using stream_item_reported [OF it _ Cons.prems(3)] by blast
  show ?case
  proof (cases p)
    case (Return r)
    with Cons.prems(1) it cs show ?thesis by auto
  next
    case (Continue v1)
    with Cons.prems(1) it have "stream_loop w (Some ver) req items v1 h1 s1 = (res, h', s')" by simp
    then obtain ds where "reported N (rcPolicy (rvConfig ver)) ds ds s1 s'"
      using Cons.IH [of v1] Cons.prems(2) k Continue unfolding pass_known_def by fastforce
    then show ?thesis using reported_trans [OF cs] by blast
  qed
qed

lemma stream_body_reported:
  assumes "stream_body w (Some ver) req h s = (res, h', s')"
  shows "\<exists>cs. reported (pvName ` set (svProviders s)) (rcPolicy (rvConfig ver)) cs cs s s'"
proof -
  let ?N = "pvName ` set (svProviders s)" and ?p = "rcPolicy (rvConfig ver)"
  obtain order s1 where o': "orderedProviders w (Some ver) streamingMode (reqModel req) s = (order, s1)" by fastforce
  have r: "unreported ?N ?p s s1" and n: "pvName ` set order \<subseteq> ?N"
    using orderedProviders_reported [of ?N ?p s w "Some ver" streamingMode "reqModel req"]
      ordered_names [of w "Some ver" streamingMode "reqModel req" s] o' by simp_all
  consider "s' = s" | "stream_loop w (Some ver) req order start_vars h s1 = (res, h', s')"
    using assms by (auto simp: stream_body_def o' split: option.splits if_splits)
  then show ?thesis
  proof cases
    case 1
    then show ?thesis using reported_refl by blast
  next
    case 2
    from stream_loop_reported [OF this n start_vars_known] show ?thesis
      using unreported_then [OF r] by blast
  qed
qed

lemma Stream_reported:
  "\<exists>cs. reported (pvName ` set (svProviders s)) (snd (BindRouting (svRouting s) ctx0)) cs cs s
     (snd (Stream w ctx0 req s))"
proof -
  let ?N = "pvName ` set (svProviders s)"
  obtain ver where b: "BindRouting (svRouting s) ctx0 = (Some ver, rcPolicy (rvConfig ver))"
    by (rule BindRouting_bound)
  obtain h s1 where hs: "svc_history w (Some ver) req s = (h, s1)" by fastforce
  obtain err h' s2 where bd: "stream_body w (Some ver) req h s1 = (err, h', s2)" by (metis prod_cases3)
  have e: "snd (Stream w ctx0 req s) = svc_finish w h' err s2"
    by (simp add: Stream_def b hs bd)
  have pr: "svProviders s1 = svProviders s" using svc_history_providers [of w "Some ver" req s] hs by simp
  obtain cs where cs: "reported ?N (rcPolicy (rvConfig ver)) cs cs s1 s2"
    using stream_body_reported [OF bd] pr by auto
  have "unreported ?N (rcPolicy (rvConfig ver)) s s1"
    using svc_history_reported [of ?N "rcPolicy (rvConfig ver)" s w "Some ver" req] hs by simp
  from then_unreported [OF unreported_then [OF this cs] svc_finish_reported] show ?thesis
    unfolding e b by auto
qed

section \<open>Counters\<close>

text \<open>The total that a counter of this name has gained under all label sets that include the given
  labels.\<close>

fun counted :: "string \<Rightarrow> labels \<Rightarrow> measurement \<Rightarrow> int" where
  "counted name ls (Add i v ls') = (if inName i = name \<and> set ls \<subseteq> set ls' then v else 0)"
| "counted name ls _ = 0"

definition counter_total :: "string \<Rightarrow> labels \<Rightarrow> measurement list \<Rightarrow> int" where
  "counter_total name ls ms = sum_list (map (counted name ls) ms)"

lemma counter_total_simps [simp]:
  "counter_total name ls [] = 0" "counter_total name ls (x # xs) = counted name ls x + counter_total name ls xs"
  "counter_total name ls (xs @ ys) = counter_total name ls xs + counter_total name ls ys"
  by (simp_all add: counter_total_def)

lemma measurements_simps [simp]:
  "measurements m [] = []" "measurements m (e # es) = effect_measurements m e @ measurements m es"
  by (simp_all add: measurements_def)

definition made_metrics :: "meter \<Rightarrow> Metrics" where
  "made_metrics meter = \<lparr>mtMeter = Some meter,
     mtRequests = Some (plain_instrument Int64Counter ''routeforge_requests''),
     mtRequestDuration = Some (seconds_histogram ''routeforge_request_duration'' durationBuckets),
     mtRoutingSelections = Some (plain_instrument Int64Counter ''routeforge_routing_selections''),
     mtProviderAttempts = Some (plain_instrument Int64Counter ''routeforge_provider_attempts''),
     mtProviderDuration = Some (seconds_histogram ''routeforge_provider_duration'' durationBuckets),
     mtProviderTTFC = Some (seconds_histogram ''routeforge_provider_ttfc'' ttfcBuckets),
     mtFallbacks = Some (plain_instrument Int64Counter ''routeforge_fallbacks''),
     mtCircuitTransitions = Some (plain_instrument Int64Counter ''routeforge_circuit_transitions''),
     mtTokens = Some (plain_instrument Int64Counter ''routeforge_tokens''),
     mtEstimatedCost = Some (plain_instrument Int64Counter ''routeforge_estimated_cost_micro_usd''),
     mtPersistenceRecords = Some (plain_instrument Int64Counter ''routeforge_persistence_records''),
     mtCacheLookups = Some (plain_instrument Int64Counter ''routeforge_cache_lookups''),
     mtCacheWrites = Some (plain_instrument Int64Counter ''routeforge_cache_writes'')\<rparr>"

lemma NewMetrics_made: "NewMetrics meter = Inr m \<Longrightarrow> m = made_metrics meter"
  by (simp add: NewMetrics_def make_instrument_def made_metrics_def split: option.splits)

lemma NewMetrics_total: "(\<And>i. meter i = None) \<Longrightarrow> NewMetrics meter = Inr (made_metrics meter)"
  by (simp add: NewMetrics_def make_instrument_def made_metrics_def)

lemmas made_simps = made_metrics_def plain_instrument_def seconds_histogram_def

text \<open>The tokens of one direction that a usage of this provider adds.\<close>

definition usage_tokens :: "(Usage \<Rightarrow> u64 option) \<Rightarrow> string \<Rightarrow> string \<times> Usage option \<Rightarrow> int" where
  "usage_tokens tokens n u = (if fst u \<noteq> n then 0 else
     (case Option.bind (snd u) tokens of None \<Rightarrow> 0
      | Some v \<Rightarrow> if int (unat v) > MaxInt64 then 0 else int (unat v)))"

lemma metric_counted:
  fixes meter n r
  defines "ms \<equiv> metric_measurements (Some (made_metrics meter)) r"
  shows "counter_total ''routeforge_provider_attempts'' [(''provider'', StringLabel n)] ms
      = int (count_list (attempt_reported (Metric r)) n)"
    "counter_total ''routeforge_tokens'' [(''provider'', StringLabel n), (''direction'', StringLabel ''input'')] ms
      = sum_list (map (usage_tokens InputTokens n) (usage_reported (Metric r)))"
    "counter_total ''routeforge_tokens'' [(''provider'', StringLabel n), (''direction'', StringLabel ''output'')] ms
      = sum_list (map (usage_tokens OutputTokens n) (usage_reported (Metric r)))"
    "NilInstrument \<notin> set ms"
  unfolding ms_def
  by (cases r; auto simp: record_defs made_simps usage_tokens_def split: option.splits)+

lemma measurements_counted:
  fixes meter es
  defines "ms \<equiv> measurements (made_metrics meter) es"
  shows "counter_total ''routeforge_provider_attempts'' [(''provider'', StringLabel n)] ms
      = int (count_list (gather attempt_reported es) n)"
    "counter_total ''routeforge_tokens'' [(''provider'', StringLabel n), (''direction'', StringLabel ''input'')] ms
      = sum_list (map (usage_tokens InputTokens n) (gather usage_reported es))"
    "counter_total ''routeforge_tokens'' [(''provider'', StringLabel n), (''direction'', StringLabel ''output'')] ms
      = sum_list (map (usage_tokens OutputTokens n) (gather usage_reported es))"
    "NilInstrument \<notin> set ms"
proof -
  have e: "(\<exists>r. e = Metric r) \<or> effect_measurements m e = [] \<and> attempt_reported e = [] \<and> usage_reported e = []" for m e
    by (cases e) auto
  show "counter_total ''routeforge_provider_attempts'' [(''provider'', StringLabel n)] ms
      = int (count_list (gather attempt_reported es) n)"
    unfolding ms_def
  proof (induction es)
    case (Cons x es)
    then show ?case using e [of x "made_metrics meter"] metric_counted(1) [of n meter] by auto
  qed simp
  show "counter_total ''routeforge_tokens'' [(''provider'', StringLabel n), (''direction'', StringLabel ''input'')] ms
      = sum_list (map (usage_tokens InputTokens n) (gather usage_reported es))"
    unfolding ms_def
  proof (induction es)
    case (Cons x es)
    then show ?case using e [of x "made_metrics meter"] metric_counted(2) [of n meter] by auto
  qed simp
  show "counter_total ''routeforge_tokens'' [(''provider'', StringLabel n), (''direction'', StringLabel ''output'')] ms
      = sum_list (map (usage_tokens OutputTokens n) (gather usage_reported es))"
    unfolding ms_def
  proof (induction es)
    case (Cons x es)
    then show ?case using e [of x "made_metrics meter"] metric_counted(3) [of n meter] by auto
  qed simp
  show "NilInstrument \<notin> set ms"
    unfolding ms_def
  proof (induction es)
    case (Cons x es)
    then show ?case using e [of x "made_metrics meter"] metric_counted(4) [of meter] by auto
  qed simp
qed

section \<open>Labels\<close>

fun measurement_labels :: "measurement \<Rightarrow> labels" where
  "measurement_labels (Add i v ls) = ls"
| "measurement_labels (Observe i d ls) = ls"
| "measurement_labels NilInstrument = []"

text \<open>The fixed words that appear as label values.\<close>

definition label_words :: "string set" where
  "label_words = outcome_words \<union> {''closed'', ''open'', ''half_open''} \<union> {''hit'', ''miss'', ''error'', ''success''} \<union>
     {''input'', ''output''} \<union> {''written'', ''write_error'', ''queue_full''}"

fun label_within :: "string set \<Rightarrow> label \<Rightarrow> bool" where
  "label_within W (StringLabel x) \<longleftrightarrow> x \<in> W"
| "label_within W (BoolLabel b) \<longleftrightarrow> True"

lemma circuit_text_word: "circuit_text c \<in> label_words"
  by (cases c) (simp_all add: label_words_def)

lemma write_outcome_word: "write_outcome_text c \<in> label_words"
  by (cases c) (simp_all add: label_words_def)

lemma label_words_intro:
  "x \<in> outcome_words \<Longrightarrow> x \<in> label_words" "''hit'' \<in> label_words" "''miss'' \<in> label_words"
  "''error'' \<in> label_words" "''success'' \<in> label_words" "''input'' \<in> label_words" "''output'' \<in> label_words"
  by (simp_all add: label_words_def)

lemma metric_labelled:
  assumes "metric_about N p r" "x \<in> set (metric_measurements (Some (made_metrics meter)) r)"
    "(k, l) \<in> set (measurement_labels x)"
  shows "label_within (N \<union> {p} \<union> label_words) l"
  using assms label_words_intro circuit_text_word write_outcome_word
  by (cases r) (auto simp: record_defs made_simps split: option.splits if_splits)

lemma measurements_labelled:
  assumes "list_all (effect_about N p) es" "x \<in> set (measurements (made_metrics meter) es)"
    "(k, l) \<in> set (measurement_labels x)"
  shows "label_within (N \<union> {p} \<union> label_words) l"
proof -
  obtain e where e: "e \<in> set es" "x \<in> set (effect_measurements (made_metrics meter) e)"
    using assms(2) by (auto simp: measurements_def)
  from e(2) obtain r where "e = Metric r" by (cases e) simp_all
  with e assms show ?thesis by (intro metric_labelled) (auto simp: list_all_iff)
qed

section \<open>Properties\<close>

definition new_effects :: "Service \<Rightarrow> Service \<Rightarrow> effect list" where
  "new_effects s s' = drop (length (svTrace s)) (svTrace s')"

text \<open>The contract that both kinds of request meet, and what follows from it for the effects they add.\<close>

locale reporting_request =
  fixes request :: "world \<Rightarrow> routing_ctx \<Rightarrow> ChatCompletionRequest \<Rightarrow> Service \<Rightarrow> Service"
  assumes reports: "\<exists>cs. reported (pvName ` set (svProviders s)) (snd (BindRouting (svRouting s) ctx)) cs cs s
    (request w ctx req s)"
begin

lemma appended: "svTrace (request w ctx req s) = svTrace s @ new_effects s (request w ctx req s)"
  using reports [of s ctx w req] by (auto simp: reported_def new_effects_def)

lemma attempts_called:
  "gather attempt_reported (new_effects s (request w ctx req s)) = gather called (new_effects s (request w ctx req s))"
  using reports [of s ctx w req] by (auto simp: reported_def new_effects_def)

lemma usages_accounted:
  "gather usage_reported (new_effects s (request w ctx req s)) = gather usage_accounted (new_effects s (request w ctx req s))"
  using reports [of s ctx w req] by (auto simp: reported_def new_effects_def)

lemma about_known:
  "list_all (effect_about (pvName ` set (svProviders s)) (snd (BindRouting (svRouting s) ctx)))
     (new_effects s (request w ctx req s))"
  using reports [of s ctx w req] by (auto simp: reported_def new_effects_def)

end

interpretation complete_reports: reporting_request "\<lambda>w ctx req s. snd (Complete w ctx req s)"
  by unfold_locales (rule Complete_reported)

interpretation stream_reports: reporting_request "\<lambda>w ctx req s. snd (Stream w ctx req s)"
  by unfold_locales (rule Stream_reported)

lemma request_reported:
  assumes "s' \<in> {snd (Complete w ctx req s), snd (Stream w ctx req s)}"
  shows "svTrace s' = svTrace s @ new_effects s s'"
    "gather attempt_reported (new_effects s s') = gather called (new_effects s s')"
    "gather usage_reported (new_effects s s') = gather usage_accounted (new_effects s s')"
    "list_all (effect_about (pvName ` set (svProviders s)) (snd (BindRouting (svRouting s) ctx))) (new_effects s s')"
  using assms complete_reports.appended stream_reports.appended complete_reports.attempts_called
    stream_reports.attempts_called complete_reports.usages_accounted stream_reports.usages_accounted
    complete_reports.about_known stream_reports.about_known by auto

text \<open>C20: What the exported counters say of a request is what the gateway did: over a completion or a
  stream, whatever the outside answers, the attempt counter of every provider grows by exactly the
  number of calls made to it, the token counters grow by exactly the input and output tokens that were
  accounted to it (values beyond the signed range are dropped), and no nil instrument is called.\<close>

theorem metrics_match_requests:
  assumes "NewMetrics meter = Inr m"
    and "s' \<in> {snd (Complete w ctx req s), snd (Stream w ctx req s)}"
  defines "es \<equiv> new_effects s s'" and "ms \<equiv> measurements m (new_effects s s')"
  shows "svTrace s' = svTrace s @ es \<and>
    counter_total ''routeforge_provider_attempts'' [(''provider'', StringLabel n)] ms
      = int (count_list (gather called es) n) \<and>
    counter_total ''routeforge_tokens'' [(''provider'', StringLabel n), (''direction'', StringLabel ''input'')] ms
      = sum_list (map (usage_tokens InputTokens n) (gather usage_accounted es)) \<and>
    counter_total ''routeforge_tokens'' [(''provider'', StringLabel n), (''direction'', StringLabel ''output'')] ms
      = sum_list (map (usage_tokens OutputTokens n) (gather usage_accounted es)) \<and>
    NilInstrument \<notin> set ms"
  using request_reported [OF assms(2)] measurements_counted(1-3) [of n meter es] measurements_counted(4) [of meter es]
  unfolding es_def ms_def NewMetrics_made [OF assms(1)] by simp

lemma demo_meter: "NewMetrics (\<lambda>_. None) = Inr (made_metrics (\<lambda>_. None))"
  by (rule NewMetrics_total) simp

lemma one_provider_trace: "svTrace one_provider = []"
  by (simp add: one_provider_def SetPersistence_def New_Service_def NewWithCircuitBreaker_def build_service_def)

lemma one_call: "gather called (svTrace (snd (Complete quiet_world None hello one_provider))) = [''openai'']"
  by code_simp

theorem metrics_match_requests_witness:
  "counter_total ''routeforge_provider_attempts'' [(''provider'', StringLabel ''openai'')]
     (measurements (made_metrics (\<lambda>_. None))
       (new_effects one_provider (snd (Complete quiet_world None hello one_provider)))) = 1"
proof -
  have "gather called (new_effects one_provider (snd (Complete quiet_world None hello one_provider))) = [''openai'']"
    by (simp add: new_effects_def one_provider_trace one_call)
  then show ?thesis
    using metrics_match_requests [where w = quiet_world and ctx = None and req = hello and s = one_provider
        and n = "''openai''", OF demo_meter insertI1]
    by simp
qed

text \<open>C39: Labels are bounded: every label value that a request puts on a measurement is the name of a
  configured provider, the policy the request was bound to, or one of a fixed set of words. Nothing of
  the request, of an answer or of an error reaches the metrics.\<close>

theorem metric_labels_bounded:
  assumes "NewMetrics meter = Inr m"
    and "s' \<in> {snd (Complete w ctx req s), snd (Stream w ctx req s)}"
  shows "list_all (\<lambda>x. list_all (\<lambda>(k, l).
      label_within (pvName ` set (svProviders s) \<union> {snd (BindRouting (svRouting s) ctx)} \<union> label_words) l)
      (measurement_labels x)) (measurements m (new_effects s s'))"
  using measurements_labelled [OF request_reported(4) [OF assms(2)]]
  unfolding NewMetrics_made [OF assms(1)] list_all_iff by fastforce

lemma one_provider_names:
  "svProviders one_provider = [\<lparr>pvName = ''openai'', pvStreaming = True\<rparr>]"
  "snd (BindRouting (svRouting one_provider) None) = ''deterministic''"
  by (simp_all add: one_provider_def SetPersistence_def New_Service_def NewWithCircuitBreaker_def
      build_service_def BindRouting_def newRuntimeRouting_def zero_routing_config_def Let_def
      normalizedRoutingPolicyName_def policy_names)

theorem metric_labels_bounded_witness:
  "list_all (\<lambda>x. list_all (\<lambda>(k, l). label_within ({''openai'', ''deterministic''} \<union> label_words) l)
      (measurement_labels x))
     (measurements (made_metrics (\<lambda>_. None))
       (new_effects one_provider (snd (Stream quiet_world None hello one_provider))))"
  using metric_labels_bounded [OF demo_meter, of "snd (Stream quiet_world None hello one_provider)" quiet_world None hello one_provider]
  by (simp add: one_provider_names insert_commute)

end
