(* ===== verification/Gateway_Server.thy ===== *)
theory Gateway_Server
  imports Observability
begin

text \<open>
  The inference server as a whole: the route table of \<open>internal/httpapi/handler.go\<close> over the gateway
  service, behind the middleware of \<open>tracing.go\<close> that binds the routing settings and records the
  request, as \<open>cmd/routeforge/main.go\<close> puts them together.
\<close>

section \<open>Routes\<close>

text \<open>\<open>http.NotFound\<close>.\<close>

definition NotFound :: "network \<Rightarrow> response_writer \<Rightarrow> response_writer" where
  "NotFound net w =
     snd (rw_Write net (''404 page not found'' @ [newline])
       (rw_WriteHeader 404 (set_header ''X-Content-Type-Options'' ''nosniff''
         (set_header ''Content-Type'' ''text/plain; charset=utf-8'' w))))"

text \<open>The mux on a path it has cleaned; a handler's result is the request that the completer was called
  with, and the response.\<close>

definition Routes ::
  "network \<Rightarrow> (http_in \<Rightarrow> response_writer \<Rightarrow> ChatCompletionRequest option \<times> response_writer) \<Rightarrow> http_in \<Rightarrow> response_writer
   \<Rightarrow> ChatCompletionRequest option \<times> response_writer" where
  "Routes net chat r w =
     (if hiPath r = ''/health'' then (None, health net r w)
      else if hiPath r = chatCompletionsRoute then chat r w
      else (None, NotFound net w))"

section \<open>The gateway behind the handler\<close>

fun emitted_by :: "effect \<Rightarrow> StreamChunk list" where
  "emitted_by (Emit _ c) = [c]"
| "emitted_by _ = []"

text \<open>From here on the connection takes every write, so that the handler's emit callback never fails.\<close>

definition connected :: "world \<Rightarrow> world" where
  "connected w = w\<lparr>wEmit := (\<lambda>_ _. None)\<rparr>"

text \<open>The service in the state \<open>s\<close> as the handler's completer.\<close>

definition service_complete ::
  "world \<Rightarrow> routing_ctx \<Rightarrow> Service \<Rightarrow> ChatCompletionRequest \<Rightarrow> ChatCompletionResponse \<times> go_error option" where
  "service_complete w ctx s req = fst (Complete (connected w) ctx req s)"

definition service_stream :: "world \<Rightarrow> routing_ctx \<Rightarrow> Service \<Rightarrow> streamer" where
  "service_stream w ctx s req answers =
     (case Stream (connected w) ctx req s of (err, s') \<Rightarrow> (gather emitted_by (new_effects s s'), err))"

text \<open>The state after a request, given what the completer was called with.\<close>

definition service_after :: "world \<Rightarrow> routing_ctx \<Rightarrow> Service \<Rightarrow> ChatCompletionRequest option \<Rightarrow> Service" where
  "service_after w ctx s q =
     (case q of
        None \<Rightarrow> s
      | Some req \<Rightarrow> if reqStream req then snd (Stream (connected w) ctx req s) else snd (Complete (connected w) ctx req s))"

definition request_measurements :: "Metrics option \<Rightarrow> duration \<Rightarrow> request_metric option \<Rightarrow> measurement list" where
  "request_measurements m duration rm =
     (case rm of None \<Rightarrow> [] | Some x \<Rightarrow> do_RecordRequest m (rmPolicy x) (rmStreaming x) (rmOutcome x) duration)"

record served =
  sdWriter :: response_writer
  sdMeasurements :: "measurement list"
  sdService :: Service

text \<open>A request: the middleware binds the routing settings of a chat request, serves it and records it.
  Other requests pass through.\<close>

definition serve_request ::
  "(string \<Rightarrow> string) \<Rightarrow> bool \<Rightarrow> bool \<Rightarrow> duration \<Rightarrow> Metrics option \<Rightarrow> world \<Rightarrow> Service \<Rightarrow> http_in \<Rightarrow> served" where
  "serve_request quote flusher canceled duration m w s r =
     (let (ctx, policy) = BindRouting (svRouting s) None;
          handler = Routes reliable
            (chatCompletions reliable quote flusher canceled (service_complete w ctx s) (service_stream w ctx s))
      in case TraceRequests handler policy canceled r new_writer of (metric, rw) \<Rightarrow>
         \<lparr>sdWriter = rw, sdMeasurements = request_measurements m duration metric,
           sdService = service_after w ctx s (fst (handler r new_writer))\<rparr>)"

section \<open>What a stream emits\<close>

lemma gather_core: "gather emitted_by (filter core_effect es) = gather emitted_by es"
proof (induction es)
  case (Cons e es)
  then show ?case by (cases e) simp_all
qed simp

lemma attempts_emitted: "gather emitted_by (concat (map attempt_effects sas)) = concat (map saEmitted sas)"
proof (induction sas)
  case (Cons sa sas)
  have "gather emitted_by (map (Emit n) cs) = cs" for n cs by (induction cs) simp_all
  with Cons show ?case by (simp add: attempt_effects_def)
qed simp

lemma last_emitted:
  "stream_result req sas err \<Longrightarrow> concat (map saEmitted sas) = (if sas = [] then [] else saEmitted (last sas))"
proof (induction sas rule: rev_induct)
  case (snoc sa sas)
  then have "concat (map saEmitted sas) = []" by (auto simp: stream_result_def attempt_failed_over_def)
  then show ?case by simp
qed simp

lemma Stream_emitted:
  fixes w ctx req s
  defines "s' \<equiv> snd (Stream w ctx req s)"
  assumes "stream_trace s s' sas rs"
  shows "gather emitted_by (new_effects s s') = concat (map saEmitted sas)"
proof -
  have "svTrace s' = svTrace s @ new_effects s s'"
    unfolding s'_def by (rule request_reported(1) [where ctx = ctx and w = w and req = req]) simp
  then have "core s' = core s @ filter core_effect (new_effects s s')" unfolding core_def by (metis filter_append)
  with assms(2) have "filter core_effect (new_effects s s') = concat (map attempt_effects sas) @ map SubmitHistory rs"
    by (simp add: stream_trace_def)
  moreover have "gather emitted_by (map SubmitHistory rs) = []" by (induction rs) simp_all
  ultimately show ?thesis using gather_core [of "new_effects s s'"] attempts_emitted by simp
qed

section \<open>Properties\<close>

lemma streaming_request:
  fixes s :: Service and quote canceled duration m w
  assumes "read_request (hiBody r) = Inr req" "reqStream req" "hiMethod r = ''POST''" "hiPath r = chatCompletionsRoute"
    "ParseMediaType (hiContentType r) = Some ''application/json''"
  defines "ctx \<equiv> Some (rtCurrent (svRouting s))"
  defines "x \<equiv> serve_request quote True canceled duration m w s r"
  shows "sdWriter x = streamChatCompletions reliable quote True canceled (service_stream w ctx s) req new_writer"
    "sdService x = snd (Stream (connected w) ctx req s)"
    "sdMeasurements x = do_RecordRequest m (snd (BindRouting (svRouting s) None)) True (traced_outcome canceled (sdWriter x)) duration"
  using assms(1-5)
  by (simp_all add: x_def ctx_def serve_request_def BindRouting_def Routes_def chatCompletions_def TraceRequests_def
      chatCompletionsRoute_def service_after_def request_measurements_def)

text \<open>C5: A stream through the whole server. When a streaming chat request is served over a connection that
  takes every write, there is a sequence of provider attempts, only the last of which passed on anything,
  such that a client that reads the response with the OpenAI adapter receives exactly what that one
  provider's attempt passed on, and the end of the stream exactly if the gateway's stream succeeded, in
  which case it is all that the provider sent to be seen. If nothing was passed on and the stream failed,
  the response is an ordinary error. The request is counted once, under the policy in force when it arrived.\<close>

theorem stream_served:
  fixes s :: Service and quote canceled duration w clock
  assumes "read_request (hiBody r) = Inr req" "reqStream req" "hiMethod r = ''POST''" "hiPath r = chatCompletionsRoute"
    "ParseMediaType (hiContentType r) = Some ''application/json''" "NewMetrics meter = Inr m"
  defines "x \<equiv> serve_request quote True canceled duration (Some m) w s r"
  defines "err \<equiv> fst (Stream (connected w) (Some (rtCurrent (svRouting s))) req s)"
  defines "chunks \<equiv> gather emitted_by (new_effects s (sdService x))"
  assumes "list_all relayable chunks"
  shows "\<exists>sas rs. stream_trace s (sdService x) sas rs \<and>
    chunks = (if sas = [] then [] else saEmitted (last sas)) \<and>
    list_all (\<lambda>sa. saEmitted sa = []) (butlast sas) \<and>
    (if err = None \<or> chunks \<noteq> [] then
       rwStatus (sdWriter x) = 200 \<and>
       adapter_drain openai_event (stream_read_error openai_Name None) clock 0
         \<lparr>asState = (), asReader = NewSSEReader \<lparr>bodyBytes = rwBody (sdWriter x), bodyError = None\<rparr>, asDone = False\<rparr>
       = (map wire_chunk chunks, if err = None then EOF
            else NewError ErrorUnavailable openai_Name (PlainError ''upstream stream ended unexpectedly''))
     else error_reply (sdWriter x)) \<and>
    (err = None \<longrightarrow> sas \<noteq> [] \<and> chunks = client_chunks req (attempt_chunks (last sas))) \<and>
    counter_total ''routeforge_requests'' [(''routing_policy'', StringLabel (rcPolicy (rvConfig (rtCurrent (svRouting s)))))]
      (sdMeasurements x) = 1"
proof -
  let ?ctx = "Some (rtCurrent (svRouting s))"
  note sv = streaming_request [OF assms(1-5), where s = s and quote = quote and canceled = canceled and duration = duration
    and m = "Some m" and w = w, folded x_def]
  obtain sas rs where t: "stream_trace s (sdService x) sas rs" and res: "stream_result req sas err"
    unfolding sv(2) err_def by (rule Stream_streamed [where w = "connected w" and ctx = ?ctx and req = req and s = s]) blast
  have c: "chunks = concat (map saEmitted sas)"
    unfolding chunks_def sv(2) by (rule Stream_emitted) (use t sv(2) in simp)
  have st: "service_stream w ?ctx s req (\<lambda>i c. None) = (chunks, err)"
    by (simp add: service_stream_def chunks_def err_def sv(2) case_prod_unfold)
  have "chunks = client_chunks req (attempt_chunks (last sas))" "sas \<noteq> []" if "err = None"
    using res that c last_emitted [OF res] by (auto simp: stream_result_def attempt_completed_def)
  moreover have "list_all (\<lambda>sa. saEmitted sa = []) (butlast sas)"
    using res by (auto simp: stream_result_def attempt_failed_over_def list_all_iff)
  moreover have "counter_total ''routeforge_requests'' [(''routing_policy'', StringLabel (rcPolicy (rvConfig (rtCurrent (svRouting s)))))]
      (sdMeasurements x) = 1"
    unfolding sv(3) NewMetrics_made [OF assms(6)]
    by (simp add: do_RecordRequest_def when_present_def made_metrics_def counter_Add_def histogram_Record_def
        plain_instrument_def BindRouting_def Let_def)
  moreover have "if err = None \<or> chunks \<noteq> [] then rwStatus (sdWriter x) = 200 \<and>
      rwBody (sdWriter x) = concat (map chunk_frame chunks) @ (if err = None then done_frame else [])
    else error_reply (sdWriter x)"
    using relayed_response [of "service_stream w ?ctx s" req chunks err quote canceled] st unfolding sv(1) by (auto split: if_splits)
  moreover have "chunks = (if sas = [] then [] else saEmitted (last sas))" using last_emitted [OF res] c by simp
  ultimately show ?thesis
    using t drain_frames [OF assms(10), of clock "err = None"]
    by (intro exI [of _ sas] exI [of _ rs]) (auto split: if_splits)
qed

text \<open>One provider that streams one chunk.\<close>

definition hello_stream :: ChatCompletionRequest where
  "hello_stream = hello\<lparr>reqStream := True\<rparr>"

definition hi_chunk :: StreamChunk where
  "hi_chunk = zero_chunk\<lparr>ckID := ''x'', ckContent := ''hi''\<rparr>"

definition streaming_world :: world where
  "streaming_world = quiet_world\<lparr>wStream := (\<lambda>_ _ _. Inr \<lparr>strChunks = [hi_chunk], strEnd = EOF\<rparr>)\<rparr>"

lemma hello_streamed:
  "case Stream (connected streaming_world) (Some (rtCurrent (svRouting one_provider))) hello_stream one_provider of
     (err, s') \<Rightarrow> err = None \<and> gather emitted_by (svTrace s') = [hi_chunk]"
  by code_simp

text \<open>The request on the wire.\<close>

definition hello_http :: http_in where
  "hello_http = \<lparr>hiMethod = ''POST'', hiPath = chatCompletionsRoute, hiContentType = ''application/json'',
     hiBody = \<lparr>bodyBytes = Encoder_Encode (Request_json hello_stream), bodyError = None\<rparr>\<rparr>"

lemma hello_read: "read_request (hiBody hello_http) = Inr hello_stream"
proof -
  let ?v = "Request_json hello_stream"
  have v: "?v = JObj [(''model'', JStr ''gpt''), (''messages'', JArr [JObj [(''role'', JStr ''user''), (''content'', JStr ''hi'')]]),
      (''stream'', JBool True)]"
    by (simp add: Request_json_def hello_stream_def hello_def slice_json_def Message_json_def)
  have "sanitize ?v = ?v" by (simp add: v sanitize_ascii)
  then have "Decode_single True (bytes_of (Encoder_Encode ?v)) = Some ?v"
    using Decode_Encode [of ?v] by (simp add: v maxNestingDepth_def)
  moreover have "decode_Request False ?v zero_request = Some hello_stream" by code_simp
  moreover have "length (Encoder_Encode ?v) \<le> 100" by code_simp
  ultimately show ?thesis by (simp add: read_request_exact hello_http_def maxRequestBodyBytes_def)
qed

theorem stream_served_witness:
  "let x = serve_request (\<lambda>s. s) True False 0 (Some (made_metrics (\<lambda>_. None))) streaming_world one_provider hello_http
   in rwStatus (sdWriter x) = 200 \<and>
      adapter_drain openai_event (stream_read_error openai_Name None) (\<lambda>_. 0) 0
        \<lparr>asState = (), asReader = NewSSEReader \<lparr>bodyBytes = rwBody (sdWriter x), bodyError = None\<rparr>, asDone = False\<rparr>
        = ([hi_chunk], EOF)"
proof -
  let ?x = "serve_request (\<lambda>s. s) True False 0 (Some (made_metrics (\<lambda>_. None))) streaming_world one_provider hello_http"
  have http: "reqStream hello_stream" "hiMethod hello_http = ''POST''" "hiPath hello_http = chatCompletionsRoute"
    "ParseMediaType (hiContentType hello_http) = Some ''application/json''"
    by (simp_all add: hello_stream_def hello_http_def ParseMediaType_json)
  note sv = streaming_request [OF hello_read http, where s = one_provider and quote = "\<lambda>s. s" and canceled = False
      and duration = 0 and m = "Some (made_metrics (\<lambda>_. None))" and w = streaming_world]
  have e: "fst (Stream (connected streaming_world) (Some (rtCurrent (svRouting one_provider))) hello_stream one_provider) = None"
    "gather emitted_by (new_effects one_provider (sdService ?x)) = [hi_chunk]"
    using hello_streamed unfolding sv(2) by (auto simp: new_effects_def one_provider_trace split: prod.splits)
  have c: "relayable hi_chunk" "wire_chunk hi_chunk = hi_chunk"
    by (rule small_relayable) (simp_all add: hi_chunk_def zero_chunk_def wire_chunk_def sanitize_ascii in_i64_def
        MinInt64_def MaxInt64_def)
  show ?thesis
    using stream_served [OF hello_read http demo_meter, of one_provider "\<lambda>s. s" False 0 streaming_world "\<lambda>_. 0"] e c
    by (auto simp: Let_def)
qed

end
