(* ===== verification/Postgres_Store.thy ===== *)
theory Postgres_Store
  imports History
begin

text \<open>
  The PostgreSQL store (\<open>internal/persistence/postgres/store.go\<close>): opening it, with the
  migration of the schema in one transaction, closing it and writing a record. The database is a
  parameter: how a statement of the code changes it inside a transaction, what its queries answer, and
  what a commit leaves. What the migration relies on is the predicate \<open>pg_laws\<close>; every
  statement may fail.
\<close>

section \<open>The database\<close>

datatype sql =
    AdvisoryLock int
  | CreateMigrations
  | RunScript string
  | InsertVersion int

datatype sql_query = UnsupportedExists | VersionExists int

record 'db pg =
  pgAcquire :: "string option"
  pgBegin :: "string option"
  pgExec :: "'db \<Rightarrow> sql \<Rightarrow> string + 'db"
  pgQuery :: "'db \<Rightarrow> sql_query \<Rightarrow> string + bool"
  pgFile :: "string \<Rightarrow> string + string"
  pgCommit :: "'db \<Rightarrow> 'db \<Rightarrow> string option \<times> 'db"

text \<open>What happens to the connection and its transaction.\<close>

datatype tx_event = Acquired | Began | Executed sql | RolledBack | Committed | Released

definition migrationLockID :: int where
  "migrationLockID = 736318207101"

definition migrations :: "(int \<times> string) list" where
  "migrations = [(1, ''migrations/0001_initial.sql''), (2, ''migrations/0002_cache_hit.sql''),
     (3, ''migrations/0003_history_pagination.sql'')]"

section \<open>Migration\<close>

text \<open>The loop over the migrations: the error, the state of the transaction and the events.\<close>

fun migrate_all :: "'db pg \<Rightarrow> (int \<times> string) list \<Rightarrow> 'db \<Rightarrow> string option \<times> 'db \<times> tx_event list" where
  "migrate_all pg [] db = (None, db, [])"
| "migrate_all pg ((version, path) # ms) db =
     (case pgQuery pg db (VersionExists version) of
        Inl err \<Rightarrow> (Some err, db, [])
      | Inr True \<Rightarrow> migrate_all pg ms db
      | Inr False \<Rightarrow>
          (case pgFile pg path of
             Inl err \<Rightarrow> (Some err, db, [])
           | Inr script \<Rightarrow>
               (case pgExec pg db (RunScript script) of
                  Inl err \<Rightarrow> (Some err, db, [RolledBack])
                | Inr db1 \<Rightarrow>
                    (case pgExec pg db1 (InsertVersion version) of
                       Inl err \<Rightarrow> (Some err, db1, [Executed (RunScript script), RolledBack])
                     | Inr db2 \<Rightarrow>
                         (case migrate_all pg ms db2 of
                            (err, db3, es) \<Rightarrow>
                              (err, db3, Executed (RunScript script) # Executed (InsertVersion version) # es))))))"

text \<open>The statements of the transaction, up to the commit.\<close>

definition migrate_tx :: "'db pg \<Rightarrow> 'db \<Rightarrow> string option \<times> 'db \<times> tx_event list" where
  "migrate_tx pg db =
     (case pgExec pg db (AdvisoryLock migrationLockID) of
        Inl err \<Rightarrow> (Some err, db, [])
      | Inr db1 \<Rightarrow>
          (case pgExec pg db1 CreateMigrations of
             Inl err \<Rightarrow> (Some err, db1, [Executed (AdvisoryLock migrationLockID)])
           | Inr db2 \<Rightarrow>
               (let es = [Executed (AdvisoryLock migrationLockID), Executed CreateMigrations] in
                case pgQuery pg db2 UnsupportedExists of
                  Inl err \<Rightarrow> (Some err, db2, es)
                | Inr True \<Rightarrow> (Some ''unsupported persistence schema version'', db2, es)
                | Inr False \<Rightarrow>
                    (case migrate_all pg migrations db2 of (err, db3, es') \<Rightarrow> (err, db3, es @ es')))))"

text \<open>\<open>migrate\<close>: the transaction is rolled back on every way out, which does nothing after a
  commit, and the connection is released.\<close>

definition migrate :: "'db pg \<Rightarrow> 'db \<Rightarrow> string option \<times> 'db \<times> tx_event list" where
  "migrate pg db =
     (case pgAcquire pg of
        Some err \<Rightarrow> (Some err, db, [])
      | None \<Rightarrow>
          (case pgBegin pg of
             Some err \<Rightarrow> (Some err, db, [Acquired, Released])
           | None \<Rightarrow>
               (case migrate_tx pg db of
                  (Some err, _, es) \<Rightarrow> (Some err, db, [Acquired, Began] @ es @ [RolledBack, Released])
                | (None, db1, es) \<Rightarrow>
                    (case pgCommit pg db db1 of
                       (err, db2) \<Rightarrow>
                         (err, db2, [Acquired, Began] @ es @ [Committed, RolledBack, Released])))))"

section \<open>The store\<close>

text \<open>The pool: whether its URL parses, whether it can be made, and whether it answers.\<close>

record pool_setup =
  poParse :: "string option"
  poNew :: "string option"
  poPing :: "string option"

datatype pool_event = PoolOpened | PoolClosed

definition Open_Store :: "pool_setup \<Rightarrow> 'db pg \<Rightarrow> 'db \<Rightarrow> string option \<times> 'db \<times> pool_event list" where
  "Open_Store po pg db =
     (if poParse po \<noteq> None then (Some ''invalid PostgreSQL configuration'', db, [])
      else if poNew po \<noteq> None then (Some ''PostgreSQL pool initialization failed'', db, [])
      else if poPing po \<noteq> None
      then (Some ''PostgreSQL connectivity validation failed'', db, [PoolOpened, PoolClosed])
      else (case migrate pg db of
              (Some _, db1, _) \<Rightarrow> (Some ''PostgreSQL migration failed'', db1, [PoolOpened, PoolClosed])
            | (None, db1, _) \<Rightarrow> (None, db1, [PoolOpened])))"

text \<open>\<open>Close\<close> of a store that may be nil or have no pool.\<close>

definition Store_Close :: "bool option \<Rightarrow> pool_event list" where
  "Store_Close st = (case st of Some True \<Rightarrow> [PoolClosed] | _ \<Rightarrow> [])"

definition Store_Write :: "(pg_statement list \<Rightarrow> string option) \<Rightarrow> RequestRecord \<Rightarrow> string option" where
  "Store_Write send r = (case recordBatch r of Inl err \<Rightarrow> Some err | Inr batch \<Rightarrow> send batch)"

section \<open>What the migration relies on\<close>

text \<open>\<open>versions\<close> reads the recorded versions of a database, \<open>scripts\<close> the scripts its
  schema was made by.\<close>

definition exec_law :: "('db \<Rightarrow> int set) \<Rightarrow> ('db \<Rightarrow> string list) \<Rightarrow> sql \<Rightarrow> 'db \<Rightarrow> 'db \<Rightarrow> bool" where
  "exec_law versions scripts stmt db db' =
     (case stmt of
        RunScript script \<Rightarrow> versions db' = versions db \<and> scripts db' = scripts db @ [script]
      | InsertVersion v \<Rightarrow> versions db' = insert v (versions db) \<and> scripts db' = scripts db
      | _ \<Rightarrow> versions db' = versions db \<and> scripts db' = scripts db)"

definition query_law :: "('db \<Rightarrow> int set) \<Rightarrow> sql_query \<Rightarrow> 'db \<Rightarrow> bool \<Rightarrow> bool" where
  "query_law versions q db b =
     (case q of UnsupportedExists \<Rightarrow> b = (\<not> versions db \<subseteq> {1, 2, 3}) | VersionExists v \<Rightarrow> b = (v \<in> versions db))"

text \<open>Statements that succeed have their effect, queries tell the truth, a commit that succeeds leaves
  the state of the transaction, and one that fails leaves either that or the state before it.\<close>

definition pg_laws :: "'db pg \<Rightarrow> ('db \<Rightarrow> int set) \<Rightarrow> ('db \<Rightarrow> string list) \<Rightarrow> bool" where
  "pg_laws pg versions scripts \<longleftrightarrow>
     (\<forall>db stmt db'. pgExec pg db stmt = Inr db' \<longrightarrow> exec_law versions scripts stmt db db') \<and>
     (\<forall>db q b. pgQuery pg db q = Inr b \<longrightarrow> query_law versions q db b) \<and>
     (\<forall>db db' err db''. pgCommit pg db db' = (err, db'') \<longrightarrow> db'' = db' \<or> err \<noteq> None \<and> db'' = db)"

text \<open>A database on which nothing fails.\<close>

definition pg_reliable :: "'db pg \<Rightarrow> bool" where
  "pg_reliable pg \<longleftrightarrow> pgAcquire pg = None \<and> pgBegin pg = None \<and>
     (\<forall>db stmt. \<not> isl (pgExec pg db stmt)) \<and> (\<forall>db q. \<not> isl (pgQuery pg db q)) \<and>
     (\<forall>path. \<not> isl (pgFile pg path)) \<and> (\<forall>db db'. fst (pgCommit pg db db') = None)"

definition missing :: "int set \<Rightarrow> (int \<times> string) list \<Rightarrow> (int \<times> string) list" where
  "missing vs ms = filter (\<lambda>(v, _). v \<notin> vs) ms"

definition script_of :: "'db pg \<Rightarrow> string \<Rightarrow> string" where
  "script_of pg path = (case pgFile pg path of Inl _ \<Rightarrow> [] | Inr s \<Rightarrow> s)"

lemma pg_lawsD:
  assumes "pg_laws pg versions scripts"
  shows "pgExec pg db stmt = Inr db' \<Longrightarrow> exec_law versions scripts stmt db db'"
    "pgQuery pg db q = Inr b \<Longrightarrow> query_law versions q db b"
    "pgCommit pg db db' = (err, db'') \<Longrightarrow> db'' = db' \<or> err \<noteq> None \<and> db'' = db"
  using assms unfolding pg_laws_def by blast+

lemma missing_insert: "v \<notin> fst ` set ms \<Longrightarrow> missing (insert v vs) ms = missing vs ms"
  by (induction ms) (auto simp: missing_def)

lemma migrate_all_effect:
  assumes laws: "pg_laws pg versions scripts"
    and "migrate_all pg ms db = (None, db', es)" "distinct (map fst ms)"
  shows "versions db' = versions db \<union> fst ` set ms \<and>
    scripts db' = scripts db @ map (\<lambda>(_, path). script_of pg path) (missing (versions db) ms)"
  using assms(2,3)
proof (induction ms arbitrary: db es)
  case (Cons m ms)
  obtain version path where m: "m = (version, path)" by fastforce
  obtain b where q: "pgQuery pg db (VersionExists version) = Inr b"
    using Cons.prems(1) m by (auto split: sum.splits)
  have b: "b \<longleftrightarrow> version \<in> versions db" using pg_lawsD(2) [OF laws q] by (simp add: query_law_def)
  show ?case
  proof (cases b)
    case True
    with Cons.prems m q have "migrate_all pg ms db = (None, db', es)" by simp
    from Cons.IH [OF this] Cons.prems(2) True b m show ?thesis by (auto simp: missing_def)
  next
    case False
    with Cons.prems(1) m q obtain script db1 db2 es' where
      s: "pgFile pg path = Inr script" "pgExec pg db (RunScript script) = Inr db1"
      "pgExec pg db1 (InsertVersion version) = Inr db2" "migrate_all pg ms db2 = (None, db', es')"
      by (auto split: sum.splits prod.splits)
    have d: "versions db2 = insert version (versions db)" "scripts db2 = scripts db @ [script]"
      using pg_lawsD(1) [OF laws s(2)] pg_lawsD(1) [OF laws s(3)] by (simp_all add: exec_law_def)
    have "version \<notin> fst ` set ms" using Cons.prems(2) m by (auto simp: image_iff)
    with Cons.IH [OF s(4)] Cons.prems(2) d False b m s(1) show ?thesis
      by (simp add: missing_insert) (simp add: missing_def script_of_def)
  qed
qed (simp add: missing_def)

lemma migrate_tx_effect:
  assumes laws: "pg_laws pg versions scripts" and "migrate_tx pg db = (None, db', es)"
  shows "versions db \<subseteq> {1, 2, 3}" "versions db' = {1, 2, 3}"
    "scripts db' = scripts db @ map (\<lambda>(_, path). script_of pg path) (missing (versions db) migrations)"
proof -
  obtain db1 db2 es' where s: "pgExec pg db (AdvisoryLock migrationLockID) = Inr db1"
    "pgExec pg db1 CreateMigrations = Inr db2" "pgQuery pg db2 UnsupportedExists = Inr False"
    "migrate_all pg migrations db2 = (None, db', es')"
    using assms(2) by (auto simp: migrate_tx_def Let_def split: sum.splits bool.splits prod.splits)
  have d: "versions db2 = versions db" "scripts db2 = scripts db"
    using pg_lawsD(1) [OF laws s(1)] pg_lawsD(1) [OF laws s(2)] by (simp_all add: exec_law_def)
  show sub: "versions db \<subseteq> {1, 2, 3}"
    using pg_lawsD(2) [OF laws s(3)] d by (simp add: query_law_def)
  have "distinct (map fst migrations)" "fst ` set migrations = {1, 2, 3}" by (auto simp: migrations_def)
  with migrate_all_effect [OF laws s(4)] d sub show "versions db' = {1, 2, 3}"
    "scripts db' = scripts db @ map (\<lambda>(_, path). script_of pg path) (missing (versions db) migrations)"
    by auto
qed

lemma pg_reliableE:
  assumes "pg_reliable pg"
  obtains "\<And>db stmt. \<exists>db'. pgExec pg db stmt = Inr db'" "\<And>db q. \<exists>b. pgQuery pg db q = Inr b"
    "\<And>path. \<exists>script. pgFile pg path = Inr script" "\<And>db db'. fst (pgCommit pg db db') = None"
    "pgAcquire pg = None" "pgBegin pg = None"
proof -
  have e: "\<not> isl x \<Longrightarrow> \<exists>y. x = Inr y" for x :: "'x + 'y" by (cases x) simp_all
  show thesis
    using assms unfolding pg_reliable_def by (intro that) (auto intro: e)
qed

lemma migrate_all_reliable:
  assumes "pg_reliable pg"
  shows "fst (migrate_all pg ms db) = None"
proof (induction ms arbitrary: db)
  case (Cons m ms)
  obtain version path where m: "m = (version, path)" by fastforce
  obtain b script db1 db2 where "pgQuery pg db (VersionExists version) = Inr b" "pgFile pg path = Inr script"
    "pgExec pg db (RunScript script) = Inr db1" "pgExec pg db1 (InsertVersion version) = Inr db2"
    using pg_reliableE [OF assms] by metis
  then show ?case using Cons.IH [of db] Cons.IH [of db2] by (cases b) (simp_all add: m case_prod_unfold)
qed simp

lemma migrate_reliable:
  assumes laws: "pg_laws pg versions scripts" and rel: "pg_reliable pg" and sub: "versions db \<subseteq> {1, 2, 3}"
  shows "fst (migrate pg db) = None"
proof -
  obtain db1 db2 b where s: "pgExec pg db (AdvisoryLock migrationLockID) = Inr db1"
    "pgExec pg db1 CreateMigrations = Inr db2" "pgQuery pg db2 UnsupportedExists = Inr b"
    using pg_reliableE [OF rel] by metis
  have "versions db2 = versions db"
    using pg_lawsD(1) [OF laws s(1)] pg_lawsD(1) [OF laws s(2)] by (simp add: exec_law_def)
  then have "\<not> b" using pg_lawsD(2) [OF laws s(3)] sub by (simp add: query_law_def)
  then have "fst (migrate_tx pg db) = None"
    using s migrate_all_reliable [OF rel] by (simp add: migrate_tx_def Let_def case_prod_unfold)
  moreover obtain err db1 es where "migrate_tx pg db = (err, db1, es)" by (metis prod_cases3)
  moreover have "fst (pgCommit pg db db1) = None" "pgAcquire pg = None" "pgBegin pg = None"
    using rel by (simp_all add: pg_reliable_def)
  ultimately show ?thesis by (simp add: migrate_def case_prod_unfold)
qed

lemma migrate_cases:
  assumes "migrate pg db = (err, db', es)"
  obtains "err \<noteq> None" "db' = db"
  | db1 es' where "migrate_tx pg db = (None, db1, es')" "pgCommit pg db db1 = (err, db')"
proof (cases "pgAcquire pg = None \<and> pgBegin pg = None")
  case True
  then show thesis using assms that by (auto simp: migrate_def split: option.splits prod.splits)
next
  case False
  then have "err \<noteq> None" "db' = db" using assms by (auto simp: migrate_def split: option.splits dest: sym)
  then show thesis by (rule that)
qed

text \<open>Statements take no connection and give none back.\<close>

lemma migrate_tx_events: "migrate_tx pg db = (err, db', es) \<Longrightarrow> Acquired \<notin> set es \<and> Released \<notin> set es"
proof -
  have all: "migrate_all pg ms db = (err, db', es) \<Longrightarrow> Acquired \<notin> set es \<and> Released \<notin> set es" for ms db err db' es
  proof (induction ms arbitrary: db es)
    case (Cons m ms)
    then show ?case by (cases m) (auto split: sum.splits bool.splits prod.splits)
  qed simp
  show "migrate_tx pg db = (err, db', es) \<Longrightarrow> Acquired \<notin> set es \<and> Released \<notin> set es"
    by (auto simp: migrate_tx_def Let_def split: sum.splits bool.splits prod.splits dest: all)
qed

section \<open>Properties\<close>

text \<open>C21: Migration is all or nothing, and refuses schemas it does not know. On a database whose
  statements have their documented effect but may fail at any point, the outcome is one of two: the
  database is as before, which it is whenever a version beyond the known ones is recorded; or exactly
  the versions 1 to 3 are recorded and the scripts of the missing ones, and only those, have been run,
  each once and in order. The second holds whenever no error is returned, no error is returned if
  nothing fails and only known versions are recorded, and every connection taken is given back.\<close>

theorem migration_atomic:
  assumes "pg_laws pg versions scripts" and "migrate pg db = (err, db', es)"
  defines "migrated \<equiv> versions db' = {1, 2, 3} \<and>
    scripts db' = scripts db @ map (\<lambda>(_, path). script_of pg path) (missing (versions db) migrations)"
  shows "(err = None \<longrightarrow> migrated) \<and> (db' = db \<or> migrated) \<and>
    (\<not> versions db \<subseteq> {1, 2, 3} \<longrightarrow> err \<noteq> None \<and> db' = db) \<and>
    (pg_reliable pg \<and> versions db \<subseteq> {1, 2, 3} \<longrightarrow> err = None) \<and>
    count_list es Acquired = count_list es Released"
proof -
  note laws = assms(1)
  have eff: "versions db \<subseteq> {1, 2, 3} \<and> (db' = db \<and> err \<noteq> None \<or> migrated)" if "\<not> (err \<noteq> None \<and> db' = db)"
    using migrate_cases [OF assms(2)] migrate_tx_effect [OF laws] pg_lawsD(3) [OF laws] that
    unfolding migrated_def by metis
  moreover have "pg_reliable pg \<and> versions db \<subseteq> {1, 2, 3} \<longrightarrow> err = None"
    using migrate_reliable [OF laws, of db] assms(2) by simp
  moreover have "count_list es Acquired = count_list es Released"
    using assms(2) migrate_tx_events [of pg db] count_notin
    by (fastforce simp: migrate_def split: option.splits prod.splits)
  ultimately show ?thesis by blast
qed

text \<open>A small database: the recorded versions, and the scripts run.\<close>

definition demo_exec :: "int list \<times> string list \<Rightarrow> sql \<Rightarrow> string + int list \<times> string list" where
  "demo_exec db stmt = Inr (case stmt of
     RunScript script \<Rightarrow> (fst db, snd db @ [script])
   | InsertVersion v \<Rightarrow> (v # fst db, snd db)
   | _ \<Rightarrow> db)"

definition demo_query :: "int list \<times> string list \<Rightarrow> sql_query \<Rightarrow> string + bool" where
  "demo_query db q = Inr (case q of
     UnsupportedExists \<Rightarrow> \<not> set (fst db) \<subseteq> {1, 2, 3} | VersionExists v \<Rightarrow> v \<in> set (fst db))"

definition demo_pg :: "(int list \<times> string list) pg" where
  "demo_pg = \<lparr>pgAcquire = None, pgBegin = None, pgExec = demo_exec, pgQuery = demo_query, pgFile = Inr,
     pgCommit = (\<lambda>_ db'. (None, db'))\<rparr>"

lemma demo_pg_laws: "pg_laws demo_pg (\<lambda>db. set (fst db)) snd"
  by (auto simp: pg_laws_def demo_pg_def demo_exec_def demo_query_def exec_law_def query_law_def
      split: sql.splits sql_query.splits)

lemma demo_pg_reliable: "pg_reliable demo_pg"
  by (simp add: pg_reliable_def demo_pg_def demo_exec_def demo_query_def)

theorem migration_atomic_witness:
  "case migrate demo_pg ([1], [''old'']) of (err, db', es) \<Rightarrow>
     err = None \<and> set (fst db') = {1, 2, 3} \<and>
     snd db' = [''old'', ''migrations/0002_cache_hit.sql'', ''migrations/0003_history_pagination.sql'']"
proof -
  obtain err db' es where m: "migrate demo_pg ([1], [''old'']) = (err, db', es)" by (metis prod_cases3)
  have e: "err = None" using migration_atomic [OF demo_pg_laws m] demo_pg_reliable by simp
  have t: "map (\<lambda>(_, path). script_of demo_pg path) (missing (set [1]) migrations)
    = [''migrations/0002_cache_hit.sql'', ''migrations/0003_history_pagination.sql'']"
    by (simp add: missing_def migrations_def script_of_def demo_pg_def)
  have "set (fst db') = {1, 2, 3} \<and> snd db' = [''old''] @
    map (\<lambda>(_, path). script_of demo_pg path) (missing (set [1]) migrations)"
    using migration_atomic [OF demo_pg_laws m] e by simp
  with e show ?thesis unfolding t m by simp
qed

end
