(* ===== verification/Startup.thy ===== *)
theory Startup
  imports Observability Postgres_Store Configuration
begin

text \<open>
  The life of the process: the telemetry setup (\<open>internal/observability/observability.go\<close>),
  the Redis client (\<open>internal/cache/redis/store.go\<close>), the servers
  (\<open>internal/httpapi/server.go\<close>, \<open>internal/adminapi/handler.go\<close>) and the command
  that opens, serves and closes everything (\<open>cmd/routeforge/main.go\<close>). What third parties
  answer is a field of a record; what is taken and given back is a list of events.
\<close>

section \<open>Resources\<close>

text \<open>A listener is named by the index of its server.\<close>

datatype resource = TracerProvider | MeterProvider | HistoryStore | CacheClient | Listener nat

datatype run_event = Acquire resource | Release resource | Serve nat

datatype serve_error = ErrServerClosed | ServeFailed string

datatype wake = Signalled | ServerReturned nat serve_error

section \<open>The Redis client\<close>

record redis_options =
  roMaxRetries :: int
  roDialerRetries :: int
  roDialTimeout :: duration
  roReadTimeout :: duration
  roWriteTimeout :: duration
  roPoolTimeout :: duration
  roContextTimeoutEnabled :: bool
  roPoolSize :: int
  roMaxActiveConns :: int
  roMinIdleConns :: int
  roDisableIdentity :: bool
  roProtocol :: int
  roMaintNotifications :: bool

text \<open>\<open>New\<close>: the URL's own options are fixed by the code, and no connection is made.\<close>

definition redis_New :: "parsers \<Rightarrow> (string \<Rightarrow> redis_options option) \<Rightarrow> string \<Rightarrow> string + redis_options" where
  "redis_New ps ParseURL rawURL =
     (if \<not> ValidateURL ps rawURL then Inl ''invalid Redis URL''
      else (case ParseURL rawURL of
              None \<Rightarrow> Inl ''invalid Redis configuration''
            | Some options \<Rightarrow>
                Inr (options\<lparr>roMaxRetries := - 1, roDialerRetries := 1, roDialTimeout := OperationTimeout,
                  roReadTimeout := OperationTimeout, roWriteTimeout := OperationTimeout,
                  roPoolTimeout := OperationTimeout, roContextTimeoutEnabled := True, roPoolSize := 8,
                  roMaxActiveConns := 8, roMinIdleConns := 0, roDisableIdentity := True, roProtocol := 2,
                  roMaintNotifications := False\<rparr>)))"

section \<open>Telemetry setup\<close>

text \<open>The environment: parsers and variables, the answers of the exporters, the meter, the pool, the
  database, the Redis URL parser, the sockets, and what ends the wait.\<close>

record 'db startup_env =
  seParsers :: parsers
  seEnv :: environment
  seURLString :: "parsed_url \<Rightarrow> string"
  seTraceExporter :: "string \<Rightarrow> string option"
  sePrometheusExporter :: "string option"
  seMeter :: meter
  seRegisterCallback :: "string option"
  sePool :: pool_setup
  sePg :: "'db pg"
  seParseRedis :: "string \<Rightarrow> redis_options option"
  seListen :: "nat \<Rightarrow> string \<Rightarrow> string option"
  seWake :: wake
  seShutdown :: "nat \<Rightarrow> string option"

record Setup =
  suMetrics :: Metrics
  suMetricsHandler :: bool
  suShutdown :: "resource list"

definition traceEndpoint :: "'db startup_env \<Rightarrow> string \<Rightarrow> string" where
  "traceEndpoint env endpoint =
     (case psURL (seParsers env) endpoint of
        None \<Rightarrow> endpoint
      | Some u \<Rightarrow> seURLString env (if puPath u = [] \<or> puPath u = ''/'' then u\<lparr>puPath := ''/v1/traces''\<rparr> else u))"

text \<open>\<open>Shutdown\<close> runs the functions in reverse.\<close>

definition Setup_Shutdown :: "Setup \<Rightarrow> run_event list" where
  "Setup_Shutdown su = map Release (rev (suShutdown su))"

definition New_Setup ::
  "'db startup_env \<Rightarrow> bool \<Rightarrow> string \<Rightarrow> bool \<Rightarrow> (string + Setup) \<times> run_event list" where
  "New_Setup env tracing endpoint metricsOn =
     (let su0 = \<lparr>suMetrics = NoopMetrics, suMetricsHandler = False, suShutdown = []\<rparr> in
      if tracing \<and> seTraceExporter env (traceEndpoint env endpoint) \<noteq> None
      then (Inl (the (seTraceExporter env (traceEndpoint env endpoint))), [])
      else
        let su1 = (if tracing then su0\<lparr>suShutdown := suShutdown su0 @ [TracerProvider]\<rparr> else su0);
            es1 = (if tracing then [Acquire TracerProvider] else [])
        in if \<not> metricsOn then (Inr su1, es1)
           else (case sePrometheusExporter env of
                   Some err \<Rightarrow> (Inl err, es1 @ Setup_Shutdown su1)
                 | None \<Rightarrow>
                     (let es2 = es1 @ [Acquire MeterProvider] in
                      case NewMetrics (seMeter env) of
                        Inl err \<Rightarrow> (Inl err, es2 @ [Release MeterProvider] @ Setup_Shutdown su1)
                      | Inr metrics \<Rightarrow>
                          (Inr (su1\<lparr>suMetrics := metrics, suMetricsHandler := True,
                             suShutdown := suShutdown su1 @ [MeterProvider]\<rparr>), es2))))"

section \<open>History\<close>

fun store_event :: "pool_event \<Rightarrow> run_event" where
  "store_event PoolOpened = Acquire HistoryStore"
| "store_event PoolClosed = Release HistoryStore"

text \<open>\<open>initializePersistence\<close>: the recorder owns the store, whose pool its worker closes once
  \<open>Shutdown\<close> has closed the queue; \<open>None\<close> is the no-op recorder.\<close>

definition initializePersistence ::
  "'db startup_env \<Rightarrow> bool \<Rightarrow> Metrics \<Rightarrow> 'db \<Rightarrow> (string + AsyncRecorder option) \<times> 'db \<times> run_event list" where
  "initializePersistence env enabled metrics db =
     (if \<not> enabled then (Inr None, db, [])
      else (case Open_Store (sePool env) (sePg env) db of
              (Some _, db1, es) \<Rightarrow> (Inl ''PostgreSQL persistence initialization failed'', db1, map store_event es)
            | (None, db1, es) \<Rightarrow>
                (case ObservePersistence (Some metrics) (seRegisterCallback env) of
                   Inl _ \<Rightarrow>
                     (Inl ''persistence metrics initialization failed'', db1, map store_event es @ [Release HistoryStore])
                 | Inr _ \<Rightarrow> (Inr (Some (NewAsyncRecorder DefaultQueueCapacity)), db1, map store_event es))))"

section \<open>Servers\<close>

record http_server =
  hsAddr :: string
  hsReadHeaderTimeout :: duration
  hsReadTimeout :: duration
  hsWriteTimeout :: duration
  hsIdleTimeout :: duration
  hsMaxHeaderBytes :: int

text \<open>A zero header limit is the library's default.\<close>

definition NewServer :: "Config \<Rightarrow> http_server" where
  "NewServer cfg = \<lparr>hsAddr = cfAddr cfg, hsReadHeaderTimeout = cfReadTimeout cfg, hsReadTimeout = cfReadTimeout cfg,
     hsWriteTimeout = cfWriteTimeout cfg, hsIdleTimeout = cfIdleTimeout cfg, hsMaxHeaderBytes = 0\<rparr>"

definition NewMetricsServer :: "Config \<Rightarrow> http_server" where
  "NewMetricsServer cfg = \<lparr>hsAddr = cfMetricsAddr cfg, hsReadHeaderTimeout = cfReadTimeout cfg,
     hsReadTimeout = cfReadTimeout cfg, hsWriteTimeout = cfWriteTimeout cfg, hsIdleTimeout = cfIdleTimeout cfg,
     hsMaxHeaderBytes = 0\<rparr>"

definition admin_server :: "string \<Rightarrow> http_server" where
  "admin_server addr = \<lparr>hsAddr = addr, hsReadHeaderTimeout = 5 * second, hsReadTimeout = 5 * second,
     hsWriteTimeout = 5 * second, hsIdleTimeout = 30 * second, hsMaxHeaderBytes = 8192\<rparr>"

definition servers :: "Config \<Rightarrow> http_server list" where
  "servers cfg = [NewServer cfg] @ (if cfMetricsEnabled cfg then [NewMetricsServer cfg] else []) @
     (if cfAdminEnabled cfg then [admin_server (cfAdminAddr cfg)] else [])"

text \<open>Opening the listeners from the \<open>i\<close>-th server on: when one fails, those before it are closed.\<close>

fun listen_all :: "'db startup_env \<Rightarrow> nat \<Rightarrow> http_server list \<Rightarrow> string option \<times> run_event list" where
  "listen_all env i [] = (None, [])"
| "listen_all env i (item # items) =
     (case seListen env i (hsAddr item) of
        Some _ \<Rightarrow>
          (Some (if i = 0 then ''API listener failed to start'' else ''operational listener failed to start''),
           map (\<lambda>j. Release (Listener j)) [0..<i])
      | None \<Rightarrow> (case listen_all env (Suc i) items of (err, es) \<Rightarrow> (err, Acquire (Listener i) # es)))"

text \<open>\<open>errors.Join\<close> of the shutdown errors.\<close>

definition errors_Join :: "string option list \<Rightarrow> string option" where
  "errors_Join errs = (case List.map_filter id errs of [] \<Rightarrow> None
     | e # es \<Rightarrow> Some (e @ concat (map ((#) newline) es)))"

text \<open>Serving until a server returns or a signal arrives; \<open>Shutdown\<close> of a server closes its
  listener first.\<close>

definition serve_all :: "'db startup_env \<Rightarrow> nat \<Rightarrow> string option \<times> run_event list" where
  "serve_all env n =
     (case seWake env of
        ServerReturned i ErrServerClosed \<Rightarrow> (None, map Serve [0..<n])
      | ServerReturned i (ServeFailed err) \<Rightarrow>
          (Some err, map Serve [0..<n] @ map (\<lambda>j. Release (Listener j)) [0..<n])
      | Signalled \<Rightarrow>
          (errors_Join (map (seShutdown env) [0..<n]), map Serve [0..<n] @ map (\<lambda>j. Release (Listener j)) [0..<n]))"

section \<open>The command\<close>

datatype stop_error = InvalidConfiguration string | Stopped string

definition serve_phase :: "'db startup_env \<Rightarrow> Config \<Rightarrow> string option \<times> run_event list" where
  "serve_phase env cfg =
     (case listen_all env 0 (servers cfg) of
        (Some err, es) \<Rightarrow> (Some err, es)
      | (None, es) \<Rightarrow> (case serve_all env (length (servers cfg)) of (err, es') \<Rightarrow> (err, es @ es')))"

text \<open>What the service is given before it is served: the recorder and, when enabled, the cache.\<close>

definition equip_service :: "Config \<Rightarrow> AsyncRecorder option \<Rightarrow> Service \<Rightarrow> Service" where
  "equip_service cfg recorder service =
     (let s1 = SetPersistence service (case recorder of None \<Rightarrow> Some NoopRecorder | Some r \<Rightarrow> Some (Async r))
      in if cfCacheEnabled cfg then SetCache s1 (Some True) (cfCacheTTL cfg) else s1)"

text \<open>From the service on, with the client's deferred \<open>Close\<close>. The service that is served comes with
  the result.\<close>

definition service_phase ::
  "'db startup_env \<Rightarrow> Config \<Rightarrow> AsyncRecorder option \<Rightarrow> string option \<times> Service option \<times> run_event list" where
  "service_phase env cfg recorder =
     (case buildService cfg of
        Inl err \<Rightarrow> (Some err, None, [])
      | Inr service \<Rightarrow>
          (let equipped = equip_service cfg recorder service in
           if \<not> cfCacheEnabled cfg then (case serve_phase env cfg of (err, es) \<Rightarrow> (err, Some equipped, es))
           else (case redis_New (seParsers env) (seParseRedis env) (cfRedisURL cfg) of
                   Inl _ \<Rightarrow> (Some ''cache initialization failed'', None, [])
                 | Inr _ \<Rightarrow>
                     (case serve_phase env cfg of
                        (err, es) \<Rightarrow> (err, Some equipped, [Acquire CacheClient] @ es @ [Release CacheClient])))))"

text \<open>\<open>run\<close>, with the deferred shutdowns of the recorder and of the telemetry. Errors of the
  shutdowns are only logged.\<close>

definition run :: "'db startup_env \<Rightarrow> 'db \<Rightarrow> stop_error option \<times> 'db \<times> Service option \<times> run_event list" where
  "run env db =
     (case Load (seParsers env) (seEnv env) of
        Inl m \<Rightarrow> (Some (InvalidConfiguration m), db, None, [])
      | Inr cfg \<Rightarrow>
          (case New_Setup env (cfOTelEnabled cfg) (cfOTelExporterOTLPEndpoint cfg) (cfMetricsEnabled cfg) of
             (Inl err, es) \<Rightarrow> (Some (Stopped err), db, None, es)
           | (Inr setup, es) \<Rightarrow>
               (case initializePersistence env (cfPostgresEnabled cfg) (suMetrics setup) db of
                  (Inl err, db1, es1) \<Rightarrow> (Some (Stopped err), db1, None, es @ es1 @ Setup_Shutdown setup)
                | (Inr recorder, db1, es1) \<Rightarrow>
                    (case service_phase env cfg recorder of
                       (err, service, es2) \<Rightarrow>
                         (map_option Stopped err, db1, service,
                          es @ es1 @ es2 @ (if recorder = None then [] else [Release HistoryStore]) @
                          Setup_Shutdown setup)))))"

text \<open>\<open>main\<close>: the exit status and the line that is logged. Only the reason of an invalid
  configuration is logged.\<close>

definition main_exit :: "stop_error option \<Rightarrow> int \<times> (string \<times> string option) option" where
  "main_exit err = (case err of
     None \<Rightarrow> (0, None)
   | Some (InvalidConfiguration m) \<Rightarrow> (1, Some (''invalid configuration'', Some m))
   | Some (Stopped _) \<Rightarrow> (1, Some (''RouteForge stopped'', None)))"

section \<open>What each phase takes and gives back\<close>

definition listeners :: "nat \<Rightarrow> resource list" where
  "listeners k = map Listener [0..<k]"

text \<open>Serving: nothing, or every server once.\<close>

definition served_all :: "nat \<Rightarrow> run_event list \<Rightarrow> bool" where
  "served_all n sv \<longleftrightarrow> sv = [] \<or> sv = map Serve [0..<n]"

text \<open>What a configuration asks for, in the order it is taken: what is deferred, and the listeners.\<close>

definition telemetry_resources :: "bool \<Rightarrow> bool \<Rightarrow> resource list" where
  "telemetry_resources tracing metricsOn =
     (if tracing then [TracerProvider] else []) @ (if metricsOn then [MeterProvider] else [])"

definition configured_resources :: "Config \<Rightarrow> resource list" where
  "configured_resources cfg = telemetry_resources (cfOTelEnabled cfg) (cfMetricsEnabled cfg) @
     (if cfPostgresEnabled cfg then [HistoryStore] else []) @
     (if cfCacheEnabled cfg then [CacheClient] else []) @ listeners (length (servers cfg))"

lemma New_Setup_failed:
  assumes "New_Setup env tracing endpoint metricsOn = (Inl err, es)"
  shows "\<exists>D. es = map Acquire D @ map Release (rev D) \<and> distinct D \<and> set D \<subseteq> {TracerProvider, MeterProvider}"
proof -
  have "es = [] \<or> es = map Acquire [TracerProvider] @ map Release (rev [TracerProvider]) \<or>
    es = map Acquire [MeterProvider] @ map Release (rev [MeterProvider]) \<or>
    es = map Acquire [TracerProvider, MeterProvider] @ map Release (rev [TracerProvider, MeterProvider])"
    using assms by (auto simp: New_Setup_def Setup_Shutdown_def Let_def split: if_splits option.splits sum.splits)
  then show ?thesis
    by (elim disjE) (rule exI, erule conjI, simp; fail | rule exI [of _ "[]"], simp)+
qed

lemma New_Setup_made:
  assumes "New_Setup env tracing endpoint metricsOn = (Inr su, es)"
  shows "suShutdown su = telemetry_resources tracing metricsOn" "es = map Acquire (telemetry_resources tracing metricsOn)"
  using assms by (auto simp: New_Setup_def telemetry_resources_def Let_def split: if_splits option.splits sum.splits)

lemma Open_Store_events:
  assumes "Open_Store po pg db = (err, db', es)"
  shows "map store_event es = (if err = None then [Acquire HistoryStore]
      else if es = [] then [] else [Acquire HistoryStore, Release HistoryStore])"
  using assms by (auto simp: Open_Store_def split: if_splits option.splits prod.splits)

lemma initializePersistence_failed:
  assumes "initializePersistence env enabled m db = (Inl err, db', es)"
  shows "es = [] \<or> es = [Acquire HistoryStore, Release HistoryStore]"
  using assms Open_Store_events [of "sePool env" "sePg env" db]
  by (auto simp: initializePersistence_def split: if_splits option.splits prod.splits sum.splits)

lemma initializePersistence_made:
  assumes "initializePersistence env enabled m db = (Inr rec, db', es)"
  shows "es = (if enabled then [Acquire HistoryStore] else [])" "rec = None \<longleftrightarrow> \<not> enabled"
  using assms Open_Store_events [of "sePool env" "sePg env" db]
  by (auto simp: initializePersistence_def split: if_splits option.splits prod.splits sum.splits)

lemma listen_all_failed:
  assumes "listen_all env i items = (Some err, es)"
  shows "\<exists>k. es = map Acquire (map Listener [i..<k]) @ map Release (listeners k) \<and> i \<le> k"
  using assms
proof (induction items arbitrary: i es)
  case (Cons item items)
  show ?case
  proof (cases "seListen env i (hsAddr item)")
    case None
    with Cons.prems obtain es1 where l: "listen_all env (Suc i) items = (Some err, es1)" "es = Acquire (Listener i) # es1"
      by (auto split: prod.splits)
    from Cons.IH [OF l(1)] obtain k where
      "es1 = map Acquire (map Listener [Suc i..<k]) @ map Release (listeners k)" "Suc i \<le> k" by blast
    with l(2) show ?thesis by (intro exI [of _ k]) (simp add: upt_conv_Cons)
  next
    case (Some e)
    with Cons.prems show ?thesis by (intro exI [of _ i]) (auto simp: listeners_def)
  qed
qed simp

lemma listen_all_done:
  "listen_all env i items = (None, es) \<Longrightarrow> es = map Acquire (map Listener [i..<i + length items])"
proof (induction items arbitrary: i es)
  case (Cons item items)
  then obtain es1 where l: "listen_all env (Suc i) items = (None, es1)" "es = Acquire (Listener i) # es1"
    by (auto split: prod.splits option.splits)
  have "[i..<i + length (item # items)] = i # [Suc i..<Suc i + length items]"
    by (simp add: upt_conv_Cons del: upt_Suc)
  with Cons.IH [OF l(1)] l(2) show ?case by simp
qed simp

lemma serve_phase_events:
  assumes "serve_phase env cfg = (err, es)" and "\<And>i. seWake env \<noteq> ServerReturned i ErrServerClosed"
  shows "\<exists>k sv. es = map Acquire (listeners k) @ sv @ map Release (listeners k) \<and>
    served_all (length (servers cfg)) sv \<and> (sv \<noteq> [] \<longrightarrow> k = length (servers cfg))"
proof (cases "listen_all env 0 (servers cfg)")
  case (Pair r es0)
  show ?thesis
  proof (cases r)
    case None
    let ?n = "length (servers cfg)"
    have "es0 = map Acquire (listeners ?n)" using listen_all_done Pair None by (fastforce simp: listeners_def)
    moreover have "snd (serve_all env ?n) = map Serve [0..<?n] @ map Release (listeners ?n)"
      using assms(2) by (auto simp: serve_all_def listeners_def split: wake.split serve_error.split)
    ultimately have "es = map Acquire (listeners ?n) @ map Serve [0..<?n] @ map Release (listeners ?n)"
      using assms(1) Pair None by (auto simp: serve_phase_def split: prod.splits)
    then show ?thesis by (intro exI [of _ ?n] exI [of _ "map Serve [0..<?n]"]) (simp add: served_all_def)
  next
    case (Some e)
    with assms(1) Pair have "listen_all env 0 (servers cfg) = (Some e, es)" by (simp add: serve_phase_def)
    from listen_all_failed [OF this] obtain k where
      "es = map Acquire (map Listener [0..<k]) @ map Release (listeners k)" by blast
    then show ?thesis by (intro exI [of _ k] exI [of _ "[]"]) (simp add: served_all_def listeners_def)
  qed
qed

lemma service_phase_events:
  assumes "service_phase env cfg recorder = (err, service, es)" and w: "\<And>i. seWake env \<noteq> ServerReturned i ErrServerClosed"
  shows "\<exists>C k sv. es = map Acquire (C @ listeners k) @ sv @ map Release (listeners k @ rev C) \<and>
    served_all (length (servers cfg)) sv \<and> distinct C \<and> set C \<subseteq> {CacheClient} \<and>
    (sv \<noteq> [] \<longrightarrow> C = (if cfCacheEnabled cfg then [CacheClient] else []) \<and> k = length (servers cfg))"
proof -
  obtain err' es' where sp: "serve_phase env cfg = (err', es')" by fastforce
  obtain k sv where s: "es' = map Acquire (listeners k) @ sv @ map Release (listeners k)"
    "served_all (length (servers cfg)) sv" "sv \<noteq> [] \<longrightarrow> k = length (servers cfg)"
    using serve_phase_events [OF sp w] by blast
  consider "es = []" | "\<not> cfCacheEnabled cfg" "es = es'"
    | "cfCacheEnabled cfg" "es = [Acquire CacheClient] @ es' @ [Release CacheClient]"
    using assms(1) sp by (auto simp: service_phase_def Let_def split: sum.splits if_splits)
  then show ?thesis
  proof cases
    case 1
    then show ?thesis
      by (intro exI [of _ "[]"] exI [of _ "0::nat"]) (simp add: served_all_def listeners_def)
  next
    case 2
    with s show ?thesis by (intro exI [of _ "[]"] exI [of _ k] exI [of _ sv]) simp
  next
    case 3
    with s show ?thesis by (intro exI [of _ "[CacheClient]"] exI [of _ k] exI [of _ sv]) simp
  qed
qed

section \<open>Properties\<close>

fun acquired_by :: "run_event \<Rightarrow> resource list" where
  "acquired_by (Acquire r) = [r]"
| "acquired_by _ = []"

fun released_by :: "run_event \<Rightarrow> resource list" where
  "released_by (Release r) = [r]"
| "released_by _ = []"

fun is_listener :: "resource \<Rightarrow> bool" where
  "is_listener (Listener _) = True"
| "is_listener _ = False"

lemma gather_events [simp]:
  "gather acquired_by (map Acquire rs) = rs" "gather released_by (map Acquire rs) = []"
  "gather acquired_by (map Release rs) = []" "gather released_by (map Release rs) = rs"
  "gather acquired_by (map Serve is) = []" "gather released_by (map Serve is) = []"
  by (induction rs; simp)+ (induction "is"; simp)+

lemma listeners_simps [simp]:
  "filter is_listener (listeners k) = listeners k" "filter (\<lambda>r. \<not> is_listener r) (listeners k) = []"
  "distinct (listeners k)" "r \<in> set (listeners k) \<Longrightarrow> is_listener r"
  by (auto simp: listeners_def distinct_map inj_on_def)

text \<open>The events of a run: what was taken is given back, the listeners first and then the rest in
  reverse.\<close>

definition run_shape :: "resource list \<Rightarrow> nat \<Rightarrow> run_event list \<Rightarrow> run_event list \<Rightarrow> bool" where
  "run_shape D k sv es \<longleftrightarrow> es = map Acquire (D @ listeners k) @ sv @ map Release (listeners k @ rev D) \<and>
     distinct D \<and> (\<forall>r \<in> set D. \<not> is_listener r)"

lemma run_shape_unserved:
  "es = map Acquire D @ map Release (rev D) \<Longrightarrow> distinct D \<Longrightarrow> \<forall>r \<in> set D. \<not> is_listener r \<Longrightarrow> run_shape D 0 [] es"
  by (simp add: run_shape_def listeners_def)

text \<open>The same, once the configuration is loaded and the telemetry set up.\<close>

lemma run_set_up:
  assumes r: "run env db = (err, db', service, es)" and w: "\<And>i. seWake env \<noteq> ServerReturned i ErrServerClosed"
    and cfg: "Load (seParsers env) (seEnv env) = Inr cfg"
    and su: "New_Setup env (cfOTelEnabled cfg) (cfOTelExporterOTLPEndpoint cfg) (cfMetricsEnabled cfg) = (Inr su0, es0)"
  shows "\<exists>D k sv. run_shape D k sv es \<and> (sv = [] \<or>
    sv = map Serve [0..<length (servers cfg)] \<and> D @ listeners k = configured_resources cfg)"
proof -
  let ?T = "telemetry_resources (cfOTelEnabled cfg) (cfMetricsEnabled cfg)"
  have T: "distinct ?T" "set ?T \<subseteq> {TracerProvider, MeterProvider}" by (auto simp: telemetry_resources_def)
  note made = New_Setup_made [OF su]
  have sd: "Setup_Shutdown su0 = map Release (rev ?T)" using made by (simp add: Setup_Shutdown_def)
  obtain rec db1 es1 where p: "initializePersistence env (cfPostgresEnabled cfg) (suMetrics su0) db = (rec, db1, es1)"
    by (metis prod_cases3)
  show ?thesis
  proof (cases rec)
    case (Inl e)
    have "es = es0 @ es1 @ map Release (rev ?T)" using r su p Inl cfg by (simp add: run_def sd)
    with initializePersistence_failed [OF p [unfolded Inl]] made T
    have "run_shape ?T 0 [] es \<or> run_shape (?T @ [HistoryStore]) 0 [] es"
      by (auto simp: run_shape_def listeners_def)
    then show ?thesis by blast
  next
    case R: (Inr recorder)
    let ?P = "if cfPostgresEnabled cfg then [HistoryStore] else []"
    note hist = initializePersistence_made [OF p [unfolded R]]
    obtain e sv' es2 where s: "service_phase env cfg recorder = (e, sv', es2)" by (metis prod_cases3)
    obtain C k sv where c: "es2 = map Acquire (C @ listeners k) @ sv @ map Release (listeners k @ rev C)"
      "served_all (length (servers cfg)) sv" "distinct C" "set C \<subseteq> {CacheClient}"
      "sv \<noteq> [] \<longrightarrow> C = (if cfCacheEnabled cfg then [CacheClient] else []) \<and> k = length (servers cfg)"
      using service_phase_events [OF s w] by blast
    have "es = map Acquire ?T @ map Acquire ?P @ es2 @ map Release ?P @ map Release (rev ?T)"
      using r su p s R cfg made hist by (auto simp: run_def sd)
    then have "run_shape (?T @ ?P @ C) k sv es" using T c(1,3,4) by (auto simp: run_shape_def)
    moreover have "sv \<noteq> [] \<Longrightarrow> sv = map Serve [0..<length (servers cfg)] \<and> (?T @ ?P @ C) @ listeners k = configured_resources cfg"
      using c(2,5) by (auto simp: served_all_def configured_resources_def)
    ultimately show ?thesis by blast
  qed
qed

lemma run_shaped:
  assumes r: "run env db = (err, db', service, es)" and w: "\<And>i. seWake env \<noteq> ServerReturned i ErrServerClosed"
  shows "\<exists>D k sv. run_shape D k sv es \<and> (sv = [] \<or> (\<exists>cfg. Load (seParsers env) (seEnv env) = Inr cfg \<and>
    sv = map Serve [0..<length (servers cfg)] \<and> D @ listeners k = configured_resources cfg))"
proof (cases "Load (seParsers env) (seEnv env)")
  case (Inl m)
  with r have "run_shape [] 0 [] es" by (intro run_shape_unserved) (simp_all add: run_def)
  then show ?thesis by blast
next
  case (Inr cfg)
  obtain su es0 where su: "New_Setup env (cfOTelEnabled cfg) (cfOTelExporterOTLPEndpoint cfg) (cfMetricsEnabled cfg) = (su, es0)"
    by fastforce
  show ?thesis
  proof (cases su)
    case (Inl e)
    with r su Inr have "es = es0" by (simp add: run_def)
    with New_Setup_failed [OF su [unfolded Inl]] obtain D where
      "es = map Acquire D @ map Release (rev D)" "distinct D" "set D \<subseteq> {TracerProvider, MeterProvider}" by blast
    then have "run_shape D 0 [] es" by (intro run_shape_unserved) auto
    then show ?thesis by blast
  next
    case S: (Inr su0)
    from run_set_up [OF r w Inr su [unfolded S]] Inr show ?thesis by metis
  qed
qed

lemma before_serving:
  "before @ Serve i # after = map Acquire rs @ map Serve ns @ map Release rs' \<Longrightarrow>
   \<exists>ms. before = map Acquire rs @ map Serve ms"
proof (induction rs arbitrary: before)
  case Nil
  then show ?case
  proof (induction ns arbitrary: before)
    case Nil
    then have "Serve i \<in> set (map Release rs')" by (metis append_Nil in_set_conv_decomp list.map_disc_iff)
    then show ?case by auto
  next
    case (Cons n ns)
    show ?case
    proof (cases before)
      case (Cons b bs)
      with Cons.prems have "b = Serve n" "bs @ Serve i # after = map Acquire [] @ map Serve ns @ map Release rs'" by simp_all
      moreover from Cons.IH [OF this(2)] obtain ms where "bs = map Serve ms" by auto
      ultimately show ?thesis using Cons by (intro exI [of _ "n # ms"]) simp
    qed simp
  qed
next
  case (Cons r rs)
  then obtain bs where "before = Acquire r # bs" "bs @ Serve i # after = map Acquire rs @ map Serve ns @ map Release rs'"
    by (cases before) auto
  with Cons.IH show ?case by auto
qed


text \<open>A process with the default configuration, on which nothing fails, until a signal arrives.\<close>

definition demo_startup :: "(int list \<times> string list) startup_env" where
  "demo_startup = \<lparr>seParsers = no_parsers,
     seEnv = Map.empty, seURLString = (\<lambda>_. []), seTraceExporter = (\<lambda>_. None), sePrometheusExporter = None,
     seMeter = (\<lambda>_. None), seRegisterCallback = None, sePool = \<lparr>poParse = None, poNew = None, poPing = None\<rparr>,
     sePg = demo_pg, seParseRedis = (\<lambda>_. None), seListen = (\<lambda>_ _. None), seWake = Signalled,
     seShutdown = (\<lambda>_. None)\<rparr>"


end
