(* ===== verification/Load_Client.thy ===== *)
theory Load_Client
  imports Http_Api Mock_Provider
begin

text \<open>
  The client of the load test (\<open>internal/loadtest/load.go\<close>): its bounds, the judgement of one
  response, and the percentiles. A response is what the transport returns; the times at which its
  events are read are an argument. The rank of a percentile is computed with the rounding of
  \<open>float64\<close>, written out on integers; reported milliseconds are kept as durations.
\<close>

section \<open>Configuration\<close>

record LoadConfig =
  lcPort :: int
  lcConcurrency :: int
  lcRequests :: int
  lcWarmup :: int
  lcMaxDuration :: duration
  lcRequestTimeout :: duration
  lcStreaming :: bool
  lcCacheMode :: string
  lcPersistence :: bool
  lcSamplePersistence :: bool

definition LoadConfig_Validate :: "LoadConfig \<Rightarrow> string option" where
  "LoadConfig_Validate c =
     (if lcPort c < 1 \<or> lcPort c > 65535 \<or> lcConcurrency c < 1 \<or> lcConcurrency c > 64 \<or>
         lcRequests c < 1 \<or> lcRequests c > 1000000 \<or> lcWarmup c < 1 \<or> lcWarmup c > 2000 \<or>
         lcMaxDuration c < 1000000 \<or> lcMaxDuration c > 5 * 60 * 1000000000 \<or>
         lcRequestTimeout c < 1000000 \<or> lcRequestTimeout c > 30 * 1000000000
      then Some ''invalid load bounds''
      else if lcStreaming c \<and> lcCacheMode c \<noteq> ''bypass'' \<or>
         \<not> lcStreaming c \<and> lcCacheMode c \<noteq> ''miss'' \<and> lcCacheMode c \<noteq> ''warm_hit'' \<and> lcCacheMode c \<noteq> ''disabled''
      then Some ''invalid cache mode for request mode''
      else None)"

section \<open>Percentiles\<close>

text \<open>The number of bits of a natural number.\<close>

fun bit_length :: "nat \<Rightarrow> nat" where
  "bit_length n = (if n = 0 then 0 else Suc (bit_length (n div 2)))"

declare bit_length.simps [simp del]

text \<open>A natural number rounded to 53 significant bits, ties to even: the mantissa of a
  \<open>float64\<close>.\<close>

definition round_float64 :: "nat \<Rightarrow> nat" where
  "round_float64 x =
     (if x < 2 ^ 53 then x
      else let k = bit_length x - 53; q = x div 2 ^ k; r = x mod 2 ^ k
           in (if r < 2 ^ (k - 1) \<or> r = 2 ^ (k - 1) \<and> even q then q else q + 1) * 2 ^ k)"

text \<open>The constants \<open>.50\<close>, \<open>.95\<close> and \<open>.99\<close> as mantissas over \<open>2 ^ 53\<close>.\<close>

definition p50 :: nat where
  "p50 = 4503599627370496"

definition p95 :: nat where
  "p95 = 8556839292003942"

definition p99 :: nat where
  "p99 = 8917127262193582"

text \<open>\<open>int(math.Ceil(p*float64(n)))\<close>.\<close>

definition float_rank :: "nat \<Rightarrow> nat \<Rightarrow> nat" where
  "float_rank p n = (round_float64 (p * n) + (2 ^ 53 - 1)) div 2 ^ 53"

record Percentiles =
  pcSamples :: nat
  pcP50 :: duration
  pcP95 :: duration
  pcP99 :: duration

definition Summarize :: "duration list \<Rightarrow> Percentiles option" where
  "Summarize samples =
     (if samples = [] then None
      else let ordered = sort samples; at = (\<lambda>p. ordered ! (float_rank p (length ordered) - 1))
           in Some \<lparr>pcSamples = length samples, pcP50 = at p50, pcP95 = at p95, pcP99 = at p99\<rparr>)"

section \<open>One request\<close>

record observation =
  obDuration :: duration
  obTTFC :: "duration option"
  obFailure :: string

text \<open>The chunk of a stream as \<open>openai.ChatCompletionChunk\<close> decodes it; the first choice is all
  that matters beyond the id for each of its choices.\<close>

record chunk_choice =
  ccIndex :: int
  ccRole :: string
  ccContent :: string
  ccFinishReason :: "string option"

record load_chunk =
  chID :: string
  chObject :: string
  chCreated :: int
  chModel :: string
  chChoices :: "chunk_choice list"

definition Delta_field :: "string \<Rightarrow> json \<Rightarrow> chunk_choice \<Rightarrow> chunk_choice option" where
  "Delta_field name v c =
     (if name = ''role'' then map_option (\<lambda>s. c\<lparr>ccRole := s\<rparr>) (decode_string v (ccRole c))
      else map_option (\<lambda>s. c\<lparr>ccContent := s\<rparr>) (decode_string v (ccContent c)))"

definition ChunkChoice_field :: "string \<Rightarrow> json \<Rightarrow> chunk_choice \<Rightarrow> chunk_choice option" where
  "ChunkChoice_field name v c =
     (if name = ''index'' then map_option (\<lambda>i. c\<lparr>ccIndex := i\<rparr>) (decode_int v (ccIndex c))
      else if name = ''delta'' then decode_struct [''role'', ''content''] False Delta_field v c
      else map_option (\<lambda>r. c\<lparr>ccFinishReason := r\<rparr>) (decode_pointer [] decode_string v (ccFinishReason c)))"

definition zero_chunk_choice :: chunk_choice where
  "zero_chunk_choice = \<lparr>ccIndex = 0, ccRole = [], ccContent = [], ccFinishReason = None\<rparr>"

definition Chunk_field :: "string \<Rightarrow> json \<Rightarrow> load_chunk \<Rightarrow> load_chunk option" where
  "Chunk_field name v c =
     (if name = ''id'' then map_option (\<lambda>s. c\<lparr>chID := s\<rparr>) (decode_string v (chID c))
      else if name = ''object'' then map_option (\<lambda>s. c\<lparr>chObject := s\<rparr>) (decode_string v (chObject c))
      else if name = ''created'' then map_option (\<lambda>i. c\<lparr>chCreated := i\<rparr>) (decode_int v (chCreated c))
      else if name = ''model'' then map_option (\<lambda>s. c\<lparr>chModel := s\<rparr>) (decode_string v (chModel c))
      else map_option (\<lambda>cs. c\<lparr>chChoices := cs\<rparr>)
        (decode_slice zero_chunk_choice
          (decode_struct [''index'', ''delta'', ''finish_reason''] False ChunkChoice_field) v (chChoices c)))"

definition decode_Chunk :: "json \<Rightarrow> load_chunk option" where
  "decode_Chunk v = decode_struct [''id'', ''object'', ''created'', ''model'', ''choices''] False Chunk_field v
     \<lparr>chID = [], chObject = [], chCreated = 0, chModel = [], chChoices = []\<rparr>"

text \<open>\<open>io.LimitReader\<close> over the body: an end of input at the limit.\<close>

definition limit_body :: "nat \<Rightarrow> http_body \<Rightarrow> http_body" where
  "limit_body limit body =
     (if length (bodyBytes body) \<ge> limit then \<lparr>bodyBytes = take limit (bodyBytes body), bodyError = None\<rparr> else body)"

definition judge_completion :: "http_body \<Rightarrow> bool" where
  "judge_completion body =
     (case Option.bind (Decode_single (bodyError body = None) (bytes_of (bodyBytes body)))
             (\<lambda>v. decode_Response False v zero_response) of
        None \<Rightarrow> False
      | Some completion \<Rightarrow>
          rspID completion = mock_id \<and> rspChoices completion \<noteq> [] \<and>
          choFinishReason (hd (rspChoices completion)) = ''stop'')"

text \<open>The loop over the choices of a chunk, and over the events; \<open>since\<close> is the time at which the
  events are read.\<close>

definition judge_choice :: "duration \<Rightarrow> chunk_choice \<Rightarrow> duration option \<times> bool \<Rightarrow> duration option \<times> bool" where
  "judge_choice now choice st =
     (case st of (ttfc, finished) \<Rightarrow>
        (if ccContent choice \<noteq> [] \<and> ttfc = None then Some now else ttfc,
         finished \<or> ccFinishReason choice = Some ''stop''))"

fun judge_events :: "(nat \<Rightarrow> duration) \<Rightarrow> nat \<Rightarrow> SSEEvent list \<Rightarrow> duration option \<times> bool \<Rightarrow> duration option \<times> bool" where
  "judge_events since i [] st = (fst st, False)"
| "judge_events since i (ev # evs) st =
     (if seData ev = [] then judge_events since (Suc i) evs st
      else if seData ev = ''[DONE]'' then (fst st, snd st \<and> fst st \<noteq> None)
      else (case Option.bind (Unmarshal_value (seData ev)) decode_Chunk of
              None \<Rightarrow> (fst st, False)
            | Some chunk \<Rightarrow>
                if chID chunk \<noteq> mock_id then (fst st, False)
                else judge_events since (Suc i) evs (fold (judge_choice (since i)) (chChoices chunk) st)))"

text \<open>\<open>request\<close>: what the transport returned, the state of the context at the end, and the time
  it took.\<close>

datatype transport = TransportFailed | Responded int http_body

definition load_request ::
  "LoadConfig \<Rightarrow> transport \<Rightarrow> bool \<Rightarrow> (nat \<Rightarrow> duration) \<Rightarrow> duration \<Rightarrow> observation" where
  "load_request c answer ctxDone since elapsed =
     (let judged = (case answer of
            TransportFailed \<Rightarrow> (None, ''transport'')
          | Responded status body0 \<Rightarrow>
              if status \<noteq> 200 then (None, ''http_status'')
              else let body = limit_body 1048576 body0
                   in if \<not> lcStreaming c then (None, if judge_completion body then [] else ''invalid_response'')
                      else (case judge_events since 0 (fst (sse_all (NewSSEReader body))) (None, False) of
                              (ttfc, ok) \<Rightarrow> (ttfc, if ok then [] else ''invalid_response'')))
      in \<lparr>obDuration = elapsed, obTTFC = fst judged,
          obFailure = (if ctxDone then ''timeout_or_cancellation'' else snd judged)\<rparr>)"

text \<open>The request that is sent: every request of a warm cache is the same.\<close>

definition load_payload :: "LoadConfig \<Rightarrow> nat \<Rightarrow> ChatCompletionRequest" where
  "load_payload c index0 =
     (let index = (if lcCacheMode c = ''warm_hit'' then 0 else index0)
      in \<lparr>reqModel = ''mock-model'', reqMessages = [\<lparr>msgRole = ''user'', msgContent = ''RouteForge load '' @ decimal index\<rparr>],
          reqStream = lcStreaming c\<rparr>)"

section \<open>The rank is exact\<close>

lemma bit_length_bounds: "0 < n \<Longrightarrow> 2 ^ (bit_length n - 1) \<le> n \<and> n < 2 ^ bit_length n \<and> 0 < bit_length n"
proof (induction n rule: bit_length.induct)
  case (1 n)
  show ?case
  proof (cases "n div 2 = 0")
    case True
    with "1.prems" have "n = 1" by simp
    then show ?thesis by (simp add: bit_length.simps)
  next
    case False
    with 1 have ih: "2 ^ (bit_length (n div 2) - 1) \<le> n div 2" "n div 2 < 2 ^ bit_length (n div 2)" "0 < bit_length (n div 2)" by auto
    have b: "bit_length n = Suc (bit_length (n div 2))" using "1.prems" by (simp add: bit_length.simps [of n])
    obtain j where j: "bit_length (n div 2) = Suc j" using ih(3) by (cases "bit_length (n div 2)") auto
    show ?thesis using ih unfolding b j by simp linarith
  qed
qed

lemma round_float64_bounds:
  assumes x: "2 ^ 53 \<le> x" "x < 2 ^ 106"
  obtains e where "round_float64 x \<le> x + e" "x \<le> round_float64 x + e" "e * 2 ^ 53 \<le> x"
    "\<And>N. x \<le> N * 2 ^ 53 \<Longrightarrow> round_float64 x \<le> N * 2 ^ 53"
proof -
  have bl: "2 ^ (bit_length x - 1) \<le> x" "x < 2 ^ bit_length x" using bit_length_bounds [of x] x by auto
  have "(2::nat) ^ 53 < 2 ^ bit_length x" using x(1) bl(2) by (rule le_less_trans)
  then have lo: "53 < bit_length x" by (simp only: power_strict_increasing_iff one_less_numeral_iff semiring_norm)
  have "(2::nat) ^ (bit_length x - 1) < 2 ^ 106" using bl(1) x(2) by (rule le_less_trans)
  then have hi: "bit_length x - 1 < 106" by (simp only: power_strict_increasing_iff one_less_numeral_iff semiring_norm)
  define j where "j = bit_length x - 54"
  have k: "bit_length x - 53 = Suc j" "j \<le> 52" using lo hi unfolding j_def by linarith+
  define q where "q = x div 2 ^ Suc j"
  define r where "r = x mod 2 ^ Suc j"
  have x_eq: "x = q * 2 ^ Suc j + r" "r < 2 ^ Suc j"
    unfolding q_def r_def by (simp_all only: div_mult_mod_eq mod_less_divisor zero_less_numeral zero_less_power)
  have y: "round_float64 x = (if r < 2 ^ j \<or> r = 2 ^ j \<and> even q then q else q + 1) * 2 ^ Suc j"
    using x(1) k(1) by (simp add: round_float64_def Let_def q_def r_def)
  have "j + 53 = bit_length x - 1" using lo unfolding j_def by linarith
  then have e: "2 ^ j * 2 ^ 53 \<le> x" using bl(1) by (metis power_add)
  have up: "round_float64 x \<le> N * 2 ^ 53" if N: "x \<le> N * 2 ^ 53" for N
  proof -
    obtain M where M: "N * 2 ^ 53 = M * 2 ^ Suc j"
    proof -
      have "53 = (53 - Suc j) + Suc j" using k(2) by simp
      then have "(2::nat) ^ 53 = 2 ^ (53 - Suc j) * 2 ^ Suc j" by (metis power_add)
      then show thesis using that [of "N * 2 ^ (53 - Suc j)"] by simp
    qed
    have "q \<le> M" using N x_eq M by (metis div_le_mono nonzero_mult_div_cancel_right power_not_zero q_def zero_neq_numeral)
    moreover have "q < M" if "r \<noteq> 0"
    proof (rule ccontr)
      assume "\<not> q < M"
      then have "M * 2 ^ Suc j \<le> q * 2 ^ Suc j" by simp
      with that N x_eq(1) M show False by linarith
    qed
    moreover have "r = 0 \<Longrightarrow> r < 2 ^ j" by simp
    ultimately have "(if r < 2 ^ j \<or> r = 2 ^ j \<and> even q then q else q + 1) \<le> M" by (cases "r = 0") auto
    then show ?thesis unfolding y M by (rule mult_le_mono1)
  qed
  have "round_float64 x \<le> x + 2 ^ j" "x \<le> round_float64 x + 2 ^ j"
    unfolding y using x_eq by auto
  then show thesis using that e up by blast
qed

text \<open>A constant that is at most the percentage by a little gives the exact rank.\<close>

lemma float_rank_exact:
  assumes m: "100 * m + d = P * 2 ^ 53" "d \<le> 40" "P \<le> 99" and n: "0 < n" "n \<le> 1000000"
    and N: "100 * N < P * n + 100" "P * n \<le> 100 * N"
  shows "float_rank m n = N"
proof -
  let ?x = "m * n" and ?y = "round_float64 (m * n)"
  have x: "100 * ?x + d * n = P * n * 2 ^ 53"
    using m(1) by (metis (no_types, lifting) add_mult_distrib mult.assoc mult.commute)
  have dn: "d * n \<le> 40000000" using mult_le_mono [OF m(2) n(2)] by simp
  have Pn: "P * n \<le> 99000000" using mult_le_mono [OF m(3) n(2)] by simp
  have "\<exists>e. ?y \<le> ?x + e \<and> ?x \<le> ?y + e \<and> e * 2 ^ 53 \<le> ?x \<and> (?x \<le> N * 2 ^ 53 \<longrightarrow> ?y \<le> N * 2 ^ 53)"
  proof (cases "?x < 2 ^ 53")
    case True
    then show ?thesis by (intro exI [of _ 0]) (simp add: round_float64_def)
  next
    case False
    have "?x < 2 ^ 106" using x Pn by (simp add: power_add [of _ 53 53, simplified])
    with False show ?thesis using round_float64_bounds [of ?x] by (metis not_less)
  qed
  then obtain e where e: "?y \<le> ?x + e" "?x \<le> ?y + e" "e * 2 ^ 53 \<le> ?x" "?x \<le> N * 2 ^ 53 \<Longrightarrow> ?y \<le> N * 2 ^ 53"
    by blast
  have "?x \<le> N * 2 ^ 53" using x N(2) by simp
  then have hi: "?y \<le> N * 2 ^ 53" by (rule e(4))
  have "e \<le> 990000" using e(3) x Pn by simp
  then have lo: "N * 2 ^ 53 < ?y + 2 ^ 53" using e(2) x dn N(1) by simp
  show ?thesis
    using hi lo unfolding float_rank_def by simp
qed

lemma nearest_ranks:
  assumes "0 < n" "n \<le> 1000000"
  shows "float_rank p50 n = (50 * n + 99) div 100" "float_rank p95 n = (95 * n + 99) div 100"
    "float_rank p99 n = (99 * n + 99) div 100"
proof -
  have N: "100 * ((P * n + 99) div 100) < P * n + 100" "P * n \<le> 100 * ((P * n + 99) div 100)" for P by linarith+
  show "float_rank p50 n = (50 * n + 99) div 100" "float_rank p95 n = (95 * n + 99) div 100"
    "float_rank p99 n = (99 * n + 99) div 100"
    by (rule float_rank_exact [where P = 50 and d = 0, OF _ _ _ assms N] float_rank_exact [where P = 95 and d = 40, OF _ _ _ assms N]
        float_rank_exact [where P = 99 and d = 8, OF _ _ _ assms N]; simp add: p50_def p95_def p99_def)+
qed

section \<open>Reading a relayed stream\<close>

text \<open>What the client makes of a chunk that the handler wrote.\<close>

lemma decode_relayed_chunk:
  assumes "in_i64 (ckCreated c)"
  shows "decode_Chunk (ChatCompletionChunk_json c) =
    Some \<lparr>chID = ckID c, chObject = ''chat.completion.chunk'', chCreated = ckCreated c, chModel = ckModel c,
      chChoices = [\<lparr>ccIndex = 0, ccRole = ckRole c, ccContent = ckContent c,
        ccFinishReason = (if ckFinishReason c = [] then None else Some (ckFinishReason c))\<rparr>]\<rparr>"
proof -
  have i0: "in_i64 0" by (simp add: in_i64_def MinInt64_def MaxInt64_def)
  have "decode_struct [''index'', ''delta'', ''finish_reason''] False ChunkChoice_field (ChunkChoice_json c) zero_chunk_choice =
    Some \<lparr>ccIndex = 0, ccRole = ckRole c, ccContent = ckContent c,
      ccFinishReason = (if ckFinishReason c = [] then None else Some (ckFinishReason c))\<rparr>"
    using i0 by (auto simp: decode_struct_def ChunkChoice_json_def ChunkDelta_json_def
        ChunkChoice_field_def Delta_field_def struct_field_def zero_chunk_choice_def decode_pointer_def
        fold_name_def fold_rune_def string_runes_def)
  then show ?thesis using assms
    by (simp add: decode_Chunk_def decode_struct_def ChatCompletionChunk_json_def
        Chunk_field_def struct_field_def decode_slice_def fold_name_def fold_rune_def string_runes_def)
qed

lemma read_relayed_chunk:
  assumes "relayable c"
  shows "judge_events since i (chunk_event c # evs) st =
    (if ckID (wire_chunk c) \<noteq> mock_id then (fst st, False)
     else judge_events since (Suc i) evs
       (if ckContent (wire_chunk c) \<noteq> [] \<and> fst st = None then Some (since i) else fst st,
        snd st \<or> ckFinishReason (wire_chunk c) = ''stop''))"
proof -
  have "in_i64 (ckCreated (wire_chunk c))" using assms by (simp add: relayable_def wire_chunk_def)
  from decode_relayed_chunk [OF this] have d: "Option.bind (Unmarshal_value (seData (chunk_event c))) decode_Chunk =
    Some \<lparr>chID = ckID (wire_chunk c), chObject = ''chat.completion.chunk'', chCreated = ckCreated (wire_chunk c),
      chModel = ckModel (wire_chunk c),
      chChoices = [\<lparr>ccIndex = 0, ccRole = ckRole (wire_chunk c), ccContent = ckContent (wire_chunk c),
        ccFinishReason = (if ckFinishReason (wire_chunk c) = [] then None else Some (ckFinishReason (wire_chunk c)))\<rparr>]\<rparr>"
    by (simp add: chunk_event_def Unmarshal_Marshal [OF chunk_json_ok] sanitize_chunk_json)
  have "seData (chunk_event c) \<noteq> []" "seData (chunk_event c) \<noteq> ''[DONE]''"
    by (simp_all add: chunk_event_def Marshal_obj ChatCompletionChunk_json_def)
  then show ?thesis by (cases st) (auto simp: d judge_choice_def)
qed

lemma judge_relayed:
  assumes "list_all relayable cs"
  shows "snd (judge_events since i (map chunk_event cs @ (if fin then [done_event] else [])) st) \<longleftrightarrow>
    fin \<and> list_all (\<lambda>c. ckID (wire_chunk c) = mock_id) cs \<and>
    (fst st \<noteq> None \<or> list_ex (\<lambda>c. ckContent (wire_chunk c) \<noteq> []) cs) \<and>
    (snd st \<or> list_ex (\<lambda>c. ckFinishReason (wire_chunk c) = ''stop'') cs)"
  using assms
proof (induction cs arbitrary: i st)
  case Nil
  then show ?case by (auto simp: done_event_def)
next
  case (Cons c cs)
  then have "relayable c" "list_all relayable cs" by simp_all
  then show ?case using Cons.IH by (auto simp: read_relayed_chunk simp del: judge_events.simps)
qed

lemma sse_relayed:
  assumes "list_all relayable cs"
  shows "fst (sse_all (NewSSEReader \<lparr>bodyBytes = concat (map chunk_frame cs) @ (if fin then done_frame else []), bodyError = None\<rparr>))
    = map chunk_event cs @ (if fin then [done_event] else [])"
proof -
  let ?evs = "map chunk_event cs @ (if fin then [done_event] else [])"
  have "list_all writable_event ?evs"
    using assms chunk_event_writable done_event_writable by (auto simp: list_all_iff relayable_def)
  moreover have "concat (map chunk_frame cs) @ (if fin then done_frame else []) = concat (map render_event ?evs)"
    by (simp add: chunk_frame_event [THEN ext] done_frame_event comp_def)
  ultimately show ?thesis using sse_all_rendered [of ?evs] by (simp add: NewSSEReader_def)
qed

section \<open>Properties\<close>

text \<open>C40: The reported percentiles are exact. For any non-empty samples up to the permitted number of
  requests, the rank that the code computes in floating point is the exact nearest rank
  \<open>\<lceil>p * n / 100\<rceil>\<close>, so that every read of the sorted samples is in range: the reported
  duration is one of the samples, at least \<open>p\<close> percent of them are no larger, and fewer than
  \<open>p\<close> percent are smaller.\<close>

theorem load_percentiles_exact:
  assumes "samples \<noteq> []" "length samples \<le> 1000000"
  defines "n \<equiv> length samples"
  shows "\<exists>s. Summarize samples = Some s \<and> pcSamples s = n \<and>
    list_all (\<lambda>(p, v). v \<in> set samples \<and> p * n \<le> 100 * length (filter (\<lambda>x. x \<le> v) samples) \<and>
      100 * length (filter (\<lambda>x. x < v) samples) < p * n)
      [(50, pcP50 s), (95, pcP95 s), (99, pcP99 s)]"
proof -
  let ?v = "\<lambda>p. sort samples ! ((p * n + 99) div 100 - 1)"
  have n: "0 < n" "n \<le> 1000000" using assms by simp_all
  have s: "Summarize samples = Some \<lparr>pcSamples = n, pcP50 = ?v 50, pcP95 = ?v 95, pcP99 = ?v 99\<rparr>"
    using assms(1) nearest_ranks [OF n] by (simp add: Summarize_def n_def Let_def)
  have v: "?v p \<in> set samples \<and> p * n \<le> 100 * length (filter (\<lambda>x. x \<le> ?v p) samples) \<and>
      100 * length (filter (\<lambda>x. x < ?v p) samples) < p * n" if "0 < p" "p \<le> 100" for p
    using nearest_rank_sound [OF assms(1) that] unfolding n_def by blast
  show ?thesis
    unfolding s using v [of 50] v [of 95] v [of 99] by simp
qed

theorem load_percentiles_exact_witness:
  "\<exists>s. Summarize [30, 10, 20] = Some s \<and> pcSamples s = 3 \<and> pcP50 s = 20 \<and> pcP99 s = 30"
proof -
  let ?xs = "[30, 10, 20 :: int]"
  obtain s where s: "Summarize ?xs = Some s" "pcSamples s = length ?xs"
    "list_all (\<lambda>(p, v). v \<in> set ?xs \<and> p * length ?xs \<le> 100 * length (filter (\<lambda>x. x \<le> v) ?xs) \<and>
      100 * length (filter (\<lambda>x. x < v) ?xs) < p * length ?xs) [(50, pcP50 s), (95, pcP95 s), (99, pcP99 s)]"
    using load_percentiles_exact [of ?xs] by auto
  have "pcP50 s = 20" "pcP99 s = 30" using s(3) by auto
  with s show ?thesis by auto
qed

text \<open>C29: The client's judgement of a stream is the server's. Let the handler relay a stream over a
  connection that takes every write, with a response that fits the client's limit. Then a client whose
  context lives counts it as a success exactly when the gateway's stream succeeded, every chunk carries
  the mock provider's id, some chunk has content and some chunk ends with \<open>stop\<close>.\<close>

theorem load_judges_streams:
  fixes quote canceled c since elapsed and stream :: streamer
  assumes "stream req (\<lambda>i c. None) = (chunks, err)" "list_all relayable chunks" "lcStreaming c"
  defines "w \<equiv> streamChatCompletions reliable quote True canceled stream req new_writer"
  assumes "length (rwBody w) < 1048576"
  defines "ob \<equiv> load_request c (Responded (rwStatus w) \<lparr>bodyBytes = rwBody w, bodyError = None\<rparr>) False since elapsed"
  shows "obFailure ob = [] \<longleftrightarrow> err = None \<and> list_all (\<lambda>c. ckID (wire_chunk c) = mock_id) chunks \<and>
    list_ex (\<lambda>c. ckContent (wire_chunk c) \<noteq> []) chunks \<and> list_ex (\<lambda>c. ckFinishReason (wire_chunk c) = ''stop'') chunks"
proof (cases "err = None \<or> chunks \<noteq> []")
  case True
  then have w: "rwStatus w = 200" "rwBody w = concat (map chunk_frame chunks) @ (if err = None then done_frame else [])"
    using relayed_response [of stream req chunks err quote canceled] assms(1) unfolding w_def by (auto split: if_splits)
  have "limit_body 1048576 \<lparr>bodyBytes = rwBody w, bodyError = None\<rparr> = \<lparr>bodyBytes = rwBody w, bodyError = None\<rparr>"
    using assms(5) by (simp add: limit_body_def)
  then have "obFailure ob = [] \<longleftrightarrow> snd (judge_events since 0 (map chunk_event chunks @ (if err = None then [done_event] else [])) (None, False))"
    using assms(3) w(1) sse_relayed [OF assms(2), of "err = None"]
    by (simp add: ob_def load_request_def w(2) Let_def case_prod_unfold)
  then show ?thesis using judge_relayed [OF assms(2), of since 0 "err = None"] by simp
next
  case False
  then have "rwStatus w \<noteq> 200"
    using relayed_response [of stream req chunks err quote canceled] assms(1) unfolding w_def error_reply_def by auto
  with False show ?thesis by (simp add: ob_def load_request_def)
qed

theorem load_judges_streams_witness:
  "let c1 = zero_chunk\<lparr>ckID := mock_id, ckContent := ''hi''\<rparr>; c2 = zero_chunk\<lparr>ckID := mock_id, ckFinishReason := ''stop''\<rparr>;
     w = streamChatCompletions reliable (\<lambda>s. s) True False (\<lambda>req answers. ([c1, c2], None)) zero_request new_writer;
     c = \<lparr>lcPort = 8080, lcConcurrency = 1, lcRequests = 1, lcWarmup = 1, lcMaxDuration = 1000000, lcRequestTimeout = 1000000,
       lcStreaming = True, lcCacheMode = ''bypass'', lcPersistence = False, lcSamplePersistence = False\<rparr>
   in obFailure (load_request c (Responded (rwStatus w) \<lparr>bodyBytes = rwBody w, bodyError = None\<rparr>) False (\<lambda>_. 0) 0) = []"
proof -
  define c1 where "c1 = zero_chunk\<lparr>ckID := mock_id, ckContent := ''hi''\<rparr>"
  define c2 where "c2 = zero_chunk\<lparr>ckID := mock_id, ckFinishReason := ''stop''\<rparr>"
  define stream where "stream = (\<lambda>(req :: ChatCompletionRequest) (answers :: nat \<Rightarrow> StreamChunk \<Rightarrow> go_error option). ([c1, c2], None :: go_error option))"
  let ?w = "streamChatCompletions reliable (\<lambda>s. s) True False stream zero_request new_writer"
  have s: "stream zero_request (\<lambda>i c. None) = ([c1, c2], None)" by (simp add: stream_def)
  have small: "relayable c1" "relayable c2"
    by (rule small_relayable; simp add: c1_def c2_def zero_chunk_def mock_id_def in_i64_def MinInt64_def MaxInt64_def)+
  have w: "wire_chunk c1 = c1" "wire_chunk c2 = c2"
    by (simp_all add: wire_chunk_def c1_def c2_def zero_chunk_def mock_id_def sanitize_ascii)
  have b: "rwBody ?w = chunk_frame c1 @ chunk_frame c2 @ done_frame"
    using relayed_response [of stream zero_request "[c1, c2]" None "\<lambda>s. s" False] s by simp
  have "length (Marshal (ChatCompletionChunk_json c1)) < 65536" "length (Marshal (ChatCompletionChunk_json c2)) < 65536"
    using small by (simp_all add: relayable_def frame_fits_def MaxSSEEventSize_def)
  then have l: "length (rwBody ?w) < 1048576" unfolding b by (simp add: chunk_frame_def done_frame_def)
  show ?thesis
    unfolding Let_def c1_def [symmetric] c2_def [symmetric] stream_def [symmetric]
    by (subst load_judges_streams [of stream zero_request "[c1, c2]" None, OF s _ _ l]) (simp_all add: small w, simp_all add: c1_def c2_def)
qed

end
