(* ===== verification/Load_Run.thy ===== *)
theory Load_Run
  imports Load_Client
begin

text \<open>
  A load test (\<open>internal/loadtest/load.go\<close>, \<open>metrics.go\<close>): the workers of a phase as a
  step relation, the counters that are read from the server's metrics page and their differences, and
  \<open>Run\<close>, which puts them together. What the metrics page holds once parsed, the answers to the
  requests and the times are arguments; a quotient of two numbers is kept as the pair. Seconds spent in
  writes are kept as a whole number of nanoseconds.
\<close>

section \<open>The workers of a phase\<close>

text \<open>A worker at the head of its loop, past the check of the context, waiting for the answer to a
  request, and gone.\<close>

datatype load_worker = AtLoop | Checked | Busy nat | Gone

record phase_state =
  phNext :: nat
  phWorkers :: "load_worker list"
  phExpired :: bool
  phResults :: "(nat \<times> observation) list"

definition phase_start :: "nat \<Rightarrow> phase_state" where
  "phase_start concurrency = \<lparr>phNext = 0, phWorkers = replicate concurrency AtLoop, phExpired = False, phResults = []\<rparr>"

inductive phase_step :: "nat \<Rightarrow> phase_state \<Rightarrow> phase_state \<Rightarrow> bool" for limit where
  expire: "\<not> phExpired s \<Longrightarrow> phase_step limit s (s\<lparr>phExpired := True\<rparr>)"
| check: "i < length (phWorkers s) \<Longrightarrow> phWorkers s ! i = AtLoop \<Longrightarrow>
    phase_step limit s (s\<lparr>phWorkers := (phWorkers s)[i := if phExpired s then Gone else Checked]\<rparr>)"
| fetch: "i < length (phWorkers s) \<Longrightarrow> phWorkers s ! i = Checked \<Longrightarrow>
    phase_step limit s (s\<lparr>phNext := Suc (phNext s),
      phWorkers := (phWorkers s)[i := if phNext s \<ge> limit then Gone else Busy (phNext s)]\<rparr>)"
| answer: "i < length (phWorkers s) \<Longrightarrow> phWorkers s ! i = Busy k \<Longrightarrow>
    phase_step limit s (s\<lparr>phWorkers := (phWorkers s)[i := AtLoop], phResults := phResults s @ [(k, ob)]\<rparr>)"

inductive_cases phase_stepE: "phase_step limit s s'"

definition phase_over :: "phase_state \<Rightarrow> bool" where
  "phase_over s \<longleftrightarrow> list_all (\<lambda>w. w = Gone) (phWorkers s)"

section \<open>Counters of the server\<close>

record prom_metric =
  pmLabels :: "(string \<times> string) list"
  pmValue :: int

type_synonym families = "string \<rightharpoonup> prom_metric list"

record counters =
  cnRequests :: int
  cnAttempts :: int
  cnHits :: int
  cnMisses :: int
  cnLookupErrors :: int
  cnWrites :: int
  cnWriteErrors :: int
  cnPersisted :: int
  cnPersistenceErrors :: int
  cnDropped :: int
  cnQueueDepth :: "int option"
  cnSubmitted :: "int option"
  cnWriteCount :: "int option"
  cnWriteSeconds :: "int option"

text \<open>The sum of a family over the metrics with a label, or over all.\<close>

definition family_sum :: "families \<Rightarrow> string \<Rightarrow> string \<Rightarrow> string \<Rightarrow> int" where
  "family_sum fs name label v =
     foldl (\<lambda>total m. if label = [] \<or> (label, v) \<in> set (pmLabels m) then i64_wrap (total + pmValue m) else total)
       0 (case fs name of None \<Rightarrow> [] | Some ms \<Rightarrow> ms)"

definition present_sum :: "families \<Rightarrow> string \<Rightarrow> int option" where
  "present_sum fs name = (if fs name = None then None else Some (family_sum fs name [] []))"

definition single_value :: "families \<Rightarrow> string \<Rightarrow> int option" where
  "single_value fs name = (case fs name of Some [m] \<Rightarrow> Some (pmValue m) | _ \<Rightarrow> None)"

definition counters_of :: "families \<Rightarrow> counters" where
  "counters_of fs = \<lparr>cnRequests = family_sum fs ''routeforge_requests_total'' [] [],
     cnAttempts = family_sum fs ''routeforge_provider_attempts_total'' [] [],
     cnHits = family_sum fs ''routeforge_cache_lookups_total'' ''result'' ''hit'',
     cnMisses = family_sum fs ''routeforge_cache_lookups_total'' ''result'' ''miss'',
     cnLookupErrors = family_sum fs ''routeforge_cache_lookups_total'' ''result'' ''error'',
     cnWrites = family_sum fs ''routeforge_cache_writes_total'' ''result'' ''success'',
     cnWriteErrors = family_sum fs ''routeforge_cache_writes_total'' ''result'' ''error'',
     cnPersisted = family_sum fs ''routeforge_persistence_records_total'' ''outcome'' ''written'',
     cnPersistenceErrors = family_sum fs ''routeforge_persistence_records_total'' ''outcome'' ''write_error'',
     cnDropped = family_sum fs ''routeforge_persistence_records_total'' ''outcome'' ''queue_full'',
     cnQueueDepth = single_value fs ''routeforge_persistence_queue_depth'',
     cnSubmitted = present_sum fs ''routeforge_persistence_submitted_total'',
     cnWriteCount = present_sum fs ''routeforge_persistence_writes_total'',
     cnWriteSeconds = single_value fs ''routeforge_persistence_write_duration_seconds_total''\<rparr>"

definition readCounters :: "(string \<Rightarrow> families option) \<Rightarrow> transport \<Rightarrow> string + counters" where
  "readCounters parser answer =
     (case answer of
        TransportFailed \<Rightarrow> Inl ''metrics unavailable''
      | Responded status body \<Rightarrow>
          if status \<noteq> 200 then Inl ''metrics unavailable''
          else if length (bodyBytes body) > 4 * 2 ^ 20 \<or> bodyError body \<noteq> None then Inl ''invalid metrics response''
          else (case parser (bodyBytes body) of
                  None \<Rightarrow> Inl ''invalid metrics response''
                | Some fs \<Rightarrow> Inr (counters_of fs)))"

definition counters_settled :: "counters \<Rightarrow> counters \<Rightarrow> int \<Rightarrow> bool \<Rightarrow> bool" where
  "counters_settled before after requests persistence \<longleftrightarrow>
     i64_wrap (cnRequests after - cnRequests before) \<ge> requests \<and>
     (\<not> persistence \<or>
      i64_wrap (cnPersisted after + cnPersistenceErrors after + cnDropped after -
        cnPersisted before - cnPersistenceErrors before - cnDropped before) \<ge> requests)"

text \<open>The polling loop of \<open>settledCounters\<close> over the reads and what each wait ends with;
  \<open>None\<close> while it is still polling.\<close>

datatype poll_wait = Tick | DeadlinePassed | PollCanceled

fun settledCounters ::
  "counters \<Rightarrow> int \<Rightarrow> bool \<Rightarrow> ((string + counters) \<times> poll_wait) list \<Rightarrow> (string + counters \<times> bool) option" where
  "settledCounters before requests persistence [] = None"
| "settledCounters before requests persistence ((read, wait) # polls) =
     (case read of
        Inl err \<Rightarrow> Some (Inl err)
      | Inr after \<Rightarrow>
          if counters_settled before after requests persistence then Some (Inr (after, True))
          else (case wait of
                  PollCanceled \<Rightarrow> Some (Inl ''metrics observation canceled'')
                | DeadlinePassed \<Rightarrow> Some (Inr (after, False))
                | Tick \<Rightarrow> settledCounters before requests persistence polls))"

record Observations =
  osRequests :: int
  osAttempts :: int
  osHits :: int
  osMisses :: int
  osLookupErrors :: int
  osWrites :: int
  osWriteErrors :: int
  osPersisted :: int
  osPersistenceErrors :: int
  osDropped :: int
  osPersistenceSettled :: bool
  osCacheModeVerified :: bool

definition delta :: "(counters \<Rightarrow> int) \<Rightarrow> counters \<Rightarrow> counters \<Rightarrow> int" where
  "delta field before after = i64_wrap (field after - field before)"

definition cache_mode_verified :: "string \<Rightarrow> int \<Rightarrow> Observations \<Rightarrow> bool" where
  "cache_mode_verified mode requests ob =
     (if mode = ''warm_hit'' then osHits ob = requests \<and> osMisses ob = 0 \<and> osAttempts ob = 0
      else if mode = ''miss''
      then osMisses ob = requests \<and> osHits ob = 0 \<and> osAttempts ob = requests \<and> osWrites ob = requests
      else if mode = ''disabled'' \<or> mode = ''bypass''
      then i64_wrap (osHits ob + osMisses ob) = 0 \<and> osAttempts ob = requests
      else False)"

definition counter_deltas :: "counters \<Rightarrow> counters \<Rightarrow> bool \<Rightarrow> Observations" where
  "counter_deltas before after isSettled =
     \<lparr>osRequests = delta cnRequests before after, osAttempts = delta cnAttempts before after,
      osHits = delta cnHits before after, osMisses = delta cnMisses before after,
      osLookupErrors = delta cnLookupErrors before after, osWrites = delta cnWrites before after,
      osWriteErrors = delta cnWriteErrors before after, osPersisted = delta cnPersisted before after,
      osPersistenceErrors = delta cnPersistenceErrors before after, osDropped = delta cnDropped before after,
      osPersistenceSettled = isSettled, osCacheModeVerified = False\<rparr>"

definition observed_values :: "Observations \<Rightarrow> int list" where
  "observed_values ob = [osRequests ob, osAttempts ob, osHits ob, osMisses ob, osLookupErrors ob, osWrites ob,
     osWriteErrors ob, osPersisted ob, osPersistenceErrors ob, osDropped ob]"

definition difference :: "counters \<Rightarrow> counters \<Rightarrow> LoadConfig \<Rightarrow> int \<Rightarrow> bool \<Rightarrow> string + Observations" where
  "difference before after c requests isSettled =
     (let ob = counter_deltas before after isSettled in
      if list_ex (\<lambda>v. v < 0) (observed_values ob) then Inl ''server counters reset during measurement''
      else if osRequests ob = requests \<and> osLookupErrors ob = 0 \<and> osWriteErrors ob = 0
      then Inr (ob\<lparr>osCacheModeVerified := cache_mode_verified (lcCacheMode c) requests ob\<rparr>)
      else Inr ob)"

section \<open>Sampling of the persistence counters\<close>

record PersistenceSample =
  smElapsed :: duration
  smRequests :: int
  smWritten :: int
  smDropped :: int
  smErrors :: int
  smQueueDepth :: "int option"
  smSubmitted :: "int option"
  smWriteCount :: "int option"
  smWriteSeconds :: "int option"

definition option_delta :: "int option \<Rightarrow> int option \<Rightarrow> int option" where
  "option_delta before after =
     (case (before, after) of (Some b, Some a) \<Rightarrow> Some (i64_wrap (a - b)) | _ \<Rightarrow> None)"

definition persistence_sample :: "counters \<Rightarrow> duration \<Rightarrow> counters \<Rightarrow> PersistenceSample" where
  "persistence_sample before elapsed after = \<lparr>smElapsed = elapsed, smRequests = delta cnRequests before after,
     smWritten = delta cnPersisted before after, smDropped = delta cnDropped before after,
     smErrors = delta cnPersistenceErrors before after, smQueueDepth = cnQueueDepth after,
     smSubmitted = option_delta (cnSubmitted before) (cnSubmitted after),
     smWriteCount = option_delta (cnWriteCount before) (cnWriteCount after),
     smWriteSeconds = option_delta (cnWriteSeconds before) (cnWriteSeconds after)\<rparr>"

text \<open>The loop of \<open>samplePersistence\<close>, over the ticks until the context is done: each read with
  its time and whether the context had ended by then.\<close>

fun samplePersistence ::
  "counters \<Rightarrow> ((string + counters) \<times> duration \<times> bool) list \<Rightarrow> string option \<times> PersistenceSample list" where
  "samplePersistence before [] = (None, [])"
| "samplePersistence before ((read, elapsed, ctxDone) # ticks) =
     (case read of
        Inl err \<Rightarrow> (if ctxDone then None else Some err, [])
      | Inr after \<Rightarrow> (case samplePersistence before ticks of
                        (err, ss) \<Rightarrow> (err, persistence_sample before elapsed after # ss)))"

section \<open>A run\<close>

record Environment =
  evGoVersion :: string
  evOS :: string
  evArchitecture :: string
  evLogicalCPUs :: int

record Report =
  rpClientEnvironment :: Environment
  rpVersion :: int
  rpScenario :: string
  rpConcurrency :: int
  rpRequested :: int
  rpRequests :: int
  rpNotStarted :: int
  rpWarmup :: int
  rpSuccesses :: int
  rpFailures :: int
  rpErrors :: "(string \<times> int) list"
  rpElapsed :: duration
  rpSuccessRate :: "(int \<times> int) option"
  rpErrorRate :: "(int \<times> int) option"
  rpRequestsPer :: "(int \<times> duration) option"
  rpSuccessesPer :: "(int \<times> duration) option"
  rpMaxDuration :: duration
  rpRequestTimeout :: duration
  rpClientLatency :: "Percentiles option"
  rpTTFC :: "Percentiles option"
  rpStreamDuration :: "Percentiles option"
  rpCacheMode :: string
  rpPersistence :: bool
  rpObservations :: "Observations option"
  rpSamples :: "PersistenceSample list"

text \<open>The map of errors, in the order in which its keys were first counted.\<close>

fun count_error :: "string \<Rightarrow> (string \<times> int) list \<Rightarrow> (string \<times> int) list" where
  "count_error k [] = [(k, 1)]"
| "count_error k ((k', n) # es) = (if k = k' then (k', n + 1) # es else (k', n) # count_error k es)"

text \<open>The loop over the samples.\<close>

definition tally_sample :: "Report \<Rightarrow> observation \<Rightarrow> Report" where
  "tally_sample r ob =
     (if obFailure ob = [] then r\<lparr>rpSuccesses := rpSuccesses r + 1\<rparr>
      else r\<lparr>rpFailures := rpFailures r + 1, rpErrors := count_error (obFailure ob) (rpErrors r)\<rparr>)"

text \<open>The outside of a run: the counters before it, the request that primes the cache, the two phases,
  the polls after each, and the ticks of the sampler.\<close>

type_synonym poll = "(string + counters) \<times> poll_wait"

record load_world =
  lwEnvironment :: Environment
  lwBaseline :: "string + counters"
  lwPrime :: observation
  lwWarm :: "observation list"
  lwWarmPolls :: "poll list"
  lwSamples :: "observation list"
  lwElapsed :: duration
  lwTicks :: "((string + counters) \<times> duration \<times> bool) list"
  lwPolls :: "poll list"

definition base_report :: "LoadConfig \<Rightarrow> int \<Rightarrow> load_world \<Rightarrow> Report" where
  "base_report c warmCount w = \<lparr>rpClientEnvironment = lwEnvironment w, rpVersion = 1,
     rpScenario = ''mock_sync'', rpConcurrency = lcConcurrency c, rpRequested = lcRequests c,
     rpRequests = int (length (lwSamples w)), rpNotStarted = lcRequests c - int (length (lwSamples w)), rpWarmup = warmCount,
     rpSuccesses = 0, rpFailures = 0, rpErrors = [], rpElapsed = lwElapsed w, rpSuccessRate = None, rpErrorRate = None,
     rpRequestsPer = None, rpSuccessesPer = None, rpMaxDuration = lcMaxDuration c, rpRequestTimeout = lcRequestTimeout c,
     rpClientLatency = None, rpTTFC = None, rpStreamDuration = None, rpCacheMode = lcCacheMode c,
     rpPersistence = lcPersistence c, rpObservations = None, rpSamples = []\<rparr>"

definition summarize_report :: "LoadConfig \<Rightarrow> load_world \<Rightarrow> Report \<Rightarrow> Report" where
  "summarize_report c w r0 =
     (let r1 = foldl tally_sample r0 (lwSamples w);
          latencies = map obDuration (lwSamples w);
          ttfcs = List.map_filter obTTFC (lwSamples w);
          r2 = (if rpRequests r1 > 0 then r1\<lparr>rpSuccessRate := Some (rpSuccesses r1, rpRequests r1),
                  rpErrorRate := Some (rpFailures r1, rpRequests r1)\<rparr> else r1);
          r3 = (if lwElapsed w > 0 then r2\<lparr>rpRequestsPer := Some (rpRequests r2, lwElapsed w),
                  rpSuccessesPer := Some (rpSuccesses r2, lwElapsed w)\<rparr> else r2);
          r4 = r3\<lparr>rpClientLatency := Summarize latencies\<rparr>
      in if lcStreaming c
         then r4\<lparr>rpScenario := ''mock_stream'', rpTTFC := Summarize ttfcs, rpStreamDuration := Summarize latencies\<rparr>
         else r4)"

definition zero_counters :: counters where
  "zero_counters = \<lparr>cnRequests = 0, cnAttempts = 0, cnHits = 0, cnMisses = 0, cnLookupErrors = 0, cnWrites = 0,
     cnWriteErrors = 0, cnPersisted = 0, cnPersistenceErrors = 0, cnDropped = 0, cnQueueDepth = None, cnSubmitted = None,
     cnWriteCount = None, cnWriteSeconds = None\<rparr>"

text \<open>The measured phase and the report, once the warm-up is over; \<open>None\<close> while polls are
  still to come.\<close>

definition measured_run :: "LoadConfig \<Rightarrow> int \<Rightarrow> int \<Rightarrow> counters \<Rightarrow> load_world \<Rightarrow> (string + Report) option" where
  "measured_run c metricsPort warmCount baseline w =
     (case (if lcSamplePersistence c then samplePersistence baseline (lwTicks w) else (None, [])) of
        (Some err, _) \<Rightarrow> Some (Inl err)
      | (None, ss) \<Rightarrow>
          (let r = summarize_report c w ((base_report c warmCount w)\<lparr>rpSamples := ss\<rparr>) in
           if metricsPort = 0 then Some (Inr r)
           else (case settledCounters baseline (rpRequests r) (lcPersistence c) (lwPolls w) of
                   None \<Rightarrow> None
                 | Some (Inl err) \<Rightarrow> Some (Inl err)
                 | Some (Inr (after, isSettled)) \<Rightarrow>
                     (case difference baseline after c (rpRequests r) isSettled of
                        Inl err \<Rightarrow> Some (Inl err)
                      | Inr observed \<Rightarrow> Some (Inr (r\<lparr>rpObservations := Some observed\<rparr>))))))"

text \<open>The warm-up, from the primed cache on.\<close>

definition warmed_run :: "LoadConfig \<Rightarrow> int \<Rightarrow> counters \<Rightarrow> load_world \<Rightarrow> (string + Report) option" where
  "warmed_run c metricsPort baseline0 w =
     (let warmCount = (if lcCacheMode c = ''warm_hit'' then lcWarmup c + 1 else lcWarmup c) in
      if int (length (lwWarm w)) \<noteq> lcWarmup c then Some (Inl ''warm-up did not complete'')
      else if list_ex (\<lambda>ob. obFailure ob \<noteq> []) (lwWarm w) then Some (Inl ''warm-up request failed'')
      else if metricsPort = 0 then measured_run c metricsPort warmCount baseline0 w
      else (case settledCounters baseline0 warmCount (lcPersistence c) (lwWarmPolls w) of
              None \<Rightarrow> None
            | Some (Inl err) \<Rightarrow> Some (Inl err)
            | Some (Inr (baseline, isSettled)) \<Rightarrow>
                if \<not> isSettled then Some (Inl ''warm-up counters did not settle'')
                else measured_run c metricsPort warmCount baseline w))"

definition load_Run :: "LoadConfig \<Rightarrow> int \<Rightarrow> load_world \<Rightarrow> (string + Report) option" where
  "load_Run c metricsPort w =
     (case LoadConfig_Validate c of
        Some err \<Rightarrow> Some (Inl err)
      | None \<Rightarrow>
          if metricsPort < 0 \<or> metricsPort > 65535 then Some (Inl ''invalid metrics port'')
          else if lcSamplePersistence c \<and> metricsPort = 0
          then Some (Inl ''persistence sampling requires a metrics port'')
          else
            (case (if metricsPort = 0 then Inr zero_counters else lwBaseline w) of
               Inl err \<Rightarrow> Some (Inl err)
             | Inr baseline \<Rightarrow>
                 if lcCacheMode c = ''warm_hit'' \<and> obFailure (lwPrime w) \<noteq> []
                 then Some (Inl ''cache priming request failed'')
                 else warmed_run c metricsPort baseline w))"

section \<open>Workers take each request once\<close>

fun busy_index :: "load_worker \<Rightarrow> nat list" where
  "busy_index (Busy k) = [k]"
| "busy_index _ = []"

text \<open>The requests that are out or answered.\<close>

definition started :: "phase_state \<Rightarrow> nat multiset" where
  "started s = mset (concat (map busy_index (phWorkers s))) + mset (map fst (phResults s))"

definition phase_inv :: "nat \<Rightarrow> nat \<Rightarrow> phase_state \<Rightarrow> bool" where
  "phase_inv limit n s \<longleftrightarrow> length (phWorkers s) = n \<and> started s = mset [0..<min (phNext s) limit] \<and>
     (\<not> phExpired s \<longrightarrow> Gone \<in> set (phWorkers s) \<longrightarrow> limit \<le> phNext s)"

lemma started_update:
  assumes "i < length ws"
  shows "mset (concat (map f (ws[i := w]))) + mset (f (ws ! i)) = mset (concat (map f ws)) + mset (f w)"
proof -
  have "concat (map f ws) = concat (map f (take i ws)) @ f (ws ! i) @ concat (map f (drop (Suc i) ws))"
    by (subst id_take_nth_drop [OF assms]) simp
  moreover have "concat (map f (ws[i := w])) = concat (map f (take i ws)) @ f w @ concat (map f (drop (Suc i) ws))"
    by (simp add: upd_conv_take_nth_drop [OF assms])
  ultimately show ?thesis by simp
qed

lemma started_step:
  assumes "i < length (phWorkers s)"
  shows "started (s\<lparr>phWorkers := (phWorkers s)[i := w]\<rparr>) + mset (busy_index (phWorkers s ! i)) = started s + mset (busy_index w)"
  using started_update [OF assms, of busy_index w] by (simp add: started_def algebra_simps)

lemma phase_inv_start: "phase_inv limit n (phase_start n)"
  by (auto simp: phase_inv_def phase_start_def started_def)

lemma Gone_update: "Gone \<in> set (ws[i := w]) \<Longrightarrow> Gone \<in> set ws \<or> w = Gone"
  using set_update_subset_insert [of ws i w] by auto

lemma mset_upto_Suc: "mset_set {0..<Suc k} = add_mset k (mset_set {0..<k})"
  by (simp add: atLeast0_lessThan_Suc)

lemma phase_inv_step:
  assumes "phase_step limit s s'" "phase_inv limit n s"
  shows "phase_inv limit n s'"
  using assms(1)
proof cases
  case expire
  with assms(2) show ?thesis by (simp add: phase_inv_def started_def)
next
  case (check i)
  with assms(2) started_step [OF check(2), of "if phExpired s then Gone else Checked"] show ?thesis
    by (auto simp: phase_inv_def dest: Gone_update split: if_splits)
next
  case (fetch i)
  let ?w = "if phNext s \<ge> limit then Gone else Busy (phNext s)"
  have "started s' = started s + mset (busy_index ?w)"
    using started_step [OF fetch(2), of ?w] fetch(1,3) by (simp add: started_def)
  moreover have "min (Suc (phNext s)) limit = (if phNext s \<ge> limit then limit else Suc (phNext s))" by simp
  ultimately show ?thesis
    using assms(2) fetch(1) by (auto simp: phase_inv_def min_def mset_upto_Suc dest: Gone_update)
next
  case (answer i k ob)
  have "started s' = started s"
    using started_step [OF answer(2), of AtLoop] answer(1,3) by (simp add: started_def)
  with assms(2) answer(1) show ?thesis by (auto simp: phase_inv_def dest: Gone_update)
qed

lemma distinct_submultiset:
  assumes "mset xs \<subseteq># mset ys" "distinct ys"
  shows "distinct xs" "set xs \<subseteq> set ys"
proof -
  obtain zs where "mset ys = mset (xs @ zs)"
    using assms(1) by (metis ex_mset mset_append mset_subset_eq_exists_conv)
  with assms(2) show "distinct xs" "set xs \<subseteq> set ys"
    by (metis distinct_append mset_eq_imp_distinct_iff) (metis \<open>mset ys = mset (xs @ zs)\<close> mset_eq_setD set_append sup_ge1)
qed

lemma phase_reachable:
  "(phase_step limit)\<^sup>*\<^sup>* (phase_start n) s \<Longrightarrow> phase_inv limit n s"
  by (induction rule: rtranclp_induct) (auto intro: phase_inv_start phase_inv_step)

text \<open>Every step brings the phase closer to its end.\<close>

fun worker_weight :: "load_worker \<Rightarrow> nat" where
  "worker_weight Gone = 0"
| "worker_weight Checked = 1"
| "worker_weight AtLoop = 2"
| "worker_weight (Busy _) = 3"

definition phase_weight :: "nat \<Rightarrow> phase_state \<Rightarrow> nat" where
  "phase_weight limit s = 4 * (limit - phNext s) + sum_list (map worker_weight (phWorkers s)) + (if phExpired s then 0 else 1)"

lemma weight_update:
  fixes f :: "'a \<Rightarrow> nat"
  assumes "i < length ws"
  shows "sum_list (map f (ws[i := w])) + f (ws ! i) = sum_list (map f ws) + f w"
proof -
  have "sum_list (map f ws) = sum_list (map f (take i ws)) + f (ws ! i) + sum_list (map f (drop (Suc i) ws))"
    by (subst id_take_nth_drop [OF assms]) simp
  moreover have "sum_list (map f (ws[i := w])) = sum_list (map f (take i ws)) + f w + sum_list (map f (drop (Suc i) ws))"
    by (simp add: upd_conv_take_nth_drop [OF assms])
  ultimately show ?thesis by simp
qed

lemma phase_weight_step: "phase_step limit s s' \<Longrightarrow> phase_weight limit s' < phase_weight limit s"
proof (induction rule: phase_step.induct)
  case (expire s)
  then show ?case by (simp add: phase_weight_def)
next
  case (check i s)
  with weight_update [OF check(1), of worker_weight "if phExpired s then Gone else Checked"] show ?case
    by (auto simp: phase_weight_def split: if_splits)
next
  case (fetch i s)
  with weight_update [OF fetch(1), of worker_weight "if phNext s \<ge> limit then Gone else Busy (phNext s)"] show ?case
    by (auto simp: phase_weight_def split: if_splits)
next
  case (answer i s k ob)
  with weight_update [OF answer(1), of worker_weight AtLoop] show ?case
    by (auto simp: phase_weight_def)
qed

lemma phase_run_length: "(phase_step limit ^^ m) s s' \<Longrightarrow> m + phase_weight limit s' \<le> phase_weight limit s"
proof (induction m arbitrary: s')
  case (Suc m)
  then obtain s1 where "(phase_step limit ^^ m) s s1" "phase_step limit s1 s'" by auto
  with Suc.IH [of s1] phase_weight_step [of limit s1 s'] show ?case by simp
qed simp

lemma phase_enabled:
  assumes "\<not> phase_over s"
  shows "\<exists>s'. phase_step limit s s'"
proof -
  obtain i where i: "i < length (phWorkers s)" "phWorkers s ! i \<noteq> Gone"
    using assms by (auto simp: phase_over_def list_all_length)
  show ?thesis
    using i by (cases "phWorkers s ! i") (blast intro: phase_step.intros)+
qed

section \<open>Reports\<close>

lemma count_error_sum: "sum_list (map snd (count_error k es)) = sum_list (map snd es) + (1 :: int)"
  by (induction k es rule: count_error.induct) auto

lemma count_error_keys: "fst ` set (count_error k es) = insert k (fst ` set es)"
  by (induction k es rule: count_error.induct) auto

lemma tally_samples:
  "rpSuccesses (foldl tally_sample r obs) = rpSuccesses r + int (length (filter (\<lambda>ob. obFailure ob = []) obs))"
  "rpFailures (foldl tally_sample r obs) = rpFailures r + int (length (filter (\<lambda>ob. obFailure ob \<noteq> []) obs))"
  "sum_list (map snd (rpErrors (foldl tally_sample r obs))) =
     sum_list (map snd (rpErrors r)) + int (length (filter (\<lambda>ob. obFailure ob \<noteq> []) obs))"
  "fst ` set (rpErrors (foldl tally_sample r obs)) = fst ` set (rpErrors r) \<union> (obFailure ` set obs - {[]})"
  by (induction obs arbitrary: r) (auto simp: tally_sample_def count_error_sum count_error_keys)

lemma tally_frame:
  "rpRequests (foldl tally_sample r obs) = rpRequests r" "rpNotStarted (foldl tally_sample r obs) = rpNotStarted r"
  "rpRequested (foldl tally_sample r obs) = rpRequested r" "rpObservations (foldl tally_sample r obs) = rpObservations r"
  "rpTTFC (foldl tally_sample r obs) = rpTTFC r" "rpClientLatency (foldl tally_sample r obs) = rpClientLatency r"
  by (induction obs arbitrary: r) (auto simp: tally_sample_def)

lemma summarize_report_eq:
  fixes c w r0
  defines "r \<equiv> summarize_report c w r0" and "obs \<equiv> lwSamples w"
  shows "rpSuccesses r = rpSuccesses (foldl tally_sample r0 obs)" "rpFailures r = rpFailures (foldl tally_sample r0 obs)"
    "rpErrors r = rpErrors (foldl tally_sample r0 obs)" "rpRequests r = rpRequests r0" "rpNotStarted r = rpNotStarted r0"
    "rpRequested r = rpRequested r0" "rpClientLatency r = Summarize (map obDuration obs)"
    "rpTTFC r = (if lcStreaming c then Summarize (List.map_filter obTTFC obs) else rpTTFC r0)" "rpObservations r = rpObservations r0"
  unfolding r_def obs_def by (simp_all add: summarize_report_def Let_def tally_frame)

lemma i64_wrap_add_zero:
  assumes "i64_wrap (a + b) = 0" "0 \<le> a" "0 \<le> b" "in_i64 a" "in_i64 b"
  shows "a = 0"
proof (cases "a + b < 2 ^ 63")
  case True
  with assms show ?thesis by (simp add: i64_wrap_def)
next
  case False
  have "a + b < 2 ^ 64" using assms(4,5) by (simp add: in_i64_def MaxInt64_def)
  then have "(a + b + 2 ^ 63 - 2 ^ 64) mod 2 ^ 64 = a + b + 2 ^ 63 - 2 ^ 64" using False by (intro mod_pos_pos_trivial) simp_all
  moreover have "(a + b + 2 ^ 63) mod 2 ^ 64 = (a + b + 2 ^ 63 - 2 ^ 64) mod 2 ^ 64" by (rule minus_mod_self2 [symmetric])
  ultimately have "a + b = 2 ^ 64" using assms(1) unfolding i64_wrap_def by linarith
  with \<open>a + b < 2 ^ 64\<close> show ?thesis by simp
qed

lemma cache_mode_verified_update [simp]:
  "cache_mode_verified mode n (ob\<lparr>osCacheModeVerified := b\<rparr>) = cache_mode_verified mode n ob"
  by (simp add: cache_mode_verified_def)

lemma observed_values_update [simp]:
  "observed_values (ob\<lparr>osCacheModeVerified := b\<rparr>) = observed_values ob"
  by (simp add: observed_values_def)

lemma difference_sound:
  assumes "difference before after c n st = Inr ob"
  shows "list_all (\<lambda>v. 0 \<le> v) (observed_values ob)"
    "osCacheModeVerified ob \<Longrightarrow> osRequests ob = n \<and> osLookupErrors ob = 0 \<and> osWriteErrors ob = 0 \<and>
      (if lcCacheMode c = ''warm_hit'' then osHits ob = n \<and> osAttempts ob = 0 else osHits ob = 0 \<and> osAttempts ob = n)"
proof -
  let ?d = "counter_deltas before after st"
  have d: "\<not> osCacheModeVerified ?d" "in_i64 (osHits ?d)" "in_i64 (osMisses ?d)"
    by (simp_all add: counter_deltas_def delta_def i64_wrap_range)
  have ob: "ob = ?d \<or> ob = ?d\<lparr>osCacheModeVerified := cache_mode_verified (lcCacheMode c) n ?d\<rparr> \<and>
      osRequests ?d = n \<and> osLookupErrors ?d = 0 \<and> osWriteErrors ?d = 0"
    and nonneg: "list_all (\<lambda>v. 0 \<le> v) (observed_values ?d)"
    using assms by (auto simp: difference_def Let_def list_all_iff list_ex_iff not_less split: if_splits)
  show "list_all (\<lambda>v. 0 \<le> v) (observed_values ob)" using ob nonneg by auto
  assume v: "osCacheModeVerified ob"
  with ob d(1) have e: "osRequests ob = n" "osLookupErrors ob = 0" "osWriteErrors ob = 0" "osHits ob = osHits ?d"
    "osAttempts ob = osAttempts ?d" "cache_mode_verified (lcCacheMode c) n ?d" by auto
  have "i64_wrap (osHits ?d + osMisses ?d) = 0 \<Longrightarrow> osHits ?d = 0"
    using nonneg d by (intro i64_wrap_add_zero [of "osHits ?d" "osMisses ?d"]) (simp_all add: observed_values_def)
  then have "if lcCacheMode c = ''warm_hit'' then osHits ob = n \<and> osAttempts ob = 0 else osHits ob = 0 \<and> osAttempts ob = n"
    using e(6) unfolding cache_mode_verified_def e(4,5) by (simp split: if_splits)
  with e show "osRequests ob = n \<and> osLookupErrors ob = 0 \<and> osWriteErrors ob = 0 \<and>
      (if lcCacheMode c = ''warm_hit'' then osHits ob = n \<and> osAttempts ob = 0 else osHits ob = 0 \<and> osAttempts ob = n)"
    by blast
qed

lemma measured_run_report:
  assumes "measured_run c port warmCount baseline w = Some (Inr r)"
  obtains ss where "(port = 0 \<and> r = summarize_report c w ((base_report c warmCount w)\<lparr>rpSamples := ss\<rparr>)) \<or>
    (\<exists>after st ob. difference baseline after c (int (length (lwSamples w))) st = Inr ob \<and>
       r = (summarize_report c w ((base_report c warmCount w)\<lparr>rpSamples := ss\<rparr>))\<lparr>rpObservations := Some ob\<rparr>)"
proof -
  obtain err ss where s: "(if lcSamplePersistence c then samplePersistence baseline (lwTicks w) else (None, [])) = (err, ss)" by fastforce
  let ?r = "summarize_report c w ((base_report c warmCount w)\<lparr>rpSamples := ss\<rparr>)"
  have n: "rpRequests ?r = int (length (lwSamples w))"
    by (simp add: summarize_report_eq base_report_def)
  have "err = None" using assms s by (auto simp: measured_run_def split: option.splits)
  then have "(port = 0 \<and> r = ?r) \<or> (\<exists>after st ob. difference baseline after c (int (length (lwSamples w))) st = Inr ob \<and>
      r = ?r\<lparr>rpObservations := Some ob\<rparr>)"
    using assms s n by (cases "port = 0") (auto simp: measured_run_def Let_def split: option.splits sum.splits, blast)
  then show thesis by (rule that)
qed

lemma load_Run_measured:
  assumes "load_Run c port w = Some (Inr r)"
  shows "LoadConfig_Validate c = None" "\<exists>warmCount baseline. measured_run c port warmCount baseline w = Some (Inr r)"
  using assms by (auto simp: load_Run_def warmed_run_def Let_def split: option.splits if_splits sum.splits) blast+

text \<open>What the summary says of the samples.\<close>

lemma summarized:
  fixes c warmCount w ss
  defines "r \<equiv> summarize_report c w ((base_report c warmCount w)\<lparr>rpSamples := ss\<rparr>)"
  shows "rpRequests r = int (length (lwSamples w))" "rpSuccesses r + rpFailures r = int (length (lwSamples w))"
    "int (length (lwSamples w)) + rpNotStarted r = rpRequested r" "sum_list (map snd (rpErrors r)) = rpFailures r"
    "fst ` set (rpErrors r) = obFailure ` set (lwSamples w) - {[]}"
    "rpClientLatency r = Summarize (map obDuration (lwSamples w))"
    "rpTTFC r = (if lcStreaming c then Summarize (List.map_filter obTTFC (lwSamples w)) else None)"
    "rpObservations r = None"
  using length_filter_complement [of "\<lambda>ob. obFailure ob = []" "lwSamples w"]
  by (simp_all add: r_def summarize_report_eq tally_samples base_report_def flip: of_nat_add)

section \<open>Properties\<close>

text \<open>C28: A phase sends each of its requests once. Whatever the interleaving of the workers on the shared
  counter and whenever the deadline falls, no request is answered twice and none outside the phase; a
  phase that ends before its deadline has answered every request exactly once; some worker can always
  go on until all are gone, and every run ends within a bound on its steps.\<close>

theorem load_phase_exact:
  assumes "0 < n" "(phase_step limit ^^ m) (phase_start n) s"
  shows "distinct (map fst (phResults s)) \<and> set (map fst (phResults s)) \<subseteq> {0..<limit} \<and>
    (phase_over s \<and> \<not> phExpired s \<longrightarrow> mset (map fst (phResults s)) = mset [0..<limit]) \<and>
    (phase_over s \<or> (\<exists>s'. phase_step limit s s')) \<and> m \<le> 4 * limit + 2 * n + 1"
proof -
  have inv: "phase_inv limit n s"
    using assms(2) by (intro phase_reachable) (rule relpowp_imp_rtranclp)
  let ?k = "min (phNext s) limit" and ?R = "map fst (phResults s)"
  have "mset ?R \<subseteq># mset [0..<?k]" using inv unfolding phase_inv_def started_def by (metis mset_subset_eq_add_right)
  from distinct_submultiset [OF this] have "distinct ?R" "set ?R \<subseteq> {0..<?k}" by simp_all
  moreover have "mset ?R = mset [0..<limit]" if o: "phase_over s" and e: "\<not> phExpired s"
  proof -
    have busy: "mset (concat (map busy_index (phWorkers s))) = {#}" using o by (auto simp: phase_over_def list_all_iff)
    have "phWorkers s \<noteq> []" using inv assms(1) by (auto simp: phase_inv_def)
    then have "Gone \<in> set (phWorkers s)" using o by (cases "phWorkers s") (auto simp: phase_over_def)
    then show ?thesis using inv e unfolding phase_inv_def started_def busy by (simp add: min_absorb2)
  qed
  moreover have "phase_weight limit (phase_start n) = 4 * limit + 2 * n + 1"
    by (simp add: phase_weight_def phase_start_def sum_list_replicate)
  ultimately show ?thesis using phase_enabled [of s limit] phase_run_length [OF assms(2)] by auto
qed

text \<open>One worker, one request.\<close>

definition demo_observation :: "string \<Rightarrow> observation" where
  "demo_observation failure = \<lparr>obDuration = 1000000, obTTFC = None, obFailure = failure\<rparr>"

definition demo_phase :: "nat \<Rightarrow> load_worker \<Rightarrow> (nat \<times> observation) list \<Rightarrow> phase_state" where
  "demo_phase k w rs = \<lparr>phNext = k, phWorkers = [w], phExpired = False, phResults = rs\<rparr>"

lemma demo_phase_run:
  "(phase_step 1 ^^ 5) (phase_start 1) (demo_phase 2 Gone [(0, demo_observation [])])"
proof -
  let ?r = "[(0, demo_observation [])]"
  have s: "phase_start 1 = demo_phase 0 AtLoop []" by (simp add: phase_start_def demo_phase_def)
  have "phase_step 1 (demo_phase 0 AtLoop []) (demo_phase 0 Checked [])"
    using phase_step.check [of 0 "demo_phase 0 AtLoop []" 1] by (simp add: demo_phase_def)
  moreover have "phase_step 1 (demo_phase 0 Checked []) (demo_phase 1 (Busy 0) [])"
    using phase_step.fetch [of 0 "demo_phase 0 Checked []" 1] by (simp add: demo_phase_def)
  moreover have "phase_step 1 (demo_phase 1 (Busy 0) []) (demo_phase 1 AtLoop ?r)"
    using phase_step.answer [of 0 "demo_phase 1 (Busy 0) []" 0 1 "demo_observation []"] by (simp add: demo_phase_def)
  moreover have "phase_step 1 (demo_phase 1 AtLoop ?r) (demo_phase 1 Checked ?r)"
    using phase_step.check [of 0 "demo_phase 1 AtLoop ?r" 1] by (simp add: demo_phase_def)
  moreover have "phase_step 1 (demo_phase 1 Checked ?r) (demo_phase 2 Gone ?r)"
    using phase_step.fetch [of 0 "demo_phase 1 Checked ?r" 1] by (simp add: demo_phase_def numeral_2_eq_2)
  ultimately show ?thesis unfolding s by (auto simp: numeral_eq_Suc intro!: relcomppI)
qed

theorem load_phase_exact_witness:
  "mset (map fst (phResults (demo_phase 2 Gone [(0, demo_observation [])]))) = mset [0..<1]"
  using load_phase_exact [OF _ demo_phase_run] by (simp add: demo_phase_def phase_over_def)


definition demo_load :: LoadConfig where
  "demo_load = \<lparr>lcPort = 8080, lcConcurrency = 1, lcRequests = 3, lcWarmup = 1, lcMaxDuration = 1000000000,
     lcRequestTimeout = 1000000000, lcStreaming = False, lcCacheMode = ''disabled'', lcPersistence = False,
     lcSamplePersistence = False\<rparr>"

definition demo_load_world :: load_world where
  "demo_load_world = \<lparr>lwEnvironment = \<lparr>evGoVersion = ''go1.25'', evOS = ''linux'', evArchitecture = ''amd64'', evLogicalCPUs = 8\<rparr>,
     lwBaseline = Inl [], lwPrime = demo_observation [], lwWarm = [demo_observation []], lwWarmPolls = [],
     lwSamples = [demo_observation [], demo_observation ''transport''], lwElapsed = 2000000, lwTicks = [], lwPolls = []\<rparr>"


end
