(* ===== verification/Commands.thy ===== *)
theory Commands
  imports Bench_Report Load_Run
begin

text \<open>
  The offline commands \<open>cmd/routeforge-bench/main.go\<close> and \<open>cmd/routeforge-load/main.go\<close>: their flags,
  over a model of package flag and of \<open>strconv.ParseInt\<close> with base prefixes, and what they run. The
  files, the clocks and the load test's outside are arguments.
\<close>

section \<open>Integers with a base prefix\<close>

text \<open>\<open>strconv.ParseInt(s, 0, 64)\<close>. The value of a digit in any base; \<open>c|0x20\<close> lowers letters.\<close>

definition base_digit :: "char \<Rightarrow> nat option" where
  "base_digit c =
     (let n = of_char c :: nat in
      if 48 \<le> n \<and> n \<le> 57 then Some (n - 48)
      else if 97 \<le> n \<and> n \<le> 122 then Some (n - 87)
      else if 65 \<le> n \<and> n \<le> 90 then Some (n - 55)
      else None)"

text \<open>The digits after the prefix, underscores skipped.\<close>

fun base_value :: "nat \<Rightarrow> string \<Rightarrow> nat \<Rightarrow> nat option" where
  "base_value base [] n = Some n"
| "base_value base (c # cs) n =
     (if c = CHR ''_'' then base_value base cs n
      else (case base_digit c of
              None \<Rightarrow> None
            | Some d \<Rightarrow> if base \<le> d then None else base_value base cs (base * n + d)))"

definition base_prefix :: "string \<Rightarrow> (nat \<times> string) option" where
  "base_prefix s =
     (if length s \<ge> 2 \<and> hd s = CHR ''0'' then
        if s ! 1 \<in> {CHR ''b'', CHR ''B''} then Some (2, drop 2 s)
        else if s ! 1 \<in> {CHR ''o'', CHR ''O''} then Some (8, drop 2 s)
        else if s ! 1 \<in> {CHR ''x'', CHR ''X''} then Some (16, drop 2 s)
        else None
      else None)"

text \<open>\<open>underscoreOK\<close>: an underscore separates digits; the argument says whether the last character
  was a digit (\<open>Some True\<close>), an underscore (\<open>Some False\<close>), or neither.\<close>

fun underscores_ok :: "bool \<Rightarrow> bool option \<Rightarrow> string \<Rightarrow> bool" where
  "underscores_ok hex seen [] \<longleftrightarrow> seen \<noteq> Some False"
| "underscores_ok hex seen (c # cs) \<longleftrightarrow>
     (if (case base_digit c of None \<Rightarrow> False | Some d \<Rightarrow> d < 10 \<or> hex \<and> d < 16) then underscores_ok hex (Some True) cs
      else if c = CHR ''_'' then seen = Some True \<and> underscores_ok hex (Some False) cs
      else seen \<noteq> Some False \<and> underscores_ok hex None cs)"

definition ParseInt0 :: "string \<Rightarrow> int option" where
  "ParseInt0 s =
     (let negative = HasPrefix s ''-'';
          body = (if negative \<or> HasPrefix s ''+'' then tl s else s);
          prefixed = base_prefix body;
          (base, digits) = (case prefixed of
             Some (base, rest) \<Rightarrow> if length body \<ge> 3 then (base, rest) else (8, tl body)
           | None \<Rightarrow> if HasPrefix body ''0'' then (8, tl body) else (10, body))
      in if body = [] then None
         else (case base_value base digits 0 of
                 None \<Rightarrow> None
               | Some n \<Rightarrow>
                   (let i = (if negative then - int n else int n);
                        ok = (case prefixed of
                                Some (base, rest) \<Rightarrow> underscores_ok (base = 16) (Some True) rest
                              | None \<Rightarrow> underscores_ok False None body)
                    in if in_i64 i \<and> (CHR ''_'' \<notin> set digits \<or> ok) then Some i else None)))"

section \<open>Flags\<close>

text \<open>A defined flag: whether it is a boolean one, and \<open>Set\<close> on the variables \<open>'c\<close>.\<close>

record 'c flag_var =
  flBool :: bool
  flSet :: "string \<Rightarrow> 'c \<Rightarrow> 'c option"

datatype flag_error =
    BadFlagSyntax string
  | FlagNotDefined string
  | FlagHelp
  | InvalidFlagValue string string
  | FlagNeedsArgument string

text \<open>The part of a name before the first equals sign, and the value after it.\<close>

fun cut_value :: "string \<Rightarrow> string \<times> string option" where
  "cut_value [] = ([], None)"
| "cut_value (c # cs) = (if c = CHR ''='' then ([], Some cs) else apfst (Cons c) (cut_value cs))"

definition set_flag :: "string \<Rightarrow> 'c flag_var \<Rightarrow> string \<Rightarrow> 'c \<Rightarrow> flag_error + 'c" where
  "set_flag name f v c = (case flSet f v c of None \<Rightarrow> Inl (InvalidFlagValue name v) | Some c' \<Rightarrow> Inr c')"

text \<open>The argument behind its one or two dashes, and that split at the equals sign, which cannot come first.\<close>

definition flag_name :: "string \<Rightarrow> string" where
  "flag_name s = (if s ! 1 = CHR ''-'' then drop 2 s else drop 1 s)"

definition split_name :: "string \<Rightarrow> string \<times> string option" where
  "split_name name = apfst (Cons (hd name)) (cut_value (tl name))"

text \<open>\<open>FlagSet.Parse\<close>: the variables and the arguments that are left.\<close>

fun flag_Parse :: "(string \<Rightarrow> 'c flag_var option) \<Rightarrow> 'c \<Rightarrow> string list \<Rightarrow> flag_error + 'c \<times> string list" where
  "flag_Parse formal c [] = Inr (c, [])"
| "flag_Parse formal c (s # args) =
     (if length s < 2 \<or> hd s \<noteq> CHR ''-'' then Inr (c, s # args)
      else if s = ''--'' then Inr (c, args)
      else
        (let name = flag_name s in
         if name = [] \<or> hd name = CHR ''-'' \<or> hd name = CHR ''='' then Inl (BadFlagSyntax s)
         else
           (case split_name name of (key, given) \<Rightarrow>
            case formal key of
              None \<Rightarrow> Inl (if key = ''help'' \<or> key = ''h'' then FlagHelp else FlagNotDefined key)
            | Some f \<Rightarrow>
                if flBool f then
                  (case set_flag key f (case given of None \<Rightarrow> ''true'' | Some v \<Rightarrow> v) c of
                     Inl e \<Rightarrow> Inl e
                   | Inr c' \<Rightarrow> flag_Parse formal c' args)
                else
                  (case given of
                     Some v \<Rightarrow>
                       (case set_flag key f v c of Inl e \<Rightarrow> Inl e | Inr c' \<Rightarrow> flag_Parse formal c' args)
                   | None \<Rightarrow>
                       (case args of
                          [] \<Rightarrow> Inl (FlagNeedsArgument key)
                        | v # rest \<Rightarrow>
                            (case set_flag key f v c of Inl e \<Rightarrow> Inl e | Inr c' \<Rightarrow> flag_Parse formal c' rest))))))"

definition string_flag :: "(string \<Rightarrow> 'c \<Rightarrow> 'c) \<Rightarrow> 'c flag_var" where
  "string_flag upd = \<lparr>flBool = False, flSet = (\<lambda>v c. Some (upd v c))\<rparr>"

definition bool_flag :: "(bool \<Rightarrow> 'c \<Rightarrow> 'c) \<Rightarrow> 'c flag_var" where
  "bool_flag upd = \<lparr>flBool = True, flSet = (\<lambda>v c. map_option (\<lambda>b. upd b c) (ParseBool v))\<rparr>"

definition int_flag :: "(int \<Rightarrow> 'c \<Rightarrow> 'c) \<Rightarrow> 'c flag_var" where
  "int_flag upd = \<lparr>flBool = False, flSet = (\<lambda>v c. map_option (\<lambda>i. upd i c) (ParseInt0 v))\<rparr>"

definition duration_flag :: "(string \<Rightarrow> duration option) \<Rightarrow> (duration \<Rightarrow> 'c \<Rightarrow> 'c) \<Rightarrow> 'c flag_var" where
  "duration_flag parse_duration upd =
     \<lparr>flBool = False, flSet = (\<lambda>v c. map_option (\<lambda>d. upd d c) (parse_duration v))\<rparr>"

section \<open>The benchmark command\<close>

definition splitPolicies :: "string \<Rightarrow> string list" where
  "splitPolicies v = filter (\<lambda>policy. policy \<noteq> []) (map TrimSpace (split_char CHR '','' v))"

datatype bench_error =
    PolicyConflict
  | ScenarioConflict
  | FixtureFailed fixture_error
  | ComparisonFailed run_error

definition selectPolicies :: "string \<Rightarrow> string \<Rightarrow> bench_error + string list" where
  "selectPolicies single multiple =
     (if TrimSpace single \<noteq> [] \<and> TrimSpace multiple \<noteq> [] then Inl PolicyConflict
      else if TrimSpace single \<noteq> [] then Inr [TrimSpace single]
      else Inr (splitPolicies multiple))"

record bench_outside =
  boParsers :: parsers
  boEmbedded :: "string \<Rightarrow> reader option"
  boOpen :: "string \<Rightarrow> bool + reader"
  boClocks :: "string \<Rightarrow> string \<Rightarrow> nat \<Rightarrow> nat \<Rightarrow> instant"

text \<open>One scenario under the policies.\<close>

definition compare_scenario :: "bench_outside \<Rightarrow> string \<Rightarrow> string list \<Rightarrow> fixture_error + Scenario \<Rightarrow> bench_error + Comparison" where
  "compare_scenario out state policies loaded =
     (case loaded of
        Inl e \<Rightarrow> Inl (FixtureFailed e)
      | Inr scenario \<Rightarrow> map_sum ComparisonFailed id (RunComparison (boClocks out (scName scenario)) scenario state policies))"

fun compare_names :: "bench_outside \<Rightarrow> string \<Rightarrow> string list \<Rightarrow> string list \<Rightarrow> bench_error + Comparison list" where
  "compare_names out state policies [] = Inr []"
| "compare_names out state policies (name # names) =
     (case compare_scenario out state policies (BuiltInScenario (boParsers out) (boEmbedded out) name) of
        Inl e \<Rightarrow> Inl e
      | Inr comparison \<Rightarrow> map_sum id (Cons comparison) (compare_names out state policies names))"

definition selected_names :: "string \<Rightarrow> string list" where
  "selected_names scenarioName =
     (let name = (if scenarioName = [] then ''stable'' else scenarioName)
      in if name = ''all'' then BuiltInScenarioNames else [name])"

definition bench_run :: "bench_outside \<Rightarrow> string \<Rightarrow> string \<Rightarrow> string \<Rightarrow> string list \<Rightarrow> bench_error + Comparison list" where
  "bench_run out scenarioName scenarioFile state policies =
     (if scenarioName \<noteq> [] \<and> scenarioFile \<noteq> [] then Inl ScenarioConflict
      else if scenarioFile \<noteq> [] then
        map_sum id (\<lambda>comparison. [comparison])
          (compare_scenario out state policies (LoadScenarioFile (boParsers out) (boOpen out scenarioFile)))
      else compare_names out state policies (selected_names scenarioName))"

record bench_flags =
  bfScenario :: string
  bfScenarioFile :: string
  bfState :: string
  bfPolicy :: string
  bfPolicies :: string
  bfPretty :: bool

definition default_bench_flags :: bench_flags where
  "default_bench_flags = \<lparr>bfScenario = [], bfScenarioFile = [], bfState = StateWarm, bfPolicy = [], bfPolicies = [],
     bfPretty = True\<rparr>"

definition bench_formal :: "string \<Rightarrow> bench_flags flag_var option" where
  "bench_formal = map_of
     [(''scenario'', string_flag (\<lambda>v c. c\<lparr>bfScenario := v\<rparr>)),
      (''scenario-file'', string_flag (\<lambda>v c. c\<lparr>bfScenarioFile := v\<rparr>)),
      (''state'', string_flag (\<lambda>v c. c\<lparr>bfState := v\<rparr>)),
      (''policy'', string_flag (\<lambda>v c. c\<lparr>bfPolicy := v\<rparr>)),
      (''policies'', string_flag (\<lambda>v c. c\<lparr>bfPolicies := v\<rparr>)),
      (''pretty'', bool_flag (\<lambda>v c. c\<lparr>bfPretty := v\<rparr>))]"

text \<open>How the process ends: the exit code, and the report printed with its indentation, if any. The
  flags of the command line end the process themselves, with 2, or with 0 when help was asked for.\<close>

definition bench_main :: "bench_outside \<Rightarrow> bool \<Rightarrow> string list \<Rightarrow> nat \<times> (bool \<times> Comparison list) option" where
  "bench_main out encodes args =
     (case flag_Parse bench_formal default_bench_flags args of
        Inl e \<Rightarrow> (if e = FlagHelp then 0 else 2, None)
      | Inr (c, _) \<Rightarrow>
          (case selectPolicies (bfPolicy c) (bfPolicies c) of
             Inl _ \<Rightarrow> (1, None)
           | Inr policies \<Rightarrow>
               (case bench_run out (bfScenario c) (bfScenarioFile c) (bfState c) policies of
                  Inl _ \<Rightarrow> (1, None)
                | Inr result \<Rightarrow> if encodes then (0, Some (bfPretty c, result)) else (1, None))))"

section \<open>The load command\<close>

record load_flags =
  lfConfig :: LoadConfig
  lfMetricsPort :: int
  lfConfirmed :: bool

definition default_load_flags :: load_flags where
  "default_load_flags = \<lparr>lfConfig = \<lparr>lcPort = 18080, lcConcurrency = 1, lcRequests = 1000, lcWarmup = 128,
     lcMaxDuration = 30 * 1000000000, lcRequestTimeout = 5 * 1000000000, lcStreaming = False, lcCacheMode = ''disabled'',
     lcPersistence = False, lcSamplePersistence = False\<rparr>, lfMetricsPort = 0, lfConfirmed = False\<rparr>"

definition in_config :: "('a \<Rightarrow> LoadConfig \<Rightarrow> LoadConfig) \<Rightarrow> 'a \<Rightarrow> load_flags \<Rightarrow> load_flags" where
  "in_config upd v c = c\<lparr>lfConfig := upd v (lfConfig c)\<rparr>"

definition load_formal :: "parsers \<Rightarrow> string \<Rightarrow> load_flags flag_var option" where
  "load_formal ps = map_of
     [(''port'', int_flag (in_config (\<lambda>v c. c\<lparr>lcPort := v\<rparr>))),
      (''concurrency'', int_flag (in_config (\<lambda>v c. c\<lparr>lcConcurrency := v\<rparr>))),
      (''requests'', int_flag (in_config (\<lambda>v c. c\<lparr>lcRequests := v\<rparr>))),
      (''warmup'', int_flag (in_config (\<lambda>v c. c\<lparr>lcWarmup := v\<rparr>))),
      (''duration'', duration_flag (psDuration ps) (in_config (\<lambda>v c. c\<lparr>lcMaxDuration := v\<rparr>))),
      (''timeout'', duration_flag (psDuration ps) (in_config (\<lambda>v c. c\<lparr>lcRequestTimeout := v\<rparr>))),
      (''stream'', bool_flag (in_config (\<lambda>v c. c\<lparr>lcStreaming := v\<rparr>))),
      (''cache-mode'', string_flag (in_config (\<lambda>v c. c\<lparr>lcCacheMode := v\<rparr>))),
      (''persistence'', bool_flag (in_config (\<lambda>v c. c\<lparr>lcPersistence := v\<rparr>))),
      (''sample-persistence'', bool_flag (in_config (\<lambda>v c. c\<lparr>lcSamplePersistence := v\<rparr>))),
      (''metrics-port'', int_flag (\<lambda>v c. c\<lparr>lfMetricsPort := v\<rparr>)),
      (''confirm-mock'', bool_flag (\<lambda>v c. c\<lparr>lfConfirmed := v\<rparr>))]"

datatype load_error = InvalidArguments | LoadFailed string | CannotWrite

fun load_result :: "bool \<Rightarrow> string + Report \<Rightarrow> load_error + Report" where
  "load_result encodes (Inl err) = Inl (LoadFailed err)"
| "load_result encodes (Inr report) = (if encodes then Inr report else Inl CannotWrite)"

text \<open>\<open>None\<close> while the run goes on; then an error, or the report that was written.\<close>

definition load_command :: "parsers \<Rightarrow> string list \<Rightarrow> load_world \<Rightarrow> bool \<Rightarrow> (load_error + Report) option" where
  "load_command ps args w encodes =
     (case flag_Parse (load_formal ps) default_load_flags args of
        Inl _ \<Rightarrow> Some (Inl InvalidArguments)
      | Inr (c, rest) \<Rightarrow>
          if rest \<noteq> [] \<or> \<not> lfConfirmed c then Some (Inl InvalidArguments)
          else map_option (load_result encodes) (load_Run (lfConfig c) (lfMetricsPort c) w))"

definition load_main :: "parsers \<Rightarrow> string list \<Rightarrow> load_world \<Rightarrow> bool \<Rightarrow> nat option" where
  "load_main ps args w encodes = map_option (\<lambda>result. if isl result then 1 else 0) (load_command ps args w encodes)"

section \<open>Integers are read back\<close>

text \<open>Decimal numbers have no prefix and no underscore.\<close>

definition int_text :: "int \<Rightarrow> string" where
  "int_text i = (if i < 0 then CHR ''-'' # decimal (nat (- i)) else decimal (nat i))"

lemma base_value_digits:
  assumes "digits_value s n = Some m"
  shows "base_value 10 s n = Some m" "CHR ''_'' \<notin> set s"
  using assms
  by (induction s arbitrary: n) (auto simp: base_digit_def digit_value_def Let_def split: option.splits if_splits)

lemma decimal_unprefixed:
  "decimal n \<noteq> []" "\<not> HasPrefix (decimal n) ''-''" "\<not> HasPrefix (decimal n) ''+''" "base_prefix (decimal n) = None"
  "HasPrefix (decimal n) ''0'' \<longleftrightarrow> n = 0"
proof -
  show ne: "decimal n \<noteq> []" using plain_decimal_decimal [of n] by (auto simp: plain_decimal_def)
  then obtain c cs where d: "decimal n = c # cs" by (cases "decimal n") auto
  have "digit_char c" using plain_decimal_decimal [of n] by (simp add: plain_decimal_def d)
  then show "\<not> HasPrefix (decimal n) ''-''" "\<not> HasPrefix (decimal n) ''+''"
    by (auto simp: d HasPrefix_def digit_char_def digit_value_def)
  have z: "c = CHR ''0'' \<longleftrightarrow> n = 0"
  proof (cases "n = 0")
    case True
    moreover have "decimal 0 = ''0''" by code_simp
    ultimately show ?thesis using d by simp
  next
    case False
    then obtain e :: nat and es where "decimal n = char_of (48 + e) # es" "0 < e" "e < 10" using decimal_hd [of n] by auto
    with d have "of_char c = 48 + e" by auto
    then have "c \<noteq> CHR ''0''" using \<open>0 < e\<close> by auto
    with False show ?thesis by simp
  qed
  then show "HasPrefix (decimal n) ''0'' \<longleftrightarrow> n = 0" by (simp add: d HasPrefix_def)
  have "cs = []" if "c = CHR ''0''" using plain_decimal_decimal [of n] that by (simp add: plain_decimal_def d)
  then show "base_prefix (decimal n) = None" by (auto simp: base_prefix_def d)
qed

lemma ParseInt0_text:
  assumes "in_i64 i"
  shows "ParseInt0 (int_text i) = Some i"
proof -
  let ?n = "nat \<bar>i\<bar>"
  have v: "base_value 10 (decimal ?n) 0 = Some ?n" "CHR ''_'' \<notin> set (decimal ?n)"
    using base_value_digits [OF digits_value_decimal] by blast+
  have zero: "decimal 0 = ''0''" by code_simp
  consider "i < 0" | "i = 0" | "0 < i" by linarith
  then show ?thesis
  proof cases
    case 1
    then show ?thesis using v assms decimal_unprefixed [of ?n]
      by (simp add: ParseInt0_def int_text_def HasPrefix_def)
  next
    case 2
    then show ?thesis using assms by (simp add: ParseInt0_def int_text_def zero HasPrefix_def base_prefix_def)
  next
    case 3
    then show ?thesis using v assms decimal_unprefixed [of ?n]
      by (simp add: ParseInt0_def int_text_def)
  qed
qed

section \<open>Flags set only what they name\<close>

lemma cut_value_parts:
  "cut_value s = (a, given) \<Longrightarrow> s = a @ (case given of None \<Rightarrow> [] | Some v \<Rightarrow> CHR ''='' # v)"
  by (induction s arbitrary: a given) (auto simp: apfst_def map_prod_def split: if_splits prod.splits)

lemma cut_value_assign: "CHR ''='' \<notin> set key \<Longrightarrow> cut_value (key @ CHR ''='' # v) = (key, Some v)"
  by (induction key) auto

text \<open>An argument that names a flag, with one dash or two, alone or with a value.\<close>

definition names_flag :: "string \<Rightarrow> string \<Rightarrow> bool" where
  "names_flag key s \<longleftrightarrow> s \<in> {''-'' @ key, ''--'' @ key} \<or> HasPrefix s (''-'' @ key @ ''='') \<or> HasPrefix s (''--'' @ key @ ''='')"

lemma named_flag:
  assumes "\<not> (length s < 2 \<or> hd s \<noteq> CHR ''-'')" "flag_name s \<noteq> []" "split_name (flag_name s) = (key, given)"
  shows "names_flag key s"
proof -
  let ?n = "flag_name s"
  obtain k where k: "cut_value (tl ?n) = (k, given)" "key = hd ?n # k"
    using assms(3) by (cases "cut_value (tl ?n)") (auto simp: split_name_def)
  have n: "?n = key @ (case given of None \<Rightarrow> [] | Some v \<Rightarrow> CHR ''='' # v)"
    using cut_value_parts [OF k(1)] k(2) assms(2) by (metis append_Cons list.collapse)
  have "s = ''-'' @ ?n \<or> s = ''--'' @ ?n"
    using assms(1) by (cases s; cases "tl s") (auto simp: numeral_2_eq_2 flag_name_def)
  then show ?thesis
    unfolding n names_flag_def by (cases given) (auto simp: HasPrefix_def)
qed

lemma flag_Parse_step:
  assumes "flag_Parse formal c (s # args) = Inr (c', rest)"
  shows "c' = c \<or> (\<exists>key f v c1 args'. names_flag key s \<and> formal key = Some f \<and> flSet f v c = Some c1 \<and>
    length args' \<le> length args \<and> set args' \<subseteq> set args \<and> flag_Parse formal c1 args' = Inr (c', rest))"
proof (cases "length s < 2 \<or> hd s \<noteq> CHR ''-'' \<or> s = ''--''")
  case True
  then show ?thesis using assms by (auto split: if_splits)
next
  case False
  obtain key given where k: "split_name (flag_name s) = (key, given)" by fastforce
  have ne: "flag_name s \<noteq> []" using assms False by (auto simp: Let_def)
  obtain f where f: "formal key = Some f" using assms False k by (auto simp: Let_def split: if_splits option.splits)
  have "\<exists>v c1 args'. set_flag key f v c = Inr c1 \<and> length args' \<le> length args \<and> set args' \<subseteq> set args \<and>
      flag_Parse formal c1 args' = Inr (c', rest)"
  proof (cases "flBool f \<or> given \<noteq> None")
    case True
    then show ?thesis using assms False k f
      by (intro exI [of _ "case given of None \<Rightarrow> ''true'' | Some v \<Rightarrow> v"])
        (auto simp: Let_def split: if_splits option.splits sum.splits)
  next
    case bare: False
    then obtain v args' where "args = v # args'" using assms False k f by (cases args) (auto simp: Let_def split: if_splits)
    then show ?thesis using assms False k f bare
      by (intro exI [of _ v]) (auto simp: Let_def split: if_splits sum.splits intro!: exI [of _ args'])
  qed
  then show ?thesis using named_flag [OF _ ne k] False f by (auto simp: set_flag_def split: option.splits)
qed

lemma flag_Parse_unnamed:
  assumes "flag_Parse formal c args = Inr (c', rest)" "list_all (\<lambda>s. \<not> names_flag key s) args" "P c"
    and keeps: "\<And>k f v c c'. formal k = Some f \<Longrightarrow> k \<noteq> key \<Longrightarrow> flSet f v c = Some c' \<Longrightarrow> P c \<Longrightarrow> P c'"
  shows "P c'"
  using assms(1-3)
proof (induction args arbitrary: c rule: length_induct)
  case (1 args)
  show ?case
  proof (cases args)
    case (Cons s rest_args)
    show ?thesis
      using flag_Parse_step [OF "1.prems"(1) [unfolded Cons]]
    proof (elim disjE exE conjE)
      fix k f v c1 args'
      assume a: "names_flag k s" "formal k = Some f" "flSet f v c = Some c1" "length args' \<le> length rest_args"
        "set args' \<subseteq> set rest_args" "flag_Parse formal c1 args' = Inr (c', rest)"
      have "k \<noteq> key" using a(1) "1.prems"(2) Cons by auto
      then have "P c1" by (rule keeps [OF a(2) _ a(3) "1.prems"(3)])
      moreover have "list_all (\<lambda>s. \<not> names_flag key s) args'" using "1.prems"(2) a(5) Cons by (auto simp: list_all_iff)
      ultimately show ?thesis using "1.IH" [rule_format, of args' c1] a(4,6) Cons by simp
    qed (use "1.prems"(3) in simp)
  qed (use "1.prems" in simp)
qed

text \<open>An integer flag is set to the number that was written.\<close>

lemma int_flag_given:
  assumes "formal key = Some (int_flag upd)" "key \<noteq> []" "CHR ''='' \<notin> set key" "hd key \<noteq> CHR ''-''" "in_i64 i"
  shows "flag_Parse formal c ((''-'' @ key @ ''='' @ int_text i) # args) = flag_Parse formal (upd i c) args"
proof -
  obtain k ks where k: "key = k # ks" using assms(2) by (cases key) auto
  have "flag_name (''-'' @ key @ ''='' @ int_text i) = key @ ''='' @ int_text i"
    using assms(4) by (simp add: flag_name_def k)
  moreover have "split_name (key @ ''='' @ int_text i) = (key, Some (int_text i))"
    using assms(3) cut_value_assign [of ks "int_text i"] by (simp add: split_name_def k)
  ultimately show ?thesis
    using assms ParseInt0_text [OF assms(5)] by (auto simp: Let_def k set_flag_def int_flag_def)
qed

section \<open>Properties\<close>

text \<open>The load command sends nothing without consent: unless an argument names \<open>confirm-mock\<close>, it
  stops with invalid arguments, whatever else is on the command line and whatever the outside would answer.\<close>

lemma load_command_guarded:
  assumes "list_all (\<lambda>s. \<not> names_flag ''confirm-mock'' s) args"
  shows "load_command ps args w encodes = Some (Inl InvalidArguments)"
proof -
  have "\<not> lfConfirmed c" if "flag_Parse (load_formal ps) default_load_flags args = Inr (c, rest)" for c rest
    using that assms
  proof (rule flag_Parse_unnamed [where P = "\<lambda>c. \<not> lfConfirmed c"])
    show "\<not> lfConfirmed default_load_flags" by (simp add: default_load_flags_def)
    show "\<not> lfConfirmed c'" if "load_formal ps k = Some f" "k \<noteq> ''confirm-mock''" "flSet f v c = Some c'" "\<not> lfConfirmed c"
      for k f v c c'
      using that by (auto simp: load_formal_def int_flag_def bool_flag_def string_flag_def duration_flag_def in_config_def
          split: if_splits)
  qed
  then show ?thesis by (auto simp: load_command_def split: sum.splits)
qed

text \<open>A report is written only for a run within bounds that was confirmed.\<close>

lemma load_command_reports:
  assumes "load_command ps args w encodes = Some (Inr r)"
  shows "\<exists>c port. LoadConfig_Validate c = None \<and> load_Run c port w = Some (Inr r) \<and>
    list_ex (names_flag ''confirm-mock'') args"
proof -
  have "list_ex (names_flag ''confirm-mock'') args"
    using load_command_guarded [of args ps w encodes] assms by (auto simp: list_all_iff list_ex_iff)
  moreover obtain c :: load_flags and result where "load_Run (lfConfig c) (lfMetricsPort c) w = Some result"
    "load_result encodes result = Inr r"
    using assms by (auto simp: load_command_def split: sum.splits if_splits)
  then have "load_Run (lfConfig c) (lfMetricsPort c) w = Some (Inr r)" by (cases result) (auto split: if_splits)
  ultimately show ?thesis using load_Run_measured(1) by blast
qed

lemma split_policy_words: "list_all (\<lambda>p. p \<noteq> [] \<and> TrimSpace p = p) (splitPolicies v)"
  by (auto simp: splitPolicies_def list_all_iff)

lemma selected_policy_words:
  "selectPolicies single multiple = Inr ps \<Longrightarrow> list_all (\<lambda>p. p \<noteq> [] \<and> TrimSpace p = p) ps"
  using split_policy_words [of multiple] by (auto simp: selectPolicies_def split: if_splits)

text \<open>The benchmark command covers its selection: when the built-in scenarios can be read, the state is one
  of the two and the policies are supported, it compares every selected scenario, in order, with one result
  for each policy.\<close>

lemma compare_names_total:
  assumes "list_all (\<lambda>name. \<exists>sc. BuiltInScenario (boParsers out) (boEmbedded out) name = Inr sc) names"
    "state = StateCold \<or> state = StateWarm" "list_all supportedPolicy policies"
  shows "\<exists>cs. compare_names out state policies names = Inr cs \<and> map cmScenario cs = names \<and>
    list_all (\<lambda>c. length (cmResults c) = length (if policies = [] then SupportedPolicies else policies)) cs"
  using assms(1)
proof (induction names)
  case (Cons name names)
  let ?n = "length (if policies = [] then SupportedPolicies else policies)"
  obtain cs where cs: "compare_names out state policies names = Inr cs" "map cmScenario cs = names"
    "list_all (\<lambda>c. length (cmResults c) = ?n) cs" using Cons by auto
  obtain sc where sc: "BuiltInScenario (boParsers out) (boEmbedded out) name = Inr sc" using Cons.prems by auto
  obtain rd where d: "DecodeScenario (boParsers out) rd = Inr sc" "scName sc = name"
    using sc by (auto simp: BuiltInScenario_def split: if_splits option.splits sum.splits)
  note runnable = DecodeScenario_runnable [OF d(1)]
  obtain c where c: "RunComparison (boClocks out (scName sc)) sc state policies = Inr c" "cmScenario c = scName sc"
    and r: "list_all2 (\<lambda>policy result. \<exists>run. runPolicy (boClocks out (scName sc) policy) sc state policy = Inr run \<and>
      result = prResult run) (if policies = [] then SupportedPolicies else policies) (cmResults c)"
    by (rule RunComparison_total [OF runnable assms(2,3), where clocks = "boClocks out (scName sc)"])
  have "length (cmResults c) = ?n" using list_all2_lengthD [OF r] by simp
  with c cs d(2) show ?case by (simp add: compare_scenario_def sc)
qed simp

lemma bench_covers_selection:
  assumes "list_all (\<lambda>name. \<exists>sc. BuiltInScenario (boParsers out) (boEmbedded out) name = Inr sc) BuiltInScenarioNames"
    "state = StateCold \<or> state = StateWarm" "list_all supportedPolicy policies"
    "scenarioName \<in> set ([[], ''all''] @ BuiltInScenarioNames)"
  shows "\<exists>cs. bench_run out scenarioName [] state policies = Inr cs \<and> map cmScenario cs = selected_names scenarioName \<and>
    list_all (\<lambda>c. length (cmResults c) = length (if policies = [] then SupportedPolicies else policies)) cs"
proof -
  have "set (selected_names scenarioName) \<subseteq> set BuiltInScenarioNames"
    using assms(4) by (auto simp: selected_names_def BuiltInScenarioNames_def)
  then have "list_all (\<lambda>name. \<exists>sc. BuiltInScenario (boParsers out) (boEmbedded out) name = Inr sc) (selected_names scenarioName)"
    using assms(1) by (auto simp: list_all_iff)
  from compare_names_total [OF this assms(2,3)] show ?thesis by (simp add: bench_run_def)
qed

end
