(* ===== verification/Spec2Isabelle.thy ===== *)
theory Spec2Isabelle
  imports Prelude Go_Strings Chat_Types Model_Resolver Outcome Circuit Telemetry Accounting Routing
    Runtime_Routing History Recorder Json Go_Codecs Go_Mime Chat_Json Completion_Cache Service Streaming Provider_Http
    Adapter_Stream OpenAI_Adapter Anthropic_Adapter Mock_Provider Stream_Idle Http_Api Admin_Auth Configuration
    Go_Time Admin_Query History_Reader Operations Admin_Api Bench_Scenario Bench_Metrics
    Bench_Run Bench_Report Observability Gateway_Server Postgres_Store Startup Load_Client Load_Run
    Commands
begin

text \<open>
  A verification library for RouteForge, an OpenAI-compatible gateway written in Go that forwards
  chat completions to several providers.

  \<^bold>\<open>The program.\<close> A client posts a chat request to the HTTP API (\<open>src/internal/httpapi\<close>). The
  handler decodes it and calls the gateway service (\<open>src/internal/gateway\<close>), which resolves the
  model for each provider, orders the candidates by a routing policy, asks the circuit breaker of
  each for admission, calls the adapters (\<open>src/internal/provider\<close>), falls back on the next
  candidate after failures that permit it, and keeps latency samples, token and cost totals, an
  optional completion cache and a request history that a background worker writes to a database.
  An operator surface (\<open>src/internal/adminapi\<close>) is protected by sessions, and the whole is built
  from environment variables by \<open>src/internal/config\<close> and \<open>src/cmd/routeforge\<close>.

  \<^bold>\<open>Conventions.\<close> Structs are records, interfaces and enums datatypes, Go strings lists of
  characters that stand for bytes. Unsigned 64-bit counters are \<open>64 word\<close>; times and durations are
  \<open>int\<close> nanoseconds. An error of Go is a value of \<open>go_error\<close>, and a fallible function returns a
  sum or an option. Code that holds a mutex is one step of the model. Clocks, random bytes, the
  HTTP clients, URL parsers, the database and the cache server are arguments of the definitions
  that use them. Slices that the code mutates while sharing them are copied where the code copies
  them. Every loop of the model is a total function: recursion is over lists of candidates, chunks,
  lines or events, or has a measure on the remaining input, so no fuel is used anywhere.

  \<^bold>\<open>Theories, in the order of use.\<close>

  \<^item> \<open>Prelude\<close> holds the collections of rewrite rules and facts on lists, words and maps that the
    components share. \<open>Go_Strings\<close> models the functions of package strings and of UTF-8 in use,
    \<open>Json\<close> the encoder and decoder of encoding/json (with the theorem that decoding inverts
    encoding), \<open>Go_Codecs\<close> base64, hexadecimal and SHA-256, and \<open>Go_Mime\<close> the media types of
    package mime: they are the parts of the standard library on which the code's behaviour rests.
  \<^item> \<open>Chat_Types\<close>, \<open>Chat_Json\<close>: \<open>openai/types.go\<close> and the error type of \<open>provider/provider.go\<close>,
    as data and in their wire form, with the round trips of both directions.
  \<^item> \<open>Model_Resolver\<close>, \<open>Outcome\<close>: \<open>model/resolver.go\<close> and \<open>gateway/outcome.go\<close>, the names a
    provider knows a model by and the meaning of each provider error for health and fallback.
  \<^item> \<open>Circuit\<close>: \<open>gateway/circuit.go\<close>. A step relation interleaves admissions and outcomes of many
    requests; its invariant shows that a half-open circuit admits one trial and that no provider is
    locked out. The locale \<open>admission_control\<close> states what the service relies on.
  \<^item> \<open>Telemetry\<close>: \<open>gateway/telemetry.go\<close>. Both ring buffers satisfy \<open>sample_window\<close>: they hold the
    latest samples in order. Counters are the summary of the history of events.
  \<^item> \<open>Accounting\<close>: \<open>accounting/pricing.go\<close> and \<open>tracker.go\<close>. Prices are parsed exactly, estimates
    are exact or absent, and totals are saturated sums over the recorded calls.
  \<^item> \<open>Routing\<close>, \<open>Runtime_Routing\<close>: \<open>gateway/routing.go\<close> and \<open>runtime_routing.go\<close>. Every policy
    satisfies \<open>candidate_order\<close>; the dominance order, the latency switch, the latency tolerance and
    exploration have exact characterisations, and published settings stay coherent with them.
  \<^item> \<open>History\<close>, \<open>Recorder\<close>: \<open>gateway/persistence.go\<close>, \<open>persistence/\<close> and its relational store. The
    locale \<open>attempt_log\<close> gives the protocol of attempts; the recorder is a step relation in which
    no record is lost or written twice.
  \<^item> \<open>Completion_Cache\<close>: \<open>cache/\<close> and \<open>gateway/cache.go\<close>, hits are complete and equal what was
    stored.
  \<^item> \<open>Service\<close>, \<open>Streaming\<close>: \<open>gateway/service.go\<close>, the whole of \<open>Complete\<close> and \<open>Stream\<close> over the
    components above. They show the fallback discipline, that nothing of a second provider follows a
    committed stream, that each call is accounted once and that the history is valid.
  \<^item> \<open>Provider_Http\<close>, \<open>Adapter_Stream\<close>, \<open>OpenAI_Adapter\<close>, \<open>Anthropic_Adapter\<close>, \<open>Mock_Provider\<close>:
    \<open>provider/\<close>. The reader of server-sent events inverts the writer and is bounded; the locale
    \<open>event_adapter\<close> carries the proof that reading call by call equals translating event by event,
    and both adapters interpret it.
  \<^item> \<open>Stream_Idle\<close>: \<open>provider/stream_idle.go\<close>. The goroutine, the readers, the owner and the clock are
    interleaved; the goroutine ends and cancels only idle streams.
  \<^item> \<open>Http_Api\<close>: \<open>httpapi/\<close>. Requests are screened, errors mapped by their kind alone, and a client
    that reads the event stream obtains exactly the emitted chunks.
  \<^item> \<open>Admin_Auth\<close>: \<open>adminapi/auth.go\<close>. Over all runs of the handler, access needs a session opened
    with the secret, and sessions and login attempts are bounded.
  \<^item> \<open>Go_Time\<close>, \<open>Admin_Query\<close>, \<open>History_Reader\<close>: the history of requests for operators
    (\<open>adminapi/query.go\<close>, \<open>handler.go\<close>, \<open>dto.go\<close>, \<open>persistence/reader.go\<close>, \<open>postgres/reader.go\<close>)
    over a model of the calendar and of RFC 3339. Cursors are canonical, and walking the pages gives
    every matching request once.
  \<^item> \<open>Operations\<close>, \<open>Admin_Api\<close>: \<open>gateway/operations.go\<close> and the rest of \<open>adminapi/\<close>. The view agrees
    with admission and routing, and settings change only on authority.
  \<^item> \<open>Bench_Scenario\<close>, \<open>Bench_Metrics\<close>, \<open>Bench_Run\<close>, \<open>Bench_Report\<close>: \<open>benchmark/\<close> and
    \<open>adminapi/benchmarks.go\<close>. Decoded scenarios are well formed and run under every policy; the
    results are the counts and the exact nearest ranks of what the simulated providers played, and a
    report is computed once.
  \<^item> \<open>Configuration\<close>: \<open>config/\<close>; every configuration that loads is within its limits and the service
    of \<open>cmd/routeforge/main.go\<close> can be built from it.
  \<^item> \<open>Observability\<close>: \<open>observability/metrics.go\<close>. The effects that \<open>Service\<close> and \<open>Streaming\<close> leave in
    their trace become measurements; the counters agree with the calls made and the usage accounted,
    and labels are bounded. Both kinds of request meet the locale \<open>reporting_request\<close>.
  \<^item> \<open>Gateway_Server\<close>: the routes of \<open>httpapi/handler.go\<close> and the inference server as \<open>main.go\<close> puts it
    together. A client reads from a stream exactly what one provider's attempt passed on.
  \<^item> \<open>Postgres_Store\<close>: \<open>persistence/postgres/store.go\<close>. Statements change a database that is an
    argument and may fail at each of them; migration is atomic.
  \<^item> \<open>Startup\<close>: \<open>observability/observability.go\<close>, the constructors of the servers and of the Redis
    store, and \<open>run\<close> of \<open>cmd/routeforge/main.go\<close> with its deferred calls. Everything taken is released
    on every way out, and nothing is served too early.
  \<^item> \<open>Load_Client\<close>, \<open>Load_Run\<close>: \<open>loadtest/\<close>. The rank computed in floating point is exact, the client's
    judgement of a stream is the server's, the workers of a phase are a step relation in which each
    request is sent once, and the report accounts for every sample.
  \<^item> \<open>Commands\<close>: \<open>cmd/routeforge-bench/main.go\<close> and \<open>cmd/routeforge-load/main.go\<close> over a model of package
    flag. Nothing is sent without the confirming flag, and a benchmark covers its selection.

  \<^bold>\<open>Hypotheses on foreign code.\<close> Lemmas about the wire need that the characters of the JSON encoder
  are those of valid UTF-8 where the code gets such text; the adapters' theorems hold for every
  answer of the HTTP client. A store is an arbitrary function for the safety of the cache, and one
  that returns what was last written for its round trip. A database is one whose statements have
  their documented effect or fail.

  \<^bold>\<open>Not modelled.\<close> The span calls of the tracing files are calls of a third-party library without
  effect on a request. The transports are settings of net/http, and the scripts of
  the migrations are SQL. Request ids come from a random source that is an argument. Floating-point
  quotients of the reports are kept as their two operands. The text
  that the offline commands print is not modelled.
\<close>

end
